(* ===== verification/Prelude.thy ===== *)
theory Prelude
  imports Complex_Main "HOL-Library.AList" "HOL-Library.Sublist"
begin

text \<open>
  Shared ground of the development: the exceptions of the program as values, the
  error monad of its pure validators (\<open>bindE\<close>, \<open>guardE\<close>), the state and
  error monad of its coroutines (\<open>bindP\<close>, \<open>catchP\<close>) with a Hoare calculus,
  and the interface of step systems, through which every state machine of the
  development lifts an invariant of one step to all reachable states.
\<close>

named_theorems result_simps \<open>inversion of the error monad\<close>
named_theorems hoare \<open>Hoare rules of the coroutine monad\<close>
named_theorems preserves_intros \<open>invariance rules of the coroutine monad\<close>

section \<open>Exceptions\<close>

text \<open>
  One constructor per exception class the program raises or handles. The texts of
  the exceptions are not modelled, only their class.
\<close>

datatype py_error =
    ContractError        \<comment> \<open>RecoveryContractError\<close>
  | NonExecutableError   \<comment> \<open>RecoveryNonExecutableError\<close>
  | LiveStateChanged     \<comment> \<open>RecoveryLiveStateChanged\<close>
  | DatabaseUnavailable  \<comment> \<open>RecoveryDatabaseUnavailable\<close>
  | NotSentError         \<comment> \<open>RobotCommandNotSentError\<close>
  | OutcomeUnknownError  \<comment> \<open>RobotCommandOutcomeUnknownError\<close>
  | RejectedError        \<comment> \<open>RobotCommandRejectedError\<close>
  | TimeoutErr           \<comment> \<open>TimeoutError\<close>
  | CancelledErr         \<comment> \<open>asyncio.CancelledError\<close>
  | ValueErr             \<comment> \<open>ValueError\<close>
  | TypeErr              \<comment> \<open>TypeError\<close>
  | OverflowErr          \<comment> \<open>OverflowError\<close>
  | AssertionErr         \<comment> \<open>AssertionError\<close>
  | RetrievalErr         \<comment> \<open>RetrievalError\<close>
  | RetrievalBudgetErr   \<comment> \<open>RetrievalBudgetError\<close>
  | UnknownMemoryErr     \<comment> \<open>UnknownMemoryError\<close>
  | MemoryConfigErr      \<comment> \<open>GitMemoryConfigurationError\<close>
  | ResolutionRowErr     \<comment> \<open>ResolutionRowError\<close>
  | MemoryDraftErr       \<comment> \<open>MemoryDraftError\<close>
  | MemoryFormatErr      \<comment> \<open>MemoryFormatError\<close>
  | GitOperationErr      \<comment> \<open>GitOperationError\<close>
  | ReasoningErr         \<comment> \<open>AgentReasoningError\<close>
  | ConnectionErr        \<comment> \<open>ConnectionError\<close>
  | OtherErr string      \<comment> \<open>any other class, by name\<close>

type_synonym 'a result = "py_error + 'a"

text \<open>
  \<open>except RecoveryContractError\<close> also catches its two subclasses.
\<close>

definition is_contract_error :: "py_error \<Rightarrow> bool" where
  "is_contract_error e \<longleftrightarrow>
     e = ContractError \<or> e = NonExecutableError \<or> e = LiveStateChanged"

text \<open>\<open>except ValueError\<close>, with the subclasses the program defines.\<close>

definition is_value_error :: "py_error \<Rightarrow> bool" where
  "is_value_error e \<longleftrightarrow> e = ValueErr \<or> is_contract_error e \<or> e = RetrievalErr \<or>
     e = RetrievalBudgetErr \<or> e = UnknownMemoryErr"

section \<open>The error monad of the validators\<close>

definition bindE :: "'a result \<Rightarrow> ('a \<Rightarrow> 'b result) \<Rightarrow> 'b result" where
  "bindE m f = (case m of Inl e \<Rightarrow> Inl e | Inr a \<Rightarrow> f a)"

definition guardE :: "bool \<Rightarrow> py_error \<Rightarrow> 'b result \<Rightarrow> 'b result" where
  "guardE b e k = (if b then k else Inl e)"

lemma bindE_simps [simp]:
  "bindE (Inl e) f = Inl e"
  "bindE (Inr a) f = f a"
  by (simp_all add: bindE_def)

lemma guardE_simps [simp]:
  "guardE True e k = k"
  "guardE False e k = Inl e"
  by (simp_all add: guardE_def)

lemma bindE_eq_Inr [result_simps]:
  "bindE m f = Inr b \<longleftrightarrow> (\<exists>a. m = Inr a \<and> f a = Inr b)"
  by (simp add: bindE_def split: sum.splits)

lemma bindE_eq_Inl:
  "bindE m f = Inl e \<longleftrightarrow> m = Inl e \<or> (\<exists>a. m = Inr a \<and> f a = Inl e)"
  by (auto simp add: bindE_def split: sum.splits)

lemma guardE_eq_Inr [result_simps]: "guardE b e k = Inr a \<longleftrightarrow> b \<and> k = Inr a"
  by (simp add: guardE_def)

lemma guardE_eq_Inl: "guardE b e k = Inl e' \<longleftrightarrow> (\<not> b \<and> e = e') \<or> (b \<and> k = Inl e')"
  by (simp add: guardE_def)

lemma bindE_cong [fundef_cong]:
  "m = m' \<Longrightarrow> (\<And>a. m' = Inr a \<Longrightarrow> f a = f' a) \<Longrightarrow> bindE m f = bindE m' f'"
  by (simp add: bindE_def split: sum.splits)

lemma guardE_cong [fundef_cong]:
  "b = b' \<Longrightarrow> e = e' \<Longrightarrow> (b' \<Longrightarrow> k = k') \<Longrightarrow> guardE b e k = guardE b' e' k'"
  by (simp add: guardE_def)

text \<open>A \<open>for\<close> loop whose body may raise, and one that collects results.\<close>

fun forE :: "('a \<Rightarrow> unit result) \<Rightarrow> 'a list \<Rightarrow> unit result" where
  "forE f [] = Inr ()"
| "forE f (x # xs) = bindE (f x) (\<lambda>_. forE f xs)"

fun mapE :: "('a \<Rightarrow> 'b result) \<Rightarrow> 'a list \<Rightarrow> 'b list result" where
  "mapE f [] = Inr []"
| "mapE f (x # xs) = bindE (f x) (\<lambda>y. bindE (mapE f xs) (\<lambda>ys. Inr (y # ys)))"

lemma forE_eq_Inr [result_simps]: "forE f xs = Inr u \<longleftrightarrow> (\<forall>x \<in> set xs. f x = Inr ())"
  by (induction xs) (auto simp: result_simps)

lemma mapE_eq_Inr [result_simps]:
  "mapE f xs = Inr ys \<longleftrightarrow> list_all2 (\<lambda>x y. f x = Inr y) xs ys"
  by (induction xs arbitrary: ys) (auto simp: result_simps list_all2_Cons1)

lemma list_all2_mem2: "list_all2 P xs ys \<Longrightarrow> y \<in> set ys \<Longrightarrow> \<exists>x \<in> set xs. P x y"
  by (induction rule: list_all2_induct) auto

lemma forE_cong [fundef_cong]:
  "xs = ys \<Longrightarrow> (\<And>x. x \<in> set ys \<Longrightarrow> f x = g x) \<Longrightarrow> forE f xs = forE g ys"
proof (induction xs arbitrary: ys)
  case (Cons x xs)
  then show ?case by (cases ys) (auto intro: bindE_cong)
qed simp

lemma mapE_cong [fundef_cong]:
  "xs = ys \<Longrightarrow> (\<And>x. x \<in> set ys \<Longrightarrow> f x = g x) \<Longrightarrow> mapE f xs = mapE g ys"
proof (induction xs arbitrary: ys)
  case (Cons x xs)
  then show ?case by (cases ys) (auto intro!: bindE_cong)
qed simp

text \<open>A loop that threads a value through a body that may raise.\<close>

fun foldE :: "('a \<Rightarrow> 'b \<Rightarrow> 'b result) \<Rightarrow> 'a list \<Rightarrow> 'b \<Rightarrow> 'b result" where
  "foldE f [] b = Inr b"
| "foldE f (x # xs) b = bindE (f x b) (foldE f xs)"

lemma foldE_cong [fundef_cong]:
  "xs = ys \<Longrightarrow> b = c \<Longrightarrow> (\<And>x b. x \<in> set ys \<Longrightarrow> f x b = g x b) \<Longrightarrow> foldE f xs b = foldE g ys c"
proof (induction xs arbitrary: ys b c)
  case (Cons x xs)
  then show ?case by (cases ys) (auto intro!: bindE_cong)
qed simp

lemma foldE_inv:
  "foldE f xs b = Inr c \<Longrightarrow> P b \<Longrightarrow>
   (\<And>x b c. x \<in> set xs \<Longrightarrow> f x b = Inr c \<Longrightarrow> P b \<Longrightarrow> P c) \<Longrightarrow> P c"
  by (induction xs arbitrary: b) (auto simp: bindE_eq_Inr)

section \<open>The coroutine monad\<close>

text \<open>
  A coroutine takes the state of the service and of its environment and returns a
  value or an exception together with the state it leaves behind: an exception does
  not undo the effects before it.
\<close>

type_synonym ('s, 'a) prog = "'s \<Rightarrow> 'a result \<times> 's"

definition returnP :: "'a \<Rightarrow> ('s, 'a) prog" where
  "returnP a = (\<lambda>s. (Inr a, s))"

definition throwP :: "py_error \<Rightarrow> ('s, 'a) prog" where
  "throwP e = (\<lambda>s. (Inl e, s))"

definition liftP :: "'a result \<Rightarrow> ('s, 'a) prog" where
  "liftP r = (\<lambda>s. (r, s))"

definition getsP :: "('s \<Rightarrow> 'a) \<Rightarrow> ('s, 'a) prog" where
  "getsP f = (\<lambda>s. (Inr (f s), s))"

definition modifyP :: "('s \<Rightarrow> 's) \<Rightarrow> ('s, unit) prog" where
  "modifyP f = (\<lambda>s. (Inr (), f s))"

definition bindP :: "('s, 'a) prog \<Rightarrow> ('a \<Rightarrow> ('s, 'b) prog) \<Rightarrow> ('s, 'b) prog" where
  "bindP m f = (\<lambda>s. case m s of (Inl e, t) \<Rightarrow> (Inl e, t) | (Inr a, t) \<Rightarrow> f a t)"

definition seqP :: "('s, 'a) prog \<Rightarrow> ('s, 'b) prog \<Rightarrow> ('s, 'b) prog" where
  "seqP m k = bindP m (\<lambda>_. k)"

definition catchP :: "('s, 'a) prog \<Rightarrow> (py_error \<Rightarrow> ('s, 'a) prog) \<Rightarrow> ('s, 'a) prog" where
  "catchP m h = (\<lambda>s. case m s of (Inl e, t) \<Rightarrow> h e t | (Inr a, t) \<Rightarrow> (Inr a, t))"

definition finallyP :: "('s, 'a) prog \<Rightarrow> ('s \<Rightarrow> 's) \<Rightarrow> ('s, 'a) prog" where
  "finallyP m f = (\<lambda>s. case m s of (r, t) \<Rightarrow> (r, f t))"

lemmas prog_defs = returnP_def throwP_def liftP_def getsP_def modifyP_def bindP_def
  seqP_def catchP_def finallyP_def

text \<open>Inversion of a coroutine that returned.\<close>

lemma returned_bind:
  "bindP m f s = (Inr b, t) \<longleftrightarrow> (\<exists>a s'. m s = (Inr a, s') \<and> f a s' = (Inr b, t))"
  by (auto simp: bindP_def split: prod.splits sum.splits)

lemma returned_simple:
  "returnP a s = (Inr b, t) \<longleftrightarrow> b = a \<and> t = s"
  "throwP e s = (Inr b, t) \<longleftrightarrow> False"
  "liftP r s = (Inr b, t) \<longleftrightarrow> r = Inr b \<and> t = s"
  "getsP g s = (Inr b, t) \<longleftrightarrow> b = g s \<and> t = s"
  "modifyP h s = (Inr u, t) \<longleftrightarrow> t = h s"
  by (auto simp: returnP_def throwP_def liftP_def getsP_def modifyP_def)

lemma returned_seq:
  "seqP m k s = (Inr b, t) \<longleftrightarrow> (\<exists>a s'. m s = (Inr a, s') \<and> k s' = (Inr b, t))"
  unfolding seqP_def by (rule returned_bind)

lemmas returned = returned_bind returned_seq returned_simple

subsection \<open>Hoare triples\<close>

text \<open>\<open>Q\<close> is the postcondition of a return, \<open>E\<close> that of a raise.\<close>

definition triple ::
  "('s \<Rightarrow> bool) \<Rightarrow> ('s, 'a) prog \<Rightarrow> ('a \<Rightarrow> 's \<Rightarrow> bool) \<Rightarrow> (py_error \<Rightarrow> 's \<Rightarrow> bool) \<Rightarrow> bool" where
  "triple P m Q E \<longleftrightarrow>
     (\<forall>s. P s \<longrightarrow> (case m s of (Inl e, t) \<Rightarrow> E e t | (Inr a, t) \<Rightarrow> Q a t))"

lemma tripleI:
  assumes "\<And>s e t. P s \<Longrightarrow> m s = (Inl e, t) \<Longrightarrow> E e t"
    and "\<And>s a t. P s \<Longrightarrow> m s = (Inr a, t) \<Longrightarrow> Q a t"
  shows "triple P m Q E"
  using assms by (auto simp: triple_def split: prod.splits sum.splits)

lemma triple_InrD: "triple P m Q E \<Longrightarrow> P s \<Longrightarrow> m s = (Inr a, t) \<Longrightarrow> Q a t"
  by (auto simp: triple_def split: prod.splits sum.splits dest: spec [of _ s])

lemma triple_InlD: "triple P m Q E \<Longrightarrow> P s \<Longrightarrow> m s = (Inl e, t) \<Longrightarrow> E e t"
  by (auto simp: triple_def split: prod.splits sum.splits dest: spec [of _ s])

lemma triple_weaken:
  assumes "triple P m Q E" and "\<And>s. P' s \<Longrightarrow> P s"
    and "\<And>a s. Q a s \<Longrightarrow> Q' a s" and "\<And>e s. E e s \<Longrightarrow> E' e s"
  shows "triple P' m Q' E'"
  using assms by (auto simp: triple_def split: prod.splits sum.splits) (metis surj_pair)+

lemma triple_return [hoare]: "triple (Q a) (returnP a) Q E"
  by (simp add: triple_def returnP_def)

lemma triple_throw [hoare]: "triple (E e) (throwP e) Q E"
  by (simp add: triple_def throwP_def)

lemma triple_lift [hoare]:
  "triple (\<lambda>s. (\<forall>e. r = Inl e \<longrightarrow> E e s) \<and> (\<forall>a. r = Inr a \<longrightarrow> Q a s)) (liftP r) Q E"
  by (auto simp: triple_def liftP_def split: sum.splits)

lemma triple_gets [hoare]: "triple (\<lambda>s. Q (f s) s) (getsP f) Q E"
  by (simp add: triple_def getsP_def)

lemma triple_modify [hoare]: "triple (\<lambda>s. Q () (f s)) (modifyP f) Q E"
  by (simp add: triple_def modifyP_def)

lemma triple_bind:
  assumes "triple P m R E" and "\<And>a. triple (R a) (f a) Q E"
  shows "triple P (bindP m f) Q E"
  using assms by (fastforce simp: triple_def bindP_def split: prod.splits sum.splits)

lemma triple_seq:
  assumes "triple P m (\<lambda>_. R) E" and "triple R k Q E"
  shows "triple P (seqP m k) Q E"
  unfolding seqP_def using assms by (rule triple_bind)

lemma triple_catch:
  assumes "triple P m Q F" and "\<And>e. triple (F e) (h e) Q E"
  shows "triple P (catchP m h) Q E"
  using assms by (fastforce simp: triple_def catchP_def split: prod.splits sum.splits)

lemma triple_finally:
  assumes "triple P m (\<lambda>a s. Q a (f s)) (\<lambda>e s. E e (f s))"
  shows "triple P (finallyP m f) Q E"
  using assms by (fastforce simp: triple_def finallyP_def split: prod.splits sum.splits)

subsection \<open>Invariance\<close>

text \<open>A coroutine preserves \<open>P\<close> when \<open>P\<close> survives its return and its raise alike.\<close>

definition preserves :: "('s \<Rightarrow> bool) \<Rightarrow> ('s, 'a) prog \<Rightarrow> bool" where
  "preserves P m \<longleftrightarrow> (\<forall>s. P s \<longrightarrow> P (snd (m s)))"

lemma preservesD: "preserves P m \<Longrightarrow> P s \<Longrightarrow> m s = (r, t) \<Longrightarrow> P t"
  by (force simp: preserves_def)

lemma preserves_triple: "preserves P m \<longleftrightarrow> triple P m (\<lambda>_. P) (\<lambda>_. P)"
  by (auto simp: preserves_def triple_def split: prod.splits sum.splits)
    (metis old.sum.exhaust snd_conv surj_pair)+

lemma preserves_return [preserves_intros]: "preserves P (returnP a)"
  by (simp add: preserves_def returnP_def)

lemma preserves_throw [preserves_intros]: "preserves P (throwP e)"
  by (simp add: preserves_def throwP_def)

lemma preserves_lift [preserves_intros]: "preserves P (liftP r)"
  by (simp add: preserves_def liftP_def)

lemma preserves_gets [preserves_intros]: "preserves P (getsP f)"
  by (simp add: preserves_def getsP_def)

lemma preserves_modify [preserves_intros]: "(\<And>s. P s \<Longrightarrow> P (f s)) \<Longrightarrow> preserves P (modifyP f)"
  by (simp add: preserves_def modifyP_def)

lemma preserves_bind [preserves_intros]:
  "preserves P m \<Longrightarrow> (\<And>a. preserves P (f a)) \<Longrightarrow> preserves P (bindP m f)"
  unfolding preserves_triple by (rule triple_bind)

lemma preserves_seq [preserves_intros]:
  "preserves P m \<Longrightarrow> preserves P k \<Longrightarrow> preserves P (seqP m k)"
  unfolding seqP_def by (rule preserves_bind)

lemma preserves_catch [preserves_intros]:
  "preserves P m \<Longrightarrow> (\<And>e. preserves P (h e)) \<Longrightarrow> preserves P (catchP m h)"
  unfolding preserves_triple by (rule triple_catch)

lemma preserves_finally [preserves_intros]:
  "preserves P m \<Longrightarrow> (\<And>s. P s \<Longrightarrow> P (f s)) \<Longrightarrow> preserves P (finallyP m f)"
  by (auto simp: preserves_def finallyP_def split: prod.splits)

lemma preserves_if [preserves_intros]:
  "(b \<Longrightarrow> preserves P m) \<Longrightarrow> (\<not> b \<Longrightarrow> preserves P k) \<Longrightarrow> preserves P (if b then m else k)"
  by simp

section \<open>Step systems\<close>

text \<open>
  The interface of a state machine: its initial states, its steps, and an invariant
  that holds initially and survives every step. Every machine of the development is an
  interpretation of it.
\<close>

locale step_system =
  fixes init :: "'s \<Rightarrow> bool"
    and step :: "'s \<Rightarrow> 's \<Rightarrow> bool"
    and inv :: "'s \<Rightarrow> bool"
  assumes inv_init: "init s \<Longrightarrow> inv s"
    and inv_step: "inv s \<Longrightarrow> step s t \<Longrightarrow> inv t"
begin

lemma inv_steps: "step\<^sup>*\<^sup>* s t \<Longrightarrow> inv s \<Longrightarrow> inv t"
  by (induction rule: rtranclp_induct) (auto intro: inv_step)

lemma inv_reachable: "init s \<Longrightarrow> step\<^sup>*\<^sup>* s t \<Longrightarrow> inv t"
  by (blast intro: inv_steps inv_init)

end

section \<open>Evaluation\<close>

text \<open>The simplifier evaluates the argument once, before the facts about it.\<close>

definition holds_of :: "'a \<Rightarrow> ('a \<Rightarrow> bool) \<Rightarrow> bool" where
  "holds_of x P \<longleftrightarrow> P x"

end
