(* ===== verification/Py_Float.thy ===== *)
theory Py_Float
  imports Prelude
begin

text \<open>
  Python floats. A finite double is the rational it denotes; the two infinities and NaN
  are constructors of their own, because \<open>float()\<close>, \<open>json.loads\<close> and the settings of
  the service can produce them. \<open>fround\<close> is IEEE rounding to the nearest double, ties to
  even; \<open>float_of_int\<close> is \<open>float(i)\<close>, which raises OverflowError beyond the range.
  The sign of zero is not modelled. The lemmas show that \<open>binade\<close> is the binary
  exponent and that rounding is monotone.
\<close>

datatype pyfloat = FFin rat | FInf | FNegInf | FNaN

section \<open>Rounding\<close>

definition pow2 :: "int \<Rightarrow> rat" where
  "pow2 e = (if 0 \<le> e then 2 ^ nat e else 1 / 2 ^ nat (- e))"

function bit_len :: "int \<Rightarrow> int" where
  "bit_len n = (if n \<le> 0 then 0 else 1 + bit_len (n div 2))"
  by pat_completeness auto
termination
  by (relation "measure nat") auto

declare bit_len.simps [simp del]

definition binade :: "rat \<Rightarrow> int" where
  "binade x = (let (a, b) = quotient_of x; k = bit_len a - bit_len b
     in if pow2 k \<le> x then k else k - 1)"

definition round_even :: "rat \<Rightarrow> int" where
  "round_even x = (let q = \<lfloor>x\<rfloor>; r = x - of_int q
     in if r < 1 / 2 \<or> (r = 1 / 2 \<and> even q) then q else q + 1)"

definition ulp :: "rat \<Rightarrow> rat" where
  "ulp x = pow2 (max (binade x - 52) (- 1074))"

definition round_pos :: "rat \<Rightarrow> rat" where
  "round_pos x = (if x \<le> 0 then 0 else of_int (round_even (x / ulp x)) * ulp x)"

definition fround :: "rat \<Rightarrow> pyfloat" where
  "fround x =
     (if round_pos \<bar>x\<bar> \<ge> pow2 1024 then (if 0 < x then FInf else FNegInf)
      else FFin (sgn x * round_pos \<bar>x\<bar>))"

definition float_of_int :: "int \<Rightarrow> pyfloat result" where
  "float_of_int i = (case fround (of_int i) of FFin r \<Rightarrow> Inr (FFin r) | _ \<Rightarrow> Inl OverflowErr)"

section \<open>Comparison and arithmetic\<close>

fun fle :: "pyfloat \<Rightarrow> pyfloat \<Rightarrow> bool" where
  "fle FNaN _ = False"
| "fle _ FNaN = False"
| "fle FNegInf _ = True"
| "fle _ FInf = True"
| "fle FInf _ = False"
| "fle _ FNegInf = False"
| "fle (FFin x) (FFin y) = (x \<le> y)"

definition feq :: "pyfloat \<Rightarrow> pyfloat \<Rightarrow> bool" where
  "feq x y \<longleftrightarrow> fle x y \<and> fle y x"

definition flt :: "pyfloat \<Rightarrow> pyfloat \<Rightarrow> bool" where
  "flt x y \<longleftrightarrow> fle x y \<and> \<not> fle y x"

definition is_finite :: "pyfloat \<Rightarrow> bool" where
  "is_finite x \<longleftrightarrow> (case x of FFin _ \<Rightarrow> True | _ \<Rightarrow> False)"

fun fadd :: "pyfloat \<Rightarrow> pyfloat \<Rightarrow> pyfloat" where
  "fadd (FFin x) (FFin y) = fround (x + y)"
| "fadd FNaN _ = FNaN"
| "fadd _ FNaN = FNaN"
| "fadd FInf FNegInf = FNaN"
| "fadd FNegInf FInf = FNaN"
| "fadd FInf _ = FInf"
| "fadd _ FInf = FInf"
| "fadd FNegInf _ = FNegInf"
| "fadd _ FNegInf = FNegInf"

text \<open>\<open>i * x\<close> for an int \<open>i\<close> greater than zero that is itself a double.\<close>

fun fscale :: "nat \<Rightarrow> pyfloat \<Rightarrow> pyfloat" where
  "fscale i (FFin x) = fround (of_nat i * x)"
| "fscale i FNaN = FNaN"
| "fscale i FInf = (if i = 0 then FNaN else FInf)"
| "fscale i FNegInf = (if i = 0 then FNaN else FNegInf)"

text \<open>\<open>math.ceil\<close> raises ValueError on NaN and OverflowError on an infinity.\<close>

fun fceil :: "pyfloat \<Rightarrow> int result" where
  "fceil (FFin x) = Inr \<lceil>x\<rceil>"
| "fceil FNaN = Inl ValueErr"
| "fceil _ = Inl OverflowErr"

lemma feq_simps [simp]:
  "feq (FFin x) (FFin y) \<longleftrightarrow> x = y"
  "feq FNaN v \<longleftrightarrow> False"
  "feq u FNaN \<longleftrightarrow> False"
  by (auto simp: feq_def)

lemma flt_FFin [simp]: "flt (FFin x) (FFin y) \<longleftrightarrow> x < y"
  by (auto simp: flt_def)

lemma is_finite_simps [simp]:
  "is_finite (FFin x)" "\<not> is_finite FInf" "\<not> is_finite FNegInf" "\<not> is_finite FNaN"
  by (simp_all add: is_finite_def)

section \<open>Rounding is monotone\<close>

lemma pow2_pos [simp]: "0 < pow2 e"
  by (simp add: pow2_def)

lemma pow2_add: "pow2 (a + b) = pow2 a * pow2 b"
proof -
  have powi: "pow2 e = 2 powi e" for e
    by (simp add: pow2_def power_int_def inverse_eq_divide power_one_over)
  show ?thesis unfolding powi by (rule power_int_add) simp
qed

lemma pow2_1 [simp]: "pow2 1 = 2"
  by (simp add: pow2_def)

lemma pow2_0 [simp]: "pow2 0 = 1"
  by (simp add: pow2_def)

lemma pow2_diff: "pow2 (a - b) = pow2 a / pow2 b"
  using pow2_add [of "a - b" b] pow2_pos [of b] by (simp add: eq_divide_eq less_imp_neq [symmetric])

lemma pow2_mono: "a \<le> b \<Longrightarrow> pow2 a \<le> pow2 b"
proof -
  assume "a \<le> b"
  then have "1 \<le> pow2 (b - a)" by (simp add: pow2_def)
  then show ?thesis using pow2_add [of a "b - a"] pow2_pos [of a] by simp
qed

lemma pow2_less_iff: "pow2 a < pow2 b \<longleftrightarrow> a < b"
proof
  assume "pow2 a < pow2 b"
  then show "a < b" using pow2_mono [of b a] by force
next
  assume "a < b"
  then have "pow2 a * 2 \<le> pow2 b" using pow2_mono [of "a + 1" b] by (simp add: pow2_add)
  then show "pow2 a < pow2 b" using pow2_pos [of a] by linarith
qed

lemma bit_len_bounds: "0 < n \<Longrightarrow> pow2 (bit_len n - 1) \<le> of_int n \<and> of_int n < pow2 (bit_len n)"
proof (induction n rule: bit_len.induct)
  case (1 n)
  show ?case
  proof (cases "n div 2 = 0")
    case True
    with "1.prems" have "n = 1" by simp
    moreover have "bit_len 1 = 1"
      by (simp add: bit_len.simps [of 1] bit_len.simps [of 0])
    ultimately show ?thesis by simp
  next
    case False
    with "1.prems" have half: "0 < n div 2" by simp
    then have IH: "pow2 (bit_len (n div 2) - 1) \<le> of_int (n div 2)"
      "of_int (n div 2) < pow2 (bit_len (n div 2))"
      using "1.IH" "1.prems" by auto
    have len: "bit_len n = bit_len (n div 2) + 1"
      using "1.prems" by (simp add: bit_len.simps [of n])
    have lo: "(of_int (2 * (n div 2)) :: rat) \<le> of_int n" by (simp only: of_int_le_iff)
    have "0 < bit_len (n div 2)"
    proof (rule ccontr)
      assume "\<not> ?thesis"
      then have "pow2 (bit_len (n div 2)) \<le> 1" using pow2_mono [of _ 0] by fastforce
      with IH(2) have "(of_int (n div 2) :: rat) < of_int 1" by simp
      with half show False by (simp only: of_int_less_iff)
    qed
    then have pw: "pow2 (bit_len (n div 2)) = of_int (2 ^ nat (bit_len (n div 2)))"
      by (simp add: pow2_def)
    with IH(2) have "n div 2 < 2 ^ nat (bit_len (n div 2))" by (simp only: of_int_less_iff)
    then have "n < 2 * 2 ^ nat (bit_len (n div 2))" by linarith
    then have "(of_int n :: rat) < of_int (2 * 2 ^ nat (bit_len (n div 2)))"
      by (simp only: of_int_less_iff)
    then have hi: "of_int n < 2 * pow2 (bit_len (n div 2))" using pw by simp
    have "pow2 (bit_len n - 1) = 2 * pow2 (bit_len (n div 2) - 1)"
      using pow2_add [of "bit_len (n div 2) - 1" 1] by (simp add: len)
    moreover have "pow2 (bit_len n) = 2 * pow2 (bit_len (n div 2))"
      by (simp add: len pow2_add)
    ultimately show ?thesis using IH(1) lo hi by simp
  qed
qed

lemma binade_bounds:
  assumes "0 < x" shows "pow2 (binade x) \<le> x" and "x < pow2 (binade x + 1)"
proof -
  obtain a b where q: "quotient_of x = (a, b)" by force
  then have b: "0 < b" and x: "x = of_int a / of_int b"
    by (auto simp: quotient_of_denom_pos quotient_of_div)
  with assms have a: "0 < a" by (simp add: zero_less_divide_iff)
  have A: "pow2 (bit_len a - 1) \<le> of_int a" "of_int a < pow2 (bit_len a)"
    using bit_len_bounds [of a] a by auto
  have B: "pow2 (bit_len b - 1) \<le> of_int b" "of_int b < pow2 (bit_len b)"
    using bit_len_bounds [of b] b by auto
  define k where "k = bit_len a - bit_len b"
  have bpos: "(0::rat) < of_int b" using b by simp
  have "pow2 (k - 1) * of_int b \<le> pow2 (k - 1) * pow2 (bit_len b)"
    using B(2) by simp
  also have "\<dots> = pow2 (bit_len a - 1)" by (simp add: k_def flip: pow2_add)
  finally have lo: "pow2 (k - 1) \<le> x"
    using A(1) bpos by (simp add: x pos_le_divide_eq)
  have "of_int a < pow2 (k + 1) * pow2 (bit_len b - 1)"
    using A(2) by (simp add: k_def flip: pow2_add)
  also have "\<dots> \<le> pow2 (k + 1) * of_int b" using B(1) by simp
  finally have hi: "x < pow2 (k + 1)"
    using bpos by (simp add: x pos_divide_less_eq)
  have "binade x = (if pow2 k \<le> x then k else k - 1)"
    by (simp add: binade_def q k_def)
  then show "pow2 (binade x) \<le> x" "x < pow2 (binade x + 1)"
    using lo hi by (auto simp: algebra_simps)
qed

lemma round_even_near: "of_int (round_even x) - 1 / 2 \<le> x" "x \<le> of_int (round_even x) + 1 / 2"
  unfolding round_even_def Let_def by (auto simp: field_simps) linarith+

lemma round_even_int [simp]: "round_even (of_int n) = n"
  by (simp add: round_even_def)

lemma round_even_mono: "x \<le> y \<Longrightarrow> round_even x \<le> round_even y"
proof -
  assume le: "x \<le> y"
  then have fl: "\<lfloor>x\<rfloor> \<le> \<lfloor>y\<rfloor>" by (rule floor_mono)
  show ?thesis
  proof (cases "\<lfloor>x\<rfloor> = \<lfloor>y\<rfloor>")
    case True
    with le show ?thesis by (auto simp: round_even_def Let_def)
  next
    case False
    with fl have "\<lfloor>x\<rfloor> + 1 \<le> \<lfloor>y\<rfloor>" by simp
    moreover have "round_even x \<le> \<lfloor>x\<rfloor> + 1" "\<lfloor>y\<rfloor> \<le> round_even y"
      by (auto simp: round_even_def Let_def)
    ultimately show ?thesis by linarith
  qed
qed

lemma binade_mono: "0 < x \<Longrightarrow> x \<le> y \<Longrightarrow> binade x \<le> binade y"
proof -
  assume "0 < x" "x \<le> y"
  then have "pow2 (binade x) < pow2 (binade y + 1)"
    using binade_bounds [of x] binade_bounds [of y] by linarith
  then show ?thesis by (simp add: pow2_less_iff)
qed

lemma pow2_of_int: "0 \<le> e \<Longrightarrow> pow2 e = of_int (2 ^ nat e)"
  by (simp add: pow2_def)

lemma ulp_pos [simp]: "0 < ulp x"
  by (simp add: ulp_def)

lemma round_pos_grid:
  \<comment> \<open>a power of two that is a whole number of units is a bound rounding does not cross\<close>
  assumes "0 < x" and "max (binade x - 52) (- 1074) \<le> e"
  shows "x \<le> pow2 e \<Longrightarrow> round_pos x \<le> pow2 e" and "pow2 e \<le> x \<Longrightarrow> pow2 e \<le> round_pos x"
proof -
  define d where "d = e - max (binade x - 52) (- 1074)"
  with assms(2) have "0 \<le> d" by simp
  have "pow2 e = pow2 d * ulp x" by (simp add: ulp_def d_def flip: pow2_add)
  then have pe: "pow2 e = of_int (2 ^ nat d) * ulp x" using \<open>0 \<le> d\<close> by (simp only: pow2_of_int)
  have up: "0 < ulp x" by simp
  show "round_pos x \<le> pow2 e" if "x \<le> pow2 e"
  proof -
    from that have "x / ulp x \<le> of_int (2 ^ nat d)"
      unfolding pe using up by (simp only: pos_divide_le_eq)
    then have "round_even (x / ulp x) \<le> 2 ^ nat d"
      by (metis round_even_mono round_even_int)
    then have "(of_int (round_even (x / ulp x)) :: rat) \<le> of_int (2 ^ nat d)"
      by (simp only: of_int_le_iff)
    then have "of_int (round_even (x / ulp x)) * ulp x \<le> of_int (2 ^ nat d) * ulp x"
      by (rule mult_right_mono) (rule less_imp_le [OF up])
    then show ?thesis using assms(1) unfolding pe round_pos_def by simp
  qed
  show "pow2 e \<le> round_pos x" if "pow2 e \<le> x"
  proof -
    from that have "of_int (2 ^ nat d) \<le> x / ulp x"
      unfolding pe using up by (simp only: pos_le_divide_eq)
    then have "2 ^ nat d \<le> round_even (x / ulp x)"
      by (metis round_even_mono round_even_int)
    then have "of_int (2 ^ nat d) \<le> (of_int (round_even (x / ulp x)) :: rat)"
      by (simp only: of_int_le_iff)
    then have "of_int (2 ^ nat d) * ulp x \<le> of_int (round_even (x / ulp x)) * ulp x"
      by (rule mult_right_mono) (rule less_imp_le [OF up])
    then show ?thesis using assms(1) unfolding pe round_pos_def by simp
  qed
qed

lemma round_pos_mono:
  assumes "x \<le> y" shows "round_pos x \<le> round_pos y"
proof (cases "0 < x")
  case False
  have "0 \<le> round_even (y / ulp y)" if "0 < y"
  proof -
    have "0 \<le> y / ulp y" using that ulp_pos [of y] by (simp add: less_imp_le)
    from round_even_mono [OF this] show ?thesis using round_even_int [of 0] by simp
  qed
  with False show ?thesis
    using mult_nonneg_nonneg [OF _ less_imp_le [OF ulp_pos [of y]]] by (simp add: round_pos_def)
next
  case True
  with assms have y: "0 < y" by simp
  have b: "binade x \<le> binade y" using True assms by (rule binade_mono)
  show ?thesis
  proof (cases "ulp x = ulp y")
    case same: True
    have "x / ulp y \<le> y / ulp y" using assms by (rule divide_right_mono) (rule less_imp_le [OF ulp_pos])
    then have "(of_int (round_even (x / ulp y)) :: rat) \<le> of_int (round_even (y / ulp y))"
      by (simp add: round_even_mono)
    with True y same show ?thesis by (simp add: round_pos_def mult_right_mono)
  next
    case False
    then have "binade x \<noteq> binade y" by (auto simp: ulp_def)
    with b have lt: "binade x < binade y" by simp
    from lt False have sub: "- 1074 < binade y - 52"
      by (auto simp: ulp_def max_def split: if_splits)
    have "round_pos x \<le> pow2 (binade y)"
    proof (rule round_pos_grid(1) [OF True])
      show "max (binade x - 52) (- 1074) \<le> binade y" using lt sub by auto
      show "x \<le> pow2 (binade y)"
        using binade_bounds(2) [OF True] pow2_mono [of "binade x + 1" "binade y"] lt by simp
    qed
    moreover have "pow2 (binade y) \<le> round_pos y"
      by (rule round_pos_grid(2) [OF y]) (use sub binade_bounds(1) [OF y] in auto)
    ultimately show ?thesis by linarith
  qed
qed

lemma round_pos_nonneg [simp]: "0 \<le> round_pos x"
  using round_pos_mono [of 0 x] by (cases "x \<le> 0") (auto simp: round_pos_def)

lemma fround_mono_nonneg:
  assumes "0 \<le> x" "x \<le> y" shows "fle (fround x) (fround y)"
proof -
  have "round_pos x \<le> round_pos y" using assms(2) by (rule round_pos_mono)
  with assms show ?thesis
    by (cases "x = 0"; cases "y = 0") (auto simp: fround_def sgn_if round_pos_def)
qed

lemma fround_nonneg: "0 \<le> x \<Longrightarrow> fround x = FFin r \<Longrightarrow> 0 \<le> r"
  by (auto simp: fround_def sgn_if split: if_splits)

text \<open>Integers of at most 53 bits are doubles.\<close>

lemma round_pos_exact:
  assumes "0 < x" "x = of_int n * ulp x" shows "round_pos x = x"
proof -
  have "x / ulp x = of_int n" using assms(2) ulp_pos [of x] by (metis less_numeral_extra(3) nonzero_mult_div_cancel_right)
  then show ?thesis using assms by (simp add: round_pos_def)
qed

lemma round_pos_small_int:
  assumes "0 < n" "n \<le> 2 ^ 53" shows "round_pos (of_int n) = of_int n"
proof (cases "n = 2 ^ 53")
  case True
  have "(of_int n :: rat) = pow2 53" using True by (simp add: pow2_def)
  moreover have "round_pos (pow2 53) \<le> pow2 53" "pow2 53 \<le> round_pos (pow2 53)"
  proof -
    have "binade (pow2 53) < 54"
      using binade_bounds(1) [of "pow2 53"] pow2_less_iff [of "binade (pow2 53)" 54]
        pow2_less_iff [of 53 54] by simp
    then have "max (binade (pow2 53) - 52) (- 1074) \<le> 53" by simp
    then show "round_pos (pow2 53) \<le> pow2 53" "pow2 53 \<le> round_pos (pow2 53)"
      using round_pos_grid [of "pow2 53" 53] by auto
  qed
  ultimately show ?thesis by simp
next
  case False
  let ?x = "of_int n :: rat"
  have x: "0 < ?x" using assms by simp
  have "?x < pow2 53" using assms False by (simp add: pow2_def flip: of_int_less_iff)
  then have "binade ?x < 53"
    using binade_bounds(1) [OF x] pow2_less_iff [of "binade ?x" 53] by simp
  then have e: "max (binade ?x - 52) (- 1074) \<le> 0" by simp
  let ?e = "max (binade ?x - 52) (- 1074)"
  have "ulp ?x = 1 / of_int (2 ^ nat (- ?e))"
    using e by (auto simp: ulp_def pow2_def)
  then have "?x = of_int (n * 2 ^ nat (- ?e)) * ulp ?x" by simp
  then show ?thesis by (rule round_pos_exact [OF x])
qed

lemma fround_small_int: "\<bar>n\<bar> \<le> 2 ^ 53 \<Longrightarrow> fround (of_int n) = FFin (of_int n)"
proof -
  assume n: "\<bar>n\<bar> \<le> 2 ^ 53"
  have rp: "round_pos \<bar>of_int n\<bar> = \<bar>of_int n\<bar>"
  proof (cases "n = 0")
    case False
    then have "round_pos (of_int \<bar>n\<bar>) = of_int \<bar>n\<bar>" using n by (intro round_pos_small_int) auto
    then show ?thesis by simp
  qed (simp add: round_pos_def)
  have "(of_int \<bar>n\<bar> :: rat) \<le> pow2 53" using n by (simp add: pow2_def flip: of_int_le_iff)
  moreover have "pow2 53 < pow2 1024" by (simp add: pow2_less_iff)
  ultimately have "\<not> pow2 1024 \<le> \<bar>of_int n\<bar>" by simp
  with rp show "fround (of_int n) = FFin (of_int n)"
    by (simp add: fround_def sgn_mult_abs)
qed

lemma float_of_small_int: "\<bar>n\<bar> \<le> 2 ^ 53 \<Longrightarrow> float_of_int n = Inr (FFin (of_int n))"
  by (simp add: float_of_int_def fround_small_int)

end
