(* ===== verification/Py_Value.thy ===== *)
theory Py_Value
  imports Py_Float
begin

text \<open>
  The Python values that cross the program's boundaries: decoded JSON (rows of Supabase,
  frames of the robot, memory documents) and the tuples made of it. Dictionaries keep
  their insertion order and have text keys, as decoded JSON objects do. A string is a
  list of characters, read as Unicode code points below 256; case mapping and
  whitespace are Python's on that range (the micro sign and y with diaeresis, whose case
  variants lie outside it, are left alone).
\<close>

section \<open>Values\<close>

datatype pyval =
    PNone
  | PBool bool
  | PInt int
  | PFloat pyfloat
  | PStr string
  | PList "pyval list"
  | PTuple "pyval list"
  | PDict "(string \<times> pyval) list"

type_synonym pydict = "(string \<times> pyval) list"

text \<open>\<open>d.get(k)\<close>, \<open>k in d\<close>, \<open>d[k] = v\<close> and the key view.\<close>

definition dget :: "pydict \<Rightarrow> string \<Rightarrow> pyval" where
  "dget d k = (case map_of d k of None \<Rightarrow> PNone | Some v \<Rightarrow> v)"

definition has_key :: "pydict \<Rightarrow> string \<Rightarrow> bool" where
  "has_key d k \<longleftrightarrow> map_of d k \<noteq> None"

definition dset :: "pydict \<Rightarrow> string \<Rightarrow> pyval \<Rightarrow> pydict" where
  "dset d k v = AList.update k v d"

definition dkeys :: "pydict \<Rightarrow> string list" where
  "dkeys d = map fst d"

definition is_dict :: "pyval \<Rightarrow> bool" where
  "is_dict v \<longleftrightarrow> (case v of PDict _ \<Rightarrow> True | _ \<Rightarrow> False)"

definition is_str :: "pyval \<Rightarrow> bool" where
  "is_str v \<longleftrightarrow> (case v of PStr _ \<Rightarrow> True | _ \<Rightarrow> False)"

text \<open>\<open>v is True\<close>, and the value of \<open>v\<close> when it is a mapping.\<close>

definition is_true :: "pyval \<Rightarrow> bool" where
  "is_true v \<longleftrightarrow> v = PBool True"

definition as_dict :: "pyval \<Rightarrow> pydict option" where
  "as_dict v = (case v of PDict d \<Rightarrow> Some d | _ \<Rightarrow> None)"

definition as_str :: "pyval \<Rightarrow> string option" where
  "as_str v = (case v of PStr s \<Rightarrow> Some s | _ \<Rightarrow> None)"

text \<open>Hashing a value that holds a list or a dict raises TypeError.\<close>

fun hashable :: "pyval \<Rightarrow> bool" where
  "hashable (PList _) = False"
| "hashable (PDict _) = False"
| "hashable (PTuple vs) = list_all hashable vs"
| "hashable _ = True"

section \<open>Equality\<close>

text \<open>
  Python's \<open>==\<close>: bool, int and float compare by number, a list never equals a tuple,
  dicts compare as maps. A NaN is unequal to everything, itself included (Python's
  containers also try object identity, which values here do not have).
\<close>

fun num_of :: "pyval \<Rightarrow> pyfloat option" where
  "num_of (PBool b) = Some (FFin (if b then 1 else 0))"
| "num_of (PInt i) = Some (FFin (of_int i))"
| "num_of (PFloat f) = Some f"
| "num_of _ = None"

lemma size_mem: "(v :: pyval) \<in> set vs \<Longrightarrow> size v < Suc (size_list size vs)"
  using size_list_estimation' [of v vs "size v" size] by (simp add: less_Suc_eq_le)

lemma size_dict_mem: "(k, v) \<in> set d \<Longrightarrow> size v < Suc (size_list (size_prod (\<lambda>_. 0) size) d)"
  for v :: pyval
  using size_list_estimation' [of "(k, v)" d "size v" "size_prod (\<lambda>_. 0) size"]
  by (simp add: less_Suc_eq_le)

function py_eq :: "pyval \<Rightarrow> pyval \<Rightarrow> bool" where
  "py_eq v w =
     (case v of
        PNone \<Rightarrow> w = PNone
      | PStr s \<Rightarrow> w = PStr s
      | PList xs \<Rightarrow> (case w of
            PList ys \<Rightarrow> length xs = length ys \<and> list_all (\<lambda>(x, y). py_eq x y) (zip xs ys)
          | _ \<Rightarrow> False)
      | PTuple xs \<Rightarrow> (case w of
            PTuple ys \<Rightarrow> length xs = length ys \<and> list_all (\<lambda>(x, y). py_eq x y) (zip xs ys)
          | _ \<Rightarrow> False)
      | PDict d \<Rightarrow> (case w of
            PDict e \<Rightarrow> length d = length e \<and>
              list_all (\<lambda>(k, x). case map_of e k of None \<Rightarrow> False | Some y \<Rightarrow> py_eq x y) d
          | _ \<Rightarrow> False)
      | _ \<Rightarrow> (case (num_of v, num_of w) of (Some x, Some y) \<Rightarrow> feq x y | _ \<Rightarrow> False))"
  by pat_completeness auto
termination
  by (relation "measure (\<lambda>(v, w). size v)")
    (auto intro: size_mem size_dict_mem dest: set_zip_leftD)

declare py_eq.simps [simp del]

text \<open>Identity of two decoded values implies equality wherever no NaN occurs.\<close>

fun nan_free :: "pyval \<Rightarrow> bool" where
  "nan_free (PFloat f) = (f \<noteq> FNaN)"
| "nan_free (PList vs) = list_all nan_free vs"
| "nan_free (PTuple vs) = list_all nan_free vs"
| "nan_free (PDict d) = list_all (\<lambda>(k, v). nan_free v) d"
| "nan_free _ = True"

text \<open>No infinity or NaN anywhere: what \<open>json.dumps(allow_nan=False)\<close> serialises.\<close>

fun finite_floats :: "pyval \<Rightarrow> bool" where
  "finite_floats (PFloat f) = is_finite f"
| "finite_floats (PList vs) = list_all finite_floats vs"
| "finite_floats (PTuple vs) = list_all finite_floats vs"
| "finite_floats (PDict d) = list_all (\<lambda>(k, v). finite_floats v) d"
| "finite_floats _ = True"

text \<open>The keys of every dict are distinct, as Python guarantees.\<close>

fun wf_val :: "pyval \<Rightarrow> bool" where
  "wf_val (PList vs) = list_all wf_val vs"
| "wf_val (PTuple vs) = list_all wf_val vs"
| "wf_val (PDict d) = (distinct (map fst d) \<and> list_all (\<lambda>(k, v). wf_val v) d)"
| "wf_val _ = True"

text \<open>Truth value of an object.\<close>

fun truthy :: "pyval \<Rightarrow> bool" where
  "truthy PNone = False"
| "truthy (PBool b) = b"
| "truthy (PInt i) = (i \<noteq> 0)"
| "truthy (PFloat f) = (f \<noteq> FFin 0)"
| "truthy (PStr s) = (s \<noteq> [])"
| "truthy (PList vs) = (vs \<noteq> [])"
| "truthy (PTuple vs) = (vs \<noteq> [])"
| "truthy (PDict d) = (d \<noteq> [])"

section \<open>Text\<close>

definition cpt :: "char \<Rightarrow> int" where
  "cpt c = of_char c"

definition is_space :: "char \<Rightarrow> bool" where
  "is_space c \<longleftrightarrow> (let n = cpt c in 9 \<le> n \<and> n \<le> 13 \<or> 28 \<le> n \<and> n \<le> 32 \<or> n = 133 \<or> n = 160)"

definition lstrip :: "string \<Rightarrow> string" where
  "lstrip s = dropWhile is_space s"

definition strip :: "string \<Rightarrow> string" where
  "strip s = rev (lstrip (rev (lstrip s)))"

definition upper_case :: "char \<Rightarrow> bool" where
  "upper_case c \<longleftrightarrow> (let n = cpt c in 65 \<le> n \<and> n \<le> 90 \<or> 192 \<le> n \<and> n \<le> 222 \<and> n \<noteq> 215)"

definition lower_case :: "char \<Rightarrow> bool" where
  "lower_case c \<longleftrightarrow> (let n = cpt c in 97 \<le> n \<and> n \<le> 122 \<or> 224 \<le> n \<and> n \<le> 254 \<and> n \<noteq> 247)"

definition lower_char :: "char \<Rightarrow> char" where
  "lower_char c = (if upper_case c then char_of (cpt c + 32) else c)"

definition lower :: "string \<Rightarrow> string" where
  "lower s = map lower_char s"

text \<open>\<open>casefold\<close> and \<open>upper\<close> expand the sharp s.\<close>

definition casefold :: "string \<Rightarrow> string" where
  "casefold s = concat (map (\<lambda>c. if cpt c = 223 then ''ss'' else [lower_char c]) s)"

definition upper :: "string \<Rightarrow> string" where
  "upper s = concat (map (\<lambda>c. if cpt c = 223 then ''SS''
     else if lower_case c then [char_of (cpt c - 32)] else [c]) s)"

definition is_digit :: "char \<Rightarrow> bool" where
  "is_digit c \<longleftrightarrow> 48 \<le> cpt c \<and> cpt c \<le> 57"

definition is_lower_hex :: "char \<Rightarrow> bool" where
  "is_lower_hex c \<longleftrightarrow> is_digit c \<or> 97 \<le> cpt c \<and> cpt c \<le> 102"

definition is_ascii_alnum :: "char \<Rightarrow> bool" where
  "is_ascii_alnum c \<longleftrightarrow> is_digit c \<or> 65 \<le> cpt c \<and> cpt c \<le> 90 \<or> 97 \<le> cpt c \<and> cpt c \<le> 122"

text \<open>\<open>len(x)\<close>.\<close>

definition plen :: "'a list \<Rightarrow> int" where
  "plen xs = int (length xs)"

text \<open>\<open>s.split(sep)\<close> for a one-character separator.\<close>

fun split_on :: "char \<Rightarrow> string \<Rightarrow> string list" where
  "split_on c [] = [[]]"
| "split_on c (x # xs) =
     (if x = c then [] # split_on c xs
      else case split_on c xs of [] \<Rightarrow> [[x]] | w # ws \<Rightarrow> (x # w) # ws)"

section \<open>Lemmas\<close>

lemma dget_simps [simp]:
  "dget [] k = PNone"
  "dget ((k', v) # d) k = (if k = k' then v else dget d k)"
  by (simp_all add: dget_def)

lemma has_key_simps [simp]:
  "has_key [] k \<longleftrightarrow> False"
  "has_key ((k', v) # d) k \<longleftrightarrow> k = k' \<or> has_key d k"
  by (simp_all add: has_key_def)

lemma has_key_iff: "has_key d k \<longleftrightarrow> k \<in> set (dkeys d)"
  by (induction d) (auto simp: dkeys_def)

lemma dget_dset [simp]: "dget (dset d k v) k' = (if k' = k then v else dget d k')"
  by (simp add: dget_def dset_def update_conv)

lemma has_key_dset [simp]: "has_key (dset d k v) k' \<longleftrightarrow> k' = k \<or> has_key d k'"
  by (simp add: has_key_def dset_def update_conv)

lemma not_has_key_dget: "\<not> has_key d k \<Longrightarrow> dget d k = PNone"
  by (simp add: has_key_def dget_def)

lemma py_eq_PInt_iff [simp]:
  "py_eq (PInt i) (PInt j) \<longleftrightarrow> i = j"
  "py_eq (PStr s) w \<longleftrightarrow> w = PStr s"
  "py_eq v (PStr s) \<longleftrightarrow> v = PStr s"
  "py_eq PNone w \<longleftrightarrow> w = PNone"
  "py_eq v PNone \<longleftrightarrow> v = PNone"
  by (auto simp: py_eq.simps split: pyval.splits)

lemma float_self: "feq f f \<longleftrightarrow> f \<noteq> FNaN"
  by (cases f) (auto simp: feq_def)

lemma py_eq_refl: "wf_val v \<Longrightarrow> nan_free v \<Longrightarrow> py_eq v v"
proof (induction v rule: wf_val.induct)
  case (1 vs)
  then show ?case by (subst py_eq.simps) (auto simp: list_all_iff zip_same_conv_map)
next
  case (2 vs)
  then show ?case by (subst py_eq.simps) (auto simp: list_all_iff zip_same_conv_map)
next
  case (3 d)
  then show ?case by (subst py_eq.simps) (fastforce simp: list_all_iff)
qed (auto simp: py_eq.simps float_self)

lemma strip_ends: "strip s = s \<Longrightarrow> s \<noteq> [] \<Longrightarrow> \<not> is_space (hd s) \<and> \<not> is_space (last s)"
proof -
  assume st: "strip s = s" and ne: "s \<noteq> []"
  have "\<not> is_space (last s)"
  proof -
    have "rev s = dropWhile is_space (rev (lstrip s))"
      using st by (metis lstrip_def rev_rev_ident strip_def)
    then show ?thesis using ne by (metis hd_dropWhile hd_rev rev_is_Nil_conv)
  qed
  moreover have "\<not> is_space (hd s)"
  proof
    assume sp: "is_space (hd s)"
    then have "length (lstrip s) < length s"
      using ne by (cases s) (auto simp: lstrip_def less_Suc_eq_le length_dropWhile_le)
    moreover have "length (strip s) \<le> length (lstrip s)"
      by (simp add: strip_def lstrip_def) (metis length_dropWhile_le length_rev)
    ultimately show False using st by simp
  qed
  ultimately show ?thesis by blast
qed

lemma strip_strip [simp]: "strip (strip s) = strip s"
proof -
  have drop_idem: "dropWhile P (dropWhile P xs) = dropWhile P xs" for P and xs :: string
    by (induction xs) auto
  have sp: "lstrip (strip s) = strip s"
  proof (cases "strip s")
    case (Cons c cs)
    have "suffix (rev (strip s)) (rev (lstrip s))"
      unfolding strip_def lstrip_def rev_rev_ident by (rule suffix_dropWhile)
    then have "prefix (strip s) (lstrip s)" by (simp add: suffix_to_prefix)
    with Cons have "lstrip s \<noteq> [] \<and> hd (lstrip s) = c" by (auto simp: prefix_def)
    then have "\<not> is_space c" using hd_dropWhile [of is_space s] by (auto simp: lstrip_def)
    with Cons show ?thesis by (simp add: lstrip_def)
  qed (simp add: lstrip_def)
  have "strip (strip s) = rev (lstrip (rev (strip s)))" by (simp add: strip_def [of "strip s"] sp)
  also have "rev (strip s) = lstrip (rev (lstrip s))" by (simp add: strip_def)
  also have "lstrip (lstrip (rev (lstrip s))) = lstrip (rev (lstrip s))"
    by (simp add: lstrip_def drop_idem)
  finally show ?thesis by (simp add: strip_def)
qed

lemma strip_Nil [simp]: "strip [] = []"
  by (simp add: strip_def lstrip_def)

end
