(* ===== verification/Json_Text.thy ===== *)
theory Json_Text
  imports Py_Value "HOL-Library.Char_ord" "HOL-Library.List_Lexorder"
begin

text \<open>
  The text functions of the standard library that the program applies to untrusted data:
  \<open>int(s, 10)\<close>, \<open>float(s)\<close>, \<open>json.loads(s)\<close> and the compact, key-sorted
  \<open>json.dumps\<close>. A parser returns \<open>None\<close> where Python raises ValueError. Escapes
  \<open>\u\<close> above the character range of \<open>Py_Value\<close> are refused.
\<close>

section \<open>Numbers as text\<close>

definition digits_value :: "string \<Rightarrow> int" where
  "digits_value ds = foldl (\<lambda>n c. 10 * n + (cpt c - 48)) 0 ds"

text \<open>Decimal digits in which single underscores may separate digits.\<close>

definition digit_groups :: "string \<Rightarrow> string option" where
  "digit_groups s = (let gs = split_on (CHR ''_'') s
     in if list_all (\<lambda>g. g \<noteq> [] \<and> list_all is_digit g) gs then Some (concat gs) else None)"

definition split_sign :: "string \<Rightarrow> bool \<times> string" where
  "split_sign s = (case s of [] \<Rightarrow> (False, [])
     | c # r \<Rightarrow> if c = CHR ''-'' then (True, r) else if c = CHR ''+'' then (False, r) else (False, s))"

text \<open>Python refuses to convert an integer text of more than 4300 digits.\<close>

definition int_digits :: "bool \<Rightarrow> string \<Rightarrow> int option" where
  "int_digits neg ds = (if plen ds > 4300 then None
     else Some (if neg then - digits_value ds else digits_value ds))"

definition parse_int :: "string \<Rightarrow> int option" where
  "parse_int s = (let (neg, r) = split_sign (strip s)
     in Option.bind (digit_groups r) (int_digits neg))"

definition pow10 :: "int \<Rightarrow> rat" where
  "pow10 e = (if 0 \<le> e then 10 ^ nat e else 1 / 10 ^ nat (- e))"

definition split_exponent :: "string \<Rightarrow> string \<times> string option" where
  "split_exponent s = (let m = takeWhile (\<lambda>c. c \<noteq> CHR ''e'' \<and> c \<noteq> CHR ''E'') s
     in (m, if length m < length s then Some (drop (Suc (length m)) s) else None))"

definition parse_exponent :: "string option \<Rightarrow> int option" where
  "parse_exponent e = (case e of None \<Rightarrow> Some 0 | Some t \<Rightarrow>
     (let (neg, r) = split_sign t
      in map_option (\<lambda>ds. if neg then - digits_value ds else digits_value ds) (digit_groups r)))"

definition parse_mantissa :: "string \<Rightarrow> (string \<times> string) option" where
  "parse_mantissa m = (case split_on (CHR ''.'') m of
       [i] \<Rightarrow> map_option (\<lambda>ds. (ds, [])) (digit_groups i)
     | [i, f] \<Rightarrow>
         (if i = [] \<and> f = [] then None
          else case (if i = [] then Some [] else digit_groups i,
                     if f = [] then Some [] else digit_groups f) of
                 (Some a, Some b) \<Rightarrow> Some (a, b) | _ \<Rightarrow> None)
     | _ \<Rightarrow> None)"

definition decimal_float :: "bool \<Rightarrow> string \<Rightarrow> string \<Rightarrow> int \<Rightarrow> pyfloat" where
  "decimal_float neg i f e =
     (let x = of_int (digits_value (i @ f)) * pow10 (e - plen f)
      in fround (if neg then - x else x))"

definition parse_float :: "string \<Rightarrow> pyfloat option" where
  "parse_float s = (let (neg, r) = split_sign (strip s); l = lower r
     in if l = ''inf'' \<or> l = ''infinity'' then Some (if neg then FNegInf else FInf)
        else if l = ''nan'' then Some FNaN
        else let (m, e) = split_exponent r
          in case (parse_mantissa m, parse_exponent e) of
               (Some (i, f), Some x) \<Rightarrow> Some (decimal_float neg i f x) | _ \<Rightarrow> None)"

function nat_text :: "int \<Rightarrow> string" where
  "nat_text n = (if n < 10 then [char_of (48 + max 0 n)]
     else nat_text (n div 10) @ [char_of (48 + n mod 10)])"
  by pat_completeness auto
termination
  by (relation "measure nat") auto

declare nat_text.simps [simp del]

definition int_text :: "int \<Rightarrow> string" where
  "int_text i = (if i < 0 then CHR ''-'' # nat_text (- i) else nat_text i)"

text \<open>
  \<open>repr\<close> of a float: the shortest decimal that reads back as the same double.
\<close>

fun dec_exp :: "nat \<Rightarrow> rat \<Rightarrow> int" where
  "dec_exp 0 x = 0"
| "dec_exp (Suc n) x = (if 10 \<le> x then 1 + dec_exp n (x / 10)
     else if x < 1 then dec_exp n (x * 10) - 1 else 0)"

definition short_digits :: "rat \<Rightarrow> nat \<Rightarrow> int option" where
  "short_digits x k = (let s = pow10 (dec_exp 400 x - int k + 1); lo = \<lfloor>x / s\<rfloor>;
       near = (if x / s - of_int lo \<le> 1 / 2 then [lo, lo + 1] else [lo + 1, lo])
     in find (\<lambda>m. fround (of_int m * s) = FFin x) near)"

definition shortest :: "rat \<Rightarrow> int \<times> int" where
  "shortest x =
     (case find (\<lambda>k. short_digits x k \<noteq> None) [1..<17] of
        None \<Rightarrow> (round_even (x / pow10 (dec_exp 400 x - 16)), dec_exp 400 x - 16)
      | Some k \<Rightarrow> (the (short_digits x k), dec_exp 400 x - int k + 1))"

definition rstrip_zeros :: "string \<Rightarrow> string" where
  "rstrip_zeros s = rev (dropWhile (\<lambda>c. c = CHR ''0'') (rev s))"

definition pos_float_text :: "rat \<Rightarrow> string" where
  "pos_float_text x = (let (m, s) = shortest x; ds = nat_text m; e = s + plen ds - 1;
       d = rstrip_zeros ds
     in if - 4 \<le> e \<and> e < 16 then
          (if e < 0 then ''0.'' @ replicate (nat (- e - 1)) (CHR ''0'') @ d
           else if plen d \<le> e + 1
             then d @ replicate (nat (e + 1 - plen d)) (CHR ''0'') @ ''.0''
           else take (nat (e + 1)) d @ ''.'' @ drop (nat (e + 1)) d)
        else take 1 d @ (if plen d > 1 then ''.'' @ drop 1 d else [])
          @ (if e < 0 then ''e-'' else ''e+'')
          @ (if \<bar>e\<bar> < 10 then ''0'' else []) @ nat_text \<bar>e\<bar>)"

definition float_text :: "pyfloat \<Rightarrow> string" where
  "float_text f = (case f of FNaN \<Rightarrow> ''NaN'' | FInf \<Rightarrow> ''Infinity'' | FNegInf \<Rightarrow> ''-Infinity''
     | FFin x \<Rightarrow> if x = 0 then ''0.0'' else if x < 0 then CHR ''-'' # pos_float_text (- x)
         else pos_float_text x)"

section \<open>json.dumps\<close>

definition hex_digit :: "int \<Rightarrow> char" where
  "hex_digit n = char_of (if n < 10 then 48 + n else 87 + n)"

definition escape_char :: "char \<Rightarrow> string" where
  "escape_char c = (let n = cpt c in
     if n = 34 then [CHR 0x5C, CHR 0x22]
     else if n = 92 then [CHR 0x5C, CHR 0x5C]
     else if n = 10 then [CHR 0x5C, CHR ''n'']
     else if n = 13 then [CHR 0x5C, CHR ''r'']
     else if n = 9 then [CHR 0x5C, CHR ''t'']
     else if n = 8 then [CHR 0x5C, CHR ''b'']
     else if n = 12 then [CHR 0x5C, CHR ''f'']
     else if n < 32 then [CHR 0x5C, CHR ''u'', CHR ''0'', CHR ''0'', hex_digit (n div 16), hex_digit (n mod 16)]
     else [c])"

definition json_string :: "string \<Rightarrow> string" where
  "json_string s = [CHR 0x22] @ concat (map escape_char s) @ [CHR 0x22]"

definition join :: "string \<Rightarrow> string list \<Rightarrow> string" where
  "join sep ws = (case ws of [] \<Rightarrow> [] | w # r \<Rightarrow> w @ concat (map (\<lambda>x. sep @ x) r))"

text \<open>
  \<open>json.dumps(v, sort_keys=True, separators=(",", ":"), ensure_ascii=False)\<close>.
\<close>

fun json_dumps :: "pyval \<Rightarrow> string" where
  "json_dumps PNone = ''null''"
| "json_dumps (PBool b) = (if b then ''true'' else ''false'')"
| "json_dumps (PInt i) = int_text i"
| "json_dumps (PFloat f) = float_text f"
| "json_dumps (PStr s) = json_string s"
| "json_dumps (PList vs) = ''['' @ join '','' (map json_dumps vs) @ '']''"
| "json_dumps (PTuple vs) = ''['' @ join '','' (map json_dumps vs) @ '']''"
| "json_dumps (PDict d) = ''{'' @ join '',''
     (map snd (sort_key fst (map (\<lambda>(k, v). (k, json_string k @ '':'' @ json_dumps v)) d))) @ ''}''"

text \<open>\<open>len(s.encode("utf-8"))\<close>.\<close>

definition utf8_len :: "string \<Rightarrow> int" where
  "utf8_len s = sum_list (map (\<lambda>c. if cpt c < 128 then 1 else 2) s)"

section \<open>json.loads\<close>

definition json_ws :: "string \<Rightarrow> string" where
  "json_ws s = dropWhile (\<lambda>c. c = CHR '' '' \<or> cpt c = 9 \<or> cpt c = 10 \<or> cpt c = 13) s"

definition hex_value :: "char \<Rightarrow> int option" where
  "hex_value c = (if is_digit c then Some (cpt c - 48)
     else if 97 \<le> cpt c \<and> cpt c \<le> 102 then Some (cpt c - 87)
     else if 65 \<le> cpt c \<and> cpt c \<le> 70 then Some (cpt c - 55) else None)"

definition hex4 :: "char \<Rightarrow> char \<Rightarrow> char \<Rightarrow> char \<Rightarrow> char option" where
  "hex4 a b c d = (case (hex_value a, hex_value b, hex_value c, hex_value d) of
     (Some p, Some q, Some r, Some s) \<Rightarrow> (if p = 0 \<and> q = 0 then Some (char_of (16 * r + s)) else None)
     | _ \<Rightarrow> None)"

definition unescape :: "char \<Rightarrow> char option" where
  "unescape c = map_of [(CHR 0x22, CHR 0x22), (CHR 0x5C, CHR 0x5C), (CHR ''/'', CHR ''/''),
     (CHR ''b'', CHR 0x08), (CHR ''f'', CHR 0x0C), (CHR ''n'', CHR 0x0A), (CHR ''r'', CHR 0x0D),
     (CHR ''t'', CHR 0x09)] c"

fun loads_string :: "string \<Rightarrow> (string \<times> string) option" where
  "loads_string [] = None"
| "loads_string (c # r) =
     (if c = CHR 0x22 then Some ([], r)
      else if c = CHR 0x5C then
        (case r of
           [] \<Rightarrow> None
         | e # r1 \<Rightarrow>
             (if e = CHR ''u'' then
                (case r1 of
                   w # x # y # z # r2 \<Rightarrow>
                     (case hex4 w x y z of None \<Rightarrow> None
                      | Some ch \<Rightarrow> map_option (\<lambda>(t, q). (ch # t, q)) (loads_string r2))
                 | _ \<Rightarrow> None)
              else case unescape e of None \<Rightarrow> None
                | Some ch \<Rightarrow> map_option (\<lambda>(t, q). (ch # t, q)) (loads_string r1)))
      else if cpt c < 32 then None
      else map_option (\<lambda>(t, q). (c # t, q)) (loads_string r))"

definition loads_digits :: "string \<Rightarrow> string \<times> string" where
  "loads_digits s = (takeWhile is_digit s, dropWhile is_digit s)"

definition loads_fraction :: "string \<Rightarrow> string \<times> string" where
  "loads_fraction s = (case s of c # r \<Rightarrow>
       (if c = CHR ''.'' \<and> fst (loads_digits r) \<noteq> [] then loads_digits r else ([], s))
     | [] \<Rightarrow> ([], []))"

definition loads_exponent :: "string \<Rightarrow> int option \<times> string" where
  "loads_exponent s = (case s of c # r \<Rightarrow>
       (if c = CHR ''e'' \<or> c = CHR ''E'' then
          (let (neg, t) = split_sign r; (ds, q) = loads_digits t
           in if ds = [] then (None, s)
              else (Some (if neg then - digits_value ds else digits_value ds), q))
        else (None, s))
     | [] \<Rightarrow> (None, []))"

definition loads_number :: "string \<Rightarrow> (pyval \<times> string) option" where
  "loads_number s =
     (let neg = (case s of c # _ \<Rightarrow> c = CHR ''-'' | [] \<Rightarrow> False);
          u = (if neg then tl s else s);
          i = (case u of c # _ \<Rightarrow> if c = CHR ''0'' then ''0'' else fst (loads_digits u) | [] \<Rightarrow> []);
          r = drop (length i) u; (f, r1) = loads_fraction r; (e, r2) = loads_exponent r1
      in if i = [] then None
         else if f = [] \<and> e = None
           then map_option (\<lambda>n. (PInt n, r)) (int_digits neg i)
         else Some (PFloat (decimal_float neg i f (case e of None \<Rightarrow> 0 | Some x \<Rightarrow> x)), r2))"

definition loads_word :: "string \<Rightarrow> (pyval \<times> string) option" where
  "loads_word s =
     (if prefix ''null'' s then Some (PNone, drop 4 s)
      else if prefix ''true'' s then Some (PBool True, drop 4 s)
      else if prefix ''false'' s then Some (PBool False, drop 5 s)
      else if prefix ''NaN'' s then Some (PFloat FNaN, drop 3 s)
      else if prefix ''Infinity'' s then Some (PFloat FInf, drop 8 s)
      else if prefix ''-Infinity'' s then Some (PFloat FNegInf, drop 9 s)
      else loads_number s)"

text \<open>
  Of two nested calls of the parser at least one consumes a character, so twice the
  length of the text bounds the calls; \<open>json_loads\<close> gives it that much fuel.
\<close>

fun loads_value :: "nat \<Rightarrow> string \<Rightarrow> (pyval \<times> string) option"
  and loads_items :: "nat \<Rightarrow> string \<Rightarrow> (pyval list \<times> string) option"
  and loads_members :: "nat \<Rightarrow> pydict \<Rightarrow> string \<Rightarrow> (pydict \<times> string) option" where
  "loads_value 0 s = None"
| "loads_value (Suc n) s =
     (case s of
        [] \<Rightarrow> None
      | c # r \<Rightarrow>
          (if c = CHR 0x22 then map_option (\<lambda>(t, q). (PStr t, q)) (loads_string r)
           else if c = CHR ''['' then
             (case json_ws r of
                [] \<Rightarrow> None
              | d # q \<Rightarrow> if d = CHR '']'' then Some (PList [], q)
                  else map_option (\<lambda>(vs, p). (PList vs, p)) (loads_items n (d # q)))
           else if c = CHR ''{'' then
             (case json_ws r of
                [] \<Rightarrow> None
              | d # q \<Rightarrow> if d = CHR ''}'' then Some (PDict [], q)
                  else map_option (\<lambda>(e, p). (PDict e, p)) (loads_members n [] (d # q)))
           else loads_word s))"
| "loads_items 0 s = None"
| "loads_items (Suc n) s =
     (case loads_value n s of
        None \<Rightarrow> None
      | Some (v, r) \<Rightarrow>
          (case json_ws r of
             [] \<Rightarrow> None
           | d # q \<Rightarrow>
               if d = CHR '']'' then Some ([v], q)
               else if d = CHR '','' then map_option (\<lambda>(vs, p). (v # vs, p)) (loads_items n (json_ws q))
               else None))"
| "loads_members 0 acc s = None"
| "loads_members (Suc n) acc s =
     (case s of
        [] \<Rightarrow> None
      | c # r \<Rightarrow>
          if c \<noteq> CHR 0x22 then None
          else (case loads_string r of
             None \<Rightarrow> None
           | Some (k, r1) \<Rightarrow>
               (case json_ws r1 of
                  [] \<Rightarrow> None
                | e # r2 \<Rightarrow>
                    if e \<noteq> CHR '':'' then None
                    else (case loads_value n (json_ws r2) of
                       None \<Rightarrow> None
                     | Some (v, r3) \<Rightarrow>
                         (case json_ws r3 of
                            [] \<Rightarrow> None
                          | d # q \<Rightarrow>
                              if d = CHR ''}'' then Some (dset acc k v, q)
                              else if d = CHR '','' then loads_members n (dset acc k v) (json_ws q)
                              else None)))))"

definition json_loads :: "string \<Rightarrow> pyval option" where
  "json_loads s = (case loads_value (Suc (2 * length s)) (json_ws s) of
     Some (v, r) \<Rightarrow> if json_ws r = [] then Some v else None | None \<Rightarrow> None)"

end
