(* ===== verification/Contract_Fields.thy ===== *)
theory Contract_Fields
  imports Json_Text
begin

text \<open>
  The field validators of \<^verbatim>\<open>recovery_executor.py\<close>, through which all untrusted data
  passes: required text, bounded integers, UUIDs, the complexity bound on JSON values and
  the type-strict comparison of JSON values. Each comes with the exact set of values it
  accepts.
\<close>

section \<open>Text, integers, UUIDs\<close>

definition required_text :: "pyval \<Rightarrow> int \<Rightarrow> string result" where
  "required_text value max_length =
     (case value of
        PStr s \<Rightarrow>
          guardE (s \<noteq> [] \<and> strip s = s) ContractError
          (guardE (\<not> plen s > max_length) ContractError
          (Inr s))
      | _ \<Rightarrow> Inl ContractError)"

definition required_int :: "pyval \<Rightarrow> int \<Rightarrow> int \<Rightarrow> int result" where
  "required_int value minimum maximum =
     (case value of
        PInt i \<Rightarrow> guardE (minimum \<le> i \<and> i \<le> maximum) ContractError (Inr i)
      | _ \<Rightarrow> Inl ContractError)"

text \<open>
  The pattern of a UUID as a template: \<open>x\<close> is a hexadecimal digit, \<open>v\<close> the version digit 1
  to 5, \<open>r\<close> the variant digit; the value was lowered before.
\<close>

definition uuid_slot :: "char \<Rightarrow> char \<Rightarrow> bool" where
  "uuid_slot t c =
     (if t = CHR ''x'' then is_lower_hex c
      else if t = CHR ''v'' then 49 \<le> cpt c \<and> cpt c \<le> 53
      else if t = CHR ''r'' then c \<in> set ''89ab''
      else c = t)"

definition uuid_shape :: "string \<Rightarrow> bool" where
  "uuid_shape s = list_all2 uuid_slot ''xxxxxxxx-xxxx-vxxx-rxxx-xxxxxxxxxxxx'' s"

definition uuid_text :: "pyval \<Rightarrow> string option" where
  "uuid_text value =
     (case value of
        PStr s \<Rightarrow> (let canonical = lower (strip s) in
                    if uuid_shape canonical then Some canonical else None)
      | _ \<Rightarrow> None)"

definition required_uuid :: "pyval \<Rightarrow> string result" where
  "required_uuid value = (case uuid_text value of None \<Rightarrow> Inl ContractError | Some u \<Rightarrow> Inr u)"

definition sysid_pattern :: "string \<Rightarrow> bool" where
  "sysid_pattern s \<longleftrightarrow>
     1 \<le> plen s \<and> plen s \<le> 64 \<and> list_all (\<lambda>c. is_ascii_alnum c \<or> c = CHR ''-'') s"

definition hash_pattern :: "string \<Rightarrow> bool" where
  "hash_pattern s \<longleftrightarrow> plen s = 64 \<and> list_all is_lower_hex s"

text \<open>
  \<open>isinstance\<close> guards: the continuation runs on the contents of a mapping, a list or a
  text, anything else breaks the contract.
\<close>

definition with_dict :: "pyval \<Rightarrow> (pydict \<Rightarrow> 'b result) \<Rightarrow> 'b result" where
  "with_dict v k = (case v of PDict d \<Rightarrow> k d | _ \<Rightarrow> Inl ContractError)"

definition with_list :: "pyval \<Rightarrow> (pyval list \<Rightarrow> 'b result) \<Rightarrow> 'b result" where
  "with_list v k = (case v of PList vs \<Rightarrow> k vs | _ \<Rightarrow> Inl ContractError)"

definition with_some :: "'a option \<Rightarrow> ('a \<Rightarrow> 'b result) \<Rightarrow> 'b result" where
  "with_some v k = (case v of Some x \<Rightarrow> k x | None \<Rightarrow> Inl ContractError)"

definition with_str :: "pyval \<Rightarrow> (string \<Rightarrow> 'b result) \<Rightarrow> 'b result" where
  "with_str v k = (case v of PStr s \<Rightarrow> k s | _ \<Rightarrow> Inl ContractError)"

section \<open>The complexity bound on JSON values\<close>

definition max_json_depth :: int where "max_json_depth = 12"

definition max_json_nodes :: int where "max_json_nodes = 2000"

text \<open>
  \<open>walk\<close> of \<open>_validate_json\<close>: the counter \<open>nodes\<close> is threaded through; the result is its
  new value.
\<close>

function walk :: "int \<Rightarrow> pyval \<Rightarrow> int \<Rightarrow> int result" where
  "walk depth current nodes0 =
     (let nodes = nodes0 + 1 in
      guardE (\<not> (nodes > max_json_nodes \<or> depth > max_json_depth)) ContractError
      (case current of
         PFloat f \<Rightarrow> guardE (is_finite f) ContractError (Inr nodes)
       | PList vs \<Rightarrow> foldE (\<lambda>v. walk (depth + 1) v) vs nodes
       | PDict d \<Rightarrow> foldE (\<lambda>(k, v). walk (depth + 1) v) d nodes
       | PTuple _ \<Rightarrow> Inl ContractError
       | _ \<Rightarrow> Inr nodes))"
  by pat_completeness auto
termination
  by (relation "measure (\<lambda>(depth, v, n). size v)") (auto intro: size_mem size_dict_mem)

declare walk.simps [simp del]

definition validate_json :: "pyval \<Rightarrow> unit result" where
  "validate_json value = bindE (walk 0 value 0) (\<lambda>_. Inr ())"

section \<open>Type-strict equality of JSON values\<close>

fun allE :: "('a \<Rightarrow> bool result) \<Rightarrow> 'a list \<Rightarrow> bool result" where
  "allE f [] = Inr True"
| "allE f (x # xs) = bindE (f x) (\<lambda>b. if b then allE f xs else Inr False)"

lemma allE_cong [fundef_cong]:
  "xs = ys \<Longrightarrow> (\<And>x. x \<in> set ys \<Longrightarrow> f x = g x) \<Longrightarrow> allE f xs = allE g ys"
proof (induction xs arbitrary: ys)
  case (Cons x xs)
  then show ?case by (cases ys) (auto intro!: bindE_cong)
qed simp

definition is_number :: "pyval \<Rightarrow> bool" where
  "is_number v \<longleftrightarrow> (case v of PInt _ \<Rightarrow> True | PFloat _ \<Rightarrow> True | _ \<Rightarrow> False)"

text \<open>\<open>float(v)\<close> of an int or a float.\<close>

definition to_float :: "pyval \<Rightarrow> pyfloat result" where
  "to_float v = (case v of PInt i \<Rightarrow> float_of_int i | PFloat f \<Rightarrow> Inr f | _ \<Rightarrow> Inl TypeErr)"

definition numbers_equal :: "pyval \<Rightarrow> pyval \<Rightarrow> bool result" where
  "numbers_equal left right =
     (if \<not> is_number left \<or> \<not> is_number right then Inr False
      else bindE (to_float left) (\<lambda>l.
        if \<not> is_finite l then Inr False
        else bindE (to_float right) (\<lambda>r. Inr (is_finite r \<and> feq l r))))"

definition is_bool :: "pyval \<Rightarrow> bool" where
  "is_bool v \<longleftrightarrow> (case v of PBool _ \<Rightarrow> True | _ \<Rightarrow> False)"

definition is_none_or_str :: "pyval \<Rightarrow> bool" where
  "is_none_or_str v \<longleftrightarrow> v = PNone \<or> is_str v"

function json_values_equal :: "pyval \<Rightarrow> pyval \<Rightarrow> bool result" where
  "json_values_equal left right =
     (if is_bool left \<or> is_bool right then Inr (left = right)
      else if is_number left \<or> is_number right then numbers_equal left right
      else if is_none_or_str left \<or> is_none_or_str right then Inr (left = right)
      else (case left of
          PList xs \<Rightarrow> (case right of
              PList ys \<Rightarrow> (if length xs = length ys
                 then allE (\<lambda>(x, y). json_values_equal x y) (zip xs ys) else Inr False)
            | _ \<Rightarrow> Inr False)
        | PDict d \<Rightarrow> (case right of
              PDict e \<Rightarrow> (if set (dkeys d) = set (dkeys e)
                 then allE (\<lambda>(k, v). json_values_equal v (dget e k)) d else Inr False)
            | _ \<Rightarrow> Inr False)
        | _ \<Rightarrow> Inr False))"
  by pat_completeness auto
termination
  by (relation "measure (\<lambda>(v, w). size v)")
    (auto intro: size_mem size_dict_mem dest: set_zip_leftD)

declare json_values_equal.simps [simp del]

section \<open>What the validators accept\<close>

lemma with_simps [simp]:
  "with_dict (PDict d) f = f d"
  "with_list (PList vs) g = g vs"
  "with_str (PStr s) h = h s"
  "with_some (Some x) q = q x"
  "with_some None q = Inl ContractError"
  by (simp_all add: with_dict_def with_list_def with_str_def with_some_def)

lemma with_some_eq_Inr [result_simps]:
  "with_some v k = Inr x \<longleftrightarrow> (\<exists>y. v = Some y \<and> k y = Inr x)"
  by (simp add: with_some_def split: option.splits)

lemma with_dict_eq_Inr [result_simps]:
  "with_dict v k = Inr x \<longleftrightarrow> (\<exists>d. v = PDict d \<and> k d = Inr x)"
  by (simp add: with_dict_def split: pyval.splits)

lemma with_list_eq_Inr [result_simps]:
  "with_list v k = Inr x \<longleftrightarrow> (\<exists>vs. v = PList vs \<and> k vs = Inr x)"
  by (simp add: with_list_def split: pyval.splits)

lemma with_str_eq_Inr [result_simps]:
  "with_str v k = Inr x \<longleftrightarrow> (\<exists>s. v = PStr s \<and> k s = Inr x)"
  by (simp add: with_str_def split: pyval.splits)

lemma with_cong [fundef_cong]:
  "v = v' \<Longrightarrow> (\<And>d. v' = PDict d \<Longrightarrow> f d = f' d) \<Longrightarrow> with_dict v f = with_dict v' f'"
  "v = v' \<Longrightarrow> (\<And>vs. v' = PList vs \<Longrightarrow> g vs = g' vs) \<Longrightarrow> with_list v g = with_list v' g'"
  by (simp_all add: with_dict_def with_list_def split: pyval.splits)

lemma with_eq_Inl:
  "with_dict v f = Inl e \<longleftrightarrow> (\<not> is_dict v \<and> e = ContractError) \<or> (\<exists>d. v = PDict d \<and> f d = Inl e)"
  "with_str v h = Inl e \<longleftrightarrow> (\<not> is_str v \<and> e = ContractError) \<or> (\<exists>s. v = PStr s \<and> h s = Inl e)"
  by (auto simp add: with_dict_def with_str_def is_dict_def is_str_def split: pyval.splits)

lemma required_text_eq_Inr [result_simps]:
  "required_text v m = Inr s \<longleftrightarrow> v = PStr s \<and> s \<noteq> [] \<and> strip s = s \<and> plen s \<le> m"
  by (cases v) (auto simp: required_text_def result_simps)

lemma required_int_eq_Inr [result_simps]:
  "required_int v lo hi = Inr i \<longleftrightarrow> v = PInt i \<and> lo \<le> i \<and> i \<le> hi"
  by (cases v) (auto simp: required_int_def result_simps)

lemma required_uuid_eq_Inr [result_simps]: "required_uuid v = Inr u \<longleftrightarrow> uuid_text v = Some u"
  by (simp add: required_uuid_def split: option.splits)

lemma validator_errors:
  "required_text v m = Inl e \<Longrightarrow> e = ContractError"
  "required_int v lo hi = Inl e \<Longrightarrow> e = ContractError"
  "required_uuid v = Inl e \<Longrightarrow> e = ContractError"
  by (auto simp: required_text_def required_int_def required_uuid_def guardE_eq_Inl
      split: pyval.splits option.splits)

lemma uuid_text_shape: "uuid_text v = Some u \<Longrightarrow> uuid_shape u"
  by (auto simp: uuid_text_def Let_def split: pyval.splits if_splits)

text \<open>Size and depth of a value, and the values that are JSON.\<close>

fun node_count :: "pyval \<Rightarrow> int" where
  "node_count (PList vs) = 1 + sum_list (map node_count vs)"
| "node_count (PDict d) = 1 + sum_list (map (\<lambda>(k, v). node_count v) d)"
| "node_count _ = 1"

text \<open>\<open>depth_within n v\<close>: no part of \<open>v\<close> lies deeper than \<open>n\<close> levels below it.\<close>

fun depth_within :: "int \<Rightarrow> pyval \<Rightarrow> bool" where
  "depth_within n (PList vs) = (0 \<le> n \<and> list_all (depth_within (n - 1)) vs)"
| "depth_within n (PDict d) = (0 \<le> n \<and> list_all (\<lambda>(k, v). depth_within (n - 1) v) d)"
| "depth_within n _ = (0 \<le> n)"

fun json_value :: "pyval \<Rightarrow> bool" where
  "json_value (PFloat f) = is_finite f"
| "json_value (PList vs) = list_all json_value vs"
| "json_value (PDict d) = list_all (\<lambda>(k, v). json_value v) d"
| "json_value (PTuple _) = False"
| "json_value _ = True"

lemma node_count_pos: "0 < node_count v"
  by (induction v rule: node_count.induct) (force simp: intro!: add_pos_nonneg sum_list_nonneg)+

lemma foldE_count:
  \<comment> \<open>a loop whose body checks \<open>ok\<close> and adds the size of its element\<close>
  assumes "\<And>x n m. x \<in> set xs \<Longrightarrow>
      f x n = Inr m \<longleftrightarrow> ok x \<and> m = n + size_of x \<and> m \<le> max_json_nodes"
    and "\<And>x. x \<in> set xs \<Longrightarrow> 0 < size_of x" and "n \<le> max_json_nodes"
  shows "foldE f xs n = Inr m \<longleftrightarrow>
    list_all ok xs \<and> m = n + sum_list (map size_of xs) \<and> m \<le> max_json_nodes"
  using assms
proof (induction xs arbitrary: n)
  case (Cons x xs)
  have "0 \<le> sum_list (map size_of xs)" using Cons.prems(2) by (force intro: sum_list_nonneg)
  with Cons show ?case by (auto simp: bindE_eq_Inr add.assoc)
qed auto

lemma walk_spec:
  "walk depth v n = Inr m \<longleftrightarrow>
     json_value v \<and> depth_within (max_json_depth - depth) v \<and>
     m = n + node_count v \<and> m \<le> max_json_nodes"
proof (induction depth v n arbitrary: m rule: walk.induct)
  case (1 depth v n)
  have next_level: "max_json_depth - (depth + 1) = max_json_depth - depth - 1" by simp
  show ?case
  proof (cases v)
    case (PList vs)
    let ?ok = "\<lambda>v. json_value v \<and> depth_within (max_json_depth - depth - 1) v"
    have "foldE (walk (depth + 1)) vs (n + 1) = Inr m \<longleftrightarrow>
        list_all ?ok vs \<and> m = n + 1 + sum_list (map node_count vs) \<and> m \<le> max_json_nodes"
      if "\<not> (n + 1 > max_json_nodes \<or> depth > max_json_depth)"
      using 1(1) [OF refl that PList] that
      by (intro foldE_count) (auto simp: node_count_pos next_level)
    moreover have "0 \<le> sum_list (map node_count vs)"
      by (force intro: sum_list_nonneg less_imp_le [OF node_count_pos])
    ultimately show ?thesis
      using PList by (auto simp: walk.simps [of depth "PList vs"] guardE_eq_Inr list_all_iff)
  next
    case (PDict d)
    let ?ok = "\<lambda>(k, v). json_value v \<and> depth_within (max_json_depth - depth - 1) v"
    have "foldE (\<lambda>(k, v). walk (depth + 1) v) d (n + 1) = Inr m \<longleftrightarrow>
        list_all ?ok d \<and> m = n + 1 + sum_list (map (\<lambda>(k, v). node_count v) d) \<and> m \<le> max_json_nodes"
      if "\<not> (n + 1 > max_json_nodes \<or> depth > max_json_depth)"
      using 1(2) [OF refl that PDict _ refl] that
      by (intro foldE_count) (auto simp: node_count_pos next_level)
    moreover have "0 \<le> sum_list (map (\<lambda>(k, v). node_count v) d)"
      by (force intro: sum_list_nonneg less_imp_le [OF node_count_pos])
    ultimately show ?thesis
      using PDict by (auto simp: walk.simps [of depth "PDict d"] guardE_eq_Inr list_all_iff)
  qed (auto simp: walk.simps guardE_eq_Inr)
qed

theorem validate_json_iff [result_simps]:
  "validate_json v = Inr u \<longleftrightarrow>
     json_value v \<and> depth_within max_json_depth v \<and> node_count v \<le> max_json_nodes"
  by (simp add: validate_json_def bindE_eq_Inr walk_spec)

end
