(* ===== verification/Robot_Session.thy ===== *)
theory Robot_Session
  imports Contract_Fields
begin

text \<open>
  \<^verbatim>\<open>robot_session.py\<close>: the projection of a robot's Flow frame to a pointer, and the session
  over one reconnecting WebSocket as a state machine: connections come and go, frames
  arrive, commands are registered, dispatched and settled by correlated responses, and
  waiters scan the Flow history. Connections are numbered; \<open>rs_wire\<close> records what was
  sent, for the theorems only.
\<close>

section \<open>Records\<close>

record flow_pointer =
  fp_revision :: int
  fp_flow_id :: string
  fp_status :: string
  fp_action_index :: "int option"
  fp_action_command :: "string option"
  fp_filename :: "string option"
  fp_fid :: "string option"
  fp_flow_commit :: "string option"
  fp_raw :: pydict
  fp_generation :: int
  fp_completed :: bool

record commands_frame =
  cf_revision :: int
  cf_generation :: int
  cf_commands :: pydict

record command_receipt =
  cr_result :: pyval
  cr_generation :: int
  cr_flow_revision :: int

record flow_frame =
  ff_revision :: int
  ff_generation :: int
  ff_pointer :: "flow_pointer option"

section \<open>The Flow pointer\<close>

definition robot_websocket_host :: "string \<Rightarrow> string result" where
  "robot_websocket_host sysid =
     (let canonical = strip sysid in
      guardE (sysid_pattern canonical) ValueErr (Inr (lower canonical @ ''.ws.devices.bellboy.co'')))"

definition text_of :: "pyval \<Rightarrow> string option" where
  "text_of value = (case value of
       PStr s \<Rightarrow> (let normalized = strip s in if normalized = [] then None else Some normalized)
     | _ \<Rightarrow> None)"

definition integer_of :: "pyval \<Rightarrow> int option" where
  "integer_of value = (case value of PInt i \<Rightarrow> Some i | _ \<Rightarrow> None)"

definition dicts_in :: "pyval \<Rightarrow> pydict list" where
  \<comment> \<open>the mappings of a list, nothing when it is not a list\<close>
  "dicts_in value = (case value of PList vs \<Rightarrow> List.map_filter as_dict vs | _ \<Rightarrow> [])"

definition flow_actions :: "pydict \<Rightarrow> pydict list" where
  "flow_actions flow =
     concat (map (\<lambda>area. concat (map (\<lambda>item. dicts_in (dget item ''actions''))
       (dicts_in (dget area ''items'')))) (dicts_in (dget flow ''areas'')))"

definition stopped_action_statuses :: "string list" where
  "stopped_action_statuses = [''failed'', ''aborted'', ''in_progress'']"

definition success_flow_statuses :: "string list" where
  "success_flow_statuses =
     [''ready'', ''completed'', ''complete'', ''finished'', ''succeeded'', ''success'']"

definition first_some :: "'a option list \<Rightarrow> 'a option" where
  "first_some xs = (case List.map_filter id xs of [] \<Rightarrow> None | x # _ \<Rightarrow> Some x)"

definition current_flow_action :: "pydict list \<Rightarrow> int option \<Rightarrow> pydict option" where
  "current_flow_action actions current_index =
     (let by_index = (case current_index of None \<Rightarrow> None
            | Some i \<Rightarrow> find (\<lambda>a. integer_of (dget a ''action_index'') = Some i) actions)
      in case by_index of Some a \<Rightarrow> Some a
         | None \<Rightarrow> first_some (map (\<lambda>st.
               find (\<lambda>a. text_of (dget a ''status'') = Some st) actions) stopped_action_statuses))"

definition parse_flow_pointer :: "pyval \<Rightarrow> int \<Rightarrow> int \<Rightarrow> flow_pointer option" where
  "parse_flow_pointer value revision generation =
     (case value of
        PDict flow \<Rightarrow>
          (let flow_id = first_some [text_of (dget flow ''id''), text_of (dget flow ''filename''),
                 text_of (dget flow ''fid'')];
               status = text_of (dget flow ''status'') in
           case (flow_id, status) of
             (Some fid, Some st) \<Rightarrow>
               (let actions = flow_actions flow;
                    current_index = integer_of (dget flow ''current_action_index'');
                    pointer = (\<lambda>index command completed.
                      \<lparr> fp_revision = revision, fp_flow_id = fid, fp_status = st,
                        fp_action_index = index, fp_action_command = command,
                        fp_filename = text_of (dget flow ''filename''),
                        fp_fid = text_of (dget flow ''fid''),
                        fp_flow_commit = text_of (dget flow ''flow_commit''),
                        fp_raw = flow, fp_generation = generation, fp_completed = completed \<rparr>) in
                if current_index = Some (plen actions) \<and> casefold st \<in> set success_flow_statuses
                then Some (pointer None None True)
                else case current_flow_action actions current_index of
                  None \<Rightarrow> None
                | Some current \<Rightarrow>
                    (case (integer_of (dget current ''action_index''), text_of (dget current ''command'')) of
                       (Some i, Some c) \<Rightarrow> if i < 0 then None else Some (pointer (Some i) (Some c) False)
                     | _ \<Rightarrow> None))
           | _ \<Rightarrow> None)
      | _ \<Rightarrow> None)"

section \<open>The state of a session\<close>

datatype future = FuturePending | FutureResult command_receipt | FutureError py_error

record robot_session =
  rs_websocket :: "nat option"
  rs_connected :: bool
  rs_generation :: int
  rs_flow_revision :: int
  rs_latest_flow :: "flow_pointer option"
  rs_flow_history :: "flow_frame list"
  rs_commands_revision :: int
  rs_latest_commands :: "commands_frame option"
  rs_pending :: "string \<rightharpoonup> future"
  rs_wire :: "(nat \<times> pydict) list"

definition flow_history_limit :: nat where "flow_history_limit = 512"

definition new_session :: robot_session where
  "new_session = \<lparr> rs_websocket = None, rs_connected = False, rs_generation = 0,
     rs_flow_revision = 0, rs_latest_flow = None, rs_flow_history = [],
     rs_commands_revision = 0, rs_latest_commands = None, rs_pending = Map.empty, rs_wire = [] \<rparr>"

text \<open>\<open>deque(maxlen=n).append\<close> drops the oldest entries.\<close>

definition deque_append :: "nat \<Rightarrow> 'a \<Rightarrow> 'a list \<Rightarrow> 'a list" where
  "deque_append n x xs = drop (Suc (length xs) - n) (xs @ [x])"

subsection \<open>Connections\<close>

definition activate_connection :: "nat \<Rightarrow> robot_session \<Rightarrow> robot_session" where
  "activate_connection websocket s = s\<lparr> rs_websocket := Some websocket,
     rs_generation := rs_generation s + 1, rs_latest_flow := None,
     rs_latest_commands := None, rs_connected := True \<rparr>"

definition invalidate_connection :: "robot_session \<Rightarrow> robot_session" where
  "invalidate_connection s = s\<lparr> rs_websocket := None, rs_connected := False,
     rs_latest_flow := None, rs_latest_commands := None \<rparr>"

definition reject_pending_unknown :: "robot_session \<Rightarrow> robot_session" where
  "reject_pending_unknown s = s\<lparr> rs_pending := (\<lambda>k. case rs_pending s k of
       Some FuturePending \<Rightarrow> Some (FutureError OutcomeUnknownError) | other \<Rightarrow> other) \<rparr>"

text \<open>The \<open>finally\<close> clause of \<open>run\<close>: \<open>websocket\<close> is None when connecting failed.\<close>

definition connection_closed :: "nat option \<Rightarrow> robot_session \<Rightarrow> robot_session" where
  "connection_closed websocket s =
     reject_pending_unknown (if rs_websocket s = websocket then invalidate_connection s else s)"

definition next_reconnect_delay :: "rat \<Rightarrow> rat \<Rightarrow> rat" where
  "next_reconnect_delay maximum delay = min (delay * 2) maximum"

subsection \<open>Incoming frames\<close>

definition settle :: "string \<Rightarrow> future \<Rightarrow> robot_session \<Rightarrow> robot_session" where
  "settle request_id f s = s\<lparr> rs_pending := (rs_pending s)(request_id \<mapsto> f) \<rparr>"

definition settle_response :: "pydict \<Rightarrow> robot_session \<Rightarrow> robot_session" where
  "settle_response response s =
     (case text_of (dget response ''request_id'') of
        None \<Rightarrow> s
      | Some request_id \<Rightarrow>
          if rs_pending s request_id \<noteq> Some FuturePending then s
          else if \<not> has_key response ''error''
            then settle request_id (FutureError OutcomeUnknownError) s
          else (case dget response ''error'' of
              PNone \<Rightarrow> settle request_id (FutureResult
                \<lparr> cr_result = dget response ''result'', cr_generation = rs_generation s,
                  cr_flow_revision = rs_flow_revision s \<rparr>) s
            | PStr e \<Rightarrow> settle request_id
                (FutureError (if strip e \<noteq> [] then RejectedError else OutcomeUnknownError)) s
            | _ \<Rightarrow> settle request_id (FutureError OutcomeUnknownError) s))"

definition receive_commands :: "pydict \<Rightarrow> robot_session \<Rightarrow> robot_session" where
  "receive_commands commands s = s\<lparr> rs_commands_revision := rs_commands_revision s + 1,
     rs_latest_commands := Some \<lparr> cf_revision = rs_commands_revision s + 1,
       cf_generation = rs_generation s, cf_commands = commands \<rparr> \<rparr>"

definition receive_flow :: "pyval \<Rightarrow> robot_session \<Rightarrow> robot_session" where
  "receive_flow flow s =
     (let revision = rs_flow_revision s + 1;
          pointer = parse_flow_pointer flow revision (rs_generation s)
      in s\<lparr> rs_flow_revision := revision, rs_latest_flow := pointer,
            rs_flow_history := deque_append flow_history_limit
              \<lparr> ff_revision = revision, ff_generation = rs_generation s, ff_pointer = pointer \<rparr>
              (rs_flow_history s) \<rparr>)"

definition handle_payload :: "pydict \<Rightarrow> robot_session \<Rightarrow> robot_session" where
  "handle_payload payload s =
     (let s1 = (case dget payload ''response'' of PDict r \<Rightarrow> settle_response r s | _ \<Rightarrow> s);
          s2 = (case dget payload ''commands'' of PDict c \<Rightarrow> receive_commands c s1 | _ \<Rightarrow> s1)
      in if has_key payload ''flow'' then receive_flow (dget payload ''flow'') s2 else s2)"

datatype ws_message = TextMessage string | BinaryMessage string

text \<open>
  UTF-8 decoding of bytes to the characters of \<open>Py_Value\<close>; sequences that denote a code
  point beyond its range are refused like invalid ones.
\<close>

fun utf8_decode :: "string \<Rightarrow> string option" where
  "utf8_decode [] = Some []"
| "utf8_decode (b # bs) =
     (if cpt b < 128 then map_option ((#) b) (utf8_decode bs)
      else if cpt b = 194 \<or> cpt b = 195 then
        (case bs of
           c # cs \<Rightarrow> (if 128 \<le> cpt c \<and> cpt c < 192
             then map_option ((#) (char_of ((cpt b - 192) * 64 + (cpt c - 128)))) (utf8_decode cs)
             else None)
         | [] \<Rightarrow> None)
      else None)"

definition handle_message :: "ws_message \<Rightarrow> robot_session \<Rightarrow> robot_session" where
  "handle_message message s =
     (case (case message of TextMessage t \<Rightarrow> Some t | BinaryMessage b \<Rightarrow> utf8_decode b) of
        None \<Rightarrow> s
      | Some t \<Rightarrow> (case json_loads t of Some (PDict payload) \<Rightarrow> handle_payload payload s | _ \<Rightarrow> s))"

subsection \<open>Sending a command\<close>

text \<open>
  \<open>request_command\<close> has three points at which other tasks run: before the send lock is
  held, during the send, and while the response is awaited. \<open>start_request\<close>,
  \<open>dispatch_request\<close> and \<open>await_response\<close> are the code between them. The request id,
  a fresh UUID, is an argument.
\<close>

record request_ticket =
  rt_id :: string
  rt_websocket :: nat
  rt_generation :: int
  rt_payload :: pydict

definition start_request ::
  "string \<Rightarrow> string \<Rightarrow> string \<Rightarrow> pydict \<Rightarrow> robot_session \<Rightarrow> request_ticket result \<times> robot_session" where
  "start_request sysid request_id command arguments s =
     (case rs_websocket s of
        None \<Rightarrow> (Inl NotSentError, s)
      | Some websocket \<Rightarrow>
          if \<not> rs_connected s then (Inl NotSentError, s)
          else if strip command = [] then (Inl ValueErr, s)
          else (Inr \<lparr> rt_id = request_id, rt_websocket = websocket, rt_generation = rs_generation s,
                   rt_payload =
                     [(''command'', PStr (strip command)), (''arguments'', PDict arguments),
                      (''request_id'', PStr request_id), (''sysid'', PStr sysid),
                      (''sender'', PDict [(''name'', PStr ''failure-resolver''),
                         (''email'', PNone), (''image'', PNone)])] \<rparr>,
                settle request_id FuturePending s))"

datatype send_outcome = SendDone | SendFailed | SendCancelled

definition pop_pending :: "string \<Rightarrow> robot_session \<Rightarrow> robot_session" where
  "pop_pending request_id s = s\<lparr> rs_pending := (rs_pending s)(request_id := None) \<rparr>"

definition dispatch_request ::
  "request_ticket \<Rightarrow> send_outcome \<Rightarrow> robot_session \<Rightarrow> unit result \<times> robot_session" where
  "dispatch_request t outcome s =
     (if rs_websocket s \<noteq> Some (rt_websocket t) \<or> \<not> rs_connected s \<or> rs_generation s \<noteq> rt_generation t
      then (Inl NotSentError, pop_pending (rt_id t) s)
      else if \<not> finite_floats (PDict (rt_payload t))
        then (Inl OutcomeUnknownError, pop_pending (rt_id t) s)
      else (case outcome of
          SendDone \<Rightarrow> (Inr (), s\<lparr> rs_wire := rs_wire s @ [(rt_websocket t, rt_payload t)] \<rparr>)
        | SendFailed \<Rightarrow> (Inl OutcomeUnknownError, pop_pending (rt_id t) s)
        | SendCancelled \<Rightarrow> (Inl CancelledErr, s)))"

datatype wake_up = FutureDone | WaitTimeout | WaitCancelled

definition await_response ::
  "request_ticket \<Rightarrow> wake_up \<Rightarrow> robot_session \<Rightarrow> command_receipt result \<times> robot_session" where
  "await_response t wake s =
     ((case wake of
         WaitTimeout \<Rightarrow> Inl OutcomeUnknownError
       | WaitCancelled \<Rightarrow> Inl CancelledErr
       | FutureDone \<Rightarrow>
           (case rs_pending s (rt_id t) of
              Some (FutureResult receipt) \<Rightarrow>
                (if \<not> rs_connected s \<or> rs_generation s \<noteq> rt_generation t
                 then Inl OutcomeUnknownError else Inr receipt)
            | Some (FutureError e) \<Rightarrow> Inl e
            | _ \<Rightarrow> Inl OutcomeUnknownError)),
      pop_pending (rt_id t) s)"

subsection \<open>Waiting\<close>

definition current_commands_available :: "int \<Rightarrow> robot_session \<Rightarrow> commands_frame option result" where
  "current_commands_available generation s =
     guardE (rs_connected s \<and> rs_generation s = generation) NotSentError
     (Inr (case rs_latest_commands s of
        Some frame \<Rightarrow> (if cf_generation frame = generation then Some frame else None)
      | None \<Rightarrow> None))"

text \<open>
  A waiter evaluates its condition in every state in which it is notified; the list holds
  those states, and the timeout strikes where it ends.
\<close>

fun wait_for_commands :: "int \<Rightarrow> robot_session list \<Rightarrow> commands_frame result" where
  "wait_for_commands generation [] = Inl NotSentError"
| "wait_for_commands generation (s # ss) =
     bindE (current_commands_available generation s) (\<lambda>frame.
       case frame of Some f \<Rightarrow> Inr f | None \<Rightarrow> wait_for_commands generation ss)"

text \<open>
  The predicate of a Flow waiter may carry a boolean state of its own (a nonlocal of its
  closure); it is applied to every fresh frame once, in order.
\<close>

type_synonym flow_predicate = "bool \<Rightarrow> flow_pointer option \<Rightarrow> bool \<times> bool"

record flow_waiter =
  fw_cursor :: int
  fw_state :: bool
  fw_selected :: "flow_pointer option option"

fun scan_history :: "flow_predicate \<Rightarrow> int \<Rightarrow> flow_frame list \<Rightarrow> flow_waiter \<Rightarrow> flow_waiter" where
  "scan_history predicate generation [] w = w"
| "scan_history predicate generation (frame # frames) w =
     (if ff_revision frame \<le> fw_cursor w \<or> ff_generation frame \<noteq> generation
      then scan_history predicate generation frames w
      else (case predicate (fw_state w) (ff_pointer frame) of
          (decisive, st) \<Rightarrow>
            (let w' = w\<lparr> fw_cursor := ff_revision frame, fw_state := st \<rparr> in
             if decisive then w'\<lparr> fw_selected := Some (ff_pointer frame) \<rparr>
             else scan_history predicate generation frames w')))"

definition changed_and_matches ::
  "flow_predicate \<Rightarrow> int \<Rightarrow> robot_session \<Rightarrow> flow_waiter \<Rightarrow> flow_waiter result" where
  "changed_and_matches predicate generation s w =
     guardE (rs_connected s \<and> rs_generation s = generation) OutcomeUnknownError
     (Inr (scan_history predicate generation (rs_flow_history s) w))"

fun wait_for_flow ::
  "flow_predicate \<Rightarrow> int \<Rightarrow> flow_waiter \<Rightarrow> robot_session list \<Rightarrow> flow_pointer option result" where
  "wait_for_flow predicate generation w [] = Inl OutcomeUnknownError"
| "wait_for_flow predicate generation w (s # ss) =
     bindE (changed_and_matches predicate generation s w) (\<lambda>w'.
       case fw_selected w' of
         Some selected \<Rightarrow> Inr selected
       | None \<Rightarrow> wait_for_flow predicate generation w' ss)"

definition new_waiter :: "bool \<Rightarrow> int \<Rightarrow> flow_waiter" where
  "new_waiter st after_revision =
     \<lparr> fw_cursor = after_revision, fw_state = st, fw_selected = None \<rparr>"

section \<open>The session as a step system\<close>

inductive session_step :: "robot_session \<Rightarrow> robot_session \<Rightarrow> bool" where
  connect: "rs_websocket s = None \<Longrightarrow> session_step s (activate_connection websocket s)"
| receive: "rs_connected s \<Longrightarrow> session_step s (handle_message message s)"
| close: "session_step s (connection_closed websocket s)"
| request: "session_step s (snd (start_request sysid request_id command arguments s))"
| dispatch: "session_step s (snd (dispatch_request ticket outcome s))"
| respond: "session_step s (snd (await_response ticket wake s))"

inductive_cases session_stepE: "session_step s t"

section \<open>Invariants of a session\<close>

definition pointer_stamped :: "int \<Rightarrow> int \<Rightarrow> flow_pointer option \<Rightarrow> bool" where
  "pointer_stamped revision generation p \<longleftrightarrow>
     (\<forall>q. p = Some q \<longrightarrow> fp_revision q = revision \<and> fp_generation q = generation)"

definition history_inv :: "robot_session \<Rightarrow> bool" where
  "history_inv s \<longleftrightarrow>
     sorted_wrt (<) (map ff_revision (rs_flow_history s)) \<and>
     length (rs_flow_history s) \<le> flow_history_limit \<and>
     (\<forall>f \<in> set (rs_flow_history s). ff_revision f \<le> rs_flow_revision s \<and>
        ff_generation f \<le> rs_generation s \<and>
        pointer_stamped (ff_revision f) (ff_generation f) (ff_pointer f))"

definition live_inv :: "robot_session \<Rightarrow> bool" where
  "live_inv s \<longleftrightarrow>
     (rs_connected s \<longleftrightarrow> rs_websocket s \<noteq> None) \<and>
     (rs_latest_flow s \<noteq> None \<longrightarrow> rs_connected s) \<and>
     pointer_stamped (rs_flow_revision s) (rs_generation s) (rs_latest_flow s) \<and>
     (\<forall>c. rs_latest_commands s = Some c \<longrightarrow> rs_connected s \<and>
        cf_generation c = rs_generation s \<and> cf_revision c = rs_commands_revision s)"

definition receipts_inv :: "robot_session \<Rightarrow> bool" where
  "receipts_inv s \<longleftrightarrow> (\<forall>k r. rs_pending s k = Some (FutureResult r) \<longrightarrow>
     cr_generation r \<le> rs_generation s \<and> cr_flow_revision r \<le> rs_flow_revision s)"

definition session_inv :: "robot_session \<Rightarrow> bool" where
  "session_inv s \<longleftrightarrow> history_inv s \<and> live_inv s \<and> receipts_inv s"

lemmas session_inv_defs = session_inv_def history_inv_def live_inv_def receipts_inv_def

lemma parse_flow_pointer_stamped: "pointer_stamped r g (parse_flow_pointer v r g)"
  by (auto simp: pointer_stamped_def parse_flow_pointer_def Let_def
      split: pyval.splits option.splits if_splits)

lemma deque_append_props:
  "length xs \<le> n \<Longrightarrow> 0 < n \<Longrightarrow> length (deque_append n x xs) \<le> n"
  "set (deque_append n x xs) \<subseteq> insert x (set xs)"
  by (auto simp: deque_append_def dest: in_set_dropD)

lemma sorted_deque_append:
  "sorted_wrt (<) (map f xs) \<Longrightarrow> (\<forall>y \<in> set xs. f y < f x) \<Longrightarrow>
   sorted_wrt (<) (map f (deque_append n x xs))" for f :: "'a \<Rightarrow> int"
  unfolding deque_append_def drop_map [symmetric]
  by (rule sorted_wrt_drop) (auto simp: sorted_wrt_append)

text \<open>Each operation keeps the invariant.\<close>

lemma session_inv_settle [simp]:
  "session_inv s \<Longrightarrow> (\<forall>r. f = FutureResult r \<longrightarrow>
     cr_generation r \<le> rs_generation s \<and> cr_flow_revision r \<le> rs_flow_revision s) \<Longrightarrow>
   session_inv (settle k f s)"
  by (auto simp: session_inv_defs settle_def)

lemma session_inv_pop [simp]: "session_inv s \<Longrightarrow> session_inv (pop_pending k s)"
  by (auto simp: session_inv_defs pop_pending_def)

lemma session_inv_settle_response: "session_inv s \<Longrightarrow> session_inv (settle_response r s)"
  by (auto simp: settle_response_def split: option.splits pyval.splits)

lemma settle_response_frame [simp]:
  "rs_connected (settle_response r s) = rs_connected s"
  "rs_generation (settle_response r s) = rs_generation s"
  "rs_flow_revision (settle_response r s) = rs_flow_revision s"
  by (auto simp: settle_response_def settle_def split: option.splits pyval.splits)

lemma session_inv_receive_commands:
  "session_inv s \<Longrightarrow> rs_connected s \<Longrightarrow> session_inv (receive_commands c s)"
  by (auto simp: session_inv_defs receive_commands_def)

lemma session_inv_receive_flow:
  assumes inv: "session_inv s" and up: "rs_connected s"
  shows "session_inv (receive_flow v s)"
proof -
  let ?r = "rs_flow_revision s + 1" and ?g = "rs_generation s"
  let ?frame = "\<lparr> ff_revision = ?r, ff_generation = ?g, ff_pointer = parse_flow_pointer v ?r ?g \<rparr>"
  let ?h = "deque_append flow_history_limit ?frame (rs_flow_history s)"
  have sub: "set ?h \<subseteq> insert ?frame (set (rs_flow_history s))" by (rule deque_append_props)
  have "sorted_wrt (<) (map ff_revision ?h)"
    using inv by (intro sorted_deque_append) (auto simp: session_inv_defs)
  moreover have "length ?h \<le> flow_history_limit"
    using inv by (intro deque_append_props) (auto simp: session_inv_defs flow_history_limit_def)
  moreover have "\<forall>f \<in> set ?h. ff_revision f \<le> ?r \<and> ff_generation f \<le> ?g \<and>
      pointer_stamped (ff_revision f) (ff_generation f) (ff_pointer f)"
    using sub inv parse_flow_pointer_stamped by (fastforce simp: session_inv_defs)
  moreover have "receipts_inv (receive_flow v s)"
    using inv by (auto simp: session_inv_def receipts_inv_def receive_flow_def Let_def) fastforce
  moreover have "live_inv (receive_flow v s)"
    using inv up parse_flow_pointer_stamped
    by (auto simp: session_inv_def live_inv_def receive_flow_def Let_def)
  ultimately show ?thesis
    by (simp add: session_inv_def history_inv_def receive_flow_def Let_def)
qed

lemma receive_commands_connected [simp]: "rs_connected (receive_commands c s) = rs_connected s"
  by (simp add: receive_commands_def)

lemma session_inv_handle_payload:
  "session_inv s \<Longrightarrow> rs_connected s \<Longrightarrow> session_inv (handle_payload p s)"
  by (auto simp: handle_payload_def Let_def session_inv_settle_response
      session_inv_receive_commands session_inv_receive_flow split: pyval.splits)

lemma session_inv_handle_message:
  "session_inv s \<Longrightarrow> rs_connected s \<Longrightarrow> session_inv (handle_message m s)"
  by (auto simp: handle_message_def session_inv_handle_payload split: option.splits pyval.splits)

lemma session_inv_connection:
  "session_inv s \<Longrightarrow> session_inv (activate_connection w s)"
  "session_inv s \<Longrightarrow> session_inv (connection_closed w' s)"
  by (force simp: session_inv_defs activate_connection_def connection_closed_def
      reject_pending_unknown_def invalidate_connection_def pointer_stamped_def
      split: option.splits future.splits if_splits)+

lemma session_inv_request:
  "session_inv s \<Longrightarrow> session_inv (snd (start_request sysid k c a s))"
  "session_inv s \<Longrightarrow> session_inv (snd (dispatch_request t d s))"
  "session_inv s \<Longrightarrow> session_inv (snd (await_response t w s))"
  by (auto simp: start_request_def dispatch_request_def await_response_def Let_def
      split: option.splits send_outcome.splits)
    (auto simp: session_inv_defs)

lemma session_inv_step: "session_step s t \<Longrightarrow> session_inv s \<Longrightarrow> session_inv t"
  by (induction rule: session_step.induct)
    (auto intro: session_inv_connection session_inv_handle_message session_inv_request)

lemma session_inv_new: "session_inv new_session"
  by (simp add: session_inv_defs new_session_def pointer_stamped_def)

interpretation session: step_system "\<lambda>s. s = new_session" session_step session_inv
  by unfold_locales (auto intro: session_inv_new session_inv_step)

section \<open>What a Flow waiter returns\<close>

text \<open>
  A waiter returns the pointer of a frame it accepted: one of its generation, later than
  the revision it started from. When its state is set only by a frame that \<open>starts\<close> it, a
  set state means such a frame came before.
\<close>

definition started_between ::
  "(flow_pointer option \<Rightarrow> bool) \<Rightarrow> int \<Rightarrow> flow_frame set \<Rightarrow> int \<Rightarrow> int \<Rightarrow> bool" where
  "started_between starts generation frames after_revision bound \<longleftrightarrow>
     (\<exists>f \<in> frames. ff_generation f = generation \<and> after_revision < ff_revision f \<and>
        ff_revision f < bound \<and> starts (ff_pointer f))"

definition waiter_inv ::
  "(flow_pointer option \<Rightarrow> bool) \<Rightarrow> int \<Rightarrow> flow_frame set \<Rightarrow> int \<Rightarrow> flow_waiter \<Rightarrow> bool" where
  "waiter_inv starts generation frames after_revision w \<longleftrightarrow>
     after_revision \<le> fw_cursor w \<and>
     (fw_state w \<longrightarrow> started_between starts generation frames after_revision (fw_cursor w + 1))"

definition accepted_frame ::
  "flow_predicate \<Rightarrow> (flow_pointer option \<Rightarrow> bool) \<Rightarrow> int \<Rightarrow> flow_frame set \<Rightarrow> int \<Rightarrow>
   flow_pointer option \<Rightarrow> bool" where
  "accepted_frame predicate starts generation frames after_revision p \<longleftrightarrow>
     (\<exists>f \<in> frames. ff_pointer f = p \<and> ff_generation f = generation \<and>
        after_revision < ff_revision f \<and>
        (\<exists>st. fst (predicate st p) \<and>
           (st \<longrightarrow> started_between starts generation frames after_revision (ff_revision f))))"

lemma started_between_mono:
  "started_between P g F a b \<Longrightarrow> b \<le> c \<Longrightarrow> started_between P g F a c"
  by (fastforce simp: started_between_def)

lemma scan_history_accepts:
  assumes "\<And>st p d. predicate st p = (d, True) \<Longrightarrow> st \<or> starts p"
    and "set frames \<subseteq> F" and "waiter_inv starts g F a w" and "fw_selected w = None"
  shows "waiter_inv starts g F a (scan_history predicate g frames w) \<and>
    (\<forall>p. fw_selected (scan_history predicate g frames w) = Some p \<longrightarrow>
       accepted_frame predicate starts g F a p)"
  using assms(2-)
proof (induction frames arbitrary: w)
  case (Cons f frames)
  show ?case
  proof (cases "ff_revision f \<le> fw_cursor w \<or> ff_generation f \<noteq> g")
    case True
    then show ?thesis using Cons by simp
  next
    case fresh: False
    obtain d st where d: "predicate (fw_state w) (ff_pointer f) = (d, st)" by force
    let ?w = "w\<lparr> fw_cursor := ff_revision f, fw_state := st \<rparr>"
    from fresh have lt: "fw_cursor w < ff_revision f" and g: "ff_generation f = g" by simp_all
    from Cons.prems have a: "a \<le> fw_cursor w" and f: "f \<in> F" by (simp_all add: waiter_inv_def)
    have before: "started_between starts g F a (ff_revision f)" if "fw_state w"
      using that Cons.prems(2) lt by (auto simp: waiter_inv_def intro: started_between_mono)
    have inv: "waiter_inv starts g F a ?w"
    proof (cases "st \<and> \<not> fw_state w")
      case True
      then have "starts (ff_pointer f)" using assms(1) [of "fw_state w" "ff_pointer f" d] d by simp
      then show ?thesis using a lt g f by (auto simp: waiter_inv_def started_between_def)
    next
      case False
      then show ?thesis using a lt before by (auto simp: waiter_inv_def intro: started_between_mono)
    qed
    show ?thesis
    proof (cases d)
      case True
      have "accepted_frame predicate starts g F a (ff_pointer f)"
        using f g a lt d True before unfolding accepted_frame_def
        by (intro bexI [of _ f]) (auto intro!: exI [of _ "fw_state w"])
      moreover have "scan_history predicate g (f # frames) w = ?w\<lparr> fw_selected := Some (ff_pointer f) \<rparr>"
        using fresh d True by (simp add: Let_def)
      ultimately show ?thesis using inv by (simp add: waiter_inv_def)
    next
      case False
      then have "scan_history predicate g (f # frames) w = scan_history predicate g frames ?w"
        using fresh d by (simp add: Let_def)
      then show ?thesis using Cons.IH [of ?w] Cons.prems inv by simp
    qed
  qed
qed simp

lemma wait_for_flow_accepts:
  assumes "\<And>st p d. predicate st p = (d, True) \<Longrightarrow> st \<or> starts p"
    and "wait_for_flow predicate g w ss = Inr p"
    and "\<And>s. s \<in> set ss \<Longrightarrow> set (rs_flow_history s) \<subseteq> F"
    and "waiter_inv starts g F a w" and "fw_selected w = None"
  shows "accepted_frame predicate starts g F a p"
  using assms(2-)
proof (induction ss arbitrary: w)
  case (Cons s ss)
  let ?w = "scan_history predicate g (rs_flow_history s) w"
  have scan: "waiter_inv starts g F a ?w" "\<And>p. fw_selected ?w = Some p \<Longrightarrow>
      accepted_frame predicate starts g F a p"
    using scan_history_accepts [where frames = "rs_flow_history s" and F = F, OF assms(1)] Cons.prems by auto
  show ?case
  proof (cases "fw_selected ?w")
    case None
    with Cons.prems(1) have "wait_for_flow predicate g ?w ss = Inr p"
      by (auto simp: changed_and_matches_def result_simps)
    with Cons scan None show ?thesis by simp
  next
    case (Some q)
    with Cons.prems(1) have "q = p" by (auto simp: changed_and_matches_def result_simps)
    with Some scan show ?thesis by simp
  qed
qed simp

lemma new_waiter_inv: "waiter_inv starts g F a (new_waiter False a)" "fw_selected (new_waiter st a) = None"
  by (simp_all add: waiter_inv_def new_waiter_def)

section \<open>Receipts and the wire\<close>

lemma handle_message_cases:
  "handle_message m s = s \<or> (\<exists>payload. handle_message m s = handle_payload payload s)"
  by (auto simp: handle_message_def split: option.splits pyval.splits)

lemma handle_payload_frame:
  "rs_generation (handle_payload p s) = rs_generation s \<and> rs_wire (handle_payload p s) = rs_wire s"
  by (auto simp: handle_payload_def Let_def receive_flow_def receive_commands_def settle_response_def
      settle_def split: pyval.splits option.splits)

lemma handle_message_frame:
  "rs_generation (handle_message m s) = rs_generation s" "rs_wire (handle_message m s) = rs_wire s"
  using handle_message_cases [of m s] handle_payload_frame by auto

lemma request_frame:
  "rs_generation (snd (start_request sysid k c a s)) = rs_generation s"
  "rs_generation (snd (dispatch_request t d s)) = rs_generation s"
  "rs_generation (snd (await_response t w s)) = rs_generation s"
  "rs_wire (snd (start_request sysid k c a s)) = rs_wire s"
  "rs_wire (snd (await_response t w s)) = rs_wire s"
  by (auto simp: start_request_def dispatch_request_def await_response_def settle_def pop_pending_def
      Let_def split: option.splits send_outcome.splits)

lemma connection_frame:
  "rs_generation (connection_closed w s) = rs_generation s" "rs_wire (connection_closed w s) = rs_wire s"
  "rs_wire (activate_connection ws s) = rs_wire s"
  by (simp_all add: connection_closed_def reject_pending_unknown_def invalidate_connection_def
      activate_connection_def)

lemma generation_step: "session_step s t \<Longrightarrow> rs_generation s \<le> rs_generation t"
  by (erule session_stepE)
    (auto simp: handle_message_frame request_frame connection_frame activate_connection_def)

lemma generation_mono: "session_step\<^sup>*\<^sup>* s t \<Longrightarrow> rs_generation s \<le> rs_generation t"
  by (induction rule: rtranclp_induct) (auto dest: generation_step)

text \<open>A command leaves only through a dispatch, over the live connection of its request.\<close>

definition sent_live :: "robot_session \<Rightarrow> request_ticket \<Rightarrow> bool" where
  "sent_live s t \<longleftrightarrow> rs_connected s \<and> rs_websocket s = Some (rt_websocket t) \<and>
     rs_generation s = rt_generation t \<and> finite_floats (PDict (rt_payload t))"

lemma dispatch_request_cases:
  "dispatch_request t d s =
     (if sent_live s t \<and> d = SendDone
      then (Inr (), s\<lparr> rs_wire := rs_wire s @ [(rt_websocket t, rt_payload t)] \<rparr>)
      else if sent_live s t \<and> d = SendCancelled then (Inl CancelledErr, s)
      else (Inl (if rs_connected s \<and> rs_websocket s = Some (rt_websocket t) \<and>
               rs_generation s = rt_generation t then OutcomeUnknownError else NotSentError),
            pop_pending (rt_id t) s))"
  by (auto simp: dispatch_request_def sent_live_def split: send_outcome.splits)

lemma wire_step:
  "session_step s t \<Longrightarrow> rs_wire t = rs_wire s \<or>
     (\<exists>ticket. sent_live s ticket \<and> rs_wire t = rs_wire s @ [(rt_websocket ticket, rt_payload ticket)])"
  by (erule session_stepE)
    (auto simp: handle_message_frame request_frame connection_frame dispatch_request_cases pop_pending_def)

text \<open>A receipt for a request belongs to a generation no older than the request.\<close>

definition receipt_since :: "int \<Rightarrow> string \<Rightarrow> robot_session \<Rightarrow> bool" where
  "receipt_since g k s \<longleftrightarrow> (\<forall>r. rs_pending s k = Some (FutureResult r) \<longrightarrow> g \<le> cr_generation r)"

lemma receipt_since_settle:
  "receipt_since g k s \<Longrightarrow> g \<le> rs_generation s \<Longrightarrow> receipt_since g k (settle_response d s)"
  by (auto simp: receipt_since_def settle_response_def settle_def split: option.splits pyval.splits)

lemma receipt_since_payload:
  assumes "receipt_since g k s" "g \<le> rs_generation s" shows "receipt_since g k (handle_payload p s)"
proof -
  have "rs_pending (handle_payload p s) = rs_pending (case dget p ''response'' of
      PDict r \<Rightarrow> settle_response r s | _ \<Rightarrow> s)"
    by (auto simp: handle_payload_def Let_def receive_flow_def receive_commands_def split: pyval.splits)
  with receipt_since_settle [OF assms] assms(1) show ?thesis
    by (auto simp: receipt_since_def split: pyval.splits)
qed

lemma receipt_since_step:
  assumes "session_step s t" "receipt_since g k s" "g \<le> rs_generation s"
  shows "receipt_since g k t"
  using assms(1)
proof (cases rule: session_step.cases)
  case (receive m)
  then show ?thesis using handle_message_cases [of m s] receipt_since_payload [OF assms(2,3)] assms(2) by auto
qed (use assms(2) in \<open>auto simp: receipt_since_def activate_connection_def connection_closed_def
    reject_pending_unknown_def invalidate_connection_def start_request_def settle_def Let_def
    dispatch_request_cases await_response_def pop_pending_def split: option.splits future.splits if_splits\<close>)

lemma receipt_since_steps:
  "session_step\<^sup>*\<^sup>* s t \<Longrightarrow> receipt_since g k s \<Longrightarrow> g \<le> rs_generation s \<Longrightarrow>
   receipt_since g k t \<and> g \<le> rs_generation t"
  by (induction rule: rtranclp_induct) (auto intro: receipt_since_step dest: generation_step)

lemma await_response_receipt:
  "fst (await_response t w s) = Inr r \<Longrightarrow> w = FutureDone \<and> rs_connected s \<and>
     rs_generation s = rt_generation t \<and> rs_pending s (rt_id t) = Some (FutureResult r)"
  by (auto simp: await_response_def split: wake_up.splits option.splits future.splits if_splits)

lemma receipt_of_request:
  assumes "session_inv s0" and "start_request sysid k c a s0 = (Inr t, s1)"
    and "session_step\<^sup>*\<^sup>* s1 s2" and "fst (await_response t w s2) = Inr r"
  shows "cr_generation r = rt_generation t" and "cr_flow_revision r \<le> rs_flow_revision s2"
proof -
  from assms(2) have t: "rt_id t = k" "rt_generation t = rs_generation s1" and p: "receipt_since (rs_generation s1) k s1"
    by (auto simp: start_request_def settle_def receipt_since_def Let_def split: option.splits if_splits)
  have "session_inv s1" using session_inv_request(1) [OF assms(1)] assms(2) by (metis snd_conv)
  then have inv: "session_inv s2" using assms(3) by (blast intro: session.inv_steps)
  from await_response_receipt [OF assms(4)] have
    g: "rs_generation s2 = rt_generation t" and f: "rs_pending s2 k = Some (FutureResult r)" by (simp_all add: t)
  from inv f have le: "cr_generation r \<le> rs_generation s2" "cr_flow_revision r \<le> rs_flow_revision s2"
    by (auto simp: session_inv_def receipts_inv_def)
  from receipt_since_steps [OF assms(3) p] f have "rs_generation s1 \<le> cr_generation r"
    by (simp add: receipt_since_def)
  with le g t show "cr_generation r = rt_generation t" by simp
  from le show "cr_flow_revision r \<le> rs_flow_revision s2" by simp
qed

section \<open>What a pointer points at\<close>

lemma find_mem: "find P xs = Some x \<Longrightarrow> x \<in> set xs \<and> P x" "Some x = find P xs \<Longrightarrow> x \<in> set xs"
  by (auto simp: find_Some_iff dest: sym) (metis find_Some_iff nth_mem)

lemma first_some_mem: "first_some xs = Some x \<Longrightarrow> Some x \<in> set xs"
  by (induction xs) (auto simp: first_some_def map_filter_simps split: option.splits list.splits)

lemma current_flow_action_mem: "current_flow_action actions i = Some a \<Longrightarrow> a \<in> set actions"
  by (auto simp: current_flow_action_def stopped_action_statuses_def Let_def dest!: first_some_mem
      dest: find_mem split: option.splits)

lemma parse_flow_pointer_sound:
  assumes "parse_flow_pointer v revision generation = Some p"
  shows "v = PDict (fp_raw p)"
    and "fp_completed p \<Longrightarrow> fp_action_index p = None \<and> fp_action_command p = None \<and>
      casefold (fp_status p) \<in> set success_flow_statuses"
    and "\<not> fp_completed p \<Longrightarrow> \<exists>a \<in> set (flow_actions (fp_raw p)). \<exists>i c.
      fp_action_index p = Some i \<and> fp_action_command p = Some c \<and> 0 \<le> i \<and>
      dget a ''action_index'' = PInt i \<and> text_of (dget a ''command'') = Some c"
proof -
  from assms obtain flow where v: "v = PDict flow" and raw: "fp_raw p = flow"
    by (auto simp: parse_flow_pointer_def Let_def split: pyval.splits option.splits if_splits)
  then show "v = PDict (fp_raw p)" by simp
  show "fp_completed p \<Longrightarrow> fp_action_index p = None \<and> fp_action_command p = None \<and>
      casefold (fp_status p) \<in> set success_flow_statuses"
    using assms v by (auto simp: parse_flow_pointer_def Let_def split: option.splits if_splits)
  assume "\<not> fp_completed p"
  with assms v obtain a i c where a: "current_flow_action (flow_actions flow)
      (integer_of (dget flow ''current_action_index'')) = Some a"
    "integer_of (dget a ''action_index'') = Some i" "text_of (dget a ''command'') = Some c"
    "fp_action_index p = Some i" "fp_action_command p = Some c" "0 \<le> i"
    by (auto simp: parse_flow_pointer_def Let_def split: option.splits if_splits)
  from a(2) have "dget a ''action_index'' = PInt i" by (auto simp: integer_of_def split: pyval.splits)
  with a current_flow_action_mem [OF a(1)] raw
  show "\<exists>a \<in> set (flow_actions (fp_raw p)). \<exists>i c.
      fp_action_index p = Some i \<and> fp_action_command p = Some c \<and> 0 \<le> i \<and>
      dget a ''action_index'' = PInt i \<and> text_of (dget a ''command'') = Some c" by blast
qed

end
