(* ===== verification/Recovery_Plan.thy ===== *)
theory Recovery_Plan
  imports Robot_Session
begin

text \<open>
  Parsing of an untrusted action list into a recovery plan (\<open>parse_recovery_plan\<close> of
  \<^verbatim>\<open>recovery_executor.py\<close>): at most nine corrections without meta-commands, then exactly
  one terminal \<open>$rerun\<close> or guarded \<open>$resume_flow\<close>. \<open>wf_plan\<close> is what a parsed plan
  satisfies.
\<close>

section \<open>Plans\<close>

record recovery_action =
  ra_command :: string
  ra_arguments :: pydict
  ra_arguments_effective :: "pydict option"
  ra_explicit_arguments :: "string list option"

record flow_action_context =
  fc_action_index :: int
  fc_command :: string
  fc_area_name :: string
  fc_item_name :: string

record recovery_plan =
  rp_corrections :: "recovery_action list"
  rp_terminal_command :: string
  rp_terminal_arguments :: pydict
  rp_rewind_steps :: int
  rp_resume_mode :: string
  rp_legacy_retry_index :: "int option"
  rp_legacy_retry_command :: "string option"
  rp_legacy_retry_context :: "flow_action_context option"
  rp_legacy_expected_next :: "flow_action_context option"
  rp_legacy_expected_next_present :: bool
  rp_captured_action_index :: "int option"
  rp_captured_action_command :: "string option"
  rp_captured_current_context :: "flow_action_context option"
  rp_captured_target_context :: "flow_action_context option"

definition terminal_commands :: "string list" where
  "terminal_commands = [''$rerun'', ''$resume_flow'']"

definition allowed_action_fields :: "string list" where
  "allowed_action_fields = [''command'', ''title'', ''arguments'', ''arguments_effective'',
     ''explicit_arguments'', ''retry_context'', ''continuation_context'']"

definition allowed_resume_arguments :: "string list" where
  "allowed_resume_arguments = [''mode'', ''rewind_steps'', ''current_action_index'',
     ''current_command'', ''flow_id'', ''filename'', ''fid'', ''flow_commit'']"

definition max_actions :: int where "max_actions = 10"
definition max_rewind_steps :: int where "max_rewind_steps = 5"
definition max_command_length :: int where "max_command_length = 128"
definition max_argument_bytes :: int where "max_argument_bytes = 32 * 1024"
definition max_action_index :: int where "max_action_index = 1000000"

definition only_keys :: "pydict \<Rightarrow> string list \<Rightarrow> bool" where
  "only_keys d allowed \<longleftrightarrow> list_all (\<lambda>k. k \<in> set allowed) (dkeys d)"

definition optional_text :: "pydict \<Rightarrow> string \<Rightarrow> int \<Rightarrow> unit result" where
  \<comment> \<open>\<open>if key in d: _required_text(d.get(key), ...)\<close>\<close>
  "optional_text d key max_length =
     (if has_key d key then bindE (required_text (dget d key) max_length) (\<lambda>_. Inr ()) else Inr ())"

section \<open>One action\<close>

text \<open>The recorded explicit arguments must carry their values in \<open>arguments_effective\<close>.\<close>

fun check_provenance :: "pydict \<Rightarrow> pydict \<Rightarrow> pyval list \<Rightarrow> unit result" where
  "check_provenance effective arguments [] = Inr ()"
| "check_provenance effective arguments (key # keys) =
     (if \<not> hashable key then Inl TypeErr
      else with_str key (\<lambda>k.
        guardE (has_key effective k) ContractError
        (bindE (json_values_equal (dget effective k) (dget arguments k)) (\<lambda>same.
          guardE same ContractError (check_provenance effective arguments keys)))))"

definition check_effective :: "pydict \<Rightarrow> pydict \<Rightarrow> unit result" where
  "check_effective raw arguments =
     (if \<not> has_key raw ''arguments_effective'' then Inr ()
      else with_dict (dget raw ''arguments_effective'') (\<lambda>effective.
        bindE (validate_json (PDict effective)) (\<lambda>_.
        with_list (if has_key raw ''explicit_arguments'' then dget raw ''explicit_arguments''
                   else PList (map PStr (dkeys arguments)))
          (check_provenance effective arguments))))"

definition explicit_ok :: "pydict \<Rightarrow> pyval list \<Rightarrow> bool" where
  "explicit_ok arguments explicit \<longleftrightarrow>
     list_all is_str explicit \<and>
     (let names = List.map_filter as_str explicit in
      distinct names \<and>
      list_all (\<lambda>n. n \<noteq> [] \<and> strip n = n \<and> plen n \<le> max_command_length) names \<and>
      set names = set (dkeys arguments))"

definition check_explicit :: "pydict \<Rightarrow> pydict \<Rightarrow> unit result" where
  "check_explicit raw arguments =
     (if \<not> has_key raw ''explicit_arguments'' then Inr ()
      else with_list (dget raw ''explicit_arguments'') (\<lambda>explicit.
        guardE (explicit_ok arguments explicit) ContractError (Inr ())))"

definition parse_plan_action :: "pyval \<Rightarrow> (string \<times> pydict \<times> pydict) result" where
  "parse_plan_action value =
     with_dict value (\<lambda>raw.
       guardE (only_keys raw allowed_action_fields) ContractError
       (bindE (required_text (dget raw ''command'') max_command_length) (\<lambda>command.
        bindE (optional_text raw ''title'' 300) (\<lambda>_.
        with_dict (dget raw ''arguments'') (\<lambda>arguments.
        bindE (validate_json (PDict arguments)) (\<lambda>_.
        guardE (\<not> utf8_len (json_dumps (PDict arguments)) > max_argument_bytes) ContractError
        (bindE (check_effective raw arguments) (\<lambda>_.
         bindE (check_explicit raw arguments) (\<lambda>_.
           Inr (command, arguments, raw))))))))))"

definition check_correction :: "string \<times> pydict \<times> pydict \<Rightarrow> unit result" where
  "check_correction = (\<lambda>(command, arguments, raw).
     guardE (take 1 command \<noteq> ''$'') ContractError
     (guardE (\<not> (dget raw ''retry_context'' \<noteq> PNone \<or> dget raw ''continuation_context'' \<noteq> PNone))
        ContractError (Inr ())))"

definition correction_of :: "string \<times> pydict \<times> pydict \<Rightarrow> recovery_action" where
  "correction_of = (\<lambda>(command, arguments, raw).
     \<lparr> ra_command = command, ra_arguments = arguments,
       ra_arguments_effective = as_dict (dget raw ''arguments_effective''),
       ra_explicit_arguments = (case dget raw ''explicit_arguments'' of
           PList explicit \<Rightarrow> Some (List.map_filter as_str explicit) | _ \<Rightarrow> None) \<rparr>)"

section \<open>The terminal continuation\<close>

definition parse_continuation_action :: "pyval \<Rightarrow> flow_action_context result" where
  "parse_continuation_action value =
     with_dict value (\<lambda>d.
          guardE (only_keys d [''command'', ''description'', ''status'', ''areaName'', ''itemName'',
            ''actionIndex'']) ContractError
          (bindE (required_int (dget d ''actionIndex'') 0 max_action_index) (\<lambda>action_index.
           bindE (required_text (dget d ''command'') max_command_length) (\<lambda>command.
           bindE (required_text (dget d ''areaName'') 300) (\<lambda>area_name.
           bindE (required_text (dget d ''itemName'') 300) (\<lambda>item_name.
           bindE (optional_text d ''description'' 1000) (\<lambda>_.
           bindE (optional_text d ''status'' 1000) (\<lambda>_.
             Inr \<lparr> fc_action_index = action_index, fc_command = command,
                   fc_area_name = area_name, fc_item_name = item_name \<rparr>))))))))"

definition parse_rerun ::
  "recovery_action list \<Rightarrow> pydict \<Rightarrow> pydict \<Rightarrow> recovery_plan result" where
  "parse_rerun corrections terminal_arguments terminal_raw =
     guardE (\<not> dget terminal_raw ''continuation_context'' \<noteq> PNone) ContractError
     (guardE (terminal_arguments = []) ContractError
     (with_dict (dget terminal_raw ''retry_context'') (\<lambda>retry_context.
      with_dict (dget retry_context ''retried_action'') (\<lambda>retried_action.
      guardE (only_keys retry_context [''retried_action'', ''expected_next_action'']) ContractError
      (guardE (has_key retry_context ''expected_next_action'') ContractError
      (bindE (parse_continuation_action (PDict retried_action)) (\<lambda>retry_action.
       bindE (if dget retry_context ''expected_next_action'' = PNone then Inr None
              else bindE (parse_continuation_action (dget retry_context ''expected_next_action''))
                     (\<lambda>c. Inr (Some c))) (\<lambda>expected_next.
         Inr \<lparr> rp_corrections = corrections, rp_terminal_command = ''$rerun'',
               rp_terminal_arguments = [], rp_rewind_steps = 0,
               rp_resume_mode = ''retry_current'',
               rp_legacy_retry_index = Some (fc_action_index retry_action),
               rp_legacy_retry_command = Some (fc_command retry_action),
               rp_legacy_retry_context = Some retry_action,
               rp_legacy_expected_next = expected_next,
               rp_legacy_expected_next_present = True,
               rp_captured_action_index = None, rp_captured_action_command = None,
               rp_captured_current_context = None, rp_captured_target_context = None \<rparr>))))))))"

text \<open>The arguments of \<open>$resume_flow\<close>: mode, rewind, captured index and command.\<close>

definition parse_resume_arguments ::
  "pydict \<Rightarrow> (string \<times> int \<times> int \<times> string) result" where
  "parse_resume_arguments args =
     guardE (only_keys args allowed_resume_arguments) ContractError
     (with_str (dget args ''mode'') (\<lambda>mode.
      guardE (mode = ''retry_current'' \<or> mode = ''rewind'') ContractError
      (bindE (required_int (dget args ''rewind_steps'') 0 max_rewind_steps) (\<lambda>rewind_steps.
       guardE (\<not> (mode = ''retry_current'' \<and> rewind_steps \<noteq> 0)) ContractError
       (guardE (\<not> (mode = ''rewind'' \<and> rewind_steps = 0)) ContractError
       (bindE (required_text (dget args ''flow_id'') 300) (\<lambda>_.
        bindE (optional_text args ''filename'' 300) (\<lambda>_.
        bindE (optional_text args ''fid'' 300) (\<lambda>_.
        guardE (\<not> (has_key args ''filename'' \<and> has_key args ''fid'' \<and>
            \<not> py_eq (dget args ''filename'') (dget args ''fid''))) ContractError
        (bindE (if has_key args ''flow_commit'' \<and> dget args ''flow_commit'' \<noteq> PNone
                then bindE (required_text (dget args ''flow_commit'') 300) (\<lambda>_. Inr ())
                else Inr ()) (\<lambda>_.
         bindE (required_int (dget args ''current_action_index'') 0 max_action_index) (\<lambda>captured_index.
         bindE (required_text (dget args ''current_command'') max_command_length) (\<lambda>captured_command.
           Inr (mode, rewind_steps, captured_index, captured_command))))))))))))))"

definition parse_resume ::
  "recovery_action list \<Rightarrow> pydict \<Rightarrow> pydict \<Rightarrow> recovery_plan result" where
  "parse_resume corrections terminal_arguments terminal_raw =
     bindE (parse_resume_arguments terminal_arguments)
       (\<lambda>(mode, rewind_steps, captured_index, captured_command).
     with_dict (dget terminal_raw ''continuation_context'') (\<lambda>continuation.
     guardE (only_keys continuation [''expected_arguments'', ''current_action'', ''target_action''])
       ContractError
     (guardE (is_dict (dget continuation ''expected_arguments'') \<and>
         py_eq (dget continuation ''expected_arguments'') (PDict terminal_arguments)) ContractError
     (guardE (\<not> dget terminal_raw ''retry_context'' \<noteq> PNone) ContractError
     (bindE (parse_continuation_action (dget continuation ''current_action'')) (\<lambda>current.
      bindE (parse_continuation_action (dget continuation ''target_action'')) (\<lambda>target.
      guardE (\<not> (fc_action_index current \<noteq> captured_index \<or>
          fc_command current \<noteq> captured_command \<or>
          fc_action_index target \<noteq> captured_index - rewind_steps)) ContractError
      (guardE (\<not> (mode = ''retry_current'' \<and> target \<noteq> current)) ContractError
        (Inr \<lparr> rp_corrections = corrections, rp_terminal_command = ''$resume_flow'',
               rp_terminal_arguments = terminal_arguments, rp_rewind_steps = rewind_steps,
               rp_resume_mode = mode,
               rp_legacy_retry_index = None, rp_legacy_retry_command = None,
               rp_legacy_retry_context = None, rp_legacy_expected_next = None,
               rp_legacy_expected_next_present = False,
               rp_captured_action_index = Some captured_index,
               rp_captured_action_command = Some captured_command,
               rp_captured_current_context = Some current,
               rp_captured_target_context = Some target \<rparr>)))))))))"

section \<open>The plan\<close>

definition terminal_positions :: "(string \<times> 'b) list \<Rightarrow> nat list" where
  "terminal_positions parsed =
     filter (\<lambda>i. fst (parsed ! i) \<in> set terminal_commands) [0 ..< length parsed]"

definition plan_items :: "pyval \<Rightarrow> pyval list option" where
  "plan_items value = (case value of PList vs \<Rightarrow> Some vs | PTuple vs \<Rightarrow> Some vs | _ \<Rightarrow> None)"

definition parse_recovery_plan :: "pyval \<Rightarrow> recovery_plan result" where
  "parse_recovery_plan value =
     (case plan_items value of
        None \<Rightarrow> Inl ContractError
      | Some items \<Rightarrow>
          guardE (1 \<le> plen items \<and> plen items \<le> max_actions) ContractError
          (bindE (mapE parse_plan_action items) (\<lambda>parsed.
           guardE (terminal_positions parsed = [length parsed - 1]) ContractError
           (bindE (forE check_correction (butlast parsed)) (\<lambda>_.
            let corrections = map correction_of (butlast parsed);
                (terminal_command, terminal_arguments, terminal_raw) = last parsed
            in if terminal_command = ''$rerun''
               then parse_rerun corrections terminal_arguments terminal_raw
               else parse_resume corrections terminal_arguments terminal_raw)))))"

section \<open>What a parsed plan satisfies\<close>

definition wf_correction :: "recovery_action \<Rightarrow> bool" where
  "wf_correction a \<longleftrightarrow>
     ra_command a \<noteq> [] \<and> strip (ra_command a) = ra_command a \<and>
     plen (ra_command a) \<le> max_command_length \<and> take 1 (ra_command a) \<noteq> ''$'' \<and>
     ra_command a \<notin> set terminal_commands \<and>
     json_value (PDict (ra_arguments a)) \<and> node_count (PDict (ra_arguments a)) \<le> max_json_nodes \<and>
     (\<forall>names. ra_explicit_arguments a = Some names \<longrightarrow>
        distinct names \<and> set names = set (dkeys (ra_arguments a)))"

definition wf_context :: "flow_action_context \<Rightarrow> bool" where
  "wf_context c \<longleftrightarrow> 0 \<le> fc_action_index c \<and> fc_action_index c \<le> max_action_index \<and>
     fc_command c \<noteq> [] \<and> fc_area_name c \<noteq> [] \<and> fc_item_name c \<noteq> []"

definition wf_rerun :: "recovery_plan \<Rightarrow> bool" where
  "wf_rerun p \<longleftrightarrow>
     rp_terminal_command p = ''$rerun'' \<and> rp_terminal_arguments p = [] \<and>
     rp_rewind_steps p = 0 \<and> rp_resume_mode p = ''retry_current'' \<and>
     rp_legacy_expected_next_present p \<and> rp_captured_action_index p = None \<and>
     (\<exists>c. rp_legacy_retry_context p = Some c \<and> wf_context c \<and>
        rp_legacy_retry_index p = Some (fc_action_index c) \<and>
        rp_legacy_retry_command p = Some (fc_command c))"

definition wf_resume :: "recovery_plan \<Rightarrow> bool" where
  "wf_resume p \<longleftrightarrow>
     rp_terminal_command p = ''$resume_flow'' \<and> rp_legacy_retry_index p = None \<and>
     rp_legacy_retry_command p = None \<and>
     0 \<le> rp_rewind_steps p \<and> rp_rewind_steps p \<le> max_rewind_steps \<and>
     rp_resume_mode p = (if rp_rewind_steps p = 0 then ''retry_current'' else ''rewind'') \<and>
     dget (rp_terminal_arguments p) ''mode'' = PStr (rp_resume_mode p) \<and>
     dget (rp_terminal_arguments p) ''rewind_steps'' = PInt (rp_rewind_steps p) \<and>
     only_keys (rp_terminal_arguments p) allowed_resume_arguments \<and>
     (\<exists>c t. rp_captured_current_context p = Some c \<and> rp_captured_target_context p = Some t \<and>
        wf_context c \<and> wf_context t \<and>
        fc_action_index t = fc_action_index c - rp_rewind_steps p \<and>
        (rp_rewind_steps p = 0 \<longrightarrow> t = c) \<and>
        rp_captured_action_index p = Some (fc_action_index c) \<and>
        rp_captured_action_command p = Some (fc_command c) \<and>
        dget (rp_terminal_arguments p) ''current_action_index'' = PInt (fc_action_index c) \<and>
        dget (rp_terminal_arguments p) ''current_command'' = PStr (fc_command c))"

definition wf_plan :: "recovery_plan \<Rightarrow> bool" where
  "wf_plan p \<longleftrightarrow>
     length (rp_corrections p) < 10 \<and> list_all wf_correction (rp_corrections p) \<and>
     (wf_rerun p \<or> wf_resume p)"

lemma optional_text_eq_Inr [result_simps]:
  "optional_text d k m = Inr u \<longleftrightarrow>
     (has_key d k \<longrightarrow> (\<exists>s. dget d k = PStr s \<and> s \<noteq> [] \<and> strip s = s \<and> plen s \<le> m))"
  by (auto simp: optional_text_def result_simps)

lemma parse_continuation_action_wf:
  "parse_continuation_action v = Inr c \<Longrightarrow> wf_context c"
  by (auto simp: parse_continuation_action_def wf_context_def result_simps split: pyval.splits)

lemma parse_plan_action_command:
  "parse_plan_action v = Inr (command, arguments, raw) \<Longrightarrow>
     v = PDict raw \<and> dget raw ''command'' = PStr command \<and> dget raw ''arguments'' = PDict arguments \<and>
     command \<noteq> [] \<and> strip command = command \<and> plen command \<le> max_command_length \<and>
     json_value (PDict arguments) \<and> node_count (PDict arguments) \<le> max_json_nodes"
  by (auto simp: parse_plan_action_def result_simps split: pyval.splits)

lemma parse_plan_action_explicit:
  assumes "parse_plan_action v = Inr (command, arguments, raw)"
    and "dget raw ''explicit_arguments'' = PList explicit"
  shows "explicit_ok arguments explicit"
proof -
  have "has_key raw ''explicit_arguments''"
    using assms(2) not_has_key_dget by fastforce
  then show ?thesis using assms
    by (auto simp: parse_plan_action_def check_explicit_def result_simps split: pyval.splits)
qed

lemma correction_of_wf:
  assumes "parse_plan_action v = Inr x" and "check_correction x = Inr ()"
  shows "wf_correction (correction_of x)"
proof -
  obtain command arguments raw where x: "x = (command, arguments, raw)" by (cases x)
  have "take 1 command \<noteq> ''$''" using assms(2) by (simp add: x check_correction_def result_simps)
  moreover from this have "command \<notin> set terminal_commands" by (auto simp: terminal_commands_def)
  ultimately show ?thesis
    using parse_plan_action_command [OF assms(1) [unfolded x]]
      parse_plan_action_explicit [OF assms(1) [unfolded x]]
    by (auto simp: wf_correction_def correction_of_def x explicit_ok_def Let_def split: pyval.splits)
qed

lemma parse_rerun_wf: "parse_rerun cs args raw = Inr p \<Longrightarrow> wf_rerun p \<and> rp_corrections p = cs"
  by (auto simp: parse_rerun_def wf_rerun_def result_simps parse_continuation_action_wf
      split: pyval.splits if_splits)

lemma parse_resume_arguments_eq:
  "parse_resume_arguments args = Inr (mode, r, i, c) \<Longrightarrow>
     only_keys args allowed_resume_arguments \<and> dget args ''mode'' = PStr mode \<and>
     dget args ''rewind_steps'' = PInt r \<and> 0 \<le> r \<and> r \<le> max_rewind_steps \<and>
     mode = (if r = 0 then ''retry_current'' else ''rewind'') \<and>
     dget args ''current_action_index'' = PInt i \<and> dget args ''current_command'' = PStr c"
  by (auto simp: parse_resume_arguments_def result_simps split: pyval.splits)

lemma parse_resume_wf:
  assumes "parse_resume cs args raw = Inr p" shows "wf_resume p \<and> rp_corrections p = cs"
proof -
  from assms obtain mode r i c d current target where
    args: "parse_resume_arguments args = Inr (mode, r, i, c)"
    and current: "parse_continuation_action (dget d ''current_action'') = Inr current"
    and target: "parse_continuation_action (dget d ''target_action'') = Inr target"
    and same: "fc_action_index current = i" "fc_command current = c" "fc_action_index target = i - r"
      "mode = ''retry_current'' \<longrightarrow> target = current"
    and p: "p = \<lparr> rp_corrections = cs, rp_terminal_command = ''$resume_flow'',
               rp_terminal_arguments = args, rp_rewind_steps = r, rp_resume_mode = mode,
               rp_legacy_retry_index = None, rp_legacy_retry_command = None,
               rp_legacy_retry_context = None, rp_legacy_expected_next = None,
               rp_legacy_expected_next_present = False,
               rp_captured_action_index = Some i, rp_captured_action_command = Some c,
               rp_captured_current_context = Some current, rp_captured_target_context = Some target \<rparr>"
    by (auto simp: parse_resume_def result_simps)
  note wf = parse_continuation_action_wf [OF current] parse_continuation_action_wf [OF target]
  note a = parse_resume_arguments_eq [OF args]
  from a have "r = 0 \<longrightarrow> mode = ''retry_current''" by simp
  with a wf same show ?thesis unfolding wf_resume_def p by simp
qed

theorem parse_recovery_plan_wf: "parse_recovery_plan v = Inr p \<Longrightarrow> wf_plan p"
proof -
  assume "parse_recovery_plan v = Inr p"
  then obtain items parsed where len: "1 \<le> plen items" "plen items \<le> 10"
    and parsed: "list_all2 (\<lambda>v x. parse_plan_action v = Inr x) items parsed"
    and corr: "\<forall>x \<in> set (butlast parsed). check_correction x = Inr ()"
    and fin: "(case last parsed of (tc, ta, tr) \<Rightarrow>
        if tc = ''$rerun'' then parse_rerun (map correction_of (butlast parsed)) ta tr
        else parse_resume (map correction_of (butlast parsed)) ta tr) = Inr p"
    by (auto simp: parse_recovery_plan_def max_actions_def result_simps Let_def split: option.splits)
  obtain tc ta tr where "last parsed = (tc, ta, tr)" by (cases "last parsed")
  with fin have "(if tc = ''$rerun'' then parse_rerun (map correction_of (butlast parsed)) ta tr
      else parse_resume (map correction_of (butlast parsed)) ta tr) = Inr p" by simp
  then have "rp_corrections p = map correction_of (butlast parsed) \<and> (wf_rerun p \<or> wf_resume p)"
    using parse_rerun_wf [of _ ta tr p] parse_resume_wf [of _ ta tr p]
    by (cases "tc = ''$rerun''") auto
  moreover have "wf_correction (correction_of x)" if "x \<in> set (butlast parsed)" for x
    using that corr list_all2_mem2 [OF parsed in_set_butlastD [OF that]]
    by (auto intro: correction_of_wf)
  moreover have "length parsed \<le> 10" "0 < length parsed"
    using parsed len by (auto dest: list_all2_lengthD simp: plen_def)
  ultimately show ?thesis by (auto simp: wf_plan_def list_all_iff)
qed

end
