(* ===== verification/Recovery_Flow.thy ===== *)
theory Recovery_Flow
  imports Recovery_Plan
begin

text \<open>
  The live Flow as \<^verbatim>\<open>recovery_executor.py\<close> sees it: the enabled actions of the action
  tree, the comparison of a plan with the live tree, the guarded arguments of
  \<open>$resume_flow\<close>, and \<open>rebind_recovery_actions\<close>, which binds remembered actions to the
  Flow run of one captured failure. The lemmas show that a validated plan names exactly
  the live step and that rebinding changes nothing but the terminal action.
\<close>

section \<open>The action tree\<close>

definition enabled_dict :: "pyval \<Rightarrow> pydict option" where
  "enabled_dict v = (case v of
       PDict d \<Rightarrow> if is_true (dget d ''_disabled'') then None else Some d | _ \<Rightarrow> None)"

definition add_action ::
  "string \<Rightarrow> string \<Rightarrow> pyval \<Rightarrow> flow_action_context list \<Rightarrow> flow_action_context list result" where
  "add_action area_name item_name action contexts =
     (case enabled_dict action of
        None \<Rightarrow> Inr contexts
      | Some a \<Rightarrow>
          bindE (required_int (dget a ''action_index'') 0 max_action_index) (\<lambda>action_index.
          guardE (action_index \<notin> set (map fc_action_index contexts)) ContractError
          (bindE (required_text (dget a ''command'') max_command_length) (\<lambda>command.
             Inr (contexts @ [\<lparr> fc_action_index = action_index, fc_command = command,
               fc_area_name = area_name, fc_item_name = item_name \<rparr>])))))"

definition add_item ::
  "string \<Rightarrow> pyval \<Rightarrow> flow_action_context list \<Rightarrow> flow_action_context list result" where
  "add_item area_name item contexts =
     (case enabled_dict item of
        None \<Rightarrow> Inr contexts
      | Some it \<Rightarrow>
          bindE (required_text (dget it ''name'') 300) (\<lambda>item_name.
          with_list (dget it ''actions'') (\<lambda>actions.
            foldE (add_action area_name item_name) actions contexts)))"

definition add_area ::
  "pyval \<Rightarrow> flow_action_context list \<Rightarrow> flow_action_context list result" where
  "add_area area contexts =
     (case enabled_dict area of
        None \<Rightarrow> Inr contexts
      | Some ar \<Rightarrow>
          bindE (required_text (dget ar ''name'') 300) (\<lambda>area_name.
          with_list (dget ar ''items'') (\<lambda>items. foldE (add_item area_name) items contexts)))"

definition flow_action_contexts :: "pydict \<Rightarrow> flow_action_context list result" where
  "flow_action_contexts flow =
     with_list (dget flow ''areas'') (\<lambda>areas. foldE add_area areas [])"

definition context_at :: "flow_action_context list \<Rightarrow> int \<Rightarrow> flow_action_context option" where
  "context_at contexts i = find (\<lambda>c. fc_action_index c = i) contexts"

definition next_context ::
  "flow_action_context list \<Rightarrow> flow_action_context \<Rightarrow> flow_action_context option" where
  "next_context contexts c =
     (case dropWhile (\<lambda>d. d \<noteq> c) contexts of _ # n # _ \<Rightarrow> Some n | _ \<Rightarrow> None)"

section \<open>A plan against the live Flow\<close>

definition validate_plan_for_flow :: "recovery_plan \<Rightarrow> flow_pointer \<Rightarrow> unit result" where
  "validate_plan_for_flow plan pointer =
     (case (fp_completed pointer, fp_action_index pointer, fp_action_command pointer) of
        (False, Some index, Some command) \<Rightarrow>
          bindE (flow_action_contexts (fp_raw pointer)) (\<lambda>contexts.
          with_some (context_at contexts index) (\<lambda>live_current.
              guardE (fc_command live_current = command) ContractError
              (if rp_terminal_command plan = ''$resume_flow'' then
                 guardE (\<not> (rp_captured_current_context plan \<noteq> Some live_current \<or>
                     rp_captured_target_context plan
                       \<noteq> context_at contexts (index - rp_rewind_steps plan))) ContractError
                 (Inr ())
               else
                 guardE (\<not> (rp_terminal_command plan \<noteq> ''$rerun'' \<or>
                     rp_legacy_retry_context plan \<noteq> Some live_current \<or>
                     \<not> rp_legacy_expected_next_present plan)) ContractError
                 (guardE (rp_legacy_expected_next plan = next_context contexts live_current) ContractError
                 (Inr ())))))
      | _ \<Rightarrow> Inl ContractError)"

section \<open>The continuation command\<close>

definition opt_text :: "string option \<Rightarrow> pyval" where
  "opt_text o' = (case o' of None \<Rightarrow> PNone | Some s \<Rightarrow> PStr s)"

definition opt_int :: "int option \<Rightarrow> pyval" where
  "opt_int o' = (case o' of None \<Rightarrow> PNone | Some i \<Rightarrow> PInt i)"

definition guarded_payload :: "flow_pointer \<Rightarrow> string \<Rightarrow> int \<Rightarrow> int \<Rightarrow> string \<Rightarrow> pydict" where
  "guarded_payload pointer mode rewind_steps index command =
     [(''mode'', PStr mode), (''rewind_steps'', PInt rewind_steps),
      (''current_action_index'', PInt index), (''current_command'', PStr command),
      (''flow_id'', PStr (fp_flow_id pointer))]
     @ (case fp_filename pointer of Some f \<Rightarrow> [(''filename'', PStr f)] | None \<Rightarrow> [])
     @ (case fp_fid pointer of Some f \<Rightarrow> [(''fid'', PStr f)] | None \<Rightarrow> [])
     @ (if fp_flow_commit pointer \<noteq> None \<or> has_key (fp_raw pointer) ''flow_commit''
        then [(''flow_commit'', opt_text (fp_flow_commit pointer))] else [])"

definition resume_mode :: "string option \<Rightarrow> int \<Rightarrow> string" where
  \<comment> \<open>\<open>mode or ("retry_current" if rewind_steps == 0 else "rewind")\<close>\<close>
  "resume_mode mode rewind_steps =
     (if mode \<noteq> None \<and> mode \<noteq> Some [] then the mode
      else if rewind_steps = 0 then ''retry_current'' else ''rewind'')"

definition build_guarded_resume_arguments ::
  "flow_pointer \<Rightarrow> int \<Rightarrow> string option \<Rightarrow> pydict result" where
  "build_guarded_resume_arguments pointer rewind_steps mode =
     (case (fp_action_index pointer, fp_action_command pointer) of
        (Some index, Some command) \<Rightarrow>
          guardE (0 \<le> rewind_steps \<and> rewind_steps \<le> max_rewind_steps) ContractError
          (let selected_mode = resume_mode mode rewind_steps in
           guardE (selected_mode = ''retry_current'' \<or> selected_mode = ''rewind'') ContractError
           (guardE (\<not> (selected_mode = ''retry_current'' \<and> rewind_steps \<noteq> 0)) ContractError
           (Inr (guarded_payload pointer selected_mode rewind_steps index command))))
      | _ \<Rightarrow> Inl ContractError)"

definition resume_arguments_for_plan :: "recovery_plan \<Rightarrow> flow_pointer \<Rightarrow> pydict result" where
  "resume_arguments_for_plan plan pointer =
     (if rp_terminal_command plan = ''$rerun'' then
        build_guarded_resume_arguments pointer 0 (Some ''retry_current'')
      else
        guardE (rp_terminal_command plan = ''$resume_flow'') ContractError
        (let arguments = rp_terminal_arguments plan;
             fid_or_name = (case fp_fid pointer of Some f \<Rightarrow> Some f | None \<Rightarrow> fp_filename pointer) in
         guardE (py_eq (dget arguments ''current_action_index'') (opt_int (fp_action_index pointer)) \<and>
             py_eq (dget arguments ''current_command'') (opt_text (fp_action_command pointer)))
           ContractError
         (bindE (forE (\<lambda>(key, live_value).
              guardE (\<not> (has_key arguments key \<and> \<not> py_eq (dget arguments key) live_value))
                ContractError (Inr ()))
            [(''flow_id'', PStr (fp_flow_id pointer)), (''filename'', opt_text (fp_filename pointer)),
             (''fid'', opt_text fid_or_name), (''flow_commit'', opt_text (fp_flow_commit pointer))])
          (\<lambda>_. Inr arguments))))"

section \<open>Rebinding remembered actions\<close>

definition context_payload :: "flow_action_context \<Rightarrow> pydict" where
  "context_payload c = [(''actionIndex'', PInt (fc_action_index c)), (''command'', PStr (fc_command c)),
     (''areaName'', PStr (fc_area_name c)), (''itemName'', PStr (fc_item_name c))]"

definition same_place :: "flow_action_context \<Rightarrow> flow_action_context \<Rightarrow> bool" where
  "same_place a b \<longleftrightarrow> fc_command a = fc_command b \<and> fc_area_name a = fc_area_name b \<and>
     fc_item_name a = fc_item_name b"

definition is_paused :: "flow_pointer \<Rightarrow> bool" where
  "is_paused p \<longleftrightarrow> casefold (strip (fp_status p)) = ''paused''"

definition rebind_terminal ::
  "pydict \<Rightarrow> pydict \<Rightarrow> flow_action_context \<Rightarrow> flow_action_context \<Rightarrow> pydict" where
  "rebind_terminal terminal fresh_arguments live_current live_target =
     (let t1 = dset terminal ''arguments'' (PDict fresh_arguments);
          t2 = (if has_key t1 ''arguments_effective''
                then dset t1 ''arguments_effective'' (PDict fresh_arguments) else t1);
          t3 = (if has_key t2 ''explicit_arguments''
                then dset t2 ''explicit_arguments'' (PList (map PStr (dkeys fresh_arguments))) else t2)
      in dset t3 ''continuation_context'' (PDict
           [(''expected_arguments'', PDict fresh_arguments),
            (''current_action'', PDict (context_payload live_current)),
            (''target_action'', PDict (context_payload live_target))]))"

definition rebind_continuation ::
  "recovery_plan \<Rightarrow> pydict list \<Rightarrow> flow_pointer \<Rightarrow> int \<Rightarrow> pydict list result" where
  "rebind_continuation plan copied pointer action_index =
     with_some (rp_captured_current_context plan) (\<lambda>remembered_current.
     with_some (rp_captured_target_context plan) (\<lambda>remembered_target.
     bindE (flow_action_contexts (fp_raw pointer)) (\<lambda>contexts.
     with_some (context_at contexts action_index) (\<lambda>live_current.
     with_some (context_at contexts (action_index - rp_rewind_steps plan)) (\<lambda>live_target.
     guardE (same_place remembered_current live_current \<and>
         same_place remembered_target live_target \<and>
         fc_action_index remembered_current - fc_action_index remembered_target
           = rp_rewind_steps plan) ContractError
     (bindE (build_guarded_resume_arguments pointer (rp_rewind_steps plan)
        (Some (rp_resume_mode plan))) (\<lambda>fresh_arguments.
      let rebound = butlast copied @
            [rebind_terminal (last copied) fresh_arguments live_current live_target] in
      bindE (parse_recovery_plan (PTuple (map PDict rebound))) (\<lambda>p.
      bindE (validate_plan_for_flow p pointer) (\<lambda>_. Inr rebound)))))))))"

definition rebind_recovery_actions ::
  "pydict list \<Rightarrow> pydict \<Rightarrow> string \<Rightarrow> int \<Rightarrow> string \<Rightarrow> pydict list result" where
  "rebind_recovery_actions actions flow_snapshot flow_id action_index action_command =
     (case parse_flow_pointer (PDict flow_snapshot) 0 0 of
        None \<Rightarrow> Inl ContractError
      | Some pointer \<Rightarrow>
          guardE (\<not> (fp_completed pointer \<or> \<not> is_paused pointer \<or> fp_flow_id pointer \<noteq> flow_id \<or>
              fp_action_index pointer \<noteq> Some action_index \<or>
              fp_action_command pointer \<noteq> Some action_command)) ContractError
          (bindE (parse_recovery_plan (PTuple (map PDict actions))) (\<lambda>plan.
           if rp_terminal_command plan = ''$rerun''
           then bindE (validate_plan_for_flow plan pointer) (\<lambda>_. Inr actions)
           else rebind_continuation plan actions pointer action_index)))"

section \<open>Lemmas\<close>

definition contexts_inv :: "flow_action_context list \<Rightarrow> bool" where
  "contexts_inv cs \<longleftrightarrow> distinct (map fc_action_index cs) \<and> list_all wf_context cs"

lemma add_action_inv:
  "add_action an it a cs = Inr cs' \<Longrightarrow> an \<noteq> [] \<Longrightarrow> it \<noteq> [] \<Longrightarrow> contexts_inv cs \<Longrightarrow> contexts_inv cs'"
  by (auto simp: add_action_def contexts_inv_def wf_context_def result_simps split: option.splits)

lemma add_item_inv:
  "add_item an i cs = Inr cs' \<Longrightarrow> an \<noteq> [] \<Longrightarrow> contexts_inv cs \<Longrightarrow> contexts_inv cs'"
  by (auto simp: add_item_def result_simps split: option.splits elim!: foldE_inv intro: add_action_inv)

lemma add_area_inv: "add_area a cs = Inr cs' \<Longrightarrow> contexts_inv cs \<Longrightarrow> contexts_inv cs'"
  by (auto simp: add_area_def result_simps split: option.splits elim!: foldE_inv intro: add_item_inv)

lemma flow_action_contexts_inv: "flow_action_contexts flow = Inr cs \<Longrightarrow> contexts_inv cs"
  by (auto simp: flow_action_contexts_def result_simps elim!: foldE_inv intro: add_area_inv)
    (simp add: contexts_inv_def)

lemma context_at_Some: "context_at cs i = Some c \<Longrightarrow> c \<in> set cs \<and> fc_action_index c = i"
  by (auto simp: context_at_def find_Some_iff)

lemma context_at_unique:
  "contexts_inv cs \<Longrightarrow> c \<in> set cs \<Longrightarrow> context_at cs (fc_action_index c) = Some c"
  by (induction cs) (auto simp: context_at_def contexts_inv_def)

lemma validate_plan_for_flow_eq [result_simps]:
  "validate_plan_for_flow plan pointer = Inr u \<longleftrightarrow>
     (\<exists>index contexts live. \<not> fp_completed pointer \<and> fp_action_index pointer = Some index \<and>
        flow_action_contexts (fp_raw pointer) = Inr contexts \<and>
        context_at contexts index = Some live \<and> fp_action_command pointer = Some (fc_command live) \<and>
        (if rp_terminal_command plan = ''$resume_flow''
         then rp_captured_current_context plan = Some live \<and>
              rp_captured_target_context plan = context_at contexts (index - rp_rewind_steps plan)
         else rp_terminal_command plan = ''$rerun'' \<and> rp_legacy_retry_context plan = Some live \<and>
              rp_legacy_expected_next_present plan \<and>
              rp_legacy_expected_next plan = next_context contexts live))"
  by (auto simp: validate_plan_for_flow_def result_simps split: bool.splits option.splits if_splits)

text \<open>The step a plan was captured for: the legacy retry wins over the captured action.\<close>

definition expected_step :: "recovery_plan \<Rightarrow> int option \<times> string option" where
  "expected_step plan =
     (if rp_legacy_retry_index plan \<noteq> None then rp_legacy_retry_index plan
      else rp_captured_action_index plan,
      if rp_legacy_retry_command plan \<noteq> None then rp_legacy_retry_command plan
      else rp_captured_action_command plan)"

theorem validated_plan_names_live_step:
  assumes "wf_plan plan" and "validate_plan_for_flow plan pointer = Inr ()"
  shows "expected_step plan = (fp_action_index pointer, fp_action_command pointer)"
    and "fp_action_index pointer \<noteq> None" and "\<not> fp_completed pointer"
proof -
  from assms(2) obtain index contexts live where
    p: "\<not> fp_completed pointer" "fp_action_index pointer = Some index"
       "fp_action_command pointer = Some (fc_command live)" and
    live: "context_at contexts index = Some live" and
    shape: "if rp_terminal_command plan = ''$resume_flow''
       then rp_captured_current_context plan = Some live
       else rp_terminal_command plan = ''$rerun'' \<and> rp_legacy_retry_context plan = Some live"
    by (auto simp: validate_plan_for_flow_eq split: if_splits)
  have "fc_action_index live = index" using live by (simp add: context_at_Some)
  with assms(1) p shape show "expected_step plan = (fp_action_index pointer, fp_action_command pointer)"
    by (auto simp: wf_plan_def wf_rerun_def wf_resume_def expected_step_def)
  from p show "fp_action_index pointer \<noteq> None" "\<not> fp_completed pointer" by simp_all
qed

lemma guarded_payload_get [simp]:
  "dget (guarded_payload p m r i c) ''mode'' = PStr m"
  "dget (guarded_payload p m r i c) ''rewind_steps'' = PInt r"
  "dget (guarded_payload p m r i c) ''current_action_index'' = PInt i"
  "dget (guarded_payload p m r i c) ''current_command'' = PStr c"
  "dget (guarded_payload p m r i c) ''flow_id'' = PStr (fp_flow_id p)"
  "dget (guarded_payload p m r i c) ''filename'' = opt_text (fp_filename p)"
  "dget (guarded_payload p m r i c) ''fid'' = opt_text (fp_fid p)"
  "dget (guarded_payload p m r i c) ''flow_commit'' = opt_text (fp_flow_commit p)"
  "has_key (guarded_payload p m r i c) ''filename'' \<longleftrightarrow> fp_filename p \<noteq> None"
  "has_key (guarded_payload p m r i c) ''fid'' \<longleftrightarrow> fp_fid p \<noteq> None"
  by (simp_all add: guarded_payload_def opt_text_def split: option.split)

lemma build_guarded_eq [result_simps]:
  "build_guarded_resume_arguments pointer r mode = Inr args \<longleftrightarrow>
     (\<exists>i c. fp_action_index pointer = Some i \<and> fp_action_command pointer = Some c \<and>
        0 \<le> r \<and> r \<le> max_rewind_steps \<and>
        (resume_mode mode r = ''retry_current'' \<and> r = 0 \<or> resume_mode mode r = ''rewind'') \<and>
        args = guarded_payload pointer (resume_mode mode r) r i c)"
  by (auto simp: build_guarded_resume_arguments_def result_simps Let_def split: option.splits)

lemma opt_refl [simp]: "py_eq (opt_text t) (opt_text t)" "py_eq (opt_int i) (opt_int i)"
  by (auto simp: opt_text_def opt_int_def split: option.splits)

text \<open>The parsed terminal arguments are those of the last action.\<close>

lemma parse_recovery_plan_terminal:
  assumes "parse_recovery_plan (PTuple (map PDict actions)) = Inr p"
    and "rp_terminal_command p = ''$resume_flow''"
  shows "actions \<noteq> []" and "dget (last actions) ''arguments'' = PDict (rp_terminal_arguments p)"
proof -
  from assms(1) obtain parsed where parsed: "list_all2 (\<lambda>v x. parse_plan_action v = Inr x) (map PDict actions) parsed"
    and ne: "actions \<noteq> []"
    and fin: "(case last parsed of (tc, ta, tr) \<Rightarrow>
        if tc = ''$rerun'' then parse_rerun (map correction_of (butlast parsed)) ta tr
        else parse_resume (map correction_of (butlast parsed)) ta tr) = Inr p"
    by (auto simp: parse_recovery_plan_def plan_items_def plen_def result_simps Let_def Suc_le_eq)
  obtain tc ta tr where l: "last parsed = (tc, ta, tr)" by (cases "last parsed")
  have "parsed \<noteq> []" using parsed ne by auto
  then have "parse_plan_action (PDict (last actions)) = Inr (tc, ta, tr)"
    using parsed ne l by (auto simp: list_all2_conv_all_nth last_conv_nth)
  from parse_plan_action_command [OF this]
  have "dget (last actions) ''arguments'' = PDict ta" by simp
  moreover have "rp_terminal_arguments p = ta"
    using fin l assms(2) parse_rerun_wf [of "map correction_of (butlast parsed)" ta tr p]
    by (auto simp: parse_resume_def wf_rerun_def result_simps split: if_splits)
  ultimately show "actions \<noteq> []" "dget (last actions) ''arguments'' = PDict (rp_terminal_arguments p)"
    using ne by auto
qed

lemma rebind_terminal_arguments [simp]:
  "dget (rebind_terminal t fresh c g) ''arguments'' = PDict fresh"
  by (simp add: rebind_terminal_def Let_def)

lemma parse_recovery_plan_corrections:
  assumes "parse_recovery_plan (PTuple items) = Inr p"
  shows "\<exists>parsed. mapE parse_plan_action (butlast items) = Inr parsed \<and>
    rp_corrections p = map correction_of parsed"
proof -
  from assms obtain parsed where
    parsed: "list_all2 (\<lambda>v x. parse_plan_action v = Inr x) items parsed" and
    fin: "(case last parsed of (tc, ta, tr) \<Rightarrow>
        if tc = ''$rerun'' then parse_rerun (map correction_of (butlast parsed)) ta tr
        else parse_resume (map correction_of (butlast parsed)) ta tr) = Inr p"
    by (auto simp: parse_recovery_plan_def plan_items_def result_simps Let_def)
  obtain tc ta tr where l: "last parsed = (tc, ta, tr)" by (cases "last parsed")
  with fin have "rp_corrections p = map correction_of (butlast parsed)"
    using parse_rerun_wf [of _ ta tr p] parse_resume_wf [of _ ta tr p] by (auto split: if_splits)
  moreover have "mapE parse_plan_action (butlast items) = Inr (butlast parsed)"
    using parsed by (auto simp: mapE_eq_Inr list_all2_conv_all_nth nth_butlast)
  ultimately show ?thesis by blast
qed

text \<open>A plan that passed \<open>validate_plan_for_flow\<close> and carries fresh arguments can be resumed.\<close>

lemma resume_arguments_fresh:
  assumes "wf_plan p" and "validate_plan_for_flow p pointer = Inr ()"
    and "rp_terminal_command p = ''$resume_flow'' \<Longrightarrow>
      \<exists>r m i c. rp_terminal_arguments p = guarded_payload pointer m r i c"
  shows "\<exists>args. resume_arguments_for_plan p pointer = Inr args"
proof (cases "rp_terminal_command p = ''$rerun''")
  case True
  then show ?thesis
    using assms(2) by (auto simp: resume_arguments_for_plan_def validate_plan_for_flow_eq
        build_guarded_resume_arguments_def resume_mode_def Let_def max_rewind_steps_def)
next
  case False
  with assms(1) have rf: "wf_resume p" by (auto simp: wf_plan_def wf_rerun_def)
  then have cmd: "rp_terminal_command p = ''$resume_flow''" by (simp add: wf_resume_def)
  from assms(3) [OF cmd] obtain r m i c where
    args: "rp_terminal_arguments p = guarded_payload pointer m r i c" by blast
  have "expected_step p = (fp_action_index pointer, fp_action_command pointer)"
    using assms(1,2) by (rule validated_plan_names_live_step)
  with rf args have "fp_action_index pointer = Some i \<and> fp_action_command pointer = Some c"
    by (auto simp: wf_resume_def expected_step_def)
  with cmd args show ?thesis
    by (auto simp: resume_arguments_for_plan_def result_simps Let_def bindE_def guardE_def
        opt_int_def opt_text_def split: option.splits)
qed

theorem rebind_recovery_actions_sound:
  assumes "rebind_recovery_actions actions snapshot flow_id index command = Inr out"
  shows "butlast out = butlast actions \<and> length out = length actions \<and>
    (\<exists>pointer plan plan'. parse_flow_pointer (PDict snapshot) 0 0 = Some pointer \<and>
       parse_recovery_plan (PTuple (map PDict actions)) = Inr plan \<and>
       parse_recovery_plan (PTuple (map PDict out)) = Inr plan' \<and>
       rp_corrections plan' = rp_corrections plan \<and>
       expected_step plan' = (Some index, Some command) \<and>
       validate_plan_for_flow plan' pointer = Inr () \<and>
       (\<exists>args. resume_arguments_for_plan plan' pointer = Inr args))"
proof -
  from assms obtain pointer plan where ptr: "parse_flow_pointer (PDict snapshot) 0 0 = Some pointer"
      "fp_action_index pointer = Some index" "fp_action_command pointer = Some command"
    and plan: "parse_recovery_plan (PTuple (map PDict actions)) = Inr plan"
    and rest: "(if rp_terminal_command plan = ''$rerun''
       then bindE (validate_plan_for_flow plan pointer) (\<lambda>_. Inr actions)
       else rebind_continuation plan actions pointer index) = Inr out"
    by (auto simp: rebind_recovery_actions_def guardE_eq_Inr bindE_eq_Inr split: option.splits)
  have ne: "actions \<noteq> []"
    using plan by (auto simp: parse_recovery_plan_def plan_items_def plen_def guardE_eq_Inr)
  show ?thesis
  proof (cases "rp_terminal_command plan = ''$rerun''")
    case True
    with rest have v: "validate_plan_for_flow plan pointer = Inr ()" and out: "out = actions"
      by (auto simp: bindE_eq_Inr)
    have "expected_step plan = (Some index, Some command)"
      using validated_plan_names_live_step(1) [OF parse_recovery_plan_wf [OF plan] v] ptr by simp
    moreover have "\<exists>args. resume_arguments_for_plan plan pointer = Inr args"
      using True by (intro resume_arguments_fresh [OF parse_recovery_plan_wf [OF plan] v]) simp
    ultimately show ?thesis using out ptr(1) plan v by blast
  next
    case False
    with rest obtain lc lt fresh plan' where
      fresh: "build_guarded_resume_arguments pointer (rp_rewind_steps plan)
        (Some (rp_resume_mode plan)) = Inr fresh"
      and out: "out = butlast actions @ [rebind_terminal (last actions) fresh lc lt]"
      and p': "parse_recovery_plan (PTuple (map PDict out)) = Inr plan'"
      and v: "validate_plan_for_flow plan' pointer = Inr ()"
      by (auto simp: rebind_continuation_def guardE_eq_Inr bindE_eq_Inr with_some_eq_Inr Let_def)
    have "rp_corrections plan' = rp_corrections plan"
      using parse_recovery_plan_corrections [OF plan] parse_recovery_plan_corrections [OF p']
      by (auto simp: out butlast_append map_butlast [symmetric])
    moreover have "expected_step plan' = (Some index, Some command)"
      using validated_plan_names_live_step(1) [OF parse_recovery_plan_wf [OF p'] v] ptr by simp
    moreover have "\<exists>args. resume_arguments_for_plan plan' pointer = Inr args"
    proof (rule resume_arguments_fresh [OF parse_recovery_plan_wf [OF p'] v])
      assume "rp_terminal_command plan' = ''$resume_flow''"
      from parse_recovery_plan_terminal(2) [OF p' this]
      have "rp_terminal_arguments plan' = fresh" by (simp add: out)
      with fresh show "\<exists>r m i c. rp_terminal_arguments plan' = guarded_payload pointer m r i c"
        by (auto simp: build_guarded_eq)
    qed
    moreover have "butlast out = butlast actions" "length out = length actions"
      using ne by (simp_all add: out)
    ultimately show ?thesis using ptr(1) plan p' v by blast
  qed
qed

end
