(* ===== verification/Recovery_Settings.thy ===== *)
theory Recovery_Settings
  imports Contract_Fields
begin

text \<open>
  \<open>RecoveryExecutionSettings\<close> and \<open>RecoveryExecutionState\<close> of
  \<^verbatim>\<open>recovery_executor.py\<close>: the validation of the service's settings, with its float
  arithmetic as the interpreter does it, and the counters. The lease lemma says that
  accepted settings of an enabled service cover every plan the executor can run.
\<close>

section \<open>Settings\<close>

record recovery_settings =
  se_enabled :: bool
  se_robot_allowlist :: "string list"
  se_max_attempts :: int
  se_command_timeout :: pyfloat
  se_outcome_timeout :: pyfloat
  se_lease_seconds :: int
  se_cf_access_client_id :: string
  se_cf_access_client_secret :: string
  se_reconcile_limit :: int
  se_reconcile_interval :: pyfloat
  se_start_grace :: pyfloat

definition default_settings :: recovery_settings where
  "default_settings = \<lparr> se_enabled = False, se_robot_allowlist = [], se_max_attempts = 3,
     se_command_timeout = FFin 15, se_outcome_timeout = FFin 60, se_lease_seconds = 300,
     se_cf_access_client_id = [], se_cf_access_client_secret = [], se_reconcile_limit = 500,
     se_reconcile_interval = FFin 30, se_start_grace = FFin 5 \<rparr>"

definition normalize_sysid :: "string \<Rightarrow> string list \<Rightarrow> string list result" where
  "normalize_sysid sysid normalized =
     (let canonical = upper (strip sysid) in
      guardE (sysid_pattern canonical) ValueErr
        (Inr (if canonical \<in> set normalized then normalized else normalized @ [canonical])))"

definition required_lease_seconds :: "recovery_settings \<Rightarrow> nat \<Rightarrow> pyfloat" where
  \<comment> \<open>\<open>commands * command_timeout + outcome_timeout + 5.0\<close>\<close>
  "required_lease_seconds se commands =
     fadd (fadd (fscale commands (se_command_timeout se)) (se_outcome_timeout se)) (FFin 5)"

definition settings_post_init :: "recovery_settings \<Rightarrow> recovery_settings result" where
  "settings_post_init se0 =
     bindE (foldE normalize_sysid (se_robot_allowlist se0) []) (\<lambda>normalized.
     let se = se0\<lparr> se_robot_allowlist := normalized \<rparr> in
     guardE (1 \<le> se_max_attempts se \<and> se_max_attempts se \<le> 20) ValueErr
     (guardE (\<not> fle (se_command_timeout se) (FFin 0)) ValueErr
     (guardE (\<not> fle (se_outcome_timeout se) (FFin 0)) ValueErr
     (guardE (5 \<le> se_lease_seconds se \<and> se_lease_seconds se \<le> 900) ValueErr
     (guardE (\<not> se_reconcile_limit se \<le> 0) ValueErr
     (guardE (\<not> flt (se_start_grace se) (FFin 0)) ValueErr
     (guardE (\<not> (fle (se_reconcile_interval se) (FFin 0) \<or>
         fle (FFin (of_int (se_lease_seconds se))) (se_reconcile_interval se))) ValueErr
     (if \<not> se_enabled se then Inr se
      else guardE (se_robot_allowlist se \<noteq> []) ValueErr
        (guardE (strip (se_cf_access_client_id se) \<noteq> [] \<and>
            strip (se_cf_access_client_secret se) \<noteq> []) ValueErr
        (bindE (fceil (required_lease_seconds se 10)) (\<lambda>required.
         guardE (\<not> se_lease_seconds se < required) ValueErr (Inr se))))))))))))"

text \<open>The same comparison for one pinned plan, before its first claim.\<close>

definition lease_covers :: "recovery_settings \<Rightarrow> nat \<Rightarrow> unit result" where
  "lease_covers se commands =
     bindE (fceil (required_lease_seconds se commands)) (\<lambda>required.
       guardE (\<not> se_lease_seconds se < required) ContractError (Inr ()))"

section \<open>Counters\<close>

record execution_state =
  es_events_enqueued :: int
  es_events_skipped :: int
  es_sessions_prepared :: int
  es_recurrences_attached :: int
  es_attempts_claimed :: int
  es_actions_accepted :: int
  es_attempts_recovered :: int
  es_attempts_failed :: int
  es_attempts_unknown :: int
  es_sessions_timed_out :: int
  es_expired_attempts_reconciled :: int
  es_execution_errors :: int
  es_last_failure_id :: "string option"
  es_last_session_id :: "string option"
  es_last_error :: "py_error option"

definition new_execution_state :: execution_state where
  "new_execution_state = \<lparr> es_events_enqueued = 0, es_events_skipped = 0,
     es_sessions_prepared = 0, es_recurrences_attached = 0, es_attempts_claimed = 0,
     es_actions_accepted = 0, es_attempts_recovered = 0, es_attempts_failed = 0,
     es_attempts_unknown = 0, es_sessions_timed_out = 0, es_expired_attempts_reconciled = 0,
     es_execution_errors = 0, es_last_failure_id = None, es_last_session_id = None,
     es_last_error = None \<rparr>"

text \<open>\<open>type(error).__name__\<close>.\<close>

definition error_type_name :: "py_error \<Rightarrow> string" where
  "error_type_name e = (case e of
       ContractError \<Rightarrow> ''RecoveryContractError''
     | NonExecutableError \<Rightarrow> ''RecoveryNonExecutableError''
     | LiveStateChanged \<Rightarrow> ''RecoveryLiveStateChanged''
     | DatabaseUnavailable \<Rightarrow> ''RecoveryDatabaseUnavailable''
     | NotSentError \<Rightarrow> ''RobotCommandNotSentError''
     | OutcomeUnknownError \<Rightarrow> ''RobotCommandOutcomeUnknownError''
     | RejectedError \<Rightarrow> ''RobotCommandRejectedError''
     | TimeoutErr \<Rightarrow> ''TimeoutError''
     | CancelledErr \<Rightarrow> ''CancelledError''
     | ValueErr \<Rightarrow> ''ValueError''
     | TypeErr \<Rightarrow> ''TypeError''
     | OverflowErr \<Rightarrow> ''OverflowError''
     | AssertionErr \<Rightarrow> ''AssertionError''
     | RetrievalErr \<Rightarrow> ''RetrievalError''
     | RetrievalBudgetErr \<Rightarrow> ''RetrievalBudgetError''
     | UnknownMemoryErr \<Rightarrow> ''UnknownMemoryError''
     | MemoryConfigErr \<Rightarrow> ''GitMemoryConfigurationError''
     | ResolutionRowErr \<Rightarrow> ''ResolutionRowError''
     | MemoryDraftErr \<Rightarrow> ''MemoryDraftError''
     | MemoryFormatErr \<Rightarrow> ''MemoryFormatError''
     | GitOperationErr \<Rightarrow> ''GitOperationError''
     | ReasoningErr \<Rightarrow> ''AgentReasoningError''
     | ConnectionErr \<Rightarrow> ''ConnectionError''
     | OtherErr n \<Rightarrow> n)"

definition text_or_none :: "string option \<Rightarrow> pyval" where
  "text_or_none t = (case t of None \<Rightarrow> PNone | Some s \<Rightarrow> PStr s)"

definition state_snapshot :: "execution_state \<Rightarrow> bool \<Rightarrow> pydict" where
  "state_snapshot es enabled =
     [(''auto_recovery_enabled'', PBool enabled),
      (''auto_recovery_events_enqueued'', PInt (es_events_enqueued es)),
      (''auto_recovery_events_skipped'', PInt (es_events_skipped es)),
      (''auto_recovery_sessions_prepared'', PInt (es_sessions_prepared es)),
      (''auto_recovery_recurrences_attached'', PInt (es_recurrences_attached es)),
      (''auto_recovery_attempts_claimed'', PInt (es_attempts_claimed es)),
      (''auto_recovery_actions_accepted'', PInt (es_actions_accepted es)),
      (''auto_recovery_attempts_recovered'', PInt (es_attempts_recovered es)),
      (''auto_recovery_attempts_failed'', PInt (es_attempts_failed es)),
      (''auto_recovery_attempts_unknown'', PInt (es_attempts_unknown es)),
      (''auto_recovery_sessions_timed_out'', PInt (es_sessions_timed_out es)),
      (''auto_recovery_expired_attempts_reconciled'', PInt (es_expired_attempts_reconciled es)),
      (''auto_recovery_execution_errors'', PInt (es_execution_errors es)),
      (''auto_recovery_last_failure_id'', text_or_none (es_last_failure_id es)),
      (''auto_recovery_last_session_id'', text_or_none (es_last_session_id es)),
      (''auto_recovery_last_error_type'', text_or_none (map_option error_type_name (es_last_error es)))]"

section \<open>What accepted settings satisfy\<close>

definition allowlist_inv :: "string list \<Rightarrow> bool" where
  "allowlist_inv xs \<longleftrightarrow> distinct xs \<and> list_all sysid_pattern xs"

lemma foldE_normalize: "foldE normalize_sysid xs [] = Inr ys \<Longrightarrow> allowlist_inv ys"
  by (rule foldE_inv [where P = allowlist_inv])
    (auto simp: allowlist_inv_def normalize_sysid_def result_simps Let_def)

lemma foldE_normalize_set:
  "foldE normalize_sysid xs zs = Inr ys \<Longrightarrow> set ys = set zs \<union> (\<lambda>x. upper (strip x)) ` set xs"
  by (induction xs arbitrary: zs)
    (auto simp: normalize_sysid_def result_simps Let_def split: if_splits)

lemma settings_post_init_eq [result_simps]:
  "settings_post_init se0 = Inr se \<longleftrightarrow>
     (\<exists>normalized. foldE normalize_sysid (se_robot_allowlist se0) [] = Inr normalized \<and>
        se = se0\<lparr> se_robot_allowlist := normalized \<rparr>) \<and>
     1 \<le> se_max_attempts se \<and> se_max_attempts se \<le> 20 \<and>
     \<not> fle (se_command_timeout se) (FFin 0) \<and> \<not> fle (se_outcome_timeout se) (FFin 0) \<and>
     5 \<le> se_lease_seconds se \<and> se_lease_seconds se \<le> 900 \<and> 0 < se_reconcile_limit se \<and>
     \<not> flt (se_start_grace se) (FFin 0) \<and> \<not> fle (se_reconcile_interval se) (FFin 0) \<and>
     \<not> fle (FFin (of_int (se_lease_seconds se))) (se_reconcile_interval se) \<and>
     (se_enabled se \<longrightarrow> se_robot_allowlist se \<noteq> [] \<and>
        strip (se_cf_access_client_id se) \<noteq> [] \<and> strip (se_cf_access_client_secret se) \<noteq> [] \<and>
        (\<exists>required. fceil (required_lease_seconds se 10) = Inr required \<and>
           required \<le> se_lease_seconds se))"
  by (auto simp: settings_post_init_def result_simps Let_def)

lemma fceil_eq_Inr: "fceil x = Inr c \<longleftrightarrow> (\<exists>r. x = FFin r \<and> c = \<lceil>r\<rceil>)"
  by (cases x) auto

lemma pow2_not_le_0 [simp]: "\<not> pow2 e \<le> 0"
  by (simp add: not_le)

lemma fround_FFin_mono:
  assumes "0 \<le> x" "x \<le> y" "fround y = FFin b"
  shows "\<exists>a. fround x = FFin a \<and> 0 \<le> a \<and> a \<le> b"
proof -
  have le: "fle (fround x) (FFin b)" using fround_mono_nonneg [OF assms(1,2)] assms(3) by simp
  show ?thesis
  proof (cases "fround x")
    case (FFin a)
    then show ?thesis using le fround_nonneg [OF assms(1) FFin] by simp
  qed (use le assms(1) in \<open>auto simp: fround_def round_pos_def split: if_splits\<close>)
qed

text \<open>Fewer commands need a shorter lease: rounding does not reverse the order.\<close>

lemma required_lease_mono:
  assumes "n \<le> m" and "\<not> fle (se_command_timeout se) (FFin 0)"
    and "\<not> fle (se_outcome_timeout se) (FFin 0)"
    and "required_lease_seconds se m = FFin b"
  shows "\<exists>a. required_lease_seconds se n = FFin a \<and> 0 \<le> a \<and> a \<le> b"
proof -
  obtain t where t: "se_command_timeout se = FFin t"
    using assms(2,4) by (cases "se_command_timeout se"; cases "se_outcome_timeout se")
      (auto simp: required_lease_seconds_def split: if_splits)
  obtain p where p: "fround (of_nat m * t) = FFin p"
    using assms(3,4) t by (cases "fround (of_nat m * t)"; cases "se_outcome_timeout se")
      (auto simp: required_lease_seconds_def)
  obtain u where u: "se_outcome_timeout se = FFin u"
    using assms(3,4) t p by (cases "se_outcome_timeout se") (auto simp: required_lease_seconds_def)
  obtain q where q: "fround (p + u) = FFin q"
    using assms(4) t p u by (cases "fround (p + u)") (auto simp: required_lease_seconds_def)
  have b: "fround (q + 5) = FFin b" using assms(4) t p u q by (simp add: required_lease_seconds_def)
  have pos: "0 < t" "0 < u" using assms(2,3) t u by simp_all
  have "of_nat n * t \<le> of_nat m * t" "0 \<le> of_nat n * t"
    using assms(1) pos by (simp_all add: mult_right_mono)
  then obtain p' where p': "fround (of_nat n * t) = FFin p'" "0 \<le> p'" "p' \<le> p"
    using fround_FFin_mono p by blast
  obtain q' where q': "fround (p' + u) = FFin q'" "0 \<le> q'" "q' \<le> q"
    using fround_FFin_mono [of "p' + u" "p + u" q] p' pos q by auto
  obtain a where a: "fround (q' + 5) = FFin a" "0 \<le> a" "a \<le> b"
    using fround_FFin_mono [of "q' + 5" "q + 5" b] q' b by auto
  then show ?thesis using t u p' q' by (simp add: required_lease_seconds_def)
qed

text \<open>An enabled service with accepted settings covers every plan of at most ten commands.\<close>

lemma accepted_settings_lease:
  assumes "settings_post_init se0 = Inr se" and "se_enabled se" and "n \<le> 10"
  shows "lease_covers se n = Inr ()"
proof -
  from assms(1,2) obtain b where b: "required_lease_seconds se 10 = FFin b" "\<lceil>b\<rceil> \<le> se_lease_seconds se"
    and pos: "\<not> fle (se_command_timeout se) (FFin 0)" "\<not> fle (se_outcome_timeout se) (FFin 0)"
    by (auto simp: settings_post_init_eq fceil_eq_Inr)
  from required_lease_mono [OF assms(3) pos b(1)] obtain a
    where "required_lease_seconds se n = FFin a" "a \<le> b" by blast
  moreover from this have "\<lceil>a\<rceil> \<le> \<lceil>b\<rceil>" by (intro ceiling_mono)
  ultimately show ?thesis using b(2) by (simp add: lease_covers_def guardE_def)
qed

end
