(* ===== verification/Recovery_Rows.thy ===== *)
theory Recovery_Rows
  imports Recovery_Flow Recovery_Settings
begin

text \<open>
  The rows of the control plane as \<^verbatim>\<open>recovery_executor.py\<close> reads them: failure rows
  (\<open>parse_failure_pointer_target\<close>, \<open>parse_failure_recovery_target\<close>) and recovery sessions
  (\<open>parse_recovery_session\<close>) with the lifecycle rules of a session, the acknowledgement of
  a continuation, and the classification of the Flow after one. A failure row and a session
  row name the same kind of place in a Flow; the locale \<open>flow_step\<close> is what the executor
  asks of either.
\<close>

section \<open>Rows\<close>

record failure_pointer_target =
  ft_failure_id :: string
  ft_sysid :: string
  ft_flow_id :: string
  ft_action_index :: int
  ft_action_command :: string
  ft_recovery_episode_key :: string
  ft_recovery_session_id :: "string option"
  ft_recovery_status :: "string option"

record failure_recovery_target = failure_pointer_target +
  ft_resolver_suggestion :: pydict

record recovery_session =
  sr_recovery_session_id :: string
  sr_root_failure_id :: string
  sr_current_failure_id :: string
  sr_sysid :: string
  sr_flow_id :: string
  sr_action_index :: int
  sr_action_command :: string
  sr_pinned_memory_id :: string
  sr_pinned_actions :: "pydict list"
  sr_pinned_actions_hash :: string
  sr_recovery_status :: string
  sr_recovery_attempts :: int
  sr_recovery_max_attempts :: int
  sr_recovery_rewind_steps :: int
  sr_recovery_run_token :: "string option"

type_synonym pointer_key = "string \<times> string \<times> int \<times> string"

definition target_pointer_key :: "'a failure_pointer_target_scheme \<Rightarrow> pointer_key" where
  "target_pointer_key t = (ft_sysid t, ft_flow_id t, ft_action_index t, ft_action_command t)"

definition session_pointer_key :: "recovery_session \<Rightarrow> pointer_key" where
  "session_pointer_key r = (sr_sysid r, sr_flow_id r, sr_action_index r, sr_action_command r)"

definition session_statuses :: "string list" where
  "session_statuses = [''ready'', ''running'', ''awaiting_outcome'', ''recovered'', ''failed'',
     ''unknown'', ''timed_out'', ''cancelled'']"

definition terminal_session_statuses :: "string list" where
  "terminal_session_statuses = [''recovered'', ''unknown'', ''timed_out'', ''cancelled'']"

section \<open>Failure rows\<close>

definition required_sysid :: "pyval \<Rightarrow> string result" where
  "required_sysid value =
     bindE (required_text value 64) (\<lambda>text.
       guardE (sysid_pattern (upper text)) ContractError (Inr (upper text)))"

definition optional_status :: "pyval \<Rightarrow> string option result" where
  "optional_status value =
     (if value = PNone then Inr None
      else bindE (required_text value 32) (\<lambda>status.
        guardE (status \<in> set session_statuses) ContractError (Inr (Some status))))"

definition optional_uuid :: "pyval \<Rightarrow> string option result" where
  "optional_uuid value =
     (if value = PNone then Inr None else bindE (required_uuid value) (\<lambda>u. Inr (Some u)))"

definition required_hash :: "pyval \<Rightarrow> string result" where
  "required_hash value =
     bindE (required_text value 64) (\<lambda>h. guardE (hash_pattern h) ContractError (Inr h))"

definition parse_failure_pointer_target :: "pydict \<Rightarrow> failure_pointer_target result" where
  "parse_failure_pointer_target row =
     bindE (required_uuid (dget row ''failure_id'')) (\<lambda>failure_id.
     bindE (required_sysid (dget row ''sysid'')) (\<lambda>sysid.
     bindE (required_text (dget row ''flow_id'') 300) (\<lambda>flow_id.
     bindE (required_int (dget row ''action_index'') 0 max_action_index) (\<lambda>action_index.
     bindE (required_text (dget row ''action_command'') max_command_length) (\<lambda>action_command.
     bindE (required_hash (dget row ''recovery_episode_key'')) (\<lambda>episode_key.
     bindE (optional_status (dget row ''recovery_status'')) (\<lambda>recovery_status.
     bindE (optional_uuid (dget row ''recovery_session_id'')) (\<lambda>session_id.
       Inr \<lparr> ft_failure_id = failure_id, ft_sysid = sysid, ft_flow_id = flow_id,
             ft_action_index = action_index, ft_action_command = action_command,
             ft_recovery_episode_key = episode_key, ft_recovery_session_id = session_id,
             ft_recovery_status = recovery_status \<rparr>))))))))"

text \<open>\<open>str(value or "").strip() == text\<close> for a text that only a string prints as.\<close>

definition text_is :: "pyval \<Rightarrow> string \<Rightarrow> bool" where
  "text_is value text = (case value of PStr s \<Rightarrow> strip s = text | _ \<Rightarrow> False)"

definition parse_failure_recovery_target :: "pydict \<Rightarrow> failure_recovery_target result" where
  "parse_failure_recovery_target row =
     bindE (parse_failure_pointer_target row) (\<lambda>target.
     guardE (text_is (dget row ''analysis_status'') ''completed'') ContractError
     (guardE (text_is (dget row ''matcher_status'') ''solution_found'') ContractError
     (with_dict (dget row ''resolver_suggestion'') (\<lambda>suggestion.
      bindE (required_text (dget suggestion ''memory_id'') 300) (\<lambda>_.
        Inr (failure_pointer_target.extend target
          (failure_recovery_target.fields suggestion)))))))"

section \<open>Session rows\<close>

definition lifecycle_ok :: "string \<Rightarrow> int \<Rightarrow> int \<Rightarrow> string option \<Rightarrow> bool" where
  "lifecycle_ok status attempts max_attempts run_token \<longleftrightarrow>
     \<not> (status = ''ready'' \<and> (attempts \<noteq> 0 \<or> run_token \<noteq> None)) \<and>
     \<not> (status \<in> set [''running'', ''awaiting_outcome''] \<and> (attempts < 1 \<or> run_token = None)) \<and>
     \<not> (status = ''failed'' \<and> (attempts < 1 \<or> attempts \<ge> max_attempts \<or> run_token = None)) \<and>
     \<not> (status \<in> set [''recovered'', ''unknown''] \<and> (attempts < 1 \<or> run_token = None)) \<and>
     \<not> (status = ''timed_out'' \<and> (attempts \<noteq> max_attempts \<or> run_token = None))"

definition claim_ok :: "bool \<Rightarrow> string \<Rightarrow> string option \<Rightarrow> bool" where
  "claim_ok require_run_token status run_token \<longleftrightarrow>
     \<not> (require_run_token \<and> status \<notin> set [''running'', ''awaiting_outcome'']) \<and>
     \<not> (require_run_token \<and> run_token = None)"

text \<open>The copies of the pinned plan in the row agree.\<close>

definition check_pinned_copies :: "pydict \<Rightarrow> string \<Rightarrow> pyval list \<Rightarrow> unit result" where
  "check_pinned_copies row memory_id actions =
     with_dict (dget row ''pinned_resolver_suggestion'') (\<lambda>suggestion.
       guardE (py_eq (dget suggestion ''memory_id'') (PStr memory_id)) ContractError
       (guardE (py_eq (dget suggestion ''actions'') (PList actions)) ContractError (Inr ())))"

definition parse_recovery_session :: "pydict \<Rightarrow> bool \<Rightarrow> recovery_session result" where
  "parse_recovery_session row require_run_token =
     bindE (required_text (dget row ''recovery_status'') 32) (\<lambda>status.
     guardE (status \<in> set session_statuses) ContractError
     (with_list (dget row ''pinned_actions'') (\<lambda>actions.
      guardE (1 \<le> plen actions \<and> plen actions \<le> max_actions) ContractError
      (guardE (list_all is_dict actions) ContractError
      (bindE (required_int (dget row ''recovery_attempts'') 0 20) (\<lambda>attempts.
       bindE (required_int (dget row ''recovery_max_attempts'') 1 20) (\<lambda>max_attempts.
       guardE (\<not> attempts > max_attempts) ContractError
       (bindE (required_int (dget row ''recovery_rewind_steps'') 0 max_rewind_steps) (\<lambda>rewind_steps.
        bindE (optional_uuid (dget row ''recovery_run_token'')) (\<lambda>run_token.
        guardE (claim_ok require_run_token status run_token) ContractError
        (guardE (lifecycle_ok status attempts max_attempts run_token) ContractError
        (bindE (required_hash (dget row ''pinned_actions_hash'')) (\<lambda>actions_hash.
         bindE (required_text (dget row ''pinned_memory_id'') 300) (\<lambda>pinned_memory_id.
         bindE (check_pinned_copies row pinned_memory_id actions) (\<lambda>_.
         bindE (required_hash (dget row ''root_episode_key'')) (\<lambda>_.
         bindE (required_sysid (dget row ''sysid'')) (\<lambda>sysid.
         bindE (required_uuid (dget row ''recovery_session_id'')) (\<lambda>recovery_session_id.
         bindE (required_uuid (dget row ''root_failure_id'')) (\<lambda>root_failure_id.
         bindE (required_uuid (dget row ''current_failure_id'')) (\<lambda>current_failure_id.
         bindE (required_text (dget row ''flow_id'') 300) (\<lambda>flow_id.
         bindE (required_int (dget row ''action_index'') 0 max_action_index) (\<lambda>action_index.
         bindE (required_text (dget row ''action_command'') max_command_length) (\<lambda>action_command.
           Inr \<lparr> sr_recovery_session_id = recovery_session_id,
                 sr_root_failure_id = root_failure_id,
                 sr_current_failure_id = current_failure_id, sr_sysid = sysid,
                 sr_flow_id = flow_id, sr_action_index = action_index,
                 sr_action_command = action_command, sr_pinned_memory_id = pinned_memory_id,
                 sr_pinned_actions = List.map_filter as_dict actions,
                 sr_pinned_actions_hash = actions_hash, sr_recovery_status = status,
                 sr_recovery_attempts = attempts, sr_recovery_max_attempts = max_attempts,
                 sr_recovery_rewind_steps = rewind_steps,
                 sr_recovery_run_token = run_token \<rparr>)))))))))))))))))))))))"

section \<open>The place a row names\<close>

text \<open>The step of a Flow a plan must have been captured for.\<close>

definition validate_plan_for_target :: "recovery_plan \<Rightarrow> 'a failure_pointer_target_scheme \<Rightarrow> unit result" where
  "validate_plan_for_target plan target =
     (let expected_index = (if rp_legacy_retry_index plan \<noteq> None then rp_legacy_retry_index plan
            else rp_captured_action_index plan);
          expected_command = (if rp_legacy_retry_command plan \<noteq> None then rp_legacy_retry_command plan
            else rp_captured_action_command plan) in
      guardE (\<not> (expected_index \<noteq> Some (ft_action_index target) \<or>
          expected_command \<noteq> Some (ft_action_command target))) ContractError (Inr ()))"

definition validate_plan_for_session :: "recovery_plan \<Rightarrow> recovery_session \<Rightarrow> unit result" where
  "validate_plan_for_session plan session =
     (let expected_index = (if rp_legacy_retry_index plan \<noteq> None then rp_legacy_retry_index plan
            else rp_captured_action_index plan);
          expected_command = (if rp_legacy_retry_command plan \<noteq> None then rp_legacy_retry_command plan
            else rp_captured_action_command plan) in
      guardE (\<not> (expected_index \<noteq> Some (sr_action_index session) \<or>
          expected_command \<noteq> Some (sr_action_command session))) ContractError (Inr ()))"

definition pointer_matches_target :: "flow_pointer option \<Rightarrow> 'a failure_pointer_target_scheme \<Rightarrow> bool" where
  "pointer_matches_target pointer target =
     (case pointer of None \<Rightarrow> False
      | Some p \<Rightarrow> is_paused p \<and> fp_flow_id p = ft_flow_id target \<and>
          fp_action_index p = Some (ft_action_index target) \<and>
          fp_action_command p = Some (ft_action_command target))"

definition pointer_matches_session :: "flow_pointer \<Rightarrow> recovery_session \<Rightarrow> bool" where
  "pointer_matches_session p session \<longleftrightarrow>
     is_paused p \<and> fp_flow_id p = sr_flow_id session \<and>
     fp_action_index p = Some (sr_action_index session) \<and>
     fp_action_command p = Some (sr_action_command session)"

definition same_flow :: "flow_pointer \<Rightarrow> recovery_session \<Rightarrow> bool" where
  "same_flow p session \<longleftrightarrow> fp_flow_id p = sr_flow_id session"

section \<open>The acknowledgement of a continuation\<close>

definition validate_resume_acknowledgement ::
  "pyval \<Rightarrow> flow_pointer \<Rightarrow> int \<Rightarrow> string option \<Rightarrow> unit result" where
  "validate_resume_acknowledgement value pointer rewind_steps mode =
     with_dict value (\<lambda>d.
       (let expected_mode = resume_mode mode rewind_steps in
        case fp_action_index pointer of
          None \<Rightarrow> Inl TypeErr
        | Some index \<Rightarrow>
            guardE (list_all (\<lambda>(key, expected). py_eq (dget d key) expected)
              [(''accepted'', PBool True), (''mode'', PStr expected_mode),
               (''rewind_steps'', PInt rewind_steps), (''previous_action_index'', PInt index),
               (''target_action_index'', PInt (index - rewind_steps)),
               (''current_command'', opt_text (fp_action_command pointer)),
               (''flow_id'', PStr (fp_flow_id pointer))]) ContractError
            (guardE (\<not> (fp_filename pointer \<noteq> None \<and>
                \<not> py_eq (dget d ''filename'') (opt_text (fp_filename pointer)))) ContractError
            (guardE (\<not> (fp_flow_commit pointer \<noteq> None \<and>
                \<not> py_eq (dget d ''flow_commit'') (opt_text (fp_flow_commit pointer)))) ContractError
            (Inr ())))))"

section \<open>The outcome\<close>

text \<open>\<open>pointer.status.strip().casefold()\<close>.\<close>

definition flow_status :: "flow_pointer \<Rightarrow> string" where
  "flow_status p = casefold (strip (fp_status p))"

definition advanced_past :: "flow_pointer \<Rightarrow> int \<Rightarrow> bool" where
  "advanced_past p index = (case fp_action_index p of Some i \<Rightarrow> i > index | None \<Rightarrow> False)"

definition reached :: "flow_pointer \<Rightarrow> int \<Rightarrow> bool" where
  "reached p index = (case fp_action_index p of Some i \<Rightarrow> i \<ge> index | None \<Rightarrow> False)"

definition classify_flow_outcome :: "flow_pointer option \<Rightarrow> recovery_session \<Rightarrow> string" where
  "classify_flow_outcome pointer session =
     (case pointer of
        None \<Rightarrow> ''unknown''
      | Some p \<Rightarrow>
          if \<not> same_flow p session then ''unknown''
          else (let status = flow_status p in
            if fp_completed p \<and> status \<in> set success_flow_statuses then ''recovered''
            else if status = ''paused'' \<and> fp_action_index p = Some (sr_action_index session) \<and>
                fp_action_command p = Some (sr_action_command session) then ''failed''
            else if advanced_past p (sr_action_index session) then ''recovered''
            else if status \<in> set success_flow_statuses \<and> reached p (sr_action_index session)
              then ''recovered''
            else ''unknown''))"

text \<open>
  The predicate of the outcome waiter; its boolean state is the \<open>execution_started\<close> of
  the closure, False at first.
\<close>

definition execution_outcome_predicate :: "recovery_session \<Rightarrow> int \<Rightarrow> flow_predicate" where
  "execution_outcome_predicate session generation = (\<lambda>execution_started pointer.
     (case pointer of
        None \<Rightarrow> (True, execution_started)
      | Some p \<Rightarrow>
          if fp_generation p \<noteq> generation \<or> \<not> same_flow p session then (True, execution_started)
          else (let status = flow_status p in
            if fp_completed p \<and> status \<in> set success_flow_statuses then (True, execution_started)
            else if advanced_past p (sr_action_index session) then (True, execution_started)
            else if status \<in> set success_flow_statuses then (True, execution_started)
            else if \<not> execution_started then
              (if status = ''paused'' then (False, False)
               else if status = ''in_progress'' then (False, True)
               else (True, False))
            else if status = ''paused'' then (True, True)
            else if status \<in> set [''aborted'', ''error''] then (True, True)
            else (False, True))))"

definition is_decisive_flow_outcome :: "flow_pointer option \<Rightarrow> recovery_session \<Rightarrow> bool" where
  "is_decisive_flow_outcome pointer session =
     (case pointer of
        None \<Rightarrow> True
      | Some p \<Rightarrow>
          if \<not> same_flow p session then True
          else (let status = flow_status p in
            if fp_completed p \<and> status \<in> set success_flow_statuses then True
            else if status = ''paused'' then True
            else if advanced_past p (sr_action_index session) then True
            else status \<in> set success_flow_statuses \<and> reached p (sr_action_index session)))"

section \<open>Lemmas: rows\<close>

lemma row_field_eq_Inr [result_simps]:
  "optional_uuid v = Inr u \<longleftrightarrow>
     (v = PNone \<and> u = None) \<or> (v \<noteq> PNone \<and> (\<exists>x. u = Some x \<and> uuid_text v = Some x))"
  "optional_status v = Inr st \<longleftrightarrow>
     (v = PNone \<and> st = None) \<or> (\<exists>x. st = Some x \<and> v = PStr x \<and> x \<in> set session_statuses \<and>
        x \<noteq> [] \<and> strip x = x \<and> plen x \<le> 32)"
  "required_hash v = Inr h \<longleftrightarrow> v = PStr h \<and> hash_pattern h \<and> h \<noteq> [] \<and> strip h = h"
  "required_sysid v = Inr k \<longleftrightarrow>
     (\<exists>t. v = PStr t \<and> t \<noteq> [] \<and> strip t = t \<and> plen t \<le> 64 \<and> k = upper t \<and> sysid_pattern k)"
  by (auto simp: optional_uuid_def optional_status_def required_hash_def required_sysid_def
      required_uuid_def hash_pattern_def result_simps split: option.splits)

text \<open>What a parsed session satisfies.\<close>

definition wf_session :: "recovery_session \<Rightarrow> bool" where
  "wf_session r \<longleftrightarrow>
     sr_recovery_status r \<in> set session_statuses \<and>
     1 \<le> length (sr_pinned_actions r) \<and> length (sr_pinned_actions r) \<le> 10 \<and>
     0 \<le> sr_recovery_attempts r \<and> sr_recovery_attempts r \<le> sr_recovery_max_attempts r \<and>
     sr_recovery_max_attempts r \<le> 20 \<and>
     0 \<le> sr_recovery_rewind_steps r \<and> sr_recovery_rewind_steps r \<le> max_rewind_steps \<and>
     lifecycle_ok (sr_recovery_status r) (sr_recovery_attempts r) (sr_recovery_max_attempts r)
       (sr_recovery_run_token r) \<and>
     sysid_pattern (sr_sysid r) \<and> 0 \<le> sr_action_index r \<and> sr_action_index r \<le> max_action_index"

lemma map_filter_as_dict:
  "list_all is_dict vs \<Longrightarrow> map PDict (List.map_filter as_dict vs) = vs"
  by (induction vs) (auto simp: is_dict_def as_dict_def map_filter_simps split: pyval.splits)

lemma parse_recovery_session_wf:
  assumes "parse_recovery_session row tok = Inr r"
  shows "wf_session r"
    and "claim_ok tok (sr_recovery_status r) (sr_recovery_run_token r)"
    and "dget row ''pinned_actions'' = PList (map PDict (sr_pinned_actions r))"
    and "uuid_text (dget row ''recovery_session_id'') = Some (sr_recovery_session_id r)"
proof -
  from assms obtain actions where
    r: "sr_pinned_actions r = List.map_filter as_dict actions" "list_all is_dict actions"
       "dget row ''pinned_actions'' = PList actions" "1 \<le> plen actions" "plen actions \<le> max_actions"
    and f: "sr_recovery_status r \<in> set session_statuses"
       "0 \<le> sr_recovery_attempts r" "sr_recovery_attempts r \<le> sr_recovery_max_attempts r"
       "sr_recovery_max_attempts r \<le> 20"
       "0 \<le> sr_recovery_rewind_steps r" "sr_recovery_rewind_steps r \<le> max_rewind_steps"
       "lifecycle_ok (sr_recovery_status r) (sr_recovery_attempts r) (sr_recovery_max_attempts r)
         (sr_recovery_run_token r)"
       "sysid_pattern (sr_sysid r)" "0 \<le> sr_action_index r" "sr_action_index r \<le> max_action_index"
    and c: "claim_ok tok (sr_recovery_status r) (sr_recovery_run_token r)"
    and u: "required_uuid (dget row ''recovery_session_id'') = Inr (sr_recovery_session_id r)"
    unfolding parse_recovery_session_def by (clarsimp simp: result_simps simp del: set_simps)
  have copies: "map PDict (sr_pinned_actions r) = actions" using r(1,2) by (simp add: map_filter_as_dict)
  then have "length (sr_pinned_actions r) = length actions" by (metis length_map)
  with r(4,5) f show "wf_session r" by (simp add: wf_session_def plen_def max_actions_def)
  from c show "claim_ok tok (sr_recovery_status r) (sr_recovery_run_token r)" .
  from r(3) copies show "dget row ''pinned_actions'' = PList (map PDict (sr_pinned_actions r))" by simp
  from u show "uuid_text (dget row ''recovery_session_id'') = Some (sr_recovery_session_id r)"
    by (simp add: required_uuid_def split: option.splits)
qed

text \<open>A claimed session is active, holds a token and has used an attempt.\<close>

lemma claimed_session:
  assumes "parse_recovery_session row True = Inr r"
  shows "sr_recovery_status r = ''running'' \<or> sr_recovery_status r = ''awaiting_outcome''"
    and "sr_recovery_run_token r \<noteq> None" and "1 \<le> sr_recovery_attempts r"
  using parse_recovery_session_wf [OF assms]
  by (auto simp: claim_ok_def wf_session_def lifecycle_ok_def)

section \<open>Lemmas: the place a row names\<close>

text \<open>
  What the executor asks of a row: the plan is compared with the step it names, and the
  live pointer with the same step.
\<close>

locale flow_step =
  fixes step_flow :: "'r \<Rightarrow> string"
    and step_index :: "'r \<Rightarrow> int"
    and step_command :: "'r \<Rightarrow> string"
    and validate_plan :: "recovery_plan \<Rightarrow> 'r \<Rightarrow> unit result"
    and matches :: "flow_pointer \<Rightarrow> 'r \<Rightarrow> bool"
  assumes validate_plan_iff: "validate_plan plan r = Inr () \<longleftrightarrow>
      expected_step plan = (Some (step_index r), Some (step_command r))"
    and matches_iff: "matches p r \<longleftrightarrow> is_paused p \<and> fp_flow_id p = step_flow r \<and>
      fp_action_index p = Some (step_index r) \<and> fp_action_command p = Some (step_command r)"
begin

lemma live_plan_is_valid:
  assumes "wf_plan plan" and "matches p r" and "validate_plan_for_flow plan p = Inr ()"
  shows "validate_plan plan r = Inr ()"
  using validated_plan_names_live_step(1) [OF assms(1,3)] assms(2)
  by (simp add: validate_plan_iff matches_iff)

lemma valid_plan_step_unique:
  "validate_plan plan r = Inr () \<Longrightarrow> validate_plan plan r' = Inr () \<Longrightarrow>
   step_index r = step_index r' \<and> step_command r = step_command r'"
  by (simp add: validate_plan_iff)

end

interpretation target_place: flow_step ft_flow_id ft_action_index ft_action_command
  validate_plan_for_target "\<lambda>p. pointer_matches_target (Some p)"
  by unfold_locales
    (auto simp: validate_plan_for_target_def pointer_matches_target_def expected_step_def guardE_def Let_def)

interpretation session_place: flow_step sr_flow_id sr_action_index sr_action_command
  validate_plan_for_session pointer_matches_session
  by unfold_locales
    (auto simp: validate_plan_for_session_def pointer_matches_session_def expected_step_def guardE_def Let_def)

lemma same_key_same_pointers:
  "session_pointer_key r = target_pointer_key t \<Longrightarrow>
   pointer_matches_session p r \<longleftrightarrow> pointer_matches_target (Some p) t"
  by (auto simp: session_pointer_key_def target_pointer_key_def session_place.matches_iff
      target_place.matches_iff)

section \<open>Lemmas: the outcome\<close>

lemma classify_range:
  "classify_flow_outcome p r \<in> {''recovered'', ''failed'', ''unknown''}"
  by (auto simp: classify_flow_outcome_def Let_def split: option.splits)

lemma paused_not_success [simp]: "''paused'' \<notin> set success_flow_statuses"
  by (simp add: success_flow_statuses_def)

lemma is_paused_status: "is_paused p \<longleftrightarrow> flow_status p = ''paused''"
  by (simp add: is_paused_def flow_status_def)

lemma classify_failed_iff:
  "classify_flow_outcome p r = ''failed'' \<longleftrightarrow> (\<exists>q. p = Some q \<and> pointer_matches_session q r)"
  by (auto simp: classify_flow_outcome_def pointer_matches_session_def is_paused_status same_flow_def
      Let_def split: option.splits)

lemma classify_recovered_iff:
  "classify_flow_outcome p r = ''recovered'' \<longleftrightarrow>
     (\<exists>q. p = Some q \<and> same_flow q r \<and>
        (flow_status q \<in> set success_flow_statuses \<and>
           (fp_completed q \<or> reached q (sr_action_index r)) \<or>
         advanced_past q (sr_action_index r)))"
  by (cases p) (auto simp: classify_flow_outcome_def advanced_past_def Let_def)

text \<open>Whatever the classifier calls recovered ends the wait, in any state of the waiter.\<close>

lemma recovered_is_decisive:
  "classify_flow_outcome (Some q) r = ''recovered'' \<Longrightarrow> fst (execution_outcome_predicate r g st (Some q))"
  by (auto simp: classify_recovered_iff execution_outcome_predicate_def Let_def)

lemma recurrence_is_decisive:
  "execution_outcome_predicate r g st (Some q) = (True, st') \<Longrightarrow> fp_generation q = g \<Longrightarrow>
   classify_flow_outcome (Some q) r = ''failed'' \<Longrightarrow> st"
  by (auto simp: classify_failed_iff pointer_matches_session_def is_paused_status same_flow_def
      advanced_past_def execution_outcome_predicate_def Let_def split: if_splits)

lemma predicate_starts:
  "execution_outcome_predicate r g False p = (d, True) \<Longrightarrow>
   \<exists>q. p = Some q \<and> same_flow q r \<and> flow_status q = ''in_progress''"
  by (auto simp: execution_outcome_predicate_def Let_def split: option.splits if_splits)

end
