(* ===== verification/Recovery_Database.thy ===== *)
theory Recovery_Database
  imports Recovery_Rows
begin

text \<open>
  \<open>SupabaseRecoveryDatabase\<close> of \<^verbatim>\<open>recovery_executor.py\<close>: the adapter between the executor
  and the control plane. The control plane (the Supabase client, its RPCs and tables) is not
  part of the program: a record of functions on a world of type \<open>'w\<close>. \<open>database\<close> is the
  protocol the executor programs against, \<open>supabase_database\<close> the adapter's implementation
  of it. The locale \<open>candidate_source\<close> is what reconciliation needs of \<open>cold_candidates\<close>.
\<close>

section \<open>The client\<close>

datatype row_filter =
    FilterEq string pyval
  | FilterIn string "pyval list"
  | FilterLt string pyval
  | FilterIs string pyval
  | FilterNotIs string pyval
  | FilterOr string

record table_query =
  tq_table :: string
  tq_columns :: string
  tq_filters :: "row_filter list"
  tq_order :: "string option"
  tq_limit :: "int option"

record 'w supabase =
  sb_rpc :: "string \<Rightarrow> pydict \<Rightarrow> ('w, pyval) prog"
  sb_select :: "table_query \<Rightarrow> ('w, pyval) prog"
  sb_update :: "table_query \<Rightarrow> pydict \<Rightarrow> ('w, pyval) prog"
  sb_now :: "'w \<Rightarrow> string"

section \<open>The protocol\<close>

record 'w database =
  db_fetch_failure :: "string \<Rightarrow> ('w, pydict option) prog"
  db_prepare :: "string \<Rightarrow> string \<Rightarrow> int \<Rightarrow> int \<Rightarrow> ('w, pydict) prog"
  db_attach :: "string \<Rightarrow> string \<Rightarrow> ('w, pydict) prog"
  db_project :: "string \<Rightarrow> ('w, pydict) prog"
  db_claim :: "string \<Rightarrow> string \<Rightarrow> int \<Rightarrow> ('w, pydict) prog"
  db_finish :: "string \<Rightarrow> string \<Rightarrow> string \<Rightarrow> string \<Rightarrow> string \<Rightarrow> ('w, pydict) prog"
  db_expired_attempts :: "int \<Rightarrow> ('w, pydict list) prog"
  db_expire :: "string \<Rightarrow> string \<Rightarrow> string \<Rightarrow> string \<Rightarrow> ('w, pydict) prog"
  db_cold_candidates :: "string list \<Rightarrow> int \<Rightarrow> ('w, string list) prog"
  db_mark_non_executable :: "string \<Rightarrow> string \<Rightarrow> ('w, unit) prog"

section \<open>The adapter\<close>

definition response_rows :: "pyval \<Rightarrow> pydict list" where
  "response_rows data = (case data of PList vs \<Rightarrow> List.map_filter as_dict vs | _ \<Rightarrow> [])"

definition one_row :: "pyval \<Rightarrow> pydict result" where
  "one_row data = (case data of
       PDict d \<Rightarrow> Inr d
     | PList [PDict d] \<Rightarrow> Inr d
     | _ \<Rightarrow> Inl ContractError)"

definition rpc_one :: "'w supabase \<Rightarrow> string \<Rightarrow> pydict \<Rightarrow> ('w, pydict) prog" where
  "rpc_one client name parameters = bindP (sb_rpc client name parameters) (\<lambda>data. liftP (one_row data))"

definition failure_events_table :: string where
  "failure_events_table = ''failure_events''"

definition recovery_sessions_table :: string where
  "recovery_sessions_table = ''failure_recovery_sessions''"

definition fetch_failure :: "'w supabase \<Rightarrow> string \<Rightarrow> ('w, pydict option) prog" where
  "fetch_failure client failure_id =
     bindP (sb_select client \<lparr> tq_table = failure_events_table, tq_columns = ''*'',
         tq_filters = [FilterEq ''failure_id'' (PStr failure_id)], tq_order = None,
         tq_limit = Some 1 \<rparr>) (\<lambda>data.
       returnP (case response_rows data of [] \<Rightarrow> None | row # _ \<Rightarrow> Some row))"

definition prepare :: "'w supabase \<Rightarrow> string \<Rightarrow> string \<Rightarrow> int \<Rightarrow> int \<Rightarrow> ('w, pydict) prog" where
  "prepare client failure_id session_id max_attempts rewind_steps =
     rpc_one client ''prepare_failure_recovery''
       [(''p_failure_id'', PStr failure_id), (''p_recovery_session_id'', PStr session_id),
        (''p_max_attempts'', PInt max_attempts), (''p_rewind_steps'', PInt rewind_steps)]"

definition attach :: "'w supabase \<Rightarrow> string \<Rightarrow> string \<Rightarrow> ('w, pydict) prog" where
  "attach client failure_id session_id =
     rpc_one client ''attach_failure_recovery_session''
       [(''p_failure_id'', PStr failure_id), (''p_recovery_session_id'', PStr session_id)]"

definition project :: "'w supabase \<Rightarrow> string \<Rightarrow> ('w, pydict) prog" where
  "project client session_id =
     rpc_one client ''project_failure_recovery_session''
       [(''p_recovery_session_id'', PStr session_id)]"

definition claim :: "'w supabase \<Rightarrow> string \<Rightarrow> string \<Rightarrow> int \<Rightarrow> ('w, pydict) prog" where
  "claim client failure_id session_id lease_seconds =
     rpc_one client ''claim_failure_recovery_attempt''
       [(''p_failure_id'', PStr failure_id), (''p_recovery_session_id'', PStr session_id),
        (''p_lease_seconds'', PInt lease_seconds)]"

definition finish ::
  "'w supabase \<Rightarrow> string \<Rightarrow> string \<Rightarrow> string \<Rightarrow> string \<Rightarrow> string \<Rightarrow> ('w, pydict) prog" where
  "finish client failure_id session_id run_token outcome message =
     rpc_one client ''finish_failure_recovery_attempt''
       [(''p_failure_id'', PStr failure_id), (''p_recovery_session_id'', PStr session_id),
        (''p_run_token'', PStr run_token), (''p_result'', PStr outcome), (''p_message'', PStr message)]"

definition expired_attempts :: "'w supabase \<Rightarrow> int \<Rightarrow> ('w, pydict list) prog" where
  "expired_attempts client limit =
     bindP (getsP (sb_now client)) (\<lambda>now.
     bindP (sb_select client \<lparr> tq_table = recovery_sessions_table, tq_columns = ''*'',
         tq_filters = [FilterIn ''recovery_status'' [PStr ''running'', PStr ''awaiting_outcome''],
           FilterLt ''recovery_lease_expires_at'' (PStr now)],
         tq_order = Some ''recovery_lease_expires_at'', tq_limit = Some limit \<rparr>) (\<lambda>data.
       returnP (response_rows data)))"

definition expire :: "'w supabase \<Rightarrow> string \<Rightarrow> string \<Rightarrow> string \<Rightarrow> string \<Rightarrow> ('w, pydict) prog" where
  "expire client failure_id session_id run_token message =
     rpc_one client ''expire_failure_recovery_attempt''
       [(''p_failure_id'', PStr failure_id), (''p_recovery_session_id'', PStr session_id),
        (''p_run_token'', PStr run_token), (''p_message'', PStr message)]"

definition resumable_status :: "pyval \<Rightarrow> bool" where
  \<comment> \<open>\<open>status in (None, "ready", "failed")\<close>\<close>
  "resumable_status v \<longleftrightarrow> v = PNone \<or> v = PStr ''ready'' \<or> v = PStr ''failed''"

definition candidate_ids :: "pydict list \<Rightarrow> string list" where
  "candidate_ids rows = List.map_filter (\<lambda>row.
     if \<not> resumable_status (dget row ''recovery_status'') then None
     else uuid_text (dget row ''failure_id'')) rows"

definition cold_candidates :: "'w supabase \<Rightarrow> string list \<Rightarrow> int \<Rightarrow> ('w, string list) prog" where
  "cold_candidates client sysids limit =
     bindP (sb_select client \<lparr> tq_table = failure_events_table,
         tq_columns = ''failure_id,sysid,recovery_status'',
         tq_filters = [FilterEq ''analysis_status'' (PStr ''completed''),
           FilterEq ''matcher_status'' (PStr ''solution_found''),
           FilterIn ''sysid'' (map PStr sysids),
           FilterOr ''recovery_status.is.null,recovery_status.in.(ready,failed)''],
         tq_order = Some ''created_at'', tq_limit = Some limit \<rparr>) (\<lambda>data.
       returnP (candidate_ids (response_rows data)))"

definition mark_non_executable :: "'w supabase \<Rightarrow> string \<Rightarrow> string \<Rightarrow> ('w, unit) prog" where
  "mark_non_executable client failure_id message = seqP
     (sb_update client \<lparr> tq_table = failure_events_table, tq_columns = [],
         tq_filters = [FilterEq ''failure_id'' (PStr failure_id),
           FilterEq ''matcher_status'' (PStr ''solution_found'')], tq_order = None,
         tq_limit = None \<rparr>
       [(''matcher_status'', PStr ''no_solution''), (''matcher_message'', PStr (take 2000 message)),
        (''resolver_suggestion'', PNone)])
     (returnP ())"

definition supabase_database :: "'w supabase \<Rightarrow> 'w database" where
  "supabase_database client = \<lparr>
     db_fetch_failure = fetch_failure client, db_prepare = prepare client,
     db_attach = attach client, db_project = project client, db_claim = claim client,
     db_finish = finish client, db_expired_attempts = expired_attempts client,
     db_expire = expire client, db_cold_candidates = cold_candidates client,
     db_mark_non_executable = mark_non_executable client \<rparr>"

section \<open>Candidates\<close>

text \<open>A canonical id is its own canonical form.\<close>

definition canonical_uuid :: "string \<Rightarrow> bool" where
  "canonical_uuid u \<longleftrightarrow> uuid_text (PStr u) = Some u"

lemma lower_hex_char:
  assumes "is_lower_hex c" shows "lower_char c = c" "\<not> is_space c"
  using assms
  by (auto simp: is_lower_hex_def is_digit_def lower_char_def upper_case_def is_space_def Let_def)

lemma uuid_slot_char:
  assumes "uuid_slot t c" "t \<in> set ''x-vr''" shows "lower_char c = c" "\<not> is_space c"
proof -
  have "is_lower_hex c \<or> c = CHR ''-''"
    using assms by (auto simp: uuid_slot_def is_lower_hex_def is_digit_def cpt_def split: if_splits)
  then show "lower_char c = c" "\<not> is_space c"
    using lower_hex_char [of c]
    by (auto simp: lower_char_def upper_case_def is_space_def cpt_def Let_def)
qed

lemma uuid_shape_chars:
  assumes "uuid_shape u" shows "\<forall>c \<in> set u. lower_char c = c \<and> \<not> is_space c"
proof
  fix c assume "c \<in> set u"
  from list_all2_mem2 [OF assms [unfolded uuid_shape_def] this] obtain t
    where "t \<in> set ''xxxxxxxx-xxxx-vxxx-rxxx-xxxxxxxxxxxx''" "uuid_slot t c" by blast
  moreover from this have "t \<in> set ''x-vr''" by auto
  ultimately show "lower_char c = c \<and> \<not> is_space c" using uuid_slot_char by blast
qed

lemma lstrip_no_space: "\<forall>c \<in> set s. \<not> is_space c \<Longrightarrow> lstrip s = s"
  by (cases s) (auto simp: lstrip_def)

lemma strip_no_space: "\<forall>c \<in> set s. \<not> is_space c \<Longrightarrow> strip s = s"
  by (simp add: strip_def lstrip_no_space)

lemma uuid_text_canonical: "uuid_text v = Some u \<Longrightarrow> canonical_uuid u"
proof -
  assume "uuid_text v = Some u"
  then have shape: "uuid_shape u" by (auto simp: uuid_text_def Let_def split: pyval.splits if_splits)
  from uuid_shape_chars [OF shape] have "strip u = u" "lower u = u"
    by (auto simp: strip_no_space lower_def intro: map_idI)
  with shape show ?thesis by (simp add: canonical_uuid_def uuid_text_def)
qed

text \<open>What reconciliation relies on: candidates are canonical ids.\<close>

locale candidate_source =
  fixes candidates :: "string list \<Rightarrow> int \<Rightarrow> ('w, string list) prog"
  assumes candidates_canonical:
    "candidates sysids limit w = (Inr cs, w') \<Longrightarrow> c \<in> set cs \<Longrightarrow> canonical_uuid c"
begin

lemma candidates_all_canonical: "triple (\<lambda>_. True) (candidates sysids limit)
    (\<lambda>cs _. list_all canonical_uuid cs) (\<lambda>_ _. True)"
  by (rule tripleI) (auto simp: list_all_iff intro: candidates_canonical)

end

lemma candidate_ids_iff:
  "c \<in> set (candidate_ids rows) \<longleftrightarrow>
     (\<exists>row \<in> set rows. resumable_status (dget row ''recovery_status'') \<and>
        uuid_text (dget row ''failure_id'') = Some c)"
  unfolding candidate_ids_def
  by (induction rows) (auto simp: map_filter_simps split: option.splits if_splits)

interpretation cold: candidate_source "cold_candidates client" for client
  by unfold_locales
    (auto simp: cold_candidates_def prog_defs candidate_ids_iff intro: uuid_text_canonical
      split: prod.splits sum.splits)

end
