(* ===== verification/Command_Spec.thy ===== *)
theory Command_Spec
  imports Recovery_Plan
begin

text \<open>
  Validation of the corrections of a plan against the robot's live command
  specification (\<open>validate_corrections_against_commands\<close> of
  \<^verbatim>\<open>recovery_executor.py\<close>): the JSON-schema subset, the input paths of a command, the
  confirmation rule and the provenance of defaults. The lemmas say what an accepted
  correction satisfies.
\<close>

section \<open>Schema values\<close>

definition schema_nonnegative_int :: "pydict \<Rightarrow> string \<Rightarrow> int result" where
  "schema_nonnegative_int schema key =
     (case dget schema key of
        PInt i \<Rightarrow> guardE (\<not> i < 0) ContractError (Inr i)
      | _ \<Rightarrow> Inl ContractError)"

text \<open>\<open>left >= right\<close> on ints and floats, compared exactly.\<close>

definition num_le :: "pyval \<Rightarrow> pyval \<Rightarrow> bool" where
  "num_le v w = (case (num_of v, num_of w) of (Some x, Some y) \<Rightarrow> fle x y | _ \<Rightarrow> False)"

definition number_limits :: "(string \<times> (pyval \<Rightarrow> pyval \<Rightarrow> bool)) list" where
  "number_limits =
     [(''minimum'', \<lambda>value limit. num_le limit value),
      (''maximum'', \<lambda>value limit. num_le value limit),
      (''exclusiveMinimum'', \<lambda>value limit. num_le limit value \<and> \<not> num_le value limit),
      (''exclusiveMaximum'', \<lambda>value limit. num_le value limit \<and> \<not> num_le limit value)]"

definition validate_number_range :: "pyval \<Rightarrow> pydict \<Rightarrow> unit result" where
  "validate_number_range value schema =
     forE (\<lambda>(key, comparison).
       (let limit = dget schema key in
        if limit = PNone then Inr ()
        else guardE (is_number limit) ContractError
          (bindE (to_float limit) (\<lambda>f.
           guardE (is_finite f) ContractError
           (guardE (comparison value limit) ContractError (Inr ())))))) number_limits"

text \<open>\<open>if schema.get(key) is not None and len(value) < _schema_nonnegative_int(...)\<close>.\<close>

definition check_size ::
  "pydict \<Rightarrow> string \<Rightarrow> string \<Rightarrow> int \<Rightarrow> unit result" where
  "check_size schema min_key max_key n =
     bindE (if dget schema min_key = PNone then Inr ()
            else bindE (schema_nonnegative_int schema min_key) (\<lambda>m.
              guardE (\<not> n < m) ContractError (Inr ()))) (\<lambda>_.
     if dget schema max_key = PNone then Inr ()
     else bindE (schema_nonnegative_int schema max_key) (\<lambda>m.
       guardE (\<not> n > m) ContractError (Inr ())))"

definition schema_list :: "pydict \<Rightarrow> string \<Rightarrow> pyval" where
  \<comment> \<open>\<open>schema.get(key, [])\<close>\<close>
  "schema_list schema key = (if has_key schema key then dget schema key else PList [])"

definition validate_scalar :: "string \<Rightarrow> pyval \<Rightarrow> pydict \<Rightarrow> unit result option" where
  \<comment> \<open>the branches for types without parts; None for the others\<close>
  "validate_scalar normalized value schema =
     (if normalized = ''int'' \<or> normalized = ''integer'' then
        Some (case value of PInt _ \<Rightarrow> validate_number_range value schema | _ \<Rightarrow> Inl ContractError)
      else if normalized = ''float'' \<or> normalized = ''number'' then
        Some (guardE (is_number value) ContractError
          (bindE (to_float value) (\<lambda>f. guardE (is_finite f) ContractError
             (validate_number_range value schema))))
      else if normalized = ''boolean'' then
        Some (guardE (is_bool value) ContractError (Inr ()))
      else if normalized = ''string'' \<or> normalized = ''enum'' then
        Some (with_str value (\<lambda>s. check_size schema ''minLength'' ''maxLength'' (plen s)))
      else None)"

text \<open>
  The schema a field of an object is checked against: its own, or \<open>additionalProperties\<close>
  when that is a schema; \<open>None\<close> when any JSON value is allowed.
\<close>

definition property_schema_of :: "pydict \<Rightarrow> pydict \<Rightarrow> string \<Rightarrow> pydict option result" where
  "property_schema_of schema properties name =
     (let additional = (if has_key schema ''additionalProperties''
            then dget schema ''additionalProperties'' else PBool False);
          own = dget properties name in
      if own = PNone then
        (if is_true additional \<or> additional = PDict [] then Inr None
         else with_dict additional (\<lambda>d. Inr (Some d)))
      else with_dict own (\<lambda>d. Inr (Some d)))"

definition object_properties :: "pydict \<Rightarrow> pydict result" where
  "object_properties schema =
     (if dget schema ''properties'' = PNone then Inr []
      else with_dict (dget schema ''properties'') Inr)"

definition check_required :: "pydict \<Rightarrow> pydict \<Rightarrow> unit result" where
  "check_required schema value =
     with_list (schema_list schema ''required'') (\<lambda>required.
       guardE (list_all is_str required) ContractError
       (guardE (list_all (has_key value) (List.map_filter as_str required)) ContractError (Inr ())))"

function validate_schema_value :: "pyval \<Rightarrow> string \<Rightarrow> pydict \<Rightarrow> unit result" where
  "validate_schema_value value value_type schema =
     (let normalized = casefold value_type in
      case validate_scalar normalized value schema of
        Some r \<Rightarrow> r
      | None \<Rightarrow>
          if normalized = ''array'' then
            with_list value (\<lambda>vs.
              bindE (check_size schema ''minItems'' ''maxItems'' (plen vs)) (\<lambda>_.
              with_dict (dget schema ''items'') (\<lambda>items.
              with_str (dget items ''type'') (\<lambda>item_type.
                forE (\<lambda>item. validate_schema_value item item_type items) vs))))
          else if normalized = ''object'' then
            with_dict value (\<lambda>d.
              bindE (object_properties schema) (\<lambda>properties.
              bindE (check_required schema d) (\<lambda>_.
                forE (\<lambda>(name, item).
                  bindE (property_schema_of schema properties name) (\<lambda>choice.
                  case choice of
                    None \<Rightarrow> validate_json item
                  | Some property_schema \<Rightarrow>
                      with_str (dget property_schema ''type'') (\<lambda>property_type.
                        validate_schema_value item property_type property_schema))) d)))
          else Inl ContractError)"
  by pat_completeness auto
termination
  by (relation "measure (\<lambda>(v, t, s). size v)") (auto intro: size_mem size_dict_mem)

declare validate_schema_value.simps [simp del]

definition validate_input_value :: "pyval \<Rightarrow> pydict \<Rightarrow> unit result" where
  "validate_input_value value input_schema =
     (if value = PNone then
        guardE (\<not> is_true (dget input_schema ''required'')) ContractError (Inr ())
      else
        (let raw_schema = dget input_schema ''schema'' in
         guardE (\<not> (raw_schema \<noteq> PNone \<and> \<not> is_dict raw_schema)) ContractError
         (let inner = (case raw_schema of PDict d \<Rightarrow> d | _ \<Rightarrow> []);
              value_type = (if truthy (dget inner ''type'') then dget inner ''type''
                            else dget input_schema ''type'') in
          with_str value_type (\<lambda>t.
          bindE (validate_schema_value value t (if inner \<noteq> [] then inner else input_schema)) (\<lambda>_.
          if dget input_schema ''enum'' = PNone then Inr ()
          else with_list (dget input_schema ''enum'') (\<lambda>enum.
            guardE (enum \<noteq> [] \<and> list_all is_str enum) ContractError
            (guardE (value \<in> set enum) ContractError (Inr ()))))))))"

section \<open>The inputs of a command\<close>

type_synonym input_paths = "(string list \<times> pydict) list"

definition add_input :: "pyval \<Rightarrow> input_paths \<Rightarrow> input_paths result" where
  "add_input raw_input by_path =
     with_dict raw_input (\<lambda>d.
     with_str (dget d ''name'') (\<lambda>name.
     guardE (name \<noteq> [] \<and> strip name = name) ContractError
     (let path = split_on (CHR ''.'') name in
      guardE (\<not> (\<not> list_all (\<lambda>part. part \<noteq> []) path \<or> path \<in> set (map fst by_path))) ContractError
      (guardE (is_bool (dget d ''required'')) ContractError
      (Inr (by_path @ [(path, d)]))))))"

definition paths_overlap :: "string list list \<Rightarrow> bool" where
  "paths_overlap paths = list_ex (\<lambda>path. list_ex (\<lambda>other. strict_prefix other path) paths) paths"

text \<open>The walk over the arguments: every key leads to a declared input or into one.\<close>

function validate_object :: "input_paths \<Rightarrow> pydict \<Rightarrow> string list \<Rightarrow> unit result" where
  "validate_object by_path value path_prefix =
     forE (\<lambda>(key, argument_value).
       guardE (key \<noteq> []) ContractError
       (let candidate = path_prefix @ [key] in
        case map_of by_path candidate of
          Some input_schema \<Rightarrow> validate_input_value argument_value input_schema
        | None \<Rightarrow>
            if list_ex (\<lambda>path. strict_prefix candidate path) (map fst by_path)
            then (case argument_value of
                PDict inner \<Rightarrow> validate_object by_path inner candidate
              | _ \<Rightarrow> Inl ContractError)
            else Inl ContractError)) value"
  by pat_completeness auto
termination
  by (relation "measure (\<lambda>(b, d, p). size_list (size_prod (\<lambda>_. 0) size) d)")
    (auto dest!: size_dict_mem)

declare validate_object.simps [simp del]

fun path_value :: "pydict \<Rightarrow> string list \<Rightarrow> pyval option" where
  "path_value d [] = Some (PDict d)"
| "path_value d [part] = map_of d part"
| "path_value d (part # parts) =
     (case map_of d part of Some (PDict inner) \<Rightarrow> path_value inner parts | _ \<Rightarrow> None)"

definition check_required_inputs :: "input_paths \<Rightarrow> pydict \<Rightarrow> unit result" where
  "check_required_inputs by_path arguments =
     forE (\<lambda>(path, input_schema).
       (let value = path_value arguments path in
        guardE (\<not> (is_true (dget input_schema ''required'') \<and>
          (value = None \<or> value = Some PNone \<or> value = Some (PStr [])))) ContractError (Inr ()))) by_path"

definition validate_action_arguments :: "string \<Rightarrow> pydict \<Rightarrow> pydict \<Rightarrow> unit result" where
  "validate_action_arguments command arguments schema =
     (let schema_name = dget schema ''name'' in
      guardE (\<not> (schema_name \<noteq> PNone \<and> schema_name \<noteq> PStr command)) ContractError
      (with_list (dget schema ''inputs'') (\<lambda>inputs.
       bindE (foldE add_input inputs []) (\<lambda>by_path.
       guardE (\<not> paths_overlap (map fst by_path)) ContractError
       (bindE (validate_object by_path arguments []) (\<lambda>_.
        check_required_inputs by_path arguments))))))"

section \<open>Confirmation\<close>

definition command_requires_confirmation :: "string \<Rightarrow> pydict \<Rightarrow> pydict \<Rightarrow> bool" where
  "command_requires_confirmation command arguments schema \<longleftrightarrow>
     (if is_true (dget schema ''requires_confirmation'') then True
      else if command \<in> set [''download_vla_model''] then True
      else if command = ''override_vla_model''
        then dget arguments ''allow_download'' \<noteq> PBool False
      else False)"

section \<open>Provenance of defaults\<close>

definition action_input_default :: "pydict \<Rightarrow> pyval option result" where
  \<comment> \<open>None is the marker \<open>_MISSING\<close>\<close>
  "action_input_default input_schema =
     (let raw = dget input_schema ''placeholder'';
          input_type = dget input_schema ''type'';
          schema_type = (case dget input_schema ''schema'' of PDict d \<Rightarrow> dget d ''type'' | _ \<Rightarrow> PNone) in
      if raw = PNone \<or> raw = PStr [] then Inr None
      else with_str raw (\<lambda>text.
        if input_type = PStr ''boolean'' then Inr (Some (PBool (text = ''true'')))
        else if input_type = PStr ''int'' then Inr (map_option PInt (parse_int text))
        else if input_type = PStr ''float'' then
          Inr (case parse_float text of
            Some f \<Rightarrow> if is_finite f then Some (PFloat f) else None | None \<Rightarrow> None)
        else if input_type = PStr ''array'' \<or> schema_type = PStr ''array'' then
          Inr (Some (case json_loads text of Some v \<Rightarrow> v | None \<Rightarrow> PStr text))
        else Inr (Some (PStr text))))"

definition add_default :: "pyval \<Rightarrow> pydict \<Rightarrow> pydict result" where
  "add_default raw_input defaults =
     with_dict raw_input (\<lambda>d.
     bindE (action_input_default d) (\<lambda>default_value.
     case default_value of
       None \<Rightarrow> Inr defaults
     | Some v \<Rightarrow> with_str (dget d ''name'') (\<lambda>name.
         guardE (name \<noteq> []) ContractError (Inr (dset defaults name v)))))"

text \<open>\<open>d.update(e)\<close>.\<close>

definition dict_update :: "pydict \<Rightarrow> pydict \<Rightarrow> pydict" where
  "dict_update d e = foldl (\<lambda>acc (k, v). dset acc k v) d e"

definition validate_action_provenance :: "recovery_action \<Rightarrow> pydict \<Rightarrow> unit result" where
  "validate_action_provenance action schema =
     with_list (dget schema ''inputs'') (\<lambda>inputs.
     bindE (foldE add_default inputs []) (\<lambda>defaults.
     guardE (\<not> (ra_explicit_arguments action \<noteq> None \<and>
         set (the (ra_explicit_arguments action)) \<noteq> set (dkeys (ra_arguments action)))) ContractError
     (case ra_arguments_effective action of
        None \<Rightarrow> guardE (defaults = []) ContractError (Inr ())
      | Some effective \<Rightarrow>
          bindE (json_values_equal (PDict effective) (PDict (dict_update defaults (ra_arguments action))))
            (\<lambda>same. guardE same ContractError (Inr ())))))"

section \<open>All corrections\<close>

definition validate_correction :: "pydict \<Rightarrow> recovery_action \<Rightarrow> unit result" where
  "validate_correction commands action =
     with_dict (dget commands (ra_command action)) (\<lambda>schema.
     guardE (\<not> command_requires_confirmation (ra_command action) (ra_arguments action) schema) ContractError
     (bindE (validate_action_arguments (ra_command action) (ra_arguments action) schema) (\<lambda>_.
      validate_action_provenance action schema)))"

definition validate_corrections_against_commands ::
  "recovery_action list \<Rightarrow> commands_frame \<Rightarrow> int \<Rightarrow> unit result" where
  "validate_corrections_against_commands corrections frame generation =
     guardE (cf_generation frame = generation) ContractError
     (forE (validate_correction (cf_commands frame)) corrections)"

section \<open>What accepted corrections satisfy\<close>

lemma strict_prefix_code: "strict_prefix xs ys \<longleftrightarrow> length xs < length ys \<and> take (length xs) ys = xs"
  by (metis append_eq_conv_conj length_take min.strict_order_iff nat_less_le
      prefix_def prefix_length_less prefix_order.less_le strict_prefix_def)

text \<open>
  The paths of the arguments that carry a value: a declared input ends a path, a mapping
  on the way to one is entered.
\<close>

inductive argument_path :: "input_paths \<Rightarrow> pydict \<Rightarrow> string list \<Rightarrow> string list \<Rightarrow> pyval \<Rightarrow> bool"
  for by_path :: input_paths where
  leaf: "(k, v) \<in> set d \<Longrightarrow> path_prefix @ [k] = path \<Longrightarrow>
    map_of by_path path \<noteq> None \<or> \<not> is_dict v \<Longrightarrow> argument_path by_path d path_prefix path v"
| enter: "(k, PDict inner) \<in> set d \<Longrightarrow> map_of by_path (path_prefix @ [k]) = None \<Longrightarrow>
    argument_path by_path inner (path_prefix @ [k]) path v \<Longrightarrow> argument_path by_path d path_prefix path v"

lemma validate_object_entry:
  assumes "validate_object by_path d path_prefix = Inr ()" and "(k, v) \<in> set d"
  shows "(case map_of by_path (path_prefix @ [k]) of
          Some input_schema \<Rightarrow> validate_input_value v input_schema
        | None \<Rightarrow> if list_ex (\<lambda>q. strict_prefix (path_prefix @ [k]) q) (map fst by_path)
            then (case v of PDict inner \<Rightarrow> validate_object by_path inner (path_prefix @ [k]) | _ \<Rightarrow> Inl ContractError)
            else Inl ContractError) = Inr ()"
  using assms(1)
  by (subst (asm) validate_object.simps)
    (use assms(2) in \<open>auto simp only: forE_eq_Inr guardE_eq_Inr Let_def dest!: bspec [of _ _ "(k, v)"]
      split: prod.splits\<close>)

lemma validate_object_accepts:
  assumes "argument_path by_path d path_prefix path v" and "validate_object by_path d path_prefix = Inr ()"
  shows "\<exists>schema. map_of by_path path = Some schema \<and> validate_input_value v schema = Inr ()"
  using assms
proof (induction rule: argument_path.induct)
  case (leaf k v d path_prefix path)
  from validate_object_entry [OF leaf.prems leaf.hyps(1)] leaf.hyps(2,3) show ?case
    by (auto simp: is_dict_def split: option.splits pyval.splits if_splits)
next
  case (enter k inner d path_prefix path v)
  from validate_object_entry [OF enter.prems enter.hyps(1)] enter.hyps(2)
  have "validate_object by_path inner (path_prefix @ [k]) = Inr ()"
    by (auto split: if_splits)
  then show ?case by (rule enter.IH)
qed

lemma check_required_inputs_eq [result_simps]:
  "check_required_inputs by_path arguments = Inr u \<longleftrightarrow>
     (\<forall>(path, schema) \<in> set by_path. is_true (dget schema ''required'') \<longrightarrow>
        (\<exists>v. path_value arguments path = Some v \<and> v \<noteq> PNone \<and> v \<noteq> PStr []))"
  by (fastforce simp: check_required_inputs_def forE_eq_Inr guardE_eq_Inr Let_def)

lemma add_input_inv:
  "add_input v b = Inr c \<Longrightarrow> distinct (map fst b) \<Longrightarrow> distinct (map fst c)"
  by (auto simp: add_input_def result_simps Let_def)

lemma foldE_add_input_distinct: "foldE add_input inputs [] = Inr b \<Longrightarrow> distinct (map fst b)"
  by (rule foldE_inv [where P = "\<lambda>b. distinct (map fst b)"]) (auto intro: add_input_inv)

lemma validate_corrections_eq [result_simps]:
  "validate_corrections_against_commands cs frame g = Inr u \<longleftrightarrow>
     cf_generation frame = g \<and> (\<forall>a \<in> set cs. validate_correction (cf_commands frame) a = Inr ())"
  by (auto simp: validate_corrections_against_commands_def result_simps)

lemma validate_correction_eq:
  "validate_correction commands a = Inr u \<longleftrightarrow>
     (\<exists>schema. dget commands (ra_command a) = PDict schema \<and>
        \<not> command_requires_confirmation (ra_command a) (ra_arguments a) schema \<and>
        validate_action_arguments (ra_command a) (ra_arguments a) schema = Inr () \<and>
        validate_action_provenance a schema = Inr ())"
  by (auto simp: validate_correction_def result_simps)

section \<open>Ranges and provenance\<close>

lemma validate_number_range_eq [result_simps]:
  "validate_number_range v schema = Inr u \<longleftrightarrow>
     (\<forall>(key, comparison) \<in> set number_limits. dget schema key = PNone \<or>
        is_number (dget schema key) \<and>
        (\<exists>f. to_float (dget schema key) = Inr f \<and> is_finite f) \<and> comparison v (dget schema key))"
  unfolding validate_number_range_def forE_eq_Inr
  by (intro ball_cong refl) (auto simp: result_simps Let_def)

lemma num_le_int [simp]: "num_le (PInt i) (PInt j) \<longleftrightarrow> i \<le> j"
  by (simp add: num_le_def)

text \<open>An accepted value of an integer input is an int within its integer limits.\<close>

lemma schema_integer_range:
  assumes "validate_schema_value v t schema = Inr ()"
    and "casefold t = ''int'' \<or> casefold t = ''integer''"
  shows "\<exists>i. v = PInt i \<and>
    (\<forall>m. dget schema ''minimum'' = PInt m \<longrightarrow> m \<le> i) \<and>
    (\<forall>m. dget schema ''maximum'' = PInt m \<longrightarrow> i \<le> m) \<and>
    (\<forall>m. dget schema ''exclusiveMinimum'' = PInt m \<longrightarrow> m < i) \<and>
    (\<forall>m. dget schema ''exclusiveMaximum'' = PInt m \<longrightarrow> i < m)"
proof -
  have "(case v of PInt _ \<Rightarrow> validate_number_range v schema | _ \<Rightarrow> Inl ContractError) = Inr ()"
    using assms by (subst (asm) validate_schema_value.simps) (auto simp: validate_scalar_def Let_def)
  then obtain i where v: "v = PInt i" and r: "validate_number_range (PInt i) schema = Inr ()"
    by (auto split: pyval.splits)
  from r have lim: "\<And>key comparison. (key, comparison) \<in> set number_limits \<Longrightarrow>
      dget schema key = PNone \<or> comparison (PInt i) (dget schema key)"
    by (fastforce simp: validate_number_range_eq)
  show ?thesis
    using v lim [of "''minimum''"] lim [of "''maximum''"] lim [of "''exclusiveMinimum''"]
      lim [of "''exclusiveMaximum''"]
    by (auto simp: number_limits_def)
qed

lemma allE_eq_Inr_True: "allE f xs = Inr True \<longleftrightarrow> (\<forall>x \<in> set xs. f x = Inr True)"
  by (induction xs) (auto simp: bindE_eq_Inr)

lemma json_values_equal_dict:
  "json_values_equal (PDict d) (PDict e) = Inr True \<longleftrightarrow>
     set (dkeys d) = set (dkeys e) \<and> (\<forall>(k, v) \<in> set d. json_values_equal v (dget e k) = Inr True)"
  by (subst json_values_equal.simps)
    (auto simp: is_bool_def is_number_def is_none_or_str_def is_str_def allE_eq_Inr_True)

lemma dict_update_get:
  "distinct (dkeys e) \<Longrightarrow> dget (dict_update d e) k = (if has_key e k then dget e k else dget d k)"
proof (induction e arbitrary: d)
  case (Cons kv e)
  obtain k' v where "kv = (k', v)" by force
  with Cons show ?case by (auto simp: dict_update_def dkeys_def has_key_iff)
qed (simp add: dict_update_def)

lemma dict_update_keys: "set (dkeys (dict_update d e)) = set (dkeys d) \<union> set (dkeys e)"
proof (induction e arbitrary: d)
  case (Cons kv e)
  have "set (dkeys (dset d k v)) = insert k (set (dkeys d))" for k v d
    using has_key_dset [of d k v] by (auto simp: has_key_iff)
  with Cons show ?case by (cases kv) (auto simp: dict_update_def dkeys_def)
qed (simp add: dict_update_def dkeys_def)

text \<open>
  The effective arguments of an accepted correction are its own arguments and, for the
  inputs it leaves out, the defaults of the live specification.
\<close>

lemma provenance_effective:
  assumes "validate_action_provenance a schema = Inr ()" and "ra_arguments_effective a = Some eff"
    and "distinct (dkeys (ra_arguments a))"
  shows "\<exists>inputs defaults. dget schema ''inputs'' = PList inputs \<and>
    foldE add_default inputs [] = Inr defaults \<and>
    set (dkeys eff) = set (dkeys (ra_arguments a)) \<union> set (dkeys defaults) \<and>
    (\<forall>(k, v) \<in> set eff. json_values_equal v
       (if has_key (ra_arguments a) k then dget (ra_arguments a) k else dget defaults k) = Inr True)"
proof -
  from assms(1,2) obtain inputs defaults where
    i: "dget schema ''inputs'' = PList inputs" "foldE add_default inputs [] = Inr defaults" and
    eq: "json_values_equal (PDict eff) (PDict (dict_update defaults (ra_arguments a))) = Inr True"
    by (auto simp: validate_action_provenance_def result_simps)
  from eq assms(3) i show ?thesis
    by (intro exI [of _ inputs] exI [of _ defaults])
      (auto simp: json_values_equal_dict dict_update_keys dict_update_get)
qed

end
