(* ===== verification/Recovery_Coordinator.thy ===== *)
theory Recovery_Coordinator
  imports Recovery_Database Command_Spec
begin

text \<open>
  \<open>RecoveryCoordinator\<close> of \<^verbatim>\<open>recovery_executor.py\<close>: the state of the service, its queue of
  failures, and the coroutines that process one failure: attach or execute, wait for the
  paused Flow, prepare, claim, send the corrections and the continuation, observe, finish.
  Every \<open>await\<close> runs a function of the environment on its world and then lets the other
  tasks of the service change the coordinator (\<open>en_others\<close>). The trace records the calls
  the coroutine makes to the control plane and to the robot; the program does not read it.
\<close>

section \<open>State\<close>

record active_recovery =
  ar_recovery_session_id :: string
  ar_current_failure_id :: string

record 'w coordinator =
  co_state :: execution_state
  co_database :: "'w database option"
  co_stopped :: bool
  co_started :: bool
  co_work_tasks :: "string list"
  co_session_tasks :: "string list"
  co_reconcile_task :: bool
  co_pending :: "string set"
  co_dirty :: "string set"
  co_active :: "pointer_key \<rightharpoonup> nat"
  co_objects :: "nat \<Rightarrow> active_recovery"
  co_next_object :: nat

definition max_pending_failures :: nat where "max_pending_failures = 512"

text \<open>The protocol \<open>RecoveryRobotSession\<close>; \<open>rb_view\<close> gives its attributes.\<close>

record 'w robot =
  rb_view :: "'w \<Rightarrow> robot_session"
  rb_wait_connected :: "pyfloat \<Rightarrow> ('w, unit) prog"
  rb_wait_for_commands :: "int \<Rightarrow> pyfloat \<Rightarrow> ('w, commands_frame) prog"
  rb_request_command :: "string \<Rightarrow> pydict \<Rightarrow> pyfloat \<Rightarrow> ('w, command_receipt) prog"
  rb_wait_for_flow :: "flow_predicate \<Rightarrow> int \<Rightarrow> pyfloat \<Rightarrow> int \<Rightarrow> ('w, flow_pointer option) prog"

record 'w env =
  en_settings :: recovery_settings
  en_sessions :: "(string \<times> 'w robot) list"
  en_new_uuid :: "('w, string) prog"
  en_wait_stop :: "pyfloat \<Rightarrow> ('w, unit) prog"
  en_lock :: "string \<Rightarrow> ('w, unit) prog"
  en_unlock :: "string \<Rightarrow> 'w \<Rightarrow> 'w"
  en_others :: "'w \<Rightarrow> 'w coordinator \<Rightarrow> 'w coordinator"
  en_error_text :: "py_error \<Rightarrow> string"

datatype event =
    EvFetch string
  | EvAttach string string
  | EvPrepare string string int int
  | EvProject string
  | EvClaim string string
  | EvRequest string pydict robot_session
  | EvFinish string string string string
  | EvMark string
  | EvExpire string string string

record 'w sys =
  sy_world :: 'w
  sy_coordinator :: "'w coordinator"
  sy_trace :: "event list"
  sy_dispatched :: bool

type_synonym ('w, 'a) co_prog = "('w sys, 'a) prog"

definition awaitP :: "'w env \<Rightarrow> ('w, 'a) prog \<Rightarrow> ('w, 'a) co_prog" where
  "awaitP env m = (\<lambda>s. case m (sy_world s) of
     (r, w) \<Rightarrow> (r, s\<lparr> sy_world := w, sy_coordinator := en_others env w (sy_coordinator s) \<rparr>))"

definition logP :: "event \<Rightarrow> ('w, unit) co_prog" where
  "logP e = modifyP (\<lambda>s. s\<lparr> sy_trace := sy_trace s @ [e] \<rparr>)"

definition on_co :: "('w coordinator \<Rightarrow> 'w coordinator) \<Rightarrow> ('w, unit) co_prog" where
  "on_co f = modifyP (\<lambda>s. s\<lparr> sy_coordinator := f (sy_coordinator s) \<rparr>)"

definition countP :: "(execution_state \<Rightarrow> execution_state) \<Rightarrow> ('w, unit) co_prog" where
  "countP f = on_co (\<lambda>co. co\<lparr> co_state := f (co_state co) \<rparr>)"

definition co_get :: "('w coordinator \<Rightarrow> 'a) \<Rightarrow> ('w, 'a) co_prog" where
  "co_get f = getsP (\<lambda>s. f (sy_coordinator s))"

definition view_of :: "'w robot \<Rightarrow> 'w sys \<Rightarrow> robot_session" where
  "view_of robot s = rb_view robot (sy_world s)"

definition skip_event :: "('w, unit) co_prog" where
  "skip_event = countP (\<lambda>es. es\<lparr> es_events_skipped := es_events_skipped es + 1 \<rparr>)"

definition set_last_error :: "py_error \<Rightarrow> ('w, unit) co_prog" where
  "set_last_error e = countP (\<lambda>es. es\<lparr> es_last_error := Some e \<rparr>)"

definition required_database :: "('w, 'w database) co_prog" where
  "required_database = bindP (co_get co_database) (\<lambda>db.
     case db of None \<Rightarrow> throwP DatabaseUnavailable | Some d \<Rightarrow> returnP d)"

section \<open>Construction and snapshot\<close>

text \<open>Sessions given by the caller win over those of the factory.\<close>

definition coordinator_sessions ::
  "recovery_settings \<Rightarrow> (string \<times> 'r) list \<Rightarrow> (string \<Rightarrow> string \<Rightarrow> string \<Rightarrow> 'r) \<Rightarrow> (string \<times> 'r) list" where
  "coordinator_sessions se given factory =
     (let supplied = foldl (\<lambda>m (sysid, session). m(upper (strip sysid) \<mapsto> session)) Map.empty given in
      List.map_filter (\<lambda>sysid. case supplied sysid of
          Some session \<Rightarrow> Some (sysid, session)
        | None \<Rightarrow> if se_enabled se
            then Some (sysid, factory sysid (se_cf_access_client_id se) (se_cf_access_client_secret se))
            else None) (se_robot_allowlist se))"

definition new_coordinator :: "'w database option \<Rightarrow> 'w coordinator" where
  "new_coordinator db = \<lparr> co_state = new_execution_state, co_database = db, co_stopped = False,
     co_started = False, co_work_tasks = [], co_session_tasks = [], co_reconcile_task = False,
     co_pending = {}, co_dirty = {}, co_active = Map.empty,
     co_objects = (\<lambda>_. \<lparr> ar_recovery_session_id = [], ar_current_failure_id = [] \<rparr>),
     co_next_object = 0 \<rparr>"

definition set_database :: "'w database option \<Rightarrow> 'w coordinator \<Rightarrow> 'w coordinator" where
  "set_database db co = co\<lparr> co_database := db \<rparr>"

definition robot_snapshot :: "robot_session \<Rightarrow> pydict" where
  "robot_snapshot v =
     [(''connected'', PBool (rs_connected v)), (''generation'', PInt (rs_generation v)),
      (''flow_ready'', PBool (rs_connected v \<and>
         (case rs_latest_flow v of Some p \<Rightarrow> fp_generation p = rs_generation v | None \<Rightarrow> False))),
      (''commands_ready'', PBool (rs_connected v \<and>
         (case rs_latest_commands v of Some c \<Rightarrow> cf_generation c = rs_generation v | None \<Rightarrow> False)))]"

definition snapshot :: "'w env \<Rightarrow> 'w sys \<Rightarrow> pydict" where
  "snapshot env s =
     state_snapshot (co_state (sy_coordinator s)) (se_enabled (en_settings env))
       @ [(''auto_recovery_robots'', PDict (map (\<lambda>(sysid, robot).
            (sysid, PDict (robot_snapshot (view_of robot s)))) (en_sessions env)))]"

section \<open>Start, stop and the queue\<close>

definition start :: "recovery_settings \<Rightarrow> string list \<Rightarrow> 'w coordinator \<Rightarrow> 'w coordinator" where
  "start se sessions co =
     (if co_started co \<or> \<not> se_enabled se then co
      else co\<lparr> co_started := True, co_stopped := False,
        co_session_tasks := co_session_tasks co @ sessions, co_reconcile_task := True \<rparr>)"

text \<open>
  \<open>stop\<close> waits for the tasks between its two parts, with a bound: a task that outlives it is
  cancelled and not awaited.
\<close>

definition stop_begin :: "'w coordinator \<Rightarrow> 'w coordinator" where
  "stop_begin co = (if \<not> co_started co then co
     else co\<lparr> co_stopped := True, co_reconcile_task := False \<rparr>)"

definition stop_end :: "'w coordinator \<Rightarrow> 'w coordinator" where
  "stop_end co = co\<lparr> co_session_tasks := [], co_pending := {}, co_dirty := {}, co_started := False \<rparr>"

definition bump_enqueued :: "execution_state \<Rightarrow> execution_state" where
  "bump_enqueued es = es\<lparr> es_events_enqueued := es_events_enqueued es + 1 \<rparr>"

definition bump_skipped :: "execution_state \<Rightarrow> execution_state" where
  "bump_skipped es = es\<lparr> es_events_skipped := es_events_skipped es + 1 \<rparr>"

definition notify_failure :: "recovery_settings \<Rightarrow> pyval \<Rightarrow> 'w coordinator \<Rightarrow> 'w coordinator" where
  "notify_failure se failure_id co =
     (if \<not> se_enabled se \<or> co_stopped co then co
      else case uuid_text failure_id of
        None \<Rightarrow> co\<lparr> co_state := bump_skipped (co_state co) \<rparr>
      | Some canonical \<Rightarrow>
          if canonical \<in> co_pending co then co\<lparr> co_dirty := insert canonical (co_dirty co) \<rparr>
          else if card (co_pending co) \<ge> max_pending_failures
            then co\<lparr> co_state := bump_skipped (co_state co) \<rparr>
          else co\<lparr> co_pending := insert canonical (co_pending co),
                  co_state := bump_enqueued (co_state co),
                  co_work_tasks := co_work_tasks co @ [canonical] \<rparr>)"

text \<open>The \<open>finally\<close> clause of \<open>_process_notified\<close>, and the callback that drops the task.\<close>

definition notified_done :: "recovery_settings \<Rightarrow> string \<Rightarrow> 'w coordinator \<Rightarrow> 'w coordinator" where
  "notified_done se failure_id co =
     (let replay = failure_id \<in> co_dirty co;
          co' = co\<lparr> co_pending := co_pending co - {failure_id},
                    co_dirty := co_dirty co - {failure_id} \<rparr> in
      if replay \<and> \<not> co_stopped co' then notify_failure se (PStr failure_id) co' else co')"

definition task_discarded :: "string \<Rightarrow> 'w coordinator \<Rightarrow> 'w coordinator" where
  "task_discarded failure_id co = co\<lparr> co_work_tasks := remove1 failure_id (co_work_tasks co) \<rparr>"

end
