(* ===== verification/Recovery_Attempt.thy ===== *)
theory Recovery_Attempt
  imports Recovery_Coordinator
begin

text \<open>
  One claimed attempt (\<open>_execute_attempt\<close>, \<open>_require_live_execution_state\<close>,
  \<open>_finish_unknown\<close> of \<^verbatim>\<open>recovery_executor.py\<close>): the corrections and the continuation,
  each behind a check of the live robot, the acknowledgement, the observed outcome, and
  what every exception does to the attempt. \<open>sy_dispatched\<close> is the local variable
  \<open>command_dispatched\<close>.
\<close>

section \<open>The live guard\<close>

definition pointer_unchanged :: "robot_session \<Rightarrow> flow_pointer \<Rightarrow> bool" where
  "pointer_unchanged view pointer \<longleftrightarrow>
     rs_connected view \<and> rs_generation view = fp_generation pointer \<and>
     (case rs_latest_flow view of
        None \<Rightarrow> False
      | Some latest \<Rightarrow>
          fp_generation latest = fp_generation pointer \<and> fp_revision latest = fp_revision pointer \<and>
          fp_flow_id latest = fp_flow_id pointer \<and> fp_status latest = fp_status pointer \<and>
          fp_action_index latest = fp_action_index pointer \<and>
          fp_action_command latest = fp_action_command pointer)"

definition live_commands :: "robot_session \<Rightarrow> flow_pointer \<Rightarrow> commands_frame option" where
  "live_commands view pointer = (case rs_latest_commands view of
       Some frame \<Rightarrow> if cf_generation frame = fp_generation pointer then Some frame else None
     | None \<Rightarrow> None)"

text \<open>\<open>except RecoveryContractError as error: raise RecoveryNonExecutableError\<close>.\<close>

definition as_non_executable :: "'a result \<Rightarrow> 'a result" where
  "as_non_executable r = (case r of
       Inl e \<Rightarrow> Inl (if is_contract_error e then NonExecutableError else e) | Inr a \<Rightarrow> Inr a)"

definition require_live_execution_state ::
  "robot_session \<Rightarrow> flow_pointer \<Rightarrow> recovery_plan \<Rightarrow> commands_frame result" where
  "require_live_execution_state view pointer plan =
     guardE (pointer_unchanged view pointer) LiveStateChanged
     (case live_commands view pointer of
        None \<Rightarrow> Inl LiveStateChanged
      | Some frame \<Rightarrow>
          as_non_executable
            (bindE (validate_plan_for_flow plan (the (rs_latest_flow view))) (\<lambda>_.
             bindE (validate_corrections_against_commands (rp_corrections plan) frame
               (fp_generation pointer)) (\<lambda>_. Inr frame))))"

definition live_guard :: "'w robot \<Rightarrow> flow_pointer \<Rightarrow> recovery_plan \<Rightarrow> ('w, commands_frame) co_prog" where
  "live_guard robot pointer plan =
     bindP (getsP (view_of robot)) (\<lambda>view. liftP (require_live_execution_state view pointer plan))"

section \<open>Finishing\<close>

definition finish_call ::
  "'w env \<Rightarrow> 'w database \<Rightarrow> string \<Rightarrow> string \<Rightarrow> string \<Rightarrow> string \<Rightarrow> string \<Rightarrow> ('w, pydict) co_prog" where
  "finish_call env db failure_id session_id run_token outcome message =
     seqP (logP (EvFinish failure_id session_id run_token outcome))
       (awaitP env (db_finish db failure_id session_id run_token outcome message))"

definition bump_unknown :: "execution_state \<Rightarrow> execution_state" where
  "bump_unknown es = es\<lparr> es_attempts_unknown := es_attempts_unknown es + 1 \<rparr>"

definition finish_unknown ::
  "'w env \<Rightarrow> recovery_session \<Rightarrow> string \<Rightarrow> string \<Rightarrow> ('w, unit) co_prog" where
  "finish_unknown env claimed failure_id message =
     (case sr_recovery_run_token claimed of
        None \<Rightarrow> returnP ()
      | Some run_token \<Rightarrow>
          bindP required_database (\<lambda>db.
          seqP (finish_call env db failure_id (sr_recovery_session_id claimed) run_token
              ''unknown'' message)
            (countP bump_unknown)))"

definition record_failed :: "recovery_session \<Rightarrow> ('w, unit) co_prog" where
  "record_failed r =
     seqP (countP (\<lambda>es. es\<lparr> es_attempts_failed := es_attempts_failed es + 1 \<rparr>))
       (if sr_recovery_status r = ''timed_out''
        then countP (\<lambda>es. es\<lparr> es_sessions_timed_out := es_sessions_timed_out es + 1 \<rparr>)
        else returnP ())"

section \<open>Sending\<close>

definition send_command ::
  "'w env \<Rightarrow> 'w robot \<Rightarrow> string \<Rightarrow> pydict \<Rightarrow> ('w, command_receipt) co_prog" where
  "send_command env robot command arguments =
     seqP (modifyP (\<lambda>s. s\<lparr> sy_dispatched := True,
         sy_trace := sy_trace s @ [EvRequest command arguments (view_of robot s)] \<rparr>))
       (awaitP env (rb_request_command robot command arguments
          (se_command_timeout (en_settings env))))"

definition bump_accepted :: "execution_state \<Rightarrow> execution_state" where
  "bump_accepted es = es\<lparr> es_actions_accepted := es_actions_accepted es + 1 \<rparr>"

definition same_generation :: "command_receipt \<Rightarrow> flow_pointer \<Rightarrow> ('w, unit) co_prog" where
  "same_generation receipt pointer =
     liftP (guardE (cr_generation receipt = fp_generation pointer) ContractError (Inr ()))"

fun send_corrections ::
  "'w env \<Rightarrow> 'w robot \<Rightarrow> recovery_plan \<Rightarrow> flow_pointer \<Rightarrow> recovery_action list \<Rightarrow> ('w, unit) co_prog" where
  "send_corrections env robot plan pointer [] = returnP ()"
| "send_corrections env robot plan pointer (action # actions) =
     seqP (live_guard robot pointer plan)
     (bindP (send_command env robot (ra_command action) (ra_arguments action)) (\<lambda>receipt.
      seqP (same_generation receipt pointer)
      (seqP (countP bump_accepted) (send_corrections env robot plan pointer actions))))"

definition send_continuation ::
  "'w env \<Rightarrow> 'w robot \<Rightarrow> recovery_plan \<Rightarrow> flow_pointer \<Rightarrow> ('w, command_receipt) co_prog" where
  "send_continuation env robot plan pointer =
     seqP (live_guard robot pointer plan)
     (bindP (liftP (resume_arguments_for_plan plan pointer)) (\<lambda>resume_arguments.
      bindP (send_command env robot ''$resume_flow'' resume_arguments) (\<lambda>receipt.
      seqP (same_generation receipt pointer)
      (seqP (liftP (validate_resume_acknowledgement (cr_result receipt) pointer
          (rp_rewind_steps plan) (Some (rp_resume_mode plan))))
      (seqP (countP bump_accepted) (returnP receipt))))))"

section \<open>Observing\<close>

datatype attempt_payload = NoPayload | PointerPayload "flow_pointer option" | RecordPayload recovery_session

definition awaiting_message :: "recovery_session \<Rightarrow> string" where
  "awaiting_message r = ''Automatic recovery attempt '' @ int_text (sr_recovery_attempts r) @ '' of '' @
     int_text (sr_recovery_max_attempts r) @
     '' was accepted; waiting for the Flow to pass the failed step.''"

definition bump_recovered :: "execution_state \<Rightarrow> execution_state" where
  "bump_recovered es = es\<lparr> es_attempts_recovered := es_attempts_recovered es + 1 \<rparr>"

definition conclude ::
  "'w env \<Rightarrow> 'w database \<Rightarrow> recovery_session \<Rightarrow> string \<Rightarrow> string \<Rightarrow> flow_pointer option \<Rightarrow>
   ('w, string \<times> attempt_payload) co_prog" where
  "conclude env db claimed failure_id run_token outcome =
     (let classification = classify_flow_outcome outcome claimed;
          session_id = sr_recovery_session_id claimed in
      if classification = ''recovered'' then
        bindP (finish_call env db failure_id session_id run_token ''recovered''
            ''Automatic recovery succeeded: the Flow advanced past the failed step.'') (\<lambda>row.
        bindP (liftP (parse_recovery_session row False)) (\<lambda>finished.
        seqP (countP bump_recovered) (returnP (''recovered'', RecordPayload finished))))
      else if classification = ''failed'' then
        bindP (finish_call env db failure_id session_id run_token ''failed''
            ''The same Flow step paused again after automatic recovery.'') (\<lambda>row.
        bindP (liftP (parse_recovery_session row False)) (\<lambda>finished.
        seqP (record_failed finished) (returnP (''failed'', RecordPayload finished))))
      else
        seqP (finish_unknown env claimed failure_id
            ''The Flow changed in a way that could not be safely classified as recovery or the same failure.'')
          (returnP (''unknown'', PointerPayload outcome)))"

definition attempt_body ::
  "'w env \<Rightarrow> 'w database \<Rightarrow> 'w robot \<Rightarrow> recovery_session \<Rightarrow> string \<Rightarrow> string \<Rightarrow> recovery_plan \<Rightarrow>
   flow_pointer \<Rightarrow> ('w, string \<times> attempt_payload) co_prog" where
  "attempt_body env db robot claimed failure_id run_token plan pointer =
     seqP (send_corrections env robot plan pointer (rp_corrections plan))
     (bindP (send_continuation env robot plan pointer) (\<lambda>receipt.
      seqP (finish_call env db failure_id (sr_recovery_session_id claimed) run_token
          ''awaiting_outcome'' (awaiting_message claimed))
      (bindP (awaitP env (rb_wait_for_flow robot
          (execution_outcome_predicate claimed (fp_generation pointer))
          (cr_flow_revision receipt) (se_outcome_timeout (en_settings env))
          (fp_generation pointer))) (\<lambda>outcome.
       conclude env db claimed failure_id run_token outcome))))"

section \<open>The exceptions of an attempt\<close>

text \<open>
  A cancelled attempt is finished as unknown when something was dispatched; the finish is
  shielded and bounded, and a cancelled or late finish is given up.
\<close>

definition finish_cancelled :: "'w env \<Rightarrow> recovery_session \<Rightarrow> string \<Rightarrow> ('w, 'a) co_prog" where
  "finish_cancelled env claimed failure_id =
     bindP (getsP sy_dispatched) (\<lambda>dispatched.
     seqP (if dispatched
         then catchP (finish_unknown env claimed failure_id
             ''Automatic recovery was interrupted after dispatch; the robot outcome is unknown.'')
           (\<lambda>e. if e = CancelledErr \<or> e = TimeoutErr then returnP () else throwP e)
         else returnP ())
       (throwP CancelledErr))"

definition finish_after_error ::
  "'w env \<Rightarrow> recovery_session \<Rightarrow> string \<Rightarrow> py_error \<Rightarrow> string \<Rightarrow> ('w, string \<times> attempt_payload) co_prog" where
  "finish_after_error env claimed failure_id e message =
     seqP (finish_unknown env claimed failure_id message)
     (seqP (set_last_error e) (returnP (''unknown'', NoPayload)))"

definition attempt_handler ::
  "'w env \<Rightarrow> recovery_session \<Rightarrow> string \<Rightarrow> py_error \<Rightarrow> ('w, string \<times> attempt_payload) co_prog" where
  "attempt_handler env claimed failure_id e =
     (if e = CancelledErr then finish_cancelled env claimed failure_id
      else if e = NotSentError \<or> e = OutcomeUnknownError \<or> e = TimeoutErr then
        finish_after_error env claimed failure_id e
          ''Automatic recovery lost command or Flow confirmation; the robot outcome is unknown.''
      else if e = RejectedError then
        finish_after_error env claimed failure_id e
          ''The robot explicitly rejected an automatic recovery command; automatic retry was disabled.''
      else if is_contract_error e then
        finish_after_error env claimed failure_id e
          ''Automatic recovery received malformed pinned or robot data; the attempt was stopped as unknown.''
      else throwP e)"

definition execute_attempt ::
  "'w env \<Rightarrow> 'w database \<Rightarrow> 'w robot \<Rightarrow> recovery_session \<Rightarrow> string \<Rightarrow> recovery_plan \<Rightarrow>
   flow_pointer \<Rightarrow> ('w, string \<times> attempt_payload) co_prog" where
  "execute_attempt env db robot claimed failure_id plan pointer =
     (case sr_recovery_run_token claimed of
        None \<Rightarrow> throwP ContractError
      | Some run_token \<Rightarrow>
          seqP (modifyP (\<lambda>s. s\<lparr> sy_dispatched := False \<rparr>))
          (catchP (attempt_body env db robot claimed failure_id run_token plan pointer)
             (attempt_handler env claimed failure_id)))"

end
