(* ===== verification/Attempt_Trace.thy ===== *)
theory Attempt_Trace
  imports Recovery_Attempt
begin

text \<open>
  What an attempt does to the outside: the events a coroutine of the executor emits
  (\<open>emits\<close>, with one rule per construct of the coroutine monad), and the trace of
  \<open>execute_attempt\<close>: a prefix of the planned commands, each sent behind a live guard, then
  the finish calls of the attempt.
\<close>

section \<open>Events\<close>

fun is_request :: "event \<Rightarrow> bool" where
  "is_request (EvRequest c a v) = True"
| "is_request _ = False"

definition has_request :: "event list \<Rightarrow> bool" where
  "has_request evs \<longleftrightarrow> list_ex is_request evs"

lemma has_request_simps [simp]:
  "\<not> has_request []"
  "has_request (e # evs) \<longleftrightarrow> is_request e \<or> has_request evs"
  "has_request (evs @ evs') \<longleftrightarrow> has_request evs \<or> has_request evs'"
  by (simp_all add: has_request_def)

text \<open>
  \<open>emits m R\<close>: whatever \<open>m\<close> returns or raises, it appended events to the trace that
  stand in \<open>R\<close> to its result, and it set the dispatch flag exactly when one of them is a
  request.
\<close>

definition emits :: "('w, 'a) co_prog \<Rightarrow> ('a result \<Rightarrow> event list \<Rightarrow> bool) \<Rightarrow> bool" where
  "emits m R \<longleftrightarrow> (\<forall>s r t. m s = (r, t) \<longrightarrow>
     (\<exists>evs. sy_trace t = sy_trace s @ evs \<and>
        (sy_dispatched t \<longleftrightarrow> sy_dispatched s \<or> has_request evs) \<and> R r evs))"

lemma emitsI:
  "(\<And>s r t. m s = (r, t) \<Longrightarrow> \<exists>evs. sy_trace t = sy_trace s @ evs \<and>
     (sy_dispatched t \<longleftrightarrow> sy_dispatched s \<or> has_request evs) \<and> R r evs) \<Longrightarrow> emits m R"
  by (auto simp: emits_def)

lemma emitsD:
  assumes "emits m R" "m s = (r, t)"
  obtains evs where "sy_trace t = sy_trace s @ evs"
    "sy_dispatched t \<longleftrightarrow> sy_dispatched s \<or> has_request evs" "R r evs"
  using assms unfolding emits_def by blast

lemma emits_weaken: "emits m R \<Longrightarrow> (\<And>r evs. R r evs \<Longrightarrow> R' r evs) \<Longrightarrow> emits m R'"
  by (fastforce simp: emits_def)

lemma emits_conj: "emits m R \<Longrightarrow> emits m R' \<Longrightarrow> emits m (\<lambda>r evs. R r evs \<and> R' r evs)"
  by (fastforce simp: emits_def)

lemma emits_if: "(b \<Longrightarrow> emits m R) \<Longrightarrow> (\<not> b \<Longrightarrow> emits k R) \<Longrightarrow> emits (if b then m else k) R"
  by simp

lemma emits_bind:
  assumes m: "emits m R1" and f: "\<And>a. emits (f a) (R2 a)"
    and raise: "\<And>e evs. R1 (Inl e) evs \<Longrightarrow> R (Inl e) evs"
    and seq: "\<And>a r e1 e2. R1 (Inr a) e1 \<Longrightarrow> R2 a r e2 \<Longrightarrow> R r (e1 @ e2)"
  shows "emits (bindP m f) R"
proof (rule emitsI)
  fix s r t assume run: "bindP m f s = (r, t)"
  obtain r1 s1 where r1: "m s = (r1, s1)" by force
  from m r1 obtain e1 where e1: "sy_trace s1 = sy_trace s @ e1"
    "sy_dispatched s1 \<longleftrightarrow> sy_dispatched s \<or> has_request e1" "R1 r1 e1" by (rule emitsD)
  show "\<exists>evs. sy_trace t = sy_trace s @ evs \<and>
      (sy_dispatched t \<longleftrightarrow> sy_dispatched s \<or> has_request evs) \<and> R r evs"
  proof (cases r1)
    case (Inl e)
    with run r1 e1 raise show ?thesis by (auto simp: bindP_def)
  next
    case (Inr a)
    with run r1 have "f a s1 = (r, t)" by (simp add: bindP_def)
    with f obtain e2 where "sy_trace t = sy_trace s1 @ e2"
      "sy_dispatched t \<longleftrightarrow> sy_dispatched s1 \<or> has_request e2" "R2 a r e2" by (rule emitsD)
    with e1 Inr seq show ?thesis by (intro exI [of _ "e1 @ e2"]) auto
  qed
qed

lemma emits_seq:
  assumes "emits m R1" and "emits k R2" and "\<And>e evs. R1 (Inl e) evs \<Longrightarrow> R (Inl e) evs"
    and "\<And>a r e1 e2. R1 (Inr a) e1 \<Longrightarrow> R2 r e2 \<Longrightarrow> R r (e1 @ e2)"
  shows "emits (seqP m k) R"
  unfolding seqP_def
  by (rule emits_bind [where ?R1.0 = R1 and ?R2.0 = "\<lambda>_. R2" and R = R]) (fact assms)+

lemma emits_catch:
  assumes m: "emits m R1" and h: "\<And>e. emits (h e) (R2 e)"
    and ret: "\<And>a evs. R1 (Inr a) evs \<Longrightarrow> R (Inr a) evs"
    and handle: "\<And>e r e1 e2. R1 (Inl e) e1 \<Longrightarrow> R2 e r e2 \<Longrightarrow> R r (e1 @ e2)"
  shows "emits (catchP m h) R"
proof (rule emitsI)
  fix s r t assume run: "catchP m h s = (r, t)"
  obtain r1 s1 where r1: "m s = (r1, s1)" by force
  from m r1 obtain e1 where e1: "sy_trace s1 = sy_trace s @ e1"
    "sy_dispatched s1 \<longleftrightarrow> sy_dispatched s \<or> has_request e1" "R1 r1 e1" by (rule emitsD)
  show "\<exists>evs. sy_trace t = sy_trace s @ evs \<and>
      (sy_dispatched t \<longleftrightarrow> sy_dispatched s \<or> has_request evs) \<and> R r evs"
  proof (cases r1)
    case (Inr a)
    with run r1 e1 ret show ?thesis by (auto simp: catchP_def)
  next
    case (Inl e)
    with run r1 have "h e s1 = (r, t)" by (simp add: catchP_def)
    with h obtain e2 where "sy_trace t = sy_trace s1 @ e2"
      "sy_dispatched t \<longleftrightarrow> sy_dispatched s1 \<or> has_request e2" "R2 e r e2" by (rule emitsD)
    with e1 Inl handle show ?thesis by (intro exI [of _ "e1 @ e2"]) auto
  qed
qed

lemma emits_finally:
  assumes "emits m R" and "\<And>s. sy_trace (f s) = sy_trace s" "\<And>s. sy_dispatched (f s) = sy_dispatched s"
  shows "emits (finallyP m f) R"
proof (rule emitsI)
  fix s r t assume "finallyP m f s = (r, t)"
  then obtain t1 where "m s = (r, t1)" and t: "t = f t1" by (auto simp: finallyP_def split: prod.splits)
  from assms(1) this(1) show "\<exists>evs. sy_trace t = sy_trace s @ evs \<and>
      (sy_dispatched t \<longleftrightarrow> sy_dispatched s \<or> has_request evs) \<and> R r evs"
    by (rule emitsD) (auto simp: t assms(2,3))
qed

text \<open>The constructs that emit nothing.\<close>

lemma emits_silent:
  "emits (awaitP env p) (\<lambda>r evs. evs = [])"
  "emits (liftP x) (\<lambda>r evs. r = x \<and> evs = [])"
  "emits (returnP a) (\<lambda>r evs. r = Inr a \<and> evs = [])"
  "emits (throwP e) (\<lambda>r evs. r = Inl e \<and> evs = [])"
  "emits (getsP f) (\<lambda>r evs. (\<exists>a. r = Inr a) \<and> evs = [])"
  "emits (co_get g) (\<lambda>r evs. (\<exists>a. r = Inr a) \<and> evs = [])"
  "emits (on_co h) (\<lambda>r evs. r = Inr () \<and> evs = [])"
  "emits (countP k) (\<lambda>r evs. r = Inr () \<and> evs = [])"
  "emits (set_last_error e) (\<lambda>r evs. r = Inr () \<and> evs = [])"
  "emits skip_event (\<lambda>r evs. r = Inr () \<and> evs = [])"
  by (auto simp: emits_def awaitP_def prog_defs co_get_def on_co_def countP_def set_last_error_def
      skip_event_def split: prod.splits)

lemma emits_required_database:
  "emits required_database (\<lambda>r evs. evs = [] \<and> (\<forall>e. r = Inl e \<longrightarrow> e = DatabaseUnavailable))"
  by (auto simp: emits_def required_database_def co_get_def prog_defs split: option.splits)

lemma emits_log: "\<not> is_request e \<Longrightarrow> emits (logP e) (\<lambda>r evs. r = Inr () \<and> evs = [e])"
  by (auto simp: emits_def logP_def prog_defs)

lemma emits_live_guard: "emits (live_guard robot pointer plan) (\<lambda>r evs. evs = [])"
  by (auto simp: emits_def live_guard_def prog_defs)

section \<open>The finish calls\<close>

definition finish_event :: "recovery_session \<Rightarrow> string \<Rightarrow> string \<Rightarrow> event" where
  "finish_event claimed failure_id outcome =
     EvFinish failure_id (sr_recovery_session_id claimed) (the (sr_recovery_run_token claimed)) outcome"

lemma finish_event_not_request [simp]: "\<not> is_request (finish_event r f x)"
  by (simp add: finish_event_def)

lemma has_request_finishes [simp]: "\<not> has_request (map (finish_event r f) xs)"
  by (induction xs) simp_all

lemma emits_finish_call:
  "emits (finish_call env db f sid tok x msg) (\<lambda>r evs. evs = [EvFinish f sid tok x])"
  unfolding finish_call_def
  by (rule emits_seq [OF emits_log emits_silent(1)]) auto

lemma emits_finish_unknown:
  assumes "sr_recovery_run_token claimed = Some tok"
  shows "emits (finish_unknown env claimed f msg) (\<lambda>r evs.
     (evs = [] \<and> r = Inl DatabaseUnavailable) \<or> evs = [finish_event claimed f ''unknown''])"
  unfolding finish_unknown_def assms option.case
  apply (rule emits_bind [OF emits_required_database])
    apply (rule emits_seq [OF emits_finish_call emits_silent(8)])
     apply (assumption | simp)+
  apply (auto simp: finish_event_def assms)
  done

section \<open>Sending behind the guard\<close>

type_synonym request = "(string \<times> pydict) \<times> robot_session"

definition request_event :: "request \<Rightarrow> event" where
  "request_event = (\<lambda>((c, a), view). EvRequest c a view)"

definition guarded_request :: "flow_pointer \<Rightarrow> recovery_plan \<Rightarrow> request \<Rightarrow> bool" where
  "guarded_request pointer plan = (\<lambda>(cmd, view).
     \<exists>frame. require_live_execution_state view pointer plan = Inr frame)"

lemma has_request_requests [simp]: "has_request (map request_event reqs) \<longleftrightarrow> reqs \<noteq> []"
  by (induction reqs) (auto simp: request_event_def split: prod.splits)

lemma emits_guarded_send:
  assumes "\<And>receipt. emits (f receipt) (R2 receipt)"
    and "\<And>e. R (Inl e) []"
    and "\<And>e view. guarded_request pointer plan ((c, a), view) \<Longrightarrow> R (Inl e) [EvRequest c a view]"
    and "\<And>receipt r view evs. guarded_request pointer plan ((c, a), view) \<Longrightarrow> R2 receipt r evs \<Longrightarrow>
      R r (EvRequest c a view # evs)"
  shows "emits (seqP (live_guard robot pointer plan) (bindP (send_command env robot c a) f)) R"
proof (rule emitsI)
  fix s r t
  assume run: "seqP (live_guard robot pointer plan) (bindP (send_command env robot c a) f) s = (r, t)"
  let ?view = "view_of robot s"
  show "\<exists>evs. sy_trace t = sy_trace s @ evs \<and>
      (sy_dispatched t \<longleftrightarrow> sy_dispatched s \<or> has_request evs) \<and> R r evs"
  proof (cases "require_live_execution_state ?view pointer plan")
    case (Inl e)
    with run assms(2) show ?thesis by (auto simp: live_guard_def prog_defs)
  next
    case (Inr frame)
    then have g: "guarded_request pointer plan ((c, a), ?view)" by (auto simp: guarded_request_def)
    obtain r1 s1 where r1: "send_command env robot c a s = (r1, s1)" by force
    then have s1: "sy_trace s1 = sy_trace s @ [EvRequest c a ?view]" "sy_dispatched s1"
      by (auto simp: send_command_def awaitP_def prog_defs split: prod.splits)
    from run Inr have step: "bindP (send_command env robot c a) f s = (r, t)"
      by (simp add: live_guard_def prog_defs)
    show ?thesis
    proof (cases r1)
      case (Inl e)
      with step r1 s1 g assms(3) show ?thesis by (auto simp: bindP_def)
    next
      case (Inr receipt)
      with step r1 have "f receipt s1 = (r, t)" by (simp add: bindP_def)
      with assms(1) obtain evs where "sy_trace t = sy_trace s1 @ evs"
        "sy_dispatched t \<longleftrightarrow> sy_dispatched s1 \<or> has_request evs" "R2 receipt r evs" by (rule emitsD)
      with s1 g assms(4) show ?thesis by (intro exI [of _ "EvRequest c a ?view # evs"]) auto
    qed
  qed
qed

text \<open>The commands of a plan, in order.\<close>

definition correction_command :: "recovery_action \<Rightarrow> string \<times> pydict" where
  "correction_command a = (ra_command a, ra_arguments a)"

definition planned_commands :: "recovery_plan \<Rightarrow> flow_pointer \<Rightarrow> (string \<times> pydict) list" where
  "planned_commands plan pointer =
     map correction_command (rp_corrections plan)
       @ (case resume_arguments_for_plan plan pointer of
            Inr arguments \<Rightarrow> [(''$resume_flow'', arguments)] | Inl _ \<Rightarrow> [])"

definition sends ::
  "flow_pointer \<Rightarrow> recovery_plan \<Rightarrow> (string \<times> pydict) list \<Rightarrow> 'a result \<Rightarrow> event list \<Rightarrow> bool" where
  "sends pointer plan cmds r evs \<longleftrightarrow>
     (\<exists>reqs. evs = map request_event reqs \<and> list_all (guarded_request pointer plan) reqs \<and>
        (case r of Inl _ \<Rightarrow> prefix (map fst reqs) cmds | Inr _ \<Rightarrow> map fst reqs = cmds))"

lemma sends_Nil_raise: "sends pointer plan cmds (Inl e) []"
  by (auto simp: sends_def intro: exI [of _ "[]"])

lemma sends_Cons:
  assumes "guarded_request pointer plan ((c, a), view)" and "sends pointer plan cmds r evs"
  shows "sends pointer plan ((c, a) # cmds) r (EvRequest c a view # evs)"
proof -
  from assms(2) obtain reqs where "evs = map request_event reqs"
    "list_all (guarded_request pointer plan) reqs"
    "case r of Inl _ \<Rightarrow> prefix (map fst reqs) cmds | Inr _ \<Rightarrow> map fst reqs = cmds"
    by (auto simp: sends_def)
  with assms(1) show ?thesis unfolding sends_def
    by (intro exI [of _ "((c, a), view) # reqs"]) (auto simp: request_event_def split: sum.splits)
qed

lemma emits_same_generation: "emits (same_generation receipt pointer) (\<lambda>r evs. evs = [])"
  unfolding same_generation_def by (rule emits_weaken [OF emits_silent(2)]) simp

lemma emits_send_corrections:
  "emits (send_corrections env robot plan pointer actions)
     (sends pointer plan (map correction_command actions))"
proof (induction actions)
  case Nil
  show ?case by (auto simp: emits_def returnP_def sends_def)
next
  case (Cons action actions)
  let ?R = "sends pointer plan (map correction_command actions) :: unit result \<Rightarrow> event list \<Rightarrow> bool"
  have rest: "emits (seqP (same_generation receipt pointer)
      (seqP (countP bump_accepted) (send_corrections env robot plan pointer actions))) ?R" for receipt
    by (rule emits_seq [OF emits_same_generation emits_seq [OF emits_silent(8) Cons.IH]])
      (auto intro: sends_Nil_raise)
  show ?case
    unfolding send_corrections.simps list.map correction_command_def
    by (rule emits_guarded_send [OF rest])
      (auto intro: sends_Nil_raise sends_Cons [OF _ sends_Nil_raise] intro!: sends_Cons
        simp: correction_command_def [abs_def])
qed

lemma emits_send_continuation:
  "emits (send_continuation env robot plan pointer)
     (sends pointer plan (case resume_arguments_for_plan plan pointer of
        Inr arguments \<Rightarrow> [(''$resume_flow'', arguments)] | Inl _ \<Rightarrow> []))"
proof (cases "resume_arguments_for_plan plan pointer")
  case (Inl e)
  have "emits (seqP (live_guard robot pointer plan) (throwP e)) (\<lambda>r evs. evs = [] \<and> (\<exists>e. r = Inl e))"
    by (rule emits_seq [OF emits_live_guard emits_silent(4)]) auto
  moreover have "send_continuation env robot plan pointer = seqP (live_guard robot pointer plan) (throwP e)"
    by (simp add: send_continuation_def Inl) (simp add: prog_defs)
  ultimately show ?thesis using Inl by (auto elim!: emits_weaken intro: sends_Nil_raise)
next
  case (Inr arguments)
  have rest: "emits (seqP (same_generation receipt pointer)
      (seqP (liftP (validate_resume_acknowledgement (cr_result receipt) pointer
          (rp_rewind_steps plan) (Some (rp_resume_mode plan))))
      (seqP (countP bump_accepted) (returnP receipt)))) (sends pointer plan [])" for receipt
    by (rule emits_seq [OF emits_same_generation
          emits_seq [OF emits_silent(2) emits_seq [OF emits_silent(8) emits_silent(3)]]])
      (auto simp: sends_def)
  have "send_continuation env robot plan pointer =
      seqP (live_guard robot pointer plan) (bindP (send_command env robot ''$resume_flow'' arguments)
        (\<lambda>receipt. seqP (same_generation receipt pointer)
          (seqP (liftP (validate_resume_acknowledgement (cr_result receipt) pointer
              (rp_rewind_steps plan) (Some (rp_resume_mode plan))))
          (seqP (countP bump_accepted) (returnP receipt)))))"
    by (simp add: send_continuation_def Inr) (simp add: prog_defs)
  then show ?thesis using Inr
    by (auto intro!: emits_guarded_send [OF rest] sends_Nil_raise sends_Cons)
qed

section \<open>The whole attempt\<close>

text \<open>
  The finish calls of an attempt: closed as unknown before it awaits its outcome, or
  awaiting it and then finished once; a finish that came back malformed or unconfirmed is
  followed by one as unknown.
\<close>

definition outcome_finish :: "string \<Rightarrow> bool" where
  "outcome_finish x \<longleftrightarrow> x = ''recovered'' \<or> x = ''failed'' \<or> x = ''unknown''"

definition attempt_finishes :: "string list \<Rightarrow> bool" where
  "attempt_finishes fins \<longleftrightarrow>
     fins = [] \<or> fins = [''unknown''] \<or> fins = [''awaiting_outcome''] \<or>
     (\<exists>x. outcome_finish x \<and>
        (fins = [''awaiting_outcome'', x] \<or> fins = [''awaiting_outcome'', x, ''unknown'']))"

definition body_finishes :: "(string \<times> attempt_payload) result \<Rightarrow> string list \<Rightarrow> bool" where
  "body_finishes r fins \<longleftrightarrow>
     (\<exists>e. r = Inl e) \<and> fins = [''awaiting_outcome''] \<or>
     (\<exists>x. outcome_finish x \<and> fins = [''awaiting_outcome'', x] \<and>
        ((\<exists>e. r = Inl e) \<or> (\<exists>rec. r = Inr (x, RecordPayload rec) \<and> x \<noteq> ''unknown'') \<or>
         (\<exists>p. r = Inr (x, PointerPayload p) \<and> x = ''unknown'')))"

definition finish_events :: "recovery_session \<Rightarrow> string \<Rightarrow> string list \<Rightarrow> event list" where
  "finish_events claimed failure_id fins = map (finish_event claimed failure_id) fins"

definition body_trace ::
  "recovery_session \<Rightarrow> string \<Rightarrow> recovery_plan \<Rightarrow> flow_pointer \<Rightarrow>
   (string \<times> attempt_payload) result \<Rightarrow> event list \<Rightarrow> bool" where
  "body_trace claimed failure_id plan pointer r evs \<longleftrightarrow>
     (\<exists>reqs fins. evs = map request_event reqs @ finish_events claimed failure_id fins \<and>
        list_all (guarded_request pointer plan) reqs \<and>
        (if fins = [] then prefix (map fst reqs) (planned_commands plan pointer) \<and> (\<exists>e. r = Inl e)
         else map fst reqs = planned_commands plan pointer \<and> body_finishes r fins))"

lemma emits_record_failed: "emits (record_failed r) (\<lambda>r evs. r = Inr () \<and> evs = [])"
  unfolding record_failed_def
  by (rule emits_seq [OF emits_silent(8)
        emits_weaken [where R = "\<lambda>r evs. r = Inr () \<and> evs = []"]])
    (auto intro: emits_silent(8) emits_silent(3))

lemma emits_finish_parse:
  assumes "\<And>rec. emits (k rec) (\<lambda>r evs. r = Inr () \<and> evs = [])"
  shows "emits (bindP (finish_call env db f sid tok x msg) (\<lambda>row.
      bindP (liftP (parse_recovery_session row False)) (\<lambda>finished.
        seqP (k finished) (returnP (x, RecordPayload finished)))))
    (\<lambda>r evs. evs = [EvFinish f sid tok x] \<and>
       (case r of Inl _ \<Rightarrow> True | Inr p \<Rightarrow> \<exists>rec. p = (x, RecordPayload rec)))"
  by (rule emits_bind [OF emits_finish_call emits_bind [OF emits_silent(2)
        emits_seq [OF assms emits_silent(3)]]])
    auto

definition conclude_trace ::
  "recovery_session \<Rightarrow> string \<Rightarrow> (string \<times> attempt_payload) result \<Rightarrow> event list \<Rightarrow> bool" where
  "conclude_trace claimed f r evs \<longleftrightarrow>
     (evs = [] \<and> (\<exists>e. r = Inl e)) \<or>
     (\<exists>x. evs = [finish_event claimed f x] \<and> body_finishes r [''awaiting_outcome'', x])"

lemma conclude_trace_parsed:
  assumes "sr_recovery_run_token claimed = Some tok" "x = ''recovered'' \<or> x = ''failed''"
    and "evs = [EvFinish f (sr_recovery_session_id claimed) tok x] \<and>
      (case r of Inl _ \<Rightarrow> True | Inr p \<Rightarrow> \<exists>rec. p = (x, RecordPayload rec))"
  shows "conclude_trace claimed f r evs"
proof -
  have "body_finishes r [''awaiting_outcome'', x]"
    unfolding body_finishes_def outcome_finish_def using assms(2,3) by (cases r) auto
  with assms show ?thesis by (auto simp: conclude_trace_def finish_event_def)
qed

lemma conclude_trace_unknown:
  "(r = Inr (''unknown'', PointerPayload p) \<or> (\<exists>e. r = Inl e)) \<Longrightarrow>
   conclude_trace claimed f r [finish_event claimed f ''unknown'']"
  unfolding conclude_trace_def body_finishes_def outcome_finish_def by auto

lemma emits_conclude:
  assumes tok: "sr_recovery_run_token claimed = Some tok"
  shows "emits (conclude env db claimed f tok outcome) (conclude_trace claimed f)"
proof -
  have R: "emits (bindP (finish_call env db f (sr_recovery_session_id claimed) tok ''recovered'' m) (\<lambda>row.
      bindP (liftP (parse_recovery_session row False)) (\<lambda>finished.
        seqP (countP bump_recovered) (returnP (''recovered'', RecordPayload finished)))))
    (conclude_trace claimed f)" for m
    by (rule emits_weaken [OF emits_finish_parse [OF emits_silent(8)]])
      (rule conclude_trace_parsed [OF tok]; simp)
  have F: "emits (bindP (finish_call env db f (sr_recovery_session_id claimed) tok ''failed'' m) (\<lambda>row.
      bindP (liftP (parse_recovery_session row False)) (\<lambda>finished.
        seqP (record_failed finished) (returnP (''failed'', RecordPayload finished)))))
    (conclude_trace claimed f)" for m
    by (rule emits_weaken [OF emits_finish_parse [OF emits_record_failed]])
      (rule conclude_trace_parsed [OF tok]; simp)
  have U: "emits (seqP (finish_unknown env claimed f m) (returnP (''unknown'', PointerPayload outcome)))
    (conclude_trace claimed f)" for m
    by (rule emits_seq [OF emits_finish_unknown [OF tok] emits_silent(3)])
      (auto intro: conclude_trace_unknown simp: conclude_trace_def [where evs = "[]"])
  show ?thesis unfolding conclude_def Let_def
    by (intro emits_if R F U)
qed

lemma emits_attempt_body:
  assumes tok: "sr_recovery_run_token claimed = Some tok"
  shows "emits (attempt_body env db robot claimed f tok plan pointer) (body_trace claimed f plan pointer)"
proof -
  let ?corr = "map correction_command (rp_corrections plan)"
  let ?cont = "case resume_arguments_for_plan plan pointer of
    Inr arguments \<Rightarrow> [(''$resume_flow'', arguments)] | Inl _ \<Rightarrow> []"
  let ?tail = "\<lambda>receipt. seqP (finish_call env db f (sr_recovery_session_id claimed) tok
      ''awaiting_outcome'' (awaiting_message claimed))
    (bindP (awaitP env (rb_wait_for_flow robot
        (execution_outcome_predicate claimed (fp_generation pointer)) (cr_flow_revision receipt)
        (se_outcome_timeout (en_settings env)) (fp_generation pointer)))
     (conclude env db claimed f tok))"
  have tail: "emits (?tail receipt) (\<lambda>r evs. \<exists>fins. fins \<noteq> [] \<and> body_finishes r fins \<and>
      evs = finish_events claimed f fins)" for receipt
  proof (rule emits_seq [OF emits_finish_call emits_bind [OF emits_silent(1) emits_conclude [OF tok],
        where R = "conclude_trace claimed f"]])
    show "\<exists>fins. fins \<noteq> [] \<and> body_finishes (Inl e) fins \<and> evs = finish_events claimed f fins"
      if "evs = [EvFinish f (sr_recovery_session_id claimed) tok ''awaiting_outcome'']" for e evs
      using that by (intro exI [of _ "[''awaiting_outcome'']"])
        (simp add: finish_events_def finish_event_def tok body_finishes_def)
  next
    fix r :: "(string \<times> attempt_payload) result" and e1 e2
    assume e1: "e1 = [EvFinish f (sr_recovery_session_id claimed) tok ''awaiting_outcome'']"
      and e2: "conclude_trace claimed f r e2"
    have aw: "e1 = [finish_event claimed f ''awaiting_outcome'']" using e1 by (simp add: finish_event_def tok)
    from e2 show "\<exists>fins. fins \<noteq> [] \<and> body_finishes r fins \<and> e1 @ e2 = finish_events claimed f fins"
      unfolding conclude_trace_def
    proof (elim disjE conjE exE)
      fix e assume "e2 = []" "r = Inl e"
      with aw show ?thesis by (intro exI [of _ "[''awaiting_outcome'']"])
        (simp add: finish_events_def body_finishes_def)
    next
      fix x assume "e2 = [finish_event claimed f x]" "body_finishes r [''awaiting_outcome'', x]"
      with aw show ?thesis by (intro exI [of _ "[''awaiting_outcome'', x]"]) (simp add: finish_events_def)
    qed
  qed (auto simp: conclude_trace_def)
  have cont: "emits (bindP (send_continuation env robot plan pointer) ?tail)
      (\<lambda>r evs. \<exists>reqs fins. evs = map request_event reqs @ finish_events claimed f fins \<and>
        list_all (guarded_request pointer plan) reqs \<and>
        (if fins = [] then prefix (map fst reqs) ?cont \<and> (\<exists>e. r = Inl e)
         else map fst reqs = ?cont \<and> body_finishes r fins))"
    apply (rule emits_bind [OF emits_send_continuation tail])
     apply (clarsimp simp: sends_def, rule_tac x = reqs in exI, rule_tac x = "[]" in exI,
        simp add: finish_events_def)
    apply (clarsimp simp: sends_def, rule_tac x = reqs in exI, rule_tac x = fins in exI, simp)
    done
  show ?thesis
    unfolding attempt_body_def
    apply (rule emits_seq [OF emits_send_corrections cont])
     apply (clarsimp simp: sends_def body_trace_def planned_commands_def, rule_tac x = reqs in exI,
        rule_tac x = "[]" in exI, simp add: finish_events_def prefix_def, fastforce)
    apply (clarsimp simp: sends_def body_trace_def planned_commands_def, rule_tac x = "reqs @ reqsa" in exI,
        rule_tac x = fins in exI, simp)
    done
qed

text \<open>What a handler of the attempt does: at most one finish, as unknown.\<close>

definition handler_trace ::
  "recovery_session \<Rightarrow> string \<Rightarrow> (string \<times> attempt_payload) result \<Rightarrow> event list \<Rightarrow> bool" where
  "handler_trace claimed failure_id r evs \<longleftrightarrow>
     evs = [finish_event claimed failure_id ''unknown''] \<and> (\<forall>x. r = Inr x \<longrightarrow> fst x = ''unknown'') \<or>
     evs = [] \<and> (\<exists>e. r = Inl e)"

lemma emits_finish_after_error:
  assumes "sr_recovery_run_token claimed = Some tok"
  shows "emits (finish_after_error env claimed f e msg) (\<lambda>r evs. handler_trace claimed f r evs \<and>
     (r = Inl CancelledErr \<longrightarrow> evs \<noteq> []))"
  unfolding finish_after_error_def
  by (rule emits_seq [OF emits_finish_unknown [OF assms] emits_seq [OF emits_silent(9) emits_silent(3),
        where R = "\<lambda>r evs. r = Inr (''unknown'', NoPayload) \<and> evs = []"]])
    (auto simp: handler_trace_def)

lemma emits_shielded_finish:
  assumes "sr_recovery_run_token claimed = Some tok"
  shows "emits (seqP (catchP (finish_unknown env claimed f msg)
      (\<lambda>e. if e = CancelledErr \<or> e = TimeoutErr then returnP () else throwP e)) (throwP CancelledErr))
    (\<lambda>r evs. handler_trace claimed f r evs \<and> (r = Inl CancelledErr \<longrightarrow> evs \<noteq> []))"
proof -
  have "emits (catchP (finish_unknown env claimed f msg)
      (\<lambda>e. if e = CancelledErr \<or> e = TimeoutErr then returnP () else throwP e))
    (\<lambda>r evs. (evs = [] \<and> r = Inl DatabaseUnavailable) \<or> evs = [finish_event claimed f ''unknown''])"
  proof (rule emits_catch [OF emits_finish_unknown [OF assms],
        where ?R2.0 = "\<lambda>e r evs. evs = [] \<and> (e = DatabaseUnavailable \<longrightarrow> r = Inl e)"])
    show "emits (if e = CancelledErr \<or> e = TimeoutErr then returnP () else throwP e)
        (\<lambda>r evs. evs = [] \<and> (e = DatabaseUnavailable \<longrightarrow> r = Inl e))" for e
      by (auto simp: emits_def prog_defs)
  qed auto
  then show ?thesis
    by (rule emits_seq [OF _ emits_silent(4)]) (auto simp: handler_trace_def)
qed

lemma attempt_handler_run:
  assumes tok: "sr_recovery_run_token claimed = Some tok"
    and run: "attempt_handler env claimed f e s = (r, t)"
  shows "\<exists>evs. sy_trace t = sy_trace s @ evs \<and> handler_trace claimed f r evs \<and>
    (r = Inl CancelledErr \<and> evs = [] \<longrightarrow> \<not> sy_dispatched s)"
proof (cases "e = CancelledErr")
  case True
  show ?thesis
  proof (cases "sy_dispatched s")
    case disp: True
    with True run have "seqP (catchP (finish_unknown env claimed f
        ''Automatic recovery was interrupted after dispatch; the robot outcome is unknown.'')
        (\<lambda>e. if e = CancelledErr \<or> e = TimeoutErr then returnP () else throwP e))
        (throwP CancelledErr) s = (r, t)"
      by (simp add: attempt_handler_def finish_cancelled_def) (simp add: prog_defs)
    from emits_shielded_finish [OF tok] this show ?thesis by (rule emitsD) blast
  next
    case False
    with True run show ?thesis
      by (auto simp: attempt_handler_def finish_cancelled_def prog_defs handler_trace_def)
  qed
next
  case False
  have "emits (attempt_handler env claimed f e) (\<lambda>r evs. handler_trace claimed f r evs \<and>
      (r = Inl CancelledErr \<longrightarrow> evs \<noteq> []))"
    using False emits_finish_after_error [OF tok]
    by (auto simp: attempt_handler_def handler_trace_def
        intro!: emits_weaken [OF emits_silent(4)])
  from this run show ?thesis by (rule emitsD) blast
qed

text \<open>How the result of an attempt and its finish calls belong together.\<close>

definition attempt_result ::
  "(string \<times> attempt_payload) result \<Rightarrow> request list \<Rightarrow> string list \<Rightarrow> bool" where
  "attempt_result r reqs fins \<longleftrightarrow>
     (case r of
        Inr (text, payload) \<Rightarrow> fins \<noteq> [] \<and> last fins = text \<and>
          (text = ''unknown'' \<or> (text = ''recovered'' \<or> text = ''failed'') \<and>
             fins = [''awaiting_outcome'', text] \<and> (\<exists>rec. payload = RecordPayload rec))
      | Inl e \<Rightarrow> e = CancelledErr \<and> reqs \<noteq> [] \<longrightarrow> fins \<noteq> [] \<and> last fins = ''unknown'')"

definition attempt_trace ::
  "recovery_session \<Rightarrow> string \<Rightarrow> recovery_plan \<Rightarrow> flow_pointer \<Rightarrow>
   (string \<times> attempt_payload) result \<Rightarrow> event list \<Rightarrow> bool" where
  "attempt_trace claimed failure_id plan pointer r evs \<longleftrightarrow>
     (\<exists>reqs fins. evs = map request_event reqs @ finish_events claimed failure_id fins \<and>
        list_all (guarded_request pointer plan) reqs \<and>
        prefix (map fst reqs) (planned_commands plan pointer) \<and>
        attempt_finishes fins \<and>
        (''awaiting_outcome'' \<in> set fins \<longrightarrow> map fst reqs = planned_commands plan pointer) \<and>
        attempt_result r reqs fins)"

lemma attempt_finishes_intros:
  "attempt_finishes []" "attempt_finishes [''unknown'']" "attempt_finishes [''awaiting_outcome'']"
  "outcome_finish x \<Longrightarrow> attempt_finishes [''awaiting_outcome'', x]"
  "outcome_finish x \<Longrightarrow> attempt_finishes [''awaiting_outcome'', x, ''unknown'']"
  "attempt_finishes [''awaiting_outcome'', ''unknown'']"
  unfolding attempt_finishes_def outcome_finish_def by blast+

lemma body_finishes_shape:
  "body_finishes r fins \<Longrightarrow> fins = [''awaiting_outcome''] \<or>
     (\<exists>x. outcome_finish x \<and> fins = [''awaiting_outcome'', x])"
  unfolding body_finishes_def by blast

lemma attempt_result_returned:
  "outcome_finish x \<Longrightarrow> (\<exists>rec. p = RecordPayload rec) \<and> x \<noteq> ''unknown'' \<or> x = ''unknown'' \<Longrightarrow>
   attempt_result (Inr (x, p)) reqs [''awaiting_outcome'', x]"
  unfolding outcome_finish_def by (elim disjE conjE exE) (simp_all add: attempt_result_def)

lemma body_finishes_returned: "body_finishes (Inr x) fins \<Longrightarrow> attempt_result (Inr x) reqs fins"
  unfolding body_finishes_def
  by (elim disjE exE conjE) (simp_all add: attempt_result_returned)

lemma body_finishes_ok: "body_finishes r fins \<Longrightarrow> attempt_finishes fins"
  by (auto dest!: body_finishes_shape intro: attempt_finishes_intros)

lemma handler_trace_cases:
  assumes "handler_trace claimed f r evs"
  obtains (unknown) "evs = finish_events claimed f [''unknown'']" "\<And>x. r = Inr x \<Longrightarrow> fst x = ''unknown''"
  | (nothing) e where "evs = finish_events claimed f []" "r = Inl e"
  using assms by (auto simp: handler_trace_def finish_events_def)

lemma attempt_result_handled:
  "(\<And>x. r = Inr x \<Longrightarrow> fst x = ''unknown'') \<Longrightarrow> attempt_result r reqs (fins @ [''unknown''])"
  by (auto simp: attempt_result_def split: sum.splits)

lemma execute_attempt_trace:
  assumes tok: "sr_recovery_run_token claimed = Some tok"
    and run: "execute_attempt env db robot claimed f plan pointer s = (r, t)"
  shows "\<exists>evs. sy_trace t = sy_trace s @ evs \<and> attempt_trace claimed f plan pointer r evs"
proof -
  let ?s = "s\<lparr> sy_dispatched := False \<rparr>"
  obtain r1 s1 where r1: "attempt_body env db robot claimed f tok plan pointer ?s = (r1, s1)" by force
  from emits_attempt_body [OF tok] r1 obtain e1 where
    e1: "sy_trace s1 = sy_trace s @ e1" "sy_dispatched s1 \<longleftrightarrow> has_request e1"
      "body_trace claimed f plan pointer r1 e1" by (rule emitsD) simp
  from e1(3) obtain reqs fins where
    ev: "e1 = map request_event reqs @ finish_events claimed f fins"
    and g: "list_all (guarded_request pointer plan) reqs"
    and cmds: "if fins = [] then prefix (map fst reqs) (planned_commands plan pointer) \<and> (\<exists>e. r1 = Inl e)
       else map fst reqs = planned_commands plan pointer \<and> body_finishes r1 fins"
    by (auto simp: body_trace_def)
  have pre: "prefix (map fst reqs) (planned_commands plan pointer)" using cmds by (auto split: if_splits)
  have disp: "sy_dispatched s1 \<longleftrightarrow> reqs \<noteq> []" using e1(2) by (simp add: ev finish_events_def)
  show ?thesis
  proof (cases r1)
    case (Inr x)
    then have "r = r1" "t = s1" using run r1 tok by (simp_all add: execute_attempt_def prog_defs)
    moreover from Inr cmds have "body_finishes r1 fins" "map fst reqs = planned_commands plan pointer"
      by (auto split: if_splits)
    moreover from this Inr have "attempt_finishes fins" "attempt_result r1 reqs fins"
      by (simp_all add: body_finishes_ok body_finishes_returned)
    ultimately show ?thesis using e1(1) ev g pre unfolding attempt_trace_def by blast
  next
    case (Inl e)
    with run r1 tok have "attempt_handler env claimed f e s1 = (r, t)"
      by (simp add: execute_attempt_def prog_defs)
    from attempt_handler_run [OF tok this] obtain e2 where
      e2: "sy_trace t = sy_trace s1 @ e2" "handler_trace claimed f r e2"
        "r = Inl CancelledErr \<and> e2 = [] \<longrightarrow> reqs = []" using disp by auto
    have body: "fins = [] \<or> map fst reqs = planned_commands plan pointer \<and>
        (fins = [''awaiting_outcome''] \<or>
         (\<exists>x. outcome_finish x \<and> fins = [''awaiting_outcome'', x]))"
      using cmds body_finishes_shape [of r1 fins] by (auto split: if_splits)
    from e2(2) obtain fins2 where f2: "e2 = finish_events claimed f fins2"
      "fins2 = [] \<or> fins2 = [''unknown'']" and res: "attempt_result r reqs (fins @ fins2)"
    proof (cases rule: handler_trace_cases)
      case unknown
      then show thesis by (intro that [of "[''unknown'']"]) (auto intro: attempt_result_handled)
    next
      case (nothing e')
      then show thesis using e2(3)
        by (intro that [of "[]"]) (auto simp: finish_events_def attempt_result_def)
    qed
    have "attempt_finishes (fins @ fins2)"
      using body f2(2) by (auto intro: attempt_finishes_intros)
    moreover have "''awaiting_outcome'' \<in> set (fins @ fins2) \<longrightarrow> map fst reqs = planned_commands plan pointer"
      using body f2(2) by auto
    moreover have "sy_trace t = sy_trace s @ map request_event reqs @ finish_events claimed f (fins @ fins2)"
      using e1(1) e2(1) ev f2(1) by (simp add: finish_events_def)
    ultimately show ?thesis using g pre res unfolding attempt_trace_def by blast
  qed
qed

end
