(* ===== verification/Recovery_Executor.thy ===== *)
theory Recovery_Executor
  imports Recovery_Attempt
begin

text \<open>
  Processing one failure (\<open>process_failure\<close>, \<open>_attach_active_recurrence\<close>,
  \<open>_execute_target\<close>, \<open>_fresh_paused_pointer\<close>, \<open>_process_notified\<close>, \<open>reconcile\<close> and
  \<open>_reconcile_loop\<close> of \<^verbatim>\<open>recovery_executor.py\<close>). The retry loop of \<open>_execute_target\<close> runs
  on fuel; the database's retry accounting bounds it.
\<close>

section \<open>The paused pointer\<close>

definition fresh_paused_pointer ::
  "'w env \<Rightarrow> 'w robot \<Rightarrow> failure_recovery_target \<Rightarrow> ('w, flow_pointer) co_prog" where
  "fresh_paused_pointer env robot target =
     seqP (awaitP env (rb_wait_connected robot (se_command_timeout (en_settings env))))
     (bindP (getsP (view_of robot)) (\<lambda>view.
      let generation = rs_generation view;
          latest = (case rs_latest_flow view of
              Some p \<Rightarrow> if fp_generation p = generation then Some p else None | None \<Rightarrow> None) in
      if latest \<noteq> None \<and> pointer_matches_target latest target then returnP (the latest)
      else bindP (awaitP env (rb_wait_for_flow robot
             (\<lambda>st candidate. (pointer_matches_target candidate target, st))
             (case latest of Some p \<Rightarrow> fp_revision p | None \<Rightarrow> 0)
             (se_outcome_timeout (en_settings env)) generation)) (\<lambda>pointer.
           case pointer of
             None \<Rightarrow> throwP ContractError
           | Some p \<Rightarrow>
               if fp_generation p \<noteq> generation \<or> \<not> pointer_matches_target pointer target
               then throwP ContractError else returnP p)))"

section \<open>Recurrences\<close>

definition bump_attached :: "execution_state \<Rightarrow> execution_state" where
  "bump_attached es = es\<lparr> es_recurrences_attached := es_recurrences_attached es + 1 \<rparr>"

definition set_current_failure :: "nat \<Rightarrow> string \<Rightarrow> 'w coordinator \<Rightarrow> 'w coordinator" where
  "set_current_failure obj failure_id co = co\<lparr> co_objects := (co_objects co)(obj :=
     (co_objects co obj)\<lparr> ar_current_failure_id := failure_id \<rparr>) \<rparr>"

definition attach_active_recurrence ::
  "'w env \<Rightarrow> 'w database \<Rightarrow> 'a failure_pointer_target_scheme \<Rightarrow> ('w, bool) co_prog" where
  "attach_active_recurrence env db target =
     bindP (co_get (\<lambda>co. (co_active co (target_pointer_key target), co_objects co))) (\<lambda>(active, objects).
     case active of
       None \<Rightarrow> returnP False
     | Some obj \<Rightarrow>
         let session_id = ar_recovery_session_id (objects obj) in
         if ft_recovery_session_id target = None then
           seqP (logP (EvAttach (ft_failure_id target) session_id))
           (seqP (awaitP env (db_attach db (ft_failure_id target) session_id))
           (seqP (on_co (set_current_failure obj (ft_failure_id target)))
           (seqP (countP bump_attached) (returnP True))))
         else if ft_recovery_session_id target = Some session_id then
           seqP (if ft_failure_id target \<noteq> ar_current_failure_id (objects obj)
               then seqP (on_co (set_current_failure obj (ft_failure_id target))) (countP bump_attached)
               else returnP ())
             (returnP True)
         else throwP ContractError)"

section \<open>Preparing a session\<close>

definition bump_prepared :: "execution_state \<Rightarrow> execution_state" where
  "bump_prepared es = es\<lparr> es_sessions_prepared := es_sessions_prepared es + 1 \<rparr>"

text \<open>The plan of the failure row, the candidate before the first prepare.\<close>

definition row_plan_of :: "failure_recovery_target \<Rightarrow> flow_pointer \<Rightarrow> recovery_plan result" where
  "row_plan_of target pointer =
     as_non_executable
       (bindE (parse_recovery_plan (dget (ft_resolver_suggestion target) ''actions'')) (\<lambda>row_plan.
        bindE (validate_plan_for_target row_plan target) (\<lambda>_.
        bindE (validate_plan_for_flow row_plan pointer) (\<lambda>_. Inr row_plan))))"

definition prepare_session ::
  "'w env \<Rightarrow> 'w database \<Rightarrow> 'w robot \<Rightarrow> failure_recovery_target \<Rightarrow> flow_pointer \<Rightarrow>
   ('w, string \<times> recovery_session) co_prog" where
  "prepare_session env db robot target pointer =
     (case ft_recovery_session_id target of
        None \<Rightarrow>
          bindP (liftP (row_plan_of target pointer)) (\<lambda>row_plan.
          seqP (live_guard robot pointer row_plan)
          (bindP (awaitP env (en_new_uuid env)) (\<lambda>new_id.
           seqP (logP (EvPrepare (ft_failure_id target) new_id (se_max_attempts (en_settings env))
             (rp_rewind_steps row_plan)))
           (bindP (awaitP env (db_prepare db (ft_failure_id target) new_id
               (se_max_attempts (en_settings env)) (rp_rewind_steps row_plan))) (\<lambda>row.
            bindP (liftP (parse_recovery_session row False)) (\<lambda>prepared.
            seqP (countP bump_prepared)
              (returnP (sr_recovery_session_id prepared, prepared))))))))
      | Some session_id \<Rightarrow>
          seqP (logP (EvProject session_id))
          (bindP (awaitP env (db_project db session_id)) (\<lambda>row.
           bindP (liftP (parse_recovery_session row False)) (\<lambda>prepared.
             returnP (session_id, prepared)))))"

text \<open>The pinned plan of a session that is ready or failed, checked before any claim.\<close>

definition pinned_plan_of :: "recovery_session \<Rightarrow> flow_pointer \<Rightarrow> recovery_plan result" where
  "pinned_plan_of prepared pointer =
     bindE (as_non_executable
       (bindE (parse_recovery_plan (PTuple (map PDict (sr_pinned_actions prepared)))) (\<lambda>plan.
        bindE (validate_plan_for_session plan prepared) (\<lambda>_.
        bindE (validate_plan_for_flow plan pointer) (\<lambda>_.
        guardE (rp_rewind_steps plan = sr_recovery_rewind_steps prepared) ContractError
          (Inr plan)))))) (\<lambda>plan.
     bindE (as_non_executable (resume_arguments_for_plan plan pointer)) (\<lambda>_. Inr plan))"

definition startable_status :: "string \<Rightarrow> bool" where
  "startable_status status \<longleftrightarrow> status = ''ready'' \<or> status = ''failed''"

definition note_session :: "string \<Rightarrow> string \<Rightarrow> ('w, unit) co_prog" where
  "note_session failure_id session_id =
     countP (\<lambda>es. es\<lparr> es_last_failure_id := Some failure_id, es_last_session_id := Some session_id \<rparr>)"

definition check_prepared ::
  "'w env \<Rightarrow> 'w robot \<Rightarrow> failure_recovery_target \<Rightarrow> flow_pointer \<Rightarrow> string \<Rightarrow> recovery_session \<Rightarrow>
   ('w, recovery_plan option) co_prog" where
  "check_prepared env robot target pointer session_id prepared =
     seqP (note_session (ft_failure_id target) session_id)
     (if sr_recovery_status prepared \<in> set terminal_session_statuses
      then seqP skip_event (returnP None)
      else if \<not> startable_status (sr_recovery_status prepared)
      then seqP skip_event (returnP None)
      else if session_pointer_key prepared \<noteq> target_pointer_key target then throwP ContractError
      else bindP (liftP (pinned_plan_of prepared pointer)) (\<lambda>plan.
        seqP (live_guard robot pointer plan)
        (seqP (liftP (lease_covers (en_settings env) (Suc (length (rp_corrections plan)))))
          (returnP (Some plan)))))"

text \<open>The operator's window before the first claim; False when the service gives up here.\<close>

definition start_grace :: "'w env \<Rightarrow> 'w database \<Rightarrow> string \<Rightarrow> ('w, bool) co_prog" where
  "start_grace env db session_id =
     (if \<not> flt (FFin 0) (se_start_grace (en_settings env)) then returnP True
      else
        seqP (catchP (awaitP env (en_wait_stop env (se_start_grace (en_settings env))))
          (\<lambda>e. if e = TimeoutErr then returnP () else throwP e))
        (bindP (co_get co_stopped) (\<lambda>stopped.
         if stopped then returnP False
         else
           seqP (logP (EvProject session_id))
           (bindP (awaitP env (db_project db session_id)) (\<lambda>row.
            bindP (liftP (parse_recovery_session row False)) (\<lambda>graced.
            if startable_status (sr_recovery_status graced) then returnP True
            else seqP skip_event (returnP False)))))))"

section \<open>The retry loop\<close>

datatype loop_end = LoopReturned | OutOfFuel

definition bump_claimed :: "execution_state \<Rightarrow> execution_state" where
  "bump_claimed es = es\<lparr> es_attempts_claimed := es_attempts_claimed es + 1 \<rparr>"

text \<open>A claim: None when its malformed row was closed as unknown.\<close>

definition claim_attempt ::
  "'w env \<Rightarrow> 'w database \<Rightarrow> string \<Rightarrow> string \<Rightarrow> ('w, recovery_session option) co_prog" where
  "claim_attempt env db failure_id session_id =
     seqP (logP (EvClaim failure_id session_id))
     (bindP (awaitP env (db_claim db failure_id session_id (se_lease_seconds (en_settings env))))
        (\<lambda>row.
      seqP (countP bump_claimed)
      (case parse_recovery_session row True of
         Inr claimed \<Rightarrow> returnP (Some claimed)
       | Inl e \<Rightarrow>
           if \<not> is_contract_error e then throwP e
           else (case (uuid_text (dget row ''recovery_session_id''),
                       uuid_text (dget row ''recovery_run_token'')) of
               (claimed_id, Some run_token) \<Rightarrow>
                 if claimed_id = Some session_id then
                   seqP (finish_call env db failure_id session_id run_token ''unknown''
                       ''Automatic recovery claim data was malformed; the attempt was stopped as unknown.'')
                   (seqP (countP bump_unknown) (returnP None))
                 else throwP e
             | _ \<Rightarrow> throwP e))))"

text \<open>
  The claimed plan before dispatch: \<open>Inr True\<close> when it may run, \<open>Inr False\<close> when the attempt
  was closed as unknown. A plan that does not parse, or that names another step than the
  session, raises here with the attempt still claimed.
\<close>

definition claimed_plan_ready ::
  "'w env \<Rightarrow> 'w robot \<Rightarrow> recovery_session \<Rightarrow> string \<Rightarrow> recovery_plan \<Rightarrow> flow_pointer \<Rightarrow>
   ('w, bool) co_prog" where
  "claimed_plan_ready env robot claimed failure_id plan pointer =
     (if rp_rewind_steps plan \<noteq> sr_recovery_rewind_steps claimed then
        seqP (finish_unknown env claimed failure_id
            ''Pinned recovery continuation does not match its authoritative rewind setting.'')
          (returnP False)
      else
        seqP (liftP (validate_plan_for_session plan claimed))
        (catchP
          (seqP (liftP (validate_plan_for_flow plan pointer))
             (seqP (live_guard robot pointer plan) (returnP True)))
          (\<lambda>e. if is_contract_error e then
             seqP (finish_unknown env claimed failure_id
               ''Automatic recovery stopped before dispatch because the live paused Flow pointer changed.'')
               (returnP False)
             else throwP e)))"

definition next_pointer ::
  "robot_session \<Rightarrow> recovery_session \<Rightarrow> string \<times> attempt_payload \<Rightarrow> flow_pointer option result" where
  \<comment> \<open>the pointer the next iteration starts from, None to return\<close>
  "next_pointer view claimed outcome =
     (case outcome of
        (result_text, payload) \<Rightarrow>
          if result_text = ''unknown'' then Inr None
          else if result_text = ''recovered'' then Inr None
          else guardE (result_text = ''failed'') AssertionErr
            (case payload of
               RecordPayload finished \<Rightarrow>
                 if sr_recovery_status finished = ''timed_out'' then Inr None
                 else if sr_recovery_status finished \<noteq> ''failed'' then Inr None
                 else (case rs_latest_flow view of
                     None \<Rightarrow> Inr None
                   | Some latest \<Rightarrow>
                       if \<not> pointer_matches_session latest claimed then Inr None
                       else Inr (Some latest))
             | _ \<Rightarrow> Inl AssertionErr))"

definition attempt_once ::
  "'w env \<Rightarrow> 'w database \<Rightarrow> 'w robot \<Rightarrow> nat \<Rightarrow> string \<Rightarrow> recovery_plan \<Rightarrow> flow_pointer \<Rightarrow>
   ('w, flow_pointer option) co_prog" where
  "attempt_once env db robot obj session_id prepared_plan pointer =
     bindP (co_get (\<lambda>co. ar_current_failure_id (co_objects co obj))) (\<lambda>failure_id.
     seqP (live_guard robot pointer prepared_plan)
     (bindP (claim_attempt env db failure_id session_id) (\<lambda>claim_result.
      case claim_result of
        None \<Rightarrow> returnP None
      | Some claimed \<Rightarrow>
          seqP (countP (\<lambda>es. es\<lparr> es_last_failure_id := Some failure_id \<rparr>))
          (bindP (liftP (parse_recovery_plan (PTuple (map PDict (sr_pinned_actions claimed))))) (\<lambda>plan.
           bindP (claimed_plan_ready env robot claimed failure_id plan pointer) (\<lambda>ready.
           if \<not> ready then returnP None
           else bindP (execute_attempt env db robot claimed failure_id plan pointer) (\<lambda>outcome.
             bindP (getsP (view_of robot)) (\<lambda>view.
               liftP (next_pointer view claimed outcome)))))))))"

fun retry_loop ::
  "nat \<Rightarrow> 'w env \<Rightarrow> 'w database \<Rightarrow> 'w robot \<Rightarrow> nat \<Rightarrow> string \<Rightarrow> recovery_plan \<Rightarrow> flow_pointer \<Rightarrow>
   ('w, loop_end) co_prog" where
  "retry_loop 0 env db robot obj session_id plan pointer = returnP OutOfFuel"
| "retry_loop (Suc fuel) env db robot obj session_id plan pointer =
     bindP (co_get co_stopped) (\<lambda>stopped.
     if stopped then returnP LoopReturned
     else bindP (attempt_once env db robot obj session_id plan pointer) (\<lambda>following.
       case following of
         None \<Rightarrow> returnP LoopReturned
       | Some p \<Rightarrow> retry_loop fuel env db robot obj session_id plan p))"

section \<open>Executing a target\<close>

definition activate_recovery :: "pointer_key \<Rightarrow> string \<Rightarrow> string \<Rightarrow> 'w coordinator \<Rightarrow> 'w coordinator" where
  "activate_recovery key session_id failure_id co =
     co\<lparr> co_active := (co_active co)(key \<mapsto> co_next_object co),
         co_objects := (co_objects co)(co_next_object co :=
           \<lparr> ar_recovery_session_id = session_id, ar_current_failure_id = failure_id \<rparr>),
         co_next_object := Suc (co_next_object co) \<rparr>"

definition deactivate_recovery :: "pointer_key \<Rightarrow> nat \<Rightarrow> 'w coordinator \<Rightarrow> 'w coordinator" where
  "deactivate_recovery key obj co =
     (if co_active co key = Some obj then co\<lparr> co_active := (co_active co)(key := None) \<rparr> else co)"

definition run_session ::
  "nat \<Rightarrow> 'w env \<Rightarrow> 'w database \<Rightarrow> 'w robot \<Rightarrow> failure_recovery_target \<Rightarrow> string \<Rightarrow> recovery_plan \<Rightarrow>
   flow_pointer \<Rightarrow> ('w, loop_end) co_prog" where
  "run_session fuel env db robot target session_id plan pointer =
     bindP (co_get co_next_object) (\<lambda>obj.
     seqP (on_co (activate_recovery (target_pointer_key target) session_id (ft_failure_id target)))
     (finallyP (retry_loop fuel env db robot obj session_id plan pointer)
       (\<lambda>s. s\<lparr> sy_coordinator :=
          deactivate_recovery (target_pointer_key target) obj (sy_coordinator s) \<rparr>)))"

definition execute_target ::
  "nat \<Rightarrow> 'w env \<Rightarrow> failure_recovery_target \<Rightarrow> ('w, loop_end) co_prog" where
  "execute_target fuel env target =
     bindP required_database (\<lambda>db.
     case map_of (en_sessions env) (ft_sysid target) of
       None \<Rightarrow> throwP ContractError
     | Some robot \<Rightarrow>
         bindP (fresh_paused_pointer env robot target) (\<lambda>pointer.
         seqP (awaitP env (rb_wait_for_commands robot (fp_generation pointer)
             (se_command_timeout (en_settings env))))
         (bindP (prepare_session env db robot target pointer) (\<lambda>(session_id, prepared).
          bindP (check_prepared env robot target pointer session_id prepared) (\<lambda>checked.
          case checked of
            None \<Rightarrow> returnP LoopReturned
          | Some plan \<Rightarrow>
              bindP (start_grace env db session_id) (\<lambda>go.
              if \<not> go then returnP LoopReturned
              else run_session fuel env db robot target session_id plan pointer))))))"

section \<open>Processing a failure\<close>

definition target_open :: "'a failure_pointer_target_scheme \<Rightarrow> bool" where
  "target_open t \<longleftrightarrow> ft_recovery_status t = None \<or> ft_recovery_status t = Some ''ready'' \<or>
     ft_recovery_status t = Some ''failed''"

definition deferred_error :: "py_error \<Rightarrow> bool" where
  "deferred_error e \<longleftrightarrow> e = LiveStateChanged \<or> e = NotSentError \<or> e = OutcomeUnknownError \<or> e = TimeoutErr"

definition execute_guarded ::
  "nat \<Rightarrow> 'w env \<Rightarrow> 'w database \<Rightarrow> failure_recovery_target \<Rightarrow> ('w, loop_end) co_prog" where
  "execute_guarded fuel env db target =
     catchP (execute_target fuel env target)
       (\<lambda>e. if e = NonExecutableError then
          seqP (logP (EvMark (ft_failure_id target)))
          (seqP (awaitP env (db_mark_non_executable db (ft_failure_id target)
              (''Automatic recovery requires manual handling: '' @ en_error_text env e)))
          (seqP skip_event (seqP (set_last_error e) (returnP LoopReturned))))
        else if deferred_error e then
          seqP skip_event (seqP (set_last_error e) (returnP LoopReturned))
        else throwP e)"

definition fetch_call :: "'w env \<Rightarrow> 'w database \<Rightarrow> string \<Rightarrow> ('w, pydict option) co_prog" where
  "fetch_call env db failure_id =
     seqP (logP (EvFetch failure_id)) (awaitP env (db_fetch_failure db failure_id))"

text \<open>The part under the robot lock.\<close>

definition process_locked ::
  "nat \<Rightarrow> 'w env \<Rightarrow> 'w database \<Rightarrow> failure_recovery_target \<Rightarrow> ('w, loop_end) co_prog" where
  "process_locked fuel env db target0 =
     bindP (fetch_call env db (ft_failure_id target0)) (\<lambda>current.
     case current of
       None \<Rightarrow> seqP skip_event (returnP LoopReturned)
     | Some row \<Rightarrow>
         bindP (liftP (parse_failure_recovery_target row)) (\<lambda>target.
         bindP (attach_active_recurrence env db target) (\<lambda>attached.
         if attached then returnP LoopReturned
         else if \<not> target_open target then seqP skip_event (returnP LoopReturned)
         else execute_guarded fuel env db target)))"

definition process_failure :: "nat \<Rightarrow> 'w env \<Rightarrow> string \<Rightarrow> ('w, loop_end) co_prog" where
  "process_failure fuel env failure_id =
     (if \<not> se_enabled (en_settings env) then returnP LoopReturned
      else bindP required_database (\<lambda>db.
        bindP (fetch_call env db failure_id) (\<lambda>raw.
        case raw of
          None \<Rightarrow> seqP skip_event (returnP LoopReturned)
        | Some row \<Rightarrow>
            bindP (liftP (parse_failure_pointer_target row)) (\<lambda>pointer_target.
            if ft_sysid pointer_target \<notin> set (se_robot_allowlist (en_settings env))
            then seqP skip_event (returnP LoopReturned)
            else bindP (attach_active_recurrence env db pointer_target) (\<lambda>attached.
              if attached then returnP LoopReturned
              else if \<not> text_is (dget row ''analysis_status'') ''completed'' \<or>
                  \<not> text_is (dget row ''matcher_status'') ''solution_found''
              then seqP skip_event (returnP LoopReturned)
              else bindP (liftP (parse_failure_recovery_target row)) (\<lambda>target.
                if \<not> target_open target then seqP skip_event (returnP LoopReturned)
                else seqP (awaitP env (en_lock env (ft_sysid target)))
                  (finallyP (process_locked fuel env db target)
                    (\<lambda>s. s\<lparr> sy_world := en_unlock env (ft_sysid target) (sy_world s) \<rparr>))))))))"

definition record_error :: "py_error \<Rightarrow> execution_state \<Rightarrow> execution_state" where
  "record_error e es = es\<lparr> es_execution_errors := es_execution_errors es + 1, es_last_error := Some e \<rparr>"

definition process_notified :: "nat \<Rightarrow> 'w env \<Rightarrow> string \<Rightarrow> ('w, loop_end) co_prog" where
  "process_notified fuel env failure_id =
     finallyP
       (catchP (process_failure fuel env failure_id)
         (\<lambda>e. if e = CancelledErr then throwP e
            else seqP (countP (record_error e)) (returnP LoopReturned)))
       (\<lambda>s. s\<lparr> sy_coordinator := notified_done (en_settings env) failure_id (sy_coordinator s) \<rparr>)"

section \<open>Reconciliation\<close>

definition bump_expired :: "execution_state \<Rightarrow> execution_state" where
  "bump_expired es = bump_unknown (es\<lparr> es_expired_attempts_reconciled :=
     es_expired_attempts_reconciled es + 1 \<rparr>)"

definition expire_row :: "'w env \<Rightarrow> 'w database \<Rightarrow> pydict \<Rightarrow> ('w, unit) co_prog" where
  "expire_row env db raw =
     catchP
       (bindP (liftP (parse_recovery_session raw True)) (\<lambda>r.
        let run_token = (case sr_recovery_run_token r of Some t \<Rightarrow> t | None \<Rightarrow> []) in
        seqP (logP (EvExpire (sr_current_failure_id r) (sr_recovery_session_id r) run_token))
        (seqP (awaitP env (db_expire db (sr_current_failure_id r) (sr_recovery_session_id r) run_token
            ''Automatic recovery became unknown after the service lost its observation lease. Inspect the robot before taking another action.''))
          (countP bump_expired))))
       (\<lambda>e. if e = CancelledErr then throwP e else countP (record_error e))"

fun forP :: "('a \<Rightarrow> ('s, unit) prog) \<Rightarrow> 'a list \<Rightarrow> ('s, unit) prog" where
  "forP f [] = returnP ()"
| "forP f (x # xs) = seqP (f x) (forP f xs)"

definition reconcile :: "'w env \<Rightarrow> ('w, unit) co_prog" where
  "reconcile env =
     (if \<not> se_enabled (en_settings env) then returnP ()
      else seqP (awaitP env (en_lock env ''reconcile''))
        (finallyP
          (bindP required_database (\<lambda>db.
           bindP (awaitP env (db_expired_attempts db (se_reconcile_limit (en_settings env)))) (\<lambda>rows.
           seqP (forP (expire_row env db) rows)
           (bindP (awaitP env (db_cold_candidates db (se_robot_allowlist (en_settings env))
               (se_reconcile_limit (en_settings env)))) (\<lambda>candidates.
             forP (\<lambda>failure_id. on_co (notify_failure (en_settings env) (PStr failure_id))) candidates)))))
          (\<lambda>s. s\<lparr> sy_world := en_unlock env ''reconcile'' (sy_world s) \<rparr>)))"

text \<open>\<open>max(a, b)\<close> and \<open>min(a, b)\<close> of floats.\<close>

definition fmax :: "pyfloat \<Rightarrow> pyfloat \<Rightarrow> pyfloat" where
  "fmax x y = (if flt x y then y else x)"

definition fmin :: "pyfloat \<Rightarrow> pyfloat \<Rightarrow> pyfloat" where
  "fmin x y = (if flt y x then y else x)"

definition next_backoff :: "recovery_settings \<Rightarrow> pyfloat \<Rightarrow> pyfloat" where
  "next_backoff se backoff =
     fmin (fmax (se_reconcile_interval se) (fscale 2 backoff))
          (fmax (se_reconcile_interval se) (fround (of_int (se_lease_seconds se) / 2)))"

text \<open>One turn of \<open>_reconcile_loop\<close> with the next delay, or None when the loop returns.\<close>

definition reconcile_turn :: "'w env \<Rightarrow> pyfloat \<Rightarrow> ('w, pyfloat option) co_prog" where
  "reconcile_turn env backoff =
     (let interval = se_reconcile_interval (en_settings env) in
      bindP (co_get co_stopped) (\<lambda>stopped.
      if stopped then returnP None
      else bindP (catchP (seqP (awaitP env (en_wait_stop env (fmax (fround (1 / 1000)) backoff)))
              (returnP True))
            (\<lambda>e. if e = TimeoutErr then returnP False else throwP e)) (\<lambda>stopping.
        if stopping then returnP None
        else bindP (co_get co_database) (\<lambda>db.
          case db of None \<Rightarrow> returnP (Some interval)
          | Some _ \<Rightarrow> catchP (seqP (reconcile env) (returnP (Some interval)))
            (\<lambda>e. if e = CancelledErr then throwP e
               else seqP (countP (record_error e))
                 (returnP (Some (next_backoff (en_settings env) backoff))))))))"

end
