(* ===== verification/Executor_Trace.thy ===== *)
theory Executor_Trace
  imports Attempt_Trace Recovery_Executor
begin

text \<open>
  The trace of a whole run of \<open>process_failure\<close>: a small automaton over the calls to the
  control plane and the robot (\<open>phases\<close>), the proof that every run of the executor follows
  it, and the bound on the retry loop that the retry accounting of the control plane gives.
\<close>

section \<open>Traces\<close>

definition traces :: "('w, 'a) co_prog \<Rightarrow> ('a result \<Rightarrow> event list \<Rightarrow> bool) \<Rightarrow> bool" where
  "traces m R \<longleftrightarrow> (\<forall>s r t. m s = (r, t) \<longrightarrow> (\<exists>evs. sy_trace t = sy_trace s @ evs \<and> R r evs))"

lemma tracesI:
  "(\<And>s r t. m s = (r, t) \<Longrightarrow> \<exists>evs. sy_trace t = sy_trace s @ evs \<and> R r evs) \<Longrightarrow> traces m R"
  by (auto simp: traces_def)

lemma tracesD:
  assumes "traces m R" "m s = (r, t)"
  obtains evs where "sy_trace t = sy_trace s @ evs" "R r evs"
  using assms unfolding traces_def by blast

lemma emits_traces: "emits m R \<Longrightarrow> traces m R"
  unfolding emits_def traces_def by blast

lemma traces_weaken: "traces m R \<Longrightarrow> (\<And>r evs. R r evs \<Longrightarrow> R' r evs) \<Longrightarrow> traces m R'"
  unfolding traces_def by blast

lemma traces_if: "(b \<Longrightarrow> traces m R) \<Longrightarrow> (\<not> b \<Longrightarrow> traces k R) \<Longrightarrow> traces (if b then m else k) R"
  by simp

lemma traces_bind:
  assumes m: "traces m R1" and f: "\<And>a. traces (f a) (R2 a)"
    and raise: "\<And>e evs. R1 (Inl e) evs \<Longrightarrow> R (Inl e) evs"
    and seq: "\<And>a r e1 e2. R1 (Inr a) e1 \<Longrightarrow> R2 a r e2 \<Longrightarrow> R r (e1 @ e2)"
  shows "traces (bindP m f) R"
proof (rule tracesI)
  fix s r t assume run: "bindP m f s = (r, t)"
  obtain r1 s1 where r1: "m s = (r1, s1)" by force
  from m r1 obtain e1 where e1: "sy_trace s1 = sy_trace s @ e1" "R1 r1 e1" by (rule tracesD)
  show "\<exists>evs. sy_trace t = sy_trace s @ evs \<and> R r evs"
  proof (cases r1)
    case (Inl e)
    with run r1 e1 raise show ?thesis by (auto simp: bindP_def)
  next
    case (Inr a)
    with run r1 have "f a s1 = (r, t)" by (simp add: bindP_def)
    with f obtain e2 where "sy_trace t = sy_trace s1 @ e2" "R2 a r e2" by (rule tracesD)
    with e1 Inr seq show ?thesis by (intro exI [of _ "e1 @ e2"]) auto
  qed
qed

lemma traces_seq:
  assumes "traces m R1" and "traces k R2" and "\<And>e evs. R1 (Inl e) evs \<Longrightarrow> R (Inl e) evs"
    and "\<And>a r e1 e2. R1 (Inr a) e1 \<Longrightarrow> R2 r e2 \<Longrightarrow> R r (e1 @ e2)"
  shows "traces (seqP m k) R"
  unfolding seqP_def
  by (rule traces_bind [where ?R1.0 = R1 and ?R2.0 = "\<lambda>_. R2" and R = R]) (fact assms)+

lemma traces_catch:
  assumes m: "traces m R1" and h: "\<And>e. traces (h e) (R2 e)"
    and ret: "\<And>a evs. R1 (Inr a) evs \<Longrightarrow> R (Inr a) evs"
    and handle: "\<And>e r e1 e2. R1 (Inl e) e1 \<Longrightarrow> R2 e r e2 \<Longrightarrow> R r (e1 @ e2)"
  shows "traces (catchP m h) R"
proof (rule tracesI)
  fix s r t assume run: "catchP m h s = (r, t)"
  obtain r1 s1 where r1: "m s = (r1, s1)" by force
  from m r1 obtain e1 where e1: "sy_trace s1 = sy_trace s @ e1" "R1 r1 e1" by (rule tracesD)
  show "\<exists>evs. sy_trace t = sy_trace s @ evs \<and> R r evs"
  proof (cases r1)
    case (Inr a)
    with run r1 e1 ret show ?thesis by (auto simp: catchP_def)
  next
    case (Inl e)
    with run r1 have "h e s1 = (r, t)" by (simp add: catchP_def)
    with h obtain e2 where "sy_trace t = sy_trace s1 @ e2" "R2 e r e2" by (rule tracesD)
    with e1 Inl handle show ?thesis by (intro exI [of _ "e1 @ e2"]) auto
  qed
qed

lemma traces_finally:
  assumes "traces m R" and "\<And>s. sy_trace (f s) = sy_trace s"
  shows "traces (finallyP m f) R"
  unfolding traces_def
proof (intro allI impI)
  fix s r t assume "finallyP m f s = (r, t)"
  then obtain t1 where "m s = (r, t1)" and t: "t = f t1" by (auto simp: finallyP_def split: prod.splits)
  from assms(1) this(1) show "\<exists>evs. sy_trace t = sy_trace s @ evs \<and> R r evs"
    by (rule tracesD) (auto simp: t assms(2))
qed

section \<open>The phases of a recovery\<close>

datatype phase = Closed | Claimed | Awaiting

text \<open>
  A recovery is claimed only when none is open, commands go out only in a claimed attempt,
  and an attempt awaits its outcome or is finished.
\<close>

fun phase_step :: "phase \<Rightarrow> event \<Rightarrow> phase option" where
  "phase_step ph (EvClaim _ _) = (if ph = Closed then Some Claimed else None)"
| "phase_step ph (EvRequest _ _ _) = (if ph = Claimed then Some Claimed else None)"
| "phase_step ph (EvFinish _ _ _ outcome) =
     (if outcome = ''awaiting_outcome'' then (if ph = Claimed then Some Awaiting else None)
      else Some Closed)"
| "phase_step ph (EvMark _) = Some ph"
| "phase_step ph _ = (if ph = Closed then Some Closed else None)"

fun phases :: "phase \<Rightarrow> event list \<Rightarrow> phase option" where
  "phases ph [] = Some ph"
| "phases ph (e # evs) = (case phase_step ph e of None \<Rightarrow> None | Some ph' \<Rightarrow> phases ph' evs)"

lemma phases_append:
  "phases ph (evs @ evs') = (case phases ph evs of None \<Rightarrow> None | Some ph' \<Rightarrow> phases ph' evs')"
  by (induction evs arbitrary: ph) (auto split: option.splits)

lemma phases_requests: "phases Claimed (map request_event reqs) = Some Claimed"
  by (induction reqs) (auto simp: request_event_def split: prod.splits)

lemma phase_step_finish:
  "phase_step ph (finish_event r f ''awaiting_outcome'') = (if ph = Claimed then Some Awaiting else None)"
  "outcome_finish x \<Longrightarrow> phase_step ph (finish_event r f x) = Some Closed"
  by (auto simp: finish_event_def outcome_finish_def)

lemma phases_finishes:
  assumes "attempt_finishes fins"
  shows "\<exists>ph. phases Claimed (finish_events r f fins) = Some ph \<and>
    (fins \<noteq> [] \<longrightarrow> last fins \<noteq> ''awaiting_outcome'' \<longrightarrow> ph = Closed)"
proof -
  have u: "outcome_finish ''unknown''" by (simp add: outcome_finish_def)
  from assms show ?thesis
    unfolding attempt_finishes_def finish_events_def
    by (elim disjE exE conjE) (simp_all add: phase_step_finish phase_step_finish(2) [OF u])
qed

text \<open>A run is orderly when it follows the automaton from \<open>Closed\<close>.\<close>

definition orderly :: "event list \<Rightarrow> bool" where
  "orderly evs \<longleftrightarrow> phases Closed evs \<noteq> None"

definition settled :: "event list \<Rightarrow> bool" where
  "settled evs \<longleftrightarrow> phases Closed evs = Some Closed"

lemma settled_orderly: "settled evs \<Longrightarrow> orderly evs"
  by (simp add: settled_def orderly_def)

lemma settled_append: "settled evs \<Longrightarrow> orderly evs' \<Longrightarrow> orderly (evs @ evs')"
  "settled evs \<Longrightarrow> settled evs' \<Longrightarrow> settled (evs @ evs')"
  by (simp_all add: settled_def orderly_def phases_append)

lemma settled_Nil [simp]: "settled []"
  by (simp add: settled_def)

lemma orderly_mark: "orderly evs \<Longrightarrow> orderly (evs @ [EvMark f])"
  by (auto simp: orderly_def phases_append)

lemmas phase_rules = settled_orderly settled_append

section \<open>The trace of a retry\<close>

lemma traces_silent:
  "traces (awaitP env p) (\<lambda>r evs. evs = [])"
  "traces (liftP x) (\<lambda>r evs. r = x \<and> evs = [])"
  "traces (returnP a) (\<lambda>r evs. r = Inr a \<and> evs = [])"
  "traces (throwP e) (\<lambda>r evs. r = Inl e \<and> evs = [])"
  "traces (getsP f) (\<lambda>r evs. (\<exists>a. r = Inr a) \<and> evs = [])"
  "traces (co_get g) (\<lambda>r evs. (\<exists>a. r = Inr a) \<and> evs = [])"
  "traces (on_co h) (\<lambda>r evs. r = Inr () \<and> evs = [])"
  "traces (countP k) (\<lambda>r evs. r = Inr () \<and> evs = [])"
  "traces (set_last_error e') (\<lambda>r evs. r = Inr () \<and> evs = [])"
  "traces skip_event (\<lambda>r evs. r = Inr () \<and> evs = [])"
  "traces required_database (\<lambda>r evs. evs = [])"
  "traces (live_guard robot pointer plan) (\<lambda>r evs. evs = [])"
  by (auto intro!: emits_traces emits_silent emits_live_guard
      intro: emits_weaken [OF emits_required_database])

lemma traces_finish_unknown:
  assumes "sr_recovery_run_token claimed = Some tok"
  shows "traces (finish_unknown env claimed f msg) (\<lambda>r evs.
     (evs = [] \<and> (\<exists>e. r = Inl e)) \<or> evs = [finish_event claimed f ''unknown''])"
  by (rule emits_traces [OF emits_weaken [OF emits_finish_unknown [OF assms]]]) auto

lemma traces_execute_attempt:
  assumes "sr_recovery_run_token claimed = Some tok"
  shows "traces (execute_attempt env db robot claimed f plan pointer) (attempt_trace claimed f plan pointer)"
  by (rule tracesI) (rule execute_attempt_trace [OF assms])

text \<open>After a failed attempt nothing is open.\<close>

lemma attempt_trace_phases:
  assumes "attempt_trace claimed f plan pointer r evs"
  shows "\<exists>ph. phases Claimed evs = Some ph \<and> (\<forall>x. r = Inr x \<longrightarrow> ph = Closed)"
proof -
  from assms obtain reqs fins where
    evs: "evs = map request_event reqs @ finish_events claimed f fins" and
    fins: "attempt_finishes fins" and res: "attempt_result r reqs fins"
    by (auto simp: attempt_trace_def)
  have closed: "fins \<noteq> [] \<and> last fins \<noteq> ''awaiting_outcome''" if "r = Inr x" for x
    using res that by (auto simp: attempt_result_def)
  from phases_finishes [OF fins, of claimed f] closed show ?thesis
    by (auto simp: evs phases_append phases_requests)
qed

text \<open>From a claim on, the events follow the automaton; a returned pointer means closed.\<close>

definition claimed_trace :: "'a option result \<Rightarrow> event list \<Rightarrow> bool" where
  "claimed_trace r evs \<longleftrightarrow>
     (\<exists>ph. phases Claimed evs = Some ph \<and> (\<forall>x. r = Inr (Some x) \<longrightarrow> ph = Closed))"

lemma claimed_trace_stop:
  "phases Claimed evs \<noteq> None \<Longrightarrow> (\<forall>x. r \<noteq> Inr (Some x)) \<Longrightarrow> claimed_trace r evs"
  by (auto simp: claimed_trace_def)

lemma traces_claimed_plan_ready:
  assumes "sr_recovery_run_token claimed = Some tok"
  shows "traces (claimed_plan_ready env robot claimed f plan pointer) (\<lambda>r evs.
     (evs = [] \<or> evs = [finish_event claimed f ''unknown'']) \<and> (r = Inr True \<longrightarrow> evs = []))"
    (is "traces _ ?R")
proof -
  have u: "traces (seqP (finish_unknown env claimed f msg) (returnP False)) ?R" for msg
    by (rule traces_seq [OF traces_finish_unknown [OF assms] traces_silent(3)]) auto
  have g: "traces (seqP (liftP (validate_plan_for_flow plan pointer))
      (seqP (live_guard robot pointer plan) (returnP True))) (\<lambda>r evs. evs = [] \<and> r \<noteq> Inr False)"
    by (rule traces_seq [OF traces_silent(2) traces_seq [OF traces_silent(12) traces_silent(3)]]) auto
  have h: "traces (if is_contract_error e then
      seqP (finish_unknown env claimed f msg) (returnP False) else throwP e) ?R" for e msg
    by (intro traces_if u) (rule traces_weaken [OF traces_silent(4)], simp)
  show ?thesis
    unfolding claimed_plan_ready_def
    by (intro traces_if u traces_seq [OF traces_silent(2) traces_catch [OF g h]]) auto
qed

lemma traces_bind_known:
  assumes "traces m R1" and "\<And>a. (\<exists>evs. R1 (Inr a) evs) \<Longrightarrow> traces (f a) (R2 a)"
    and "\<And>e evs. R1 (Inl e) evs \<Longrightarrow> R (Inl e) evs"
    and "\<And>a r e1 e2. R1 (Inr a) e1 \<Longrightarrow> R2 a r e2 \<Longrightarrow> R r (e1 @ e2)"
  shows "traces (bindP m f) R"
proof (rule tracesI)
  fix s r t assume run: "bindP m f s = (r, t)"
  obtain r1 s1 where r1: "m s = (r1, s1)" by force
  from assms(1) r1 obtain e1 where e1: "sy_trace s1 = sy_trace s @ e1" "R1 r1 e1" by (rule tracesD)
  show "\<exists>evs. sy_trace t = sy_trace s @ evs \<and> R r evs"
  proof (cases r1)
    case (Inl e)
    with run r1 e1 assms(3) show ?thesis by (auto simp: bindP_def)
  next
    case (Inr a)
    with e1 have "traces (f a) (R2 a)" by (intro assms(2)) blast
    moreover from Inr run r1 have "f a s1 = (r, t)" by (simp add: bindP_def)
    ultimately obtain e2 where "sy_trace t = sy_trace s1 @ e2" "R2 a r e2" by (rule tracesD)
    with e1 Inr assms(4) show ?thesis by (intro exI [of _ "e1 @ e2"]) auto
  qed
qed

text \<open>What a claim emits after its own event.\<close>

definition claim_rest ::
  "string \<Rightarrow> string \<Rightarrow> recovery_session option result \<Rightarrow> event list \<Rightarrow> bool" where
  "claim_rest f sid r evs \<longleftrightarrow>
     (if \<exists>claimed. r = Inr (Some claimed)
      then evs = [] \<and> (\<forall>claimed. r = Inr (Some claimed) \<longrightarrow> sr_recovery_run_token claimed \<noteq> None)
      else evs = [] \<or> (\<exists>tok. evs = [EvFinish f sid tok ''unknown'']))"

lemma traces_close_malformed:
  "traces (seqP (finish_call env db f sid run_token ''unknown'' msg)
     (seqP (countP bump_unknown) (returnP None))) (claim_rest f sid)"
  by (rule traces_seq [OF emits_traces [OF emits_finish_call]
        traces_seq [OF traces_silent(8) traces_silent(3), where R = "\<lambda>r evs. r = Inr None \<and> evs = []"]])
    (auto simp: claim_rest_def)

lemma traces_claim_attempt:
  fixes env :: "'w env"
  shows "traces (claim_attempt env db f sid) (\<lambda>r evs. \<exists>rest. evs = EvClaim f sid # rest \<and> claim_rest f sid r rest)"
proof -
  let ?close = "\<lambda>e row. case (uuid_text (dget row ''recovery_session_id''),
        uuid_text (dget row ''recovery_run_token'')) of
      (claimed_id, Some run_token) \<Rightarrow>
        if claimed_id = Some sid then
          seqP (finish_call env db f sid run_token ''unknown''
            ''Automatic recovery claim data was malformed; the attempt was stopped as unknown.'')
            (seqP (countP bump_unknown) (returnP None))
        else throwP e
    | _ \<Rightarrow> throwP e"
  have throw: "traces (throwP e :: ('w, recovery_session option) co_prog) (claim_rest f sid)" for e
    by (rule traces_weaken [OF traces_silent(4)]) (simp add: claim_rest_def)
  have close: "traces (?close e row) (claim_rest f sid)" for e row
    using throw traces_close_malformed by (auto split: option.splits)
  have parsed: "traces (case parse_recovery_session row True of
      Inr claimed \<Rightarrow> returnP (Some claimed)
    | Inl e \<Rightarrow> if \<not> is_contract_error e then throwP e else ?close e row) (claim_rest f sid)" for row
  proof (cases "parse_recovery_session row True")
    case (Inl e)
    then show ?thesis using throw [of e] close [of e row] by simp
  next
    case (Inr claimed)
    then show ?thesis using claimed_session(2) [OF Inr]
      by (simp, intro traces_weaken [OF traces_silent(3)]) (simp add: claim_rest_def)
  qed
  show ?thesis
    unfolding claim_attempt_def
    by (rule traces_seq [OF emits_traces [OF emits_log]
          traces_bind [OF traces_silent(1) traces_seq [OF traces_silent(8) parsed, where R = "claim_rest f sid"],
            where R = "claim_rest f sid"]])
      (auto simp: claim_rest_def)
qed

definition once_trace :: "'a option result \<Rightarrow> event list \<Rightarrow> bool" where
  "once_trace r evs \<longleftrightarrow> orderly evs \<and> (\<forall>x. r = Inr (Some x) \<longrightarrow> settled evs)"

lemma once_trace_claim: "claimed_trace r evs \<Longrightarrow> once_trace r (EvClaim f sid # evs)"
  by (auto simp: once_trace_def claimed_trace_def orderly_def settled_def)

lemma claimed_trace_raise: "claimed_trace (Inl e) []"
  by (simp add: claimed_trace_def)

lemma claimed_trace_unknown: "claimed_trace (Inr None) [finish_event r f ''unknown'']"
  "claimed_trace (Inl e) [finish_event r f ''unknown'']"
  "claimed_trace (Inr None) [EvFinish f sid tok ''unknown'']"
  "claimed_trace (Inl e) [EvFinish f sid tok ''unknown'']"
  "claimed_trace (Inr None) []"
  by (auto simp: claimed_trace_def finish_event_def)

lemma traces_run_claimed:
  assumes tok: "sr_recovery_run_token claimed = Some tok"
  shows "traces (seqP (countP k)
      (bindP (liftP parsed) (\<lambda>plan.
       bindP (claimed_plan_ready env robot claimed f plan pointer) (\<lambda>ready.
       if \<not> ready then returnP None
       else bindP (execute_attempt env db robot claimed f plan pointer) (\<lambda>outcome.
         bindP (getsP (view_of robot)) (\<lambda>view. liftP (next_pointer view claimed outcome)))))))
    claimed_trace"
proof -
  have exec: "traces (bindP (execute_attempt env db robot claimed f plan pointer) (\<lambda>outcome.
      bindP (getsP (view_of robot)) (\<lambda>view. liftP (next_pointer view claimed outcome)))) claimed_trace" for plan
    by (rule traces_bind [OF traces_execute_attempt [OF tok]
          traces_bind [OF traces_silent(5) traces_silent(2), where R = "\<lambda>r evs. evs = []"]])
      (auto dest!: attempt_trace_phases simp: claimed_trace_def)
  have "traces (bindP (claimed_plan_ready env robot claimed f plan pointer) (\<lambda>ready.
      if \<not> ready then returnP None
      else bindP (execute_attempt env db robot claimed f plan pointer) (\<lambda>outcome.
        bindP (getsP (view_of robot)) (\<lambda>view. liftP (next_pointer view claimed outcome)))))
    claimed_trace" for plan
  proof (rule traces_bind [OF traces_claimed_plan_ready [OF tok],
        where ?R2.0 = "\<lambda>ready r evs. if ready then claimed_trace r evs else r = Inr None \<and> evs = []"])
    show "traces (if \<not> ready then returnP None
        else bindP (execute_attempt env db robot claimed f plan pointer) (\<lambda>outcome.
          bindP (getsP (view_of robot)) (\<lambda>view. liftP (next_pointer view claimed outcome))))
      (\<lambda>r evs. if ready then claimed_trace r evs else r = Inr None \<and> evs = [])" for ready
      using exec traces_silent(3) by (cases ready) simp_all
  qed (auto intro: claimed_trace_unknown claimed_trace_raise split: if_splits)
  then show ?thesis
    by (intro traces_seq [OF traces_silent(8) traces_bind [OF traces_silent(2), where R = claimed_trace]])
      (auto intro: claimed_trace_raise)
qed

lemma traces_attempt_once:
  "traces (attempt_once env db robot obj sid plan pointer) once_trace"
proof -
  let ?run = "\<lambda>f claim_result. case claim_result of
      None \<Rightarrow> returnP None
    | Some claimed \<Rightarrow>
        seqP (countP (\<lambda>es. es\<lparr> es_last_failure_id := Some f \<rparr>))
        (bindP (liftP (parse_recovery_plan (PTuple (map PDict (sr_pinned_actions claimed))))) (\<lambda>plan.
         bindP (claimed_plan_ready env robot claimed f plan pointer) (\<lambda>ready.
         if \<not> ready then returnP None
         else bindP (execute_attempt env db robot claimed f plan pointer) (\<lambda>outcome.
           bindP (getsP (view_of robot)) (\<lambda>view. liftP (next_pointer view claimed outcome))))))"
  have claim: "traces (bindP (claim_attempt env db f sid) (?run f)) once_trace" for f
  proof (rule traces_bind_known [OF traces_claim_attempt, where
        ?R2.0 = "\<lambda>c r evs. if c = None then r = Inr None \<and> evs = [] else claimed_trace r evs"])
    fix c :: "recovery_session option"
    assume known: "\<exists>evs rest. evs = EvClaim f sid # rest \<and> claim_rest f sid (Inr c) rest"
    show "traces (?run f c) (\<lambda>r evs. if c = None then r = Inr None \<and> evs = [] else claimed_trace r evs)"
    proof (cases c)
      case None
      then show ?thesis using traces_silent(3) by simp
    next
      case (Some claimed)
      with known obtain tok where "sr_recovery_run_token claimed = Some tok" by (auto simp: claim_rest_def)
      from traces_run_claimed [OF this] Some show ?thesis by simp
    qed
  qed (auto intro!: once_trace_claim intro: claimed_trace_unknown claimed_trace_raise
      simp: claim_rest_def split: if_splits)
  show ?thesis
    unfolding attempt_once_def
    by (rule traces_bind [OF traces_silent(6) traces_seq [OF traces_silent(12) claim, where R = once_trace]])
      (auto simp: once_trace_def orderly_def)
qed

lemma traces_retry_loop:
  "traces (retry_loop fuel env db robot obj sid plan pointer) (\<lambda>r evs. orderly evs)"
proof (induction fuel arbitrary: pointer)
  case 0
  show ?case by (auto intro: traces_weaken [OF traces_silent(3)] simp: orderly_def)
next
  case (Suc fuel)
  have stop: "traces (returnP LoopReturned) (\<lambda>r evs. orderly evs)"
    by (rule traces_weaken [OF traces_silent(3)]) (simp add: orderly_def)
  have continue: "traces (case following of None \<Rightarrow> returnP LoopReturned
      | Some p \<Rightarrow> retry_loop fuel env db robot obj sid plan p)
    (\<lambda>r evs. if following = None then evs = [] else orderly evs)" for following
    using Suc by (auto split: option.splits intro: traces_weaken [OF traces_silent(3)])
  have "traces (bindP (attempt_once env db robot obj sid plan pointer) (\<lambda>following.
      case following of None \<Rightarrow> returnP LoopReturned
      | Some p \<Rightarrow> retry_loop fuel env db robot obj sid plan p)) (\<lambda>r evs. orderly evs)"
    by (rule traces_bind [OF traces_attempt_once continue])
      (auto simp: once_trace_def intro: settled_append split: if_splits)
  with stop show ?case
    unfolding retry_loop.simps
    by (intro traces_bind [OF traces_silent(6) traces_if, where R = "\<lambda>r evs. orderly evs"])
      (auto simp: orderly_def)
qed

section \<open>The trace of a whole run\<close>

text \<open>
  A quiet coroutine leaves the recovery closed whatever happens, a tidy one follows the
  automaton.
\<close>

definition quiet :: "('w, 'a) co_prog \<Rightarrow> bool" where
  "quiet m \<longleftrightarrow> traces m (\<lambda>r evs. settled evs)"

definition tidy :: "('w, 'a) co_prog \<Rightarrow> bool" where
  "tidy m \<longleftrightarrow> traces m (\<lambda>r evs. orderly evs)"

named_theorems tidy_intros \<open>composition of quiet and tidy coroutines\<close>

lemma quiet_silent [tidy_intros]:
  "quiet (awaitP env p)" "quiet (liftP x)" "quiet (returnP a)" "quiet (throwP e)" "quiet (getsP f)"
  "quiet (co_get g)" "quiet (on_co h)" "quiet (countP k)" "quiet (set_last_error e')"
  "quiet skip_event" "quiet required_database" "quiet (live_guard robot pointer plan)"
  unfolding quiet_def by (rule traces_weaken, rule traces_silent, simp)+

lemma quiet_log [tidy_intros]:
  "quiet (logP (EvFetch a))" "quiet (logP (EvAttach a b))" "quiet (logP (EvPrepare a b i j))"
  "quiet (logP (EvProject a))" "quiet (logP (EvExpire a b c))" "quiet (logP (EvMark a))"
  unfolding quiet_def by (rule traces_weaken, rule emits_traces [OF emits_log], simp, simp add: settled_def)+

lemma quiet_bind [tidy_intros]: "quiet m \<Longrightarrow> (\<And>a. quiet (f a)) \<Longrightarrow> quiet (bindP m f)"
  unfolding quiet_def
  by (rule traces_bind [where ?R1.0 = "\<lambda>r. settled" and ?R2.0 = "\<lambda>a r. settled"]) (auto intro: settled_append)

lemma quiet_seq [tidy_intros]: "quiet m \<Longrightarrow> quiet k \<Longrightarrow> quiet (seqP m k)"
  unfolding seqP_def by (rule quiet_bind)

lemma quiet_catch [tidy_intros]: "quiet m \<Longrightarrow> (\<And>e. quiet (h e)) \<Longrightarrow> quiet (catchP m h)"
  unfolding quiet_def
  by (rule traces_catch [where ?R1.0 = "\<lambda>r. settled" and ?R2.0 = "\<lambda>a r. settled"]) (auto intro: settled_append)

lemma quiet_cases [tidy_intros]:
  "(b \<Longrightarrow> quiet m) \<Longrightarrow> (\<not> b \<Longrightarrow> quiet k) \<Longrightarrow> quiet (if b then m else k)"
  "quiet n \<Longrightarrow> (\<And>x. quiet (s x)) \<Longrightarrow> quiet (case opt of None \<Rightarrow> n | Some x \<Rightarrow> s x)"
  "(\<And>x y. quiet (p x y)) \<Longrightarrow> quiet (case pair of (x, y) \<Rightarrow> p x y)"
  by (simp_all split: option.split prod.split)

lemma quiet_tidy: "quiet m \<Longrightarrow> tidy m"
  unfolding quiet_def tidy_def by (erule traces_weaken) (rule settled_orderly)

lemma tidy_bind: "quiet m \<Longrightarrow> (\<And>a. tidy (f a)) \<Longrightarrow> tidy (bindP m f)"
  unfolding quiet_def tidy_def
  by (rule traces_bind [where ?R1.0 = "\<lambda>r. settled" and ?R2.0 = "\<lambda>a r. orderly"]) (auto intro: phase_rules)

lemma tidy_seq: "quiet m \<Longrightarrow> tidy k \<Longrightarrow> tidy (seqP m k)"
  unfolding seqP_def by (rule tidy_bind)

lemma tidy_finally: "tidy m \<Longrightarrow> (\<And>s. sy_trace (f s) = sy_trace s) \<Longrightarrow> tidy (finallyP m f)"
  unfolding tidy_def by (rule traces_finally)

lemma tidy_cases:
  "(b \<Longrightarrow> tidy m) \<Longrightarrow> (\<not> b \<Longrightarrow> tidy k) \<Longrightarrow> tidy (if b then m else k)"
  "tidy n \<Longrightarrow> (\<And>x. tidy (s x)) \<Longrightarrow> tidy (case opt of None \<Rightarrow> n | Some x \<Rightarrow> s x)"
  "(\<And>x y. tidy (p x y)) \<Longrightarrow> tidy (case pair of (x, y) \<Rightarrow> p x y)"
  by (simp_all split: option.split prod.split)

lemma quiet_let [tidy_intros]: "(\<And>x. quiet (f x)) \<Longrightarrow> quiet (Let v f)"
  by simp

lemma quiet_preparation [tidy_intros]:
  "quiet (fresh_paused_pointer env robot target)"
  "quiet (attach_active_recurrence env db target')"
  "quiet (prepare_session env db robot target pointer)"
  "quiet (check_prepared env robot target pointer sid prepared)"
  "quiet (start_grace env db sid)"
  "quiet (fetch_call env db f)"
  unfolding fresh_paused_pointer_def attach_active_recurrence_def prepare_session_def note_session_def
    check_prepared_def start_grace_def fetch_call_def
  by (intro tidy_intros)+

lemma tidy_run_session: "tidy (run_session fuel env db robot target sid plan pointer)"
proof -
  have "tidy (retry_loop fuel env db robot obj sid plan pointer)" for obj
    unfolding tidy_def by (rule traces_retry_loop)
  then show ?thesis unfolding run_session_def
    by (intro tidy_bind tidy_seq tidy_finally tidy_intros) auto
qed

lemma tidy_execute_target: "tidy (execute_target fuel env target)"
  unfolding execute_target_def
  by (intro tidy_bind tidy_seq tidy_cases tidy_run_session tidy_intros quiet_tidy)

text \<open>The handlers of \<open>process_failure\<close> add at most the mark.\<close>

lemma tidy_execute_guarded: "tidy (execute_guarded fuel env db target)"
proof -
  let ?mark = "\<lambda>r evs. evs = [] \<or> evs = [EvMark (ft_failure_id target)]"
  have m: "traces (seqP (logP (EvMark (ft_failure_id target)))
      (seqP (awaitP env p) (seqP skip_event (seqP (set_last_error e) (returnP LoopReturned))))) ?mark" for p e
    by (rule traces_seq [OF emits_traces [OF emits_log] traces_seq [OF traces_silent(1)
          traces_seq [OF traces_silent(10) traces_seq [OF traces_silent(9) traces_silent(3),
            where R = "\<lambda>r evs. evs = []"], where R = "\<lambda>r evs. evs = []"], where R = "\<lambda>r evs. evs = []"]])
      auto
  have d: "traces (seqP skip_event (seqP (set_last_error e) (returnP LoopReturned))) ?mark" for e
    by (rule traces_seq [OF traces_silent(10) traces_seq [OF traces_silent(9) traces_silent(3),
          where R = "\<lambda>r evs. evs = []"]]) auto
  have t: "traces (throwP e) ?mark" for e by (rule traces_weaken [OF traces_silent(4)]) simp
  show ?thesis
    using tidy_execute_target [of fuel env target]
    unfolding execute_guarded_def tidy_def
    by (rule traces_catch [OF _ traces_if [OF m traces_if [OF d t]]]) (auto intro: orderly_mark)
qed

lemma tidy_process_locked: "tidy (process_locked fuel env db target)"
  unfolding process_locked_def
  by (intro tidy_bind tidy_cases tidy_execute_guarded tidy_intros quiet_tidy)

lemma tidy_process_failure: "tidy (process_failure fuel env f)"
  unfolding process_failure_def
  by (intro tidy_bind tidy_seq tidy_cases tidy_finally tidy_process_locked tidy_intros quiet_tidy)
    simp_all

lemma process_failure_orderly:
  assumes "process_failure fuel env f s = (r, t)"
  obtains evs where "sy_trace t = sy_trace s @ evs" "orderly evs"
  using tidy_process_failure assms unfolding tidy_def by (rule tracesD)

text \<open>In an orderly run, a command is preceded by a claim that no finish has closed.\<close>

lemma orderly_prefix: "orderly (evs @ evs') \<Longrightarrow> orderly evs"
  by (auto simp: orderly_def phases_append split: option.splits)

fun is_claim_or_finish :: "event \<Rightarrow> bool" where
  "is_claim_or_finish (EvClaim f sid) = True"
| "is_claim_or_finish (EvFinish f sid tok x) = True"
| "is_claim_or_finish e = False"

lemma phases_Claimed_last:
  "phases ph evs = Some Claimed \<Longrightarrow>
     ph = Claimed \<and> filter is_claim_or_finish evs = [] \<or>
     (\<exists>before f sid. filter is_claim_or_finish evs = before @ [EvClaim f sid])"
proof (induction evs arbitrary: ph)
  case (Cons e evs)
  then obtain ph' where ph': "phase_step ph e = Some ph'" "phases ph' evs = Some Claimed"
    by (auto split: option.splits)
  from Cons.IH [OF ph'(2)] show ?case
  proof (elim disjE conjE exE)
    assume "ph' = Claimed" "filter is_claim_or_finish evs = []"
    with ph'(1) show ?case by (cases e) (auto split: if_splits)
  next
    fix before f sid assume "filter is_claim_or_finish evs = before @ [EvClaim f sid]"
    then show ?case by (cases e) auto
  qed
qed simp

lemma orderly_request_claimed:
  assumes "orderly (before @ EvRequest c a v # after)"
  shows "\<exists>pre f sid. filter is_claim_or_finish before = pre @ [EvClaim f sid]"
proof -
  from assms have "phases Closed before = Some Claimed"
    by (auto simp: orderly_def phases_append split: option.splits if_splits)
  from phases_Claimed_last [OF this] show ?thesis by auto
qed

section \<open>A step that is being recovered\<close>

lemma attach_active:
  assumes "co_active (sy_coordinator s) (target_pointer_key target) = Some obj"
    and "attach_active_recurrence env db target s = (r, t)"
  shows "r \<noteq> Inr False"
    and "sy_trace t = sy_trace s \<or>
      sy_trace t = sy_trace s @ [EvAttach (ft_failure_id target)
        (ar_recovery_session_id (co_objects (sy_coordinator s) obj))]"
  using assms
  by (auto simp: attach_active_recurrence_def co_get_def prog_defs logP_def awaitP_def on_co_def countP_def Let_def
      split: if_splits prod.splits sum.splits)

lemma process_failure_active:
  assumes on: "se_enabled (en_settings env)" and db: "co_database (sy_coordinator s) = Some db"
    and row: "db_fetch_failure db f (sy_world s) = (Inr (Some row), w)"
    and target: "parse_failure_pointer_target row = Inr target"
    and active: "co_active (en_others env w (sy_coordinator s)) (target_pointer_key target) = Some obj"
    and run: "process_failure fuel env f s = (r, t)"
  shows "\<exists>attached. sy_trace t = sy_trace s @ EvFetch f # attached \<and>
    (attached = [] \<or> (\<exists>sid. attached = [EvAttach (ft_failure_id target) sid]))"
proof -
  let ?s = "s\<lparr> sy_trace := sy_trace s @ [EvFetch f], sy_world := w,
    sy_coordinator := en_others env w (sy_coordinator s) \<rparr>"
  have fetch: "fetch_call env db f s = (Inr (Some row), ?s)"
    using row by (simp add: fetch_call_def logP_def awaitP_def prog_defs)
  obtain r1 s1 where att: "attach_active_recurrence env db target ?s = (r1, s1)" by force
  have act: "co_active (sy_coordinator ?s) (target_pointer_key target) = Some obj" using active by simp
  note a = attach_active [OF act att]
  have "sy_trace t = sy_trace ?s \<or> sy_trace t = sy_trace s1"
    using run on db fetch target att a(1)
    by (cases r1) (auto simp: process_failure_def required_database_def co_get_def prog_defs skip_event_def
        countP_def on_co_def split: if_splits)
  with a(2) show ?thesis by auto
qed

section \<open>Reconciliation\<close>

fun is_expire :: "event \<Rightarrow> bool" where
  "is_expire (EvExpire f sid tok) = True"
| "is_expire e = False"

text \<open>One row: at most one expiry, of a session that parses; only a cancellation escapes.\<close>

lemma traces_expire_row:
  "traces (expire_row env db raw) (\<lambda>r evs. list_all is_expire evs \<and> length evs \<le> 1 \<and>
     (evs \<noteq> [] \<longrightarrow> (\<exists>rec. parse_recovery_session raw True = Inr rec \<and>
        evs = [EvExpire (sr_current_failure_id rec) (sr_recovery_session_id rec)
          (the (sr_recovery_run_token rec))])) \<and>
     (\<forall>e. r = Inl e \<longrightarrow> e = CancelledErr))"
proof (cases "parse_recovery_session raw True")
  case (Inl e)
  then show ?thesis
    by (auto simp: traces_def expire_row_def prog_defs countP_def on_co_def split: if_splits)
next
  case (Inr rec)
  then obtain tok where "sr_recovery_run_token rec = Some tok"
    using claimed_session(2) by blast
  then show ?thesis using Inr
    by (auto simp: traces_def expire_row_def prog_defs logP_def awaitP_def countP_def on_co_def
        split: if_splits prod.splits sum.splits)
qed

lemma traces_forP:
  assumes "\<And>x. traces (f x) (\<lambda>r evs. list_all P evs)"
  shows "traces (forP f xs) (\<lambda>r evs. list_all P evs)"
proof (induction xs)
  case Nil
  show ?case by (auto intro: traces_weaken [OF traces_silent(3)])
next
  case (Cons x xs)
  show ?case unfolding forP.simps by (rule traces_seq [OF assms Cons]) auto
qed

text \<open>Reconciliation expires leases and queues failures; it never claims, sends or finishes.\<close>

definition expires_only :: "('w, 'a) co_prog \<Rightarrow> bool" where
  "expires_only m \<longleftrightarrow> traces m (\<lambda>r evs. list_all is_expire evs)"

lemma expires_silent:
  "expires_only (awaitP env p)" "expires_only (returnP a)" "expires_only required_database"
  "expires_only (on_co h)"
  unfolding expires_only_def by (rule traces_weaken, rule traces_silent, simp)+

lemma expires_bind: "expires_only m \<Longrightarrow> (\<And>a. expires_only (f a)) \<Longrightarrow> expires_only (bindP m f)"
  unfolding expires_only_def
  by (rule traces_bind [where ?R1.0 = "\<lambda>r. list_all is_expire" and ?R2.0 = "\<lambda>a r. list_all is_expire"]) auto

lemma expires_seq: "expires_only m \<Longrightarrow> expires_only k \<Longrightarrow> expires_only (seqP m k)"
  unfolding seqP_def by (rule expires_bind)

lemma expires_finally:
  "expires_only m \<Longrightarrow> (\<And>s. sy_trace (f s) = sy_trace s) \<Longrightarrow> expires_only (finallyP m f)"
  unfolding expires_only_def by (rule traces_finally)

lemma expires_for: "(\<And>x. expires_only (f x)) \<Longrightarrow> expires_only (forP f xs)"
  unfolding expires_only_def by (rule traces_forP)

lemma expires_row: "expires_only (expire_row env db raw)"
  unfolding expires_only_def by (rule traces_weaken [OF traces_expire_row]) simp

lemma expires_if: "(b \<Longrightarrow> expires_only m) \<Longrightarrow> (\<not> b \<Longrightarrow> expires_only k) \<Longrightarrow> expires_only (if b then m else k)"
  by simp

lemma reconcile_expires_only: "expires_only (reconcile env)"
  unfolding reconcile_def
  by (intro expires_if expires_seq expires_finally expires_bind expires_for expires_row expires_silent) simp

section \<open>The paused pointer\<close>

text \<open>A returned pointer pauses on the exact step of the target, in the robot's generation.\<close>

lemma fresh_paused_pointer_matches:
  assumes "fresh_paused_pointer env robot target s = (Inr p, t)"
  shows "pointer_matches_target (Some p) target"
    and "\<exists>s1. awaitP env (rb_wait_connected robot (se_command_timeout (en_settings env))) s = (Inr (), s1) \<and>
      fp_generation p = rs_generation (view_of robot s1)"
  using assms
  by (auto simp: fresh_paused_pointer_def returned Let_def split: if_splits option.splits)

end
