(* ===== verification/Recovery_Queue.thy ===== *)
theory Recovery_Queue
  imports Recovery_Coordinator
begin

text \<open>
  The queue of failures as a state machine: notifications, tasks that end, start and stop of
  the service (\<open>notify_failure\<close>, \<open>_process_notified\<close>, \<open>start\<close>, \<open>stop\<close> of
  \<^verbatim>\<open>recovery_executor.py\<close>), with the invariant that bounds it and the lemmas that say a
  signal is not lost while its failure is being processed.
\<close>

section \<open>Steps\<close>

text \<open>
  A task ends through its \<open>finally\<close> clause, after which its callback drops it; a task
  cancelled before its first step never enters the \<open>try\<close>, and only \<open>stop\<close> cancels.
\<close>

inductive queue_step :: "recovery_settings \<Rightarrow> 'w coordinator \<Rightarrow> 'w coordinator \<Rightarrow> bool"
  for se :: recovery_settings where
  notify: "queue_step se co (notify_failure se value co)"
| task_ends: "failure_id \<in> set (co_work_tasks co) \<Longrightarrow>
    queue_step se co (task_discarded failure_id (notified_done se failure_id co))"
| task_never_began: "failure_id \<in> set (co_work_tasks co) \<Longrightarrow> co_stopped co \<Longrightarrow>
    queue_step se co (task_discarded failure_id co)"
| starting: "queue_step se co (start se sessions co)"
| stopping: "queue_step se co (stop_begin co)"
| stopped: "co_started co \<Longrightarrow> co_stopped co \<Longrightarrow> queue_step se co (stop_end co)"
| database: "queue_step se co (set_database db co)"

inductive_cases queue_stepE: "queue_step se co co'"

section \<open>Invariant\<close>

definition queue_inv :: "'w coordinator \<Rightarrow> bool" where
  "queue_inv co \<longleftrightarrow>
     finite (co_pending co) \<and> card (co_pending co) \<le> max_pending_failures \<and>
     co_dirty co \<subseteq> co_pending co \<and>
     (\<forall>u \<in> co_pending co. canonical_uuid u) \<and>
     (co_stopped co \<and> co_started co \<or> co_pending co \<subseteq> set (co_work_tasks co)) \<and>
     (co_stopped co \<and> \<not> co_started co \<longrightarrow> co_pending co = {})"

lemma queue_inv_new: "queue_inv (new_coordinator db)"
  by (simp add: queue_inv_def new_coordinator_def)

lemma queue_inv_notify: "queue_inv co \<Longrightarrow> queue_inv (notify_failure se v co)"
  by (auto simp: queue_inv_def notify_failure_def intro: uuid_text_canonical split: option.splits)

lemma in_set_remove1_other: "x \<noteq> y \<Longrightarrow> x \<in> set (remove1 y xs) \<longleftrightarrow> x \<in> set xs"
  by (induction xs) auto

lemma not_in_set_remove1: "x \<in> set xs \<Longrightarrow> x \<notin> set (remove1 y xs) \<Longrightarrow> x = y"
  by (metis in_set_remove1)

lemma notified_done_cases:
  "notified_done se f co =
     (let co' = co\<lparr> co_pending := co_pending co - {f}, co_dirty := co_dirty co - {f} \<rparr> in
      if f \<in> co_dirty co \<and> \<not> co_stopped co then notify_failure se (PStr f) co' else co')"
  by (simp add: notified_done_def Let_def)

text \<open>
  A notification for a canonical id that is not pending, in a running service with room,
  is queued with a task of its own.
\<close>

lemma notify_failure_queues:
  assumes "se_enabled se" "\<not> co_stopped co" "canonical_uuid u" "u \<notin> co_pending co"
    and "card (co_pending co) < max_pending_failures"
  shows "notify_failure se (PStr u) co = co\<lparr> co_pending := insert u (co_pending co),
    co_state := bump_enqueued (co_state co), co_work_tasks := co_work_tasks co @ [u] \<rparr>"
  using assms by (simp add: notify_failure_def canonical_uuid_def)

lemma queue_inv_room:
  "queue_inv co \<Longrightarrow> u \<in> co_pending co \<Longrightarrow> card (co_pending co - {u}) < max_pending_failures"
  using card_Diff1_less [of "co_pending co" u] by (simp add: queue_inv_def)

lemma queue_inv_task_ends:
  assumes inv: "queue_inv co" and task: "f \<in> set (co_work_tasks co)"
  shows "queue_inv (task_discarded f (notified_done se f co))"
proof (cases "f \<in> co_dirty co \<and> \<not> co_stopped co \<and> se_enabled se")
  case True
  let ?co = "co\<lparr> co_pending := co_pending co - {f}, co_dirty := co_dirty co - {f} \<rparr>"
  from inv True have f: "f \<in> co_pending co" "canonical_uuid f" by (auto simp: queue_inv_def)
  then have "card (co_pending ?co) < max_pending_failures" using queue_inv_room [OF inv f(1)] by simp
  with True f have "notified_done se f co = ?co\<lparr> co_pending := insert f (co_pending ?co),
      co_state := bump_enqueued (co_state co), co_work_tasks := co_work_tasks co @ [f] \<rparr>"
    by (simp add: notified_done_cases Let_def notify_failure_queues)
  moreover have "insert f (co_pending co - {f}) = co_pending co" using f by blast
  ultimately show ?thesis using inv True task
    by (auto simp: queue_inv_def task_discarded_def remove1_append in_set_remove1_other
        intro: not_in_set_remove1)
next
  case False
  then have "notified_done se f co =
      co\<lparr> co_pending := co_pending co - {f}, co_dirty := co_dirty co - {f} \<rparr>"
    by (auto simp: notified_done_cases Let_def notify_failure_def)
  with inv show ?thesis
    by (auto simp: queue_inv_def task_discarded_def in_set_remove1_other card_Diff_singleton_if
        dest: not_in_set_remove1 [rotated])
qed

lemma queue_inv_service:
  "queue_inv co \<Longrightarrow> queue_inv (start se sessions co)"
  "queue_inv co \<Longrightarrow> queue_inv (stop_begin co)"
  "queue_inv co \<Longrightarrow> queue_inv (stop_end co)"
  "queue_inv co \<Longrightarrow> queue_inv (set_database db co)"
  "queue_inv co \<Longrightarrow> co_stopped co \<Longrightarrow> queue_inv (task_discarded f co)"
  by (auto simp: queue_inv_def start_def stop_begin_def stop_end_def set_database_def task_discarded_def)

lemma queue_inv_step: "queue_step se co co' \<Longrightarrow> queue_inv co \<Longrightarrow> queue_inv co'"
  by (induction rule: queue_step.induct)
    (simp_all add: queue_inv_notify queue_inv_task_ends queue_inv_service)

interpretation queue: step_system "\<lambda>co. \<exists>db. co = new_coordinator db" "queue_step se" queue_inv for se
  by unfold_locales (auto intro: queue_inv_new queue_inv_step)

section \<open>No lost signal\<close>

text \<open>
  A signal for a failure that is being processed marks it; when that task ends, the failure
  is queued once more with a fresh task, and its mark is gone.
\<close>

lemma signal_marks_pending:
  assumes "se_enabled se" "\<not> co_stopped co" "canonical_uuid u" "u \<in> co_pending co"
  shows "notify_failure se (PStr u) co = co\<lparr> co_dirty := insert u (co_dirty co) \<rparr>"
  using assms by (simp add: notify_failure_def canonical_uuid_def)

lemma marked_failure_replayed:
  assumes "queue_inv co" "se_enabled se" "\<not> co_stopped co" "u \<in> co_dirty co"
  shows "co_pending (notified_done se u co) = co_pending co"
    and "co_dirty (notified_done se u co) = co_dirty co - {u}"
    and "co_work_tasks (notified_done se u co) = co_work_tasks co @ [u]"
proof -
  let ?co = "co\<lparr> co_pending := co_pending co - {u}, co_dirty := co_dirty co - {u} \<rparr>"
  from assms have u: "u \<in> co_pending co" "canonical_uuid u" by (auto simp: queue_inv_def)
  then have "card (co_pending ?co) < max_pending_failures"
    using queue_inv_room [OF assms(1) u(1)] by simp
  with assms u have "notified_done se u co = ?co\<lparr> co_pending := insert u (co_pending ?co),
      co_state := bump_enqueued (co_state co), co_work_tasks := co_work_tasks co @ [u] \<rparr>"
    by (simp add: notified_done_cases Let_def notify_failure_queues)
  then show "co_pending (notified_done se u co) = co_pending co"
    "co_dirty (notified_done se u co) = co_dirty co - {u}"
    "co_work_tasks (notified_done se u co) = co_work_tasks co @ [u]"
    using u by auto
qed

end
