(* ===== verification/Retry_Bound.thy ===== *)
theory Retry_Bound
  imports Recovery_Executor
begin

text \<open>
  The retry loop of \<open>_execute_target\<close> ends: the control plane owns the retry accounting
  (\<open>accounts_retries\<close>: a claim that yields an active session uses up one of finitely many
  attempts, and nothing else gives one back), so fuel beyond the attempts left is never
  exhausted.
\<close>

section \<open>Retry accounting\<close>

definition keeps :: "('w \<Rightarrow> nat) \<Rightarrow> ('w, 'a) prog \<Rightarrow> bool" where
  "keeps budget m \<longleftrightarrow> (\<forall>w. budget (snd (m w)) \<le> budget w)"

definition accounts_retries :: "('w \<Rightarrow> nat) \<Rightarrow> 'w database \<Rightarrow> 'w robot \<Rightarrow> bool" where
  "accounts_retries budget db robot \<longleftrightarrow>
     (\<forall>f sid lease w row w' r. db_claim db f sid lease w = (Inr row, w') \<longrightarrow>
        parse_recovery_session row True = Inr r \<longrightarrow> budget w' < budget w) \<and>
     (\<forall>f sid lease. keeps budget (db_claim db f sid lease)) \<and>
     (\<forall>f sid tok x msg. keeps budget (db_finish db f sid tok x msg)) \<and>
     (\<forall>c a t. keeps budget (rb_request_command robot c a t)) \<and>
     (\<forall>p after t g. keeps budget (rb_wait_for_flow robot p after t g))"

text \<open>
  \<open>_finish_unknown\<close> uses the database the coordinator holds at that moment, so the accounting
  is asked of every database the other tasks may install.
\<close>

definition databases_account :: "('w \<Rightarrow> nat) \<Rightarrow> 'w env \<Rightarrow> 'w database \<Rightarrow> 'w robot \<Rightarrow> bool" where
  "databases_account budget env db robot \<longleftrightarrow>
     accounts_retries budget db robot \<and>
     (\<forall>w co. (\<forall>d. co_database co = Some d \<longrightarrow> d = db) \<longrightarrow>
        (\<forall>d. co_database (en_others env w co) = Some d \<longrightarrow> d = db))"

section \<open>Nothing gives an attempt back\<close>

definition in_budget :: "('w \<Rightarrow> nat) \<Rightarrow> 'w database \<Rightarrow> nat \<Rightarrow> 'w sys \<Rightarrow> bool" where
  "in_budget budget db n s \<longleftrightarrow> budget (sy_world s) \<le> n \<and>
     (\<forall>d. co_database (sy_coordinator s) = Some d \<longrightarrow> d = db)"

lemma in_budget_await:
  assumes "databases_account budget env db robot" "keeps budget m"
  shows "preserves (in_budget budget db n) (awaitP env m)"
  unfolding preserves_def
proof (intro allI impI)
  fix s assume s: "in_budget budget db n s"
  obtain r w where m: "m (sy_world s) = (r, w)" by force
  then have "budget w \<le> budget (sy_world s)" using assms(2) by (metis keeps_def snd_conv)
  with s m assms(1) show "in_budget budget db n (snd (awaitP env m s))"
    by (auto simp: in_budget_def awaitP_def databases_account_def)
qed

lemma in_budget_co:
  assumes "\<And>co. co_database (f co) = co_database co"
  shows "preserves (in_budget budget db n) (on_co f)"
  unfolding on_co_def by (rule preserves_modify) (simp add: in_budget_def assms)

lemma in_budget_count: "preserves (in_budget budget db n) (countP k)"
  unfolding countP_def by (rule in_budget_co) simp

lemma in_budget_log: "preserves (in_budget budget db n) (logP e)"
  unfolding logP_def by (rule preserves_modify) (simp add: in_budget_def)

lemma in_budget_dispatch: "preserves (in_budget budget db n) (modifyP (\<lambda>s. s\<lparr> sy_dispatched := b \<rparr>))"
  by (rule preserves_modify) (simp add: in_budget_def)

lemma preserves_cases [preserves_intros]:
  "preserves P n \<Longrightarrow> (\<And>x. preserves P (s x)) \<Longrightarrow> preserves P (case opt of None \<Rightarrow> n | Some x \<Rightarrow> s x)"
  "(\<And>x. preserves P (l x)) \<Longrightarrow> (\<And>y. preserves P (k y)) \<Longrightarrow> preserves P (case x of Inl x \<Rightarrow> l x | Inr y \<Rightarrow> k y)"
  "(\<And>x y. preserves P (p x y)) \<Longrightarrow> preserves P (case pair of (x, y) \<Rightarrow> p x y)"
  "(\<And>x. preserves P (f x)) \<Longrightarrow> preserves P (Let v f)"
  by (simp_all split: option.split prod.split sum.split)

text \<open>The installed database, when there is one, is the one the attempt started with.\<close>

lemma in_budget_required:
  assumes "preserves (in_budget budget db n) (f db)"
  shows "preserves (in_budget budget db n) (bindP required_database f)"
  using assms
  by (auto simp: preserves_def required_database_def co_get_def prog_defs in_budget_def split: option.splits)

lemmas in_budget_simple = in_budget_co in_budget_count in_budget_log in_budget_dispatch
  preserves_return preserves_throw preserves_lift preserves_gets

lemma in_budget_finish:
  assumes "databases_account budget env db robot"
  shows "preserves (in_budget budget db n) (finish_call env db f sid tok x msg)"
    and "preserves (in_budget budget db n) (finish_unknown env claimed f msg)"
proof -
  have k: "keeps budget (db_finish db f sid tok x msg)" for f sid tok x msg
    using assms by (simp add: databases_account_def accounts_retries_def)
  show call: "preserves (in_budget budget db n) (finish_call env db f sid tok x msg)" for f sid tok x msg
    unfolding finish_call_def
    by (intro preserves_seq in_budget_simple in_budget_await [OF assms k])
  show "preserves (in_budget budget db n) (finish_unknown env claimed f msg)"
    unfolding finish_unknown_def
    by (intro preserves_cases in_budget_required preserves_seq in_budget_simple call)
qed

lemma in_budget_send:
  assumes "databases_account budget env db robot"
  shows "preserves (in_budget budget db n) (send_command env robot c a)"
proof -
  have "keeps budget (rb_request_command robot c a t)" for t
    using assms by (simp add: databases_account_def accounts_retries_def)
  then show ?thesis unfolding send_command_def
    by (intro preserves_seq in_budget_await [OF assms] preserves_modify) (simp add: in_budget_def)
qed

lemma in_budget_guard:
  "preserves (in_budget budget db n) (live_guard robot pointer plan)"
  "preserves (in_budget budget db n) (same_generation receipt pointer)"
  "preserves (in_budget budget db n) (co_get g)"
  "preserves (in_budget budget db n) (set_last_error e)"
  "preserves (in_budget budget db n) (record_failed r)"
  unfolding live_guard_def same_generation_def co_get_def set_last_error_def record_failed_def
  by (intro preserves_intros in_budget_count)+

lemma in_budget_corrections:
  assumes "databases_account budget env db robot"
  shows "preserves (in_budget budget db n) (send_corrections env robot plan pointer actions)"
  by (induction actions)
    (simp_all, (intro preserves_intros in_budget_guard in_budget_count in_budget_send [OF assms] | assumption)+)

lemma in_budget_attempt:
  assumes "databases_account budget env db robot"
  shows "preserves (in_budget budget db n) (execute_attempt env db robot claimed f plan pointer)"
proof -
  have w: "keeps budget (rb_wait_for_flow robot p after t g)" for p after t g
    using assms by (simp add: databases_account_def accounts_retries_def)
  note steps = in_budget_guard in_budget_simple in_budget_finish [OF assms] in_budget_send [OF assms]
    in_budget_corrections [OF assms] in_budget_await [OF assms w]
  have body: "preserves (in_budget budget db n) (attempt_body env db robot claimed f tok plan pointer)" for tok
    unfolding attempt_body_def send_continuation_def conclude_def
    by (intro preserves_intros steps)
  have handler: "preserves (in_budget budget db n) (attempt_handler env claimed f e)" for e
    unfolding attempt_handler_def finish_cancelled_def finish_after_error_def
    by (intro preserves_intros steps)
  show ?thesis unfolding execute_attempt_def
    by (intro preserves_intros steps body handler)
qed

section \<open>The loop ends\<close>

lemma claim_law:
  "databases_account budget env db robot \<Longrightarrow> db_claim db f sid lease w = (Inr row, w') \<Longrightarrow>
   parse_recovery_session row True = Inr r \<Longrightarrow> budget w' < budget w"
  unfolding databases_account_def accounts_retries_def by metis

lemma claim_uses_attempt:
  assumes acc: "databases_account budget env db robot" and s: "in_budget budget db n s"
    and run: "claim_attempt env db f sid s = (Inr (Some claimed), t)"
  shows "0 < n \<and> in_budget budget db (n - 1) t"
proof -
  let ?lease = "se_lease_seconds (en_settings env)"
  obtain r w where m: "db_claim db f sid ?lease (sy_world s) = (r, w)" by force
  obtain row where r: "r = Inr row"
    using run m by (cases r) (auto simp: claim_attempt_def logP_def awaitP_def prog_defs)
  obtain c where p: "parse_recovery_session row True = Inr c"
    using run m r
    by (cases "parse_recovery_session row True")
      (auto simp: claim_attempt_def logP_def awaitP_def countP_def on_co_def finish_call_def prog_defs
        split: option.splits if_splits prod.splits sum.splits)
  have less: "budget w < budget (sy_world s)"
    using claim_law [OF acc m [unfolded r] p] .
  have "sy_world t = w" "co_database (sy_coordinator t) = co_database (en_others env w (sy_coordinator s))"
    using run m r p by (auto simp: claim_attempt_def logP_def awaitP_def countP_def on_co_def prog_defs)
  with less s acc show ?thesis by (auto simp: in_budget_def databases_account_def)
qed

lemma in_budget_claim:
  assumes "databases_account budget env db robot"
  shows "preserves (in_budget budget db n) (claim_attempt env db f sid)"
proof -
  have "keeps budget (db_claim db f sid lease)" for lease
    using assms by (simp add: databases_account_def accounts_retries_def)
  then show ?thesis unfolding claim_attempt_def
    by (intro preserves_intros in_budget_simple in_budget_await [OF assms] in_budget_finish [OF assms])
qed

lemma in_budget_ready:
  assumes "databases_account budget env db robot"
  shows "preserves (in_budget budget db n) (claimed_plan_ready env robot claimed f plan pointer)"
  unfolding claimed_plan_ready_def
  by (intro preserves_intros in_budget_guard in_budget_finish [OF assms])

lemma attempt_once_uses_attempt:
  assumes acc: "databases_account budget env db robot" and s: "in_budget budget db n s"
    and run: "attempt_once env db robot obj sid plan pointer s = (Inr (Some p), t)"
  shows "0 < n \<and> in_budget budget db (n - 1) t"
proof -
  from run obtain f s0 s1 claimed where
    s0: "co_get (\<lambda>co. ar_current_failure_id (co_objects co obj)) s = (Inr f, s)"
      "live_guard robot pointer plan s = (Inr s0, s)" and
    claim: "claim_attempt env db f sid s = (Inr (Some claimed), s1)" and
    rest: "seqP (countP (\<lambda>es. es\<lparr> es_last_failure_id := Some f \<rparr>))
        (bindP (liftP (parse_recovery_plan (PTuple (map PDict (sr_pinned_actions claimed))))) (\<lambda>plan.
         bindP (claimed_plan_ready env robot claimed f plan pointer) (\<lambda>ready.
         if \<not> ready then returnP None
         else bindP (execute_attempt env db robot claimed f plan pointer) (\<lambda>outcome.
           bindP (getsP (view_of robot)) (\<lambda>view. liftP (next_pointer view claimed outcome)))))) s1
       = (Inr (Some p), t)"
    unfolding attempt_once_def returned_bind returned_seq [of "live_guard _ _ _"]
    by (auto simp: co_get_def live_guard_def returned split: option.splits)
  have used: "0 < n \<and> in_budget budget db (n - 1) s1"
    by (rule claim_uses_attempt [OF acc s claim])
  have "preserves (in_budget budget db (n - 1))
    (seqP (countP (\<lambda>es. es\<lparr> es_last_failure_id := Some f \<rparr>))
        (bindP (liftP (parse_recovery_plan (PTuple (map PDict (sr_pinned_actions claimed))))) (\<lambda>plan.
         bindP (claimed_plan_ready env robot claimed f plan pointer) (\<lambda>ready.
         if \<not> ready then returnP None
         else bindP (execute_attempt env db robot claimed f plan pointer) (\<lambda>outcome.
           bindP (getsP (view_of robot)) (\<lambda>view. liftP (next_pointer view claimed outcome)))))))"
    by (intro preserves_intros in_budget_count in_budget_ready [OF acc] in_budget_attempt [OF acc])
  from preservesD [OF this _ rest] used show ?thesis by blast
qed

lemma in_budget_once:
  assumes "databases_account budget env db robot"
  shows "preserves (in_budget budget db n) (attempt_once env db robot obj sid plan pointer)"
  unfolding attempt_once_def
  by (intro preserves_intros in_budget_guard in_budget_count in_budget_claim [OF assms]
      in_budget_ready [OF assms] in_budget_attempt [OF assms])

text \<open>Fuel beyond the attempts left is never used up.\<close>

lemma retry_loop_ends:
  assumes acc: "databases_account budget env db robot"
  shows "in_budget budget db n s \<Longrightarrow> n < fuel \<Longrightarrow>
    fst (retry_loop fuel env db robot obj sid plan pointer s) \<noteq> Inr OutOfFuel"
proof (induction fuel arbitrary: n s pointer)
  case (Suc fuel)
  show ?case
  proof
    assume out: "fst (retry_loop (Suc fuel) env db robot obj sid plan pointer s) = Inr OutOfFuel"
    then obtain t where "retry_loop (Suc fuel) env db robot obj sid plan pointer s = (Inr OutOfFuel, t)"
      by (metis prod.collapse)
    then obtain following s1 where
      once: "attempt_once env db robot obj sid plan pointer s = (Inr following, s1)" and
      cont: "(case following of None \<Rightarrow> returnP LoopReturned
        | Some p \<Rightarrow> retry_loop fuel env db robot obj sid plan p) s1 = (Inr OutOfFuel, t)"
      by (auto simp: returned co_get_def split: if_splits)
    then obtain p where p: "following = Some p"
      "retry_loop fuel env db robot obj sid plan p s1 = (Inr OutOfFuel, t)"
      by (auto simp: returned split: option.splits)
    from attempt_once_uses_attempt [OF acc Suc.prems(1) once [unfolded p]]
    have "0 < n" "in_budget budget db (n - 1) s1" by simp_all
    moreover from this Suc.prems(2) have "n - 1 < fuel" by linarith
    ultimately show False using Suc.IH [of "n - 1" s1 p] p(2) by simp
  qed
qed simp

section \<open>The reconciliation delay\<close>

lemma fle_total: "x \<noteq> FNaN \<Longrightarrow> y \<noteq> FNaN \<Longrightarrow> \<not> flt y x \<Longrightarrow> fle x y"
  by (cases x; cases y) (auto simp: flt_def)

lemma flt_trans_le: "fle x y \<Longrightarrow> flt y z \<Longrightarrow> flt x z"
  by (cases x; cases y; cases z) (auto simp: flt_def)

lemma flt_not_nan: "flt x y \<Longrightarrow> x \<noteq> FNaN \<and> y \<noteq> FNaN"
  by (cases x; cases y) (auto simp: flt_def)

lemma fround_not_nan: "fround x \<noteq> FNaN"
  by (simp add: fround_def)

lemma next_backoff_bounds:
  assumes "se_reconcile_interval se \<noteq> FNaN"
  shows "fle (se_reconcile_interval se) (next_backoff se b)"
    and "fle (next_backoff se b)
      (fmax (se_reconcile_interval se) (fround (of_int (se_lease_seconds se) / 2)))"
proof -
  let ?i = "se_reconcile_interval se" and ?l = "fround (of_int (se_lease_seconds se) / 2)"
  have x: "fmax ?i (fscale 2 b) \<noteq> FNaN \<and> fle ?i (fmax ?i (fscale 2 b))"
    using assms flt_not_nan [of ?i "fscale 2 b"] fle_total [of ?i ?i]
    by (auto simp: fmax_def flt_def)
  have y: "fmax ?i ?l \<noteq> FNaN \<and> fle ?i (fmax ?i ?l)"
    using assms fround_not_nan fle_total [of ?i ?i] by (auto simp: fmax_def flt_def)
  show "fle ?i (next_backoff se b)" using x y by (simp add: next_backoff_def fmin_def)
  show "fle (next_backoff se b) (fmax ?i ?l)"
    using x y fle_total [of "fmax ?i (fscale 2 b)" "fmax ?i ?l"] fle_total [of "fmax ?i ?l" "fmax ?i ?l"]
    by (auto simp: next_backoff_def fmin_def flt_def)
qed

lemma half_lease_below:
  assumes "5 \<le> n" "n \<le> 900" shows "flt (fround (of_int n / 2)) (FFin (of_int n))"
proof -
  have "fle (fround (of_int n / 2)) (fround (of_int (n - 1)))"
    using assms by (intro fround_mono_nonneg) simp_all
  moreover have "fround (of_int (n - 1)) = FFin (of_int (n - 1))"
    using assms by (intro fround_small_int) simp
  moreover have "flt (FFin (of_int (n - 1))) (FFin (of_int n))" by simp
  ultimately show ?thesis by (metis flt_trans_le)
qed

lemma backoff_below_lease:
  assumes "settings_post_init se0 = Inr se" and "se_reconcile_interval se \<noteq> FNaN"
  shows "flt (next_backoff se b) (FFin (of_int (se_lease_seconds se)))"
proof -
  let ?i = "se_reconcile_interval se" and ?n = "se_lease_seconds se"
  from assms(1) have n: "5 \<le> ?n" "?n \<le> 900" and i: "\<not> fle (FFin (of_int ?n)) ?i"
    by (auto simp: settings_post_init_eq)
  have "flt ?i (FFin (of_int ?n))"
    using i assms(2) fle_total [of ?i "FFin (of_int ?n)"] by (auto simp: flt_def)
  then have "flt (fmax ?i (fround (of_int ?n / 2))) (FFin (of_int ?n))"
    using half_lease_below [OF n] by (simp add: fmax_def)
  with next_backoff_bounds(2) [OF assms(2)] show ?thesis by (rule flt_trans_le)
qed

end
