(* ===== verification/Outcome_Watch.thy ===== *)
theory Outcome_Watch
  imports Recovery_Rows
begin

text \<open>
  The observation of a continuation: the outcome predicate of
  \<^verbatim>\<open>recovery_executor.py\<close> run by the Flow waiter of \<^verbatim>\<open>robot_session.py\<close>. The interface
  between them is \<open>flow_source\<close>: a wait returns the pointer of a frame it accepted, of its
  generation and later than the acknowledged revision.
\<close>

section \<open>Sources of Flow frames\<close>

text \<open>The robot is seen executing the Flow of the session.\<close>

definition executing :: "recovery_session \<Rightarrow> flow_pointer option \<Rightarrow> bool" where
  "executing r p \<longleftrightarrow> (\<exists>q. p = Some q \<and> same_flow q r \<and> flow_status q = ''in_progress'')"

text \<open>
  A source is asked for a frame that the predicate accepted, and, for a predicate whose
  state is set by \<open>starts\<close> frames only, for such a frame before it when the state was set.
\<close>

locale flow_source =
  fixes wait :: "flow_predicate \<Rightarrow> int \<Rightarrow> int \<Rightarrow> 'h \<Rightarrow> flow_pointer option result"
    and frames :: "'h \<Rightarrow> flow_frame set"
    and valid :: "'h \<Rightarrow> bool"
  assumes wait_accepts: "wait predicate after_revision generation h = Inr p \<Longrightarrow>
      (\<And>st q d. predicate st q = (d, True) \<Longrightarrow> st \<or> starts q) \<Longrightarrow>
      accepted_frame predicate starts generation (frames h) after_revision p"
    and frames_stamped: "valid h \<Longrightarrow> f \<in> frames h \<Longrightarrow>
      pointer_stamped (ff_revision f) (ff_generation f) (ff_pointer f)"
begin

text \<open>A stateless wait, as for the paused pointer: fresh, of the generation, accepted.\<close>

lemma stateless_wait:
  assumes "valid h" and "wait (\<lambda>st q. (accept q, st)) after_revision generation h = Inr p"
  shows "accept p" and "p = Some q \<Longrightarrow> fp_generation q = generation \<and> after_revision < fp_revision q"
proof -
  have "accepted_frame (\<lambda>st q. (accept q, st)) (\<lambda>_. False) generation (frames h) after_revision p"
    by (rule wait_accepts [OF assms(2)]) simp
  then obtain f where f: "f \<in> frames h" "ff_pointer f = p" "ff_generation f = generation"
    "after_revision < ff_revision f" "accept p"
    by (auto simp: accepted_frame_def)
  from f(5) show "accept p" .
  from frames_stamped [OF assms(1) f(1)] f(2-4)
  show "p = Some q \<Longrightarrow> fp_generation q = generation \<and> after_revision < fp_revision q"
    by (simp add: pointer_stamped_def)
qed

lemma outcome_wait:
  assumes "valid h" and "wait (execution_outcome_predicate r generation) after_revision generation h = Inr p"
  obtains f st where "f \<in> frames h" "ff_pointer f = p" "after_revision < ff_revision f"
    "\<And>q. p = Some q \<Longrightarrow> fp_generation q = generation \<and> fp_revision q = ff_revision f"
    "fst (execution_outcome_predicate r generation st p)"
    "st \<Longrightarrow> started_between (executing r) generation (frames h) after_revision (ff_revision f)"
proof -
  have "accepted_frame (execution_outcome_predicate r generation) (executing r) generation
      (frames h) after_revision p"
  proof (rule wait_accepts [OF assms(2)])
    show "st \<or> executing r q" if "execution_outcome_predicate r generation st q = (d, True)" for st q d
      using that predicate_starts by (cases st) (auto simp: executing_def)
  qed
  then obtain f st where f: "f \<in> frames h" "ff_pointer f = p" "ff_generation f = generation"
    "after_revision < ff_revision f" "fst (execution_outcome_predicate r generation st p)"
    "st \<longrightarrow> started_between (executing r) generation (frames h) after_revision (ff_revision f)"
    by (auto simp: accepted_frame_def)
  moreover from frames_stamped [OF assms(1) f(1)] f(2,3)
  have "\<And>q. p = Some q \<Longrightarrow> fp_generation q = generation \<and> fp_revision q = ff_revision f"
    by (simp add: pointer_stamped_def)
  ultimately show thesis using that by blast
qed

text \<open>
  An attempt is reported failed only after the robot was seen executing: between the
  acknowledgement and the pause that is called a recurrence lies a frame in progress.
\<close>

lemma failed_after_execution:
  assumes "valid h" and "wait (execution_outcome_predicate r generation) after_revision generation h = Inr p"
    and "classify_flow_outcome p r = ''failed''"
  shows "\<exists>q. p = Some q \<and> pointer_matches_session q r \<and>
    started_between (executing r) generation (frames h) after_revision (fp_revision q)"
proof -
  from assms(3) obtain q where q: "p = Some q" "pointer_matches_session q r"
    by (auto simp: classify_failed_iff)
  obtain f st where "f \<in> frames h" "ff_pointer f = p" and fresh: "after_revision < ff_revision f"
    and stamp: "\<And>q. p = Some q \<Longrightarrow> fp_generation q = generation \<and> fp_revision q = ff_revision f"
    and st: "fst (execution_outcome_predicate r generation st p)"
      "st \<Longrightarrow> started_between (executing r) generation (frames h) after_revision (ff_revision f)"
    using outcome_wait [OF assms(1,2)] by metis
  have "st" using st(1) stamp [OF q(1)] assms(3) q(1) recurrence_is_decisive [of r generation st q]
    by (metis prod.collapse)
  with st(2) stamp [OF q(1)] q show ?thesis by simp
qed

lemma recovered_is_fresh:
  assumes "valid h" and "wait (execution_outcome_predicate r generation) after_revision generation h = Inr p"
    and "classify_flow_outcome p r = ''recovered''"
  shows "\<exists>q. p = Some q \<and> fp_generation q = generation \<and> after_revision < fp_revision q \<and> same_flow q r"
proof -
  from assms(3) obtain q where q: "p = Some q" "same_flow q r" by (auto simp: classify_recovered_iff)
  obtain f st where "f \<in> frames h" "ff_pointer f = p" and fresh: "after_revision < ff_revision f"
    and stamp: "\<And>q. p = Some q \<Longrightarrow> fp_generation q = generation \<and> fp_revision q = ff_revision f"
    and st: "fst (execution_outcome_predicate r generation st p)"
      "st \<Longrightarrow> started_between (executing r) generation (frames h) after_revision (ff_revision f)"
    using outcome_wait [OF assms(1,2)] by metis
  from fresh stamp [OF q(1)] q show ?thesis by auto
qed

end

section \<open>The robot session as a source\<close>

text \<open>The states in which a waiter of a session is notified, and the frames they hold.\<close>

definition session_frames :: "robot_session list \<Rightarrow> flow_frame set" where
  "session_frames ss = (\<Union>s \<in> set ss. set (rs_flow_history s))"

definition session_wait ::
  "flow_predicate \<Rightarrow> int \<Rightarrow> int \<Rightarrow> robot_session list \<Rightarrow> flow_pointer option result" where
  "session_wait predicate after_revision generation ss =
     wait_for_flow predicate generation (new_waiter False after_revision) ss"

interpretation session_source: flow_source session_wait session_frames "list_all session_inv"
proof unfold_locales
  fix predicate starts after_revision generation ss p
  assume "session_wait predicate after_revision generation ss = Inr p"
    and "\<And>st q d. predicate st q = (d, True) \<Longrightarrow> st \<or> starts q"
  then show "accepted_frame predicate starts generation (session_frames ss) after_revision p"
    unfolding session_wait_def
    by (intro wait_for_flow_accepts [OF _ _ _ new_waiter_inv]) (auto simp: session_frames_def)
next
  fix ss f
  assume "list_all session_inv ss" "f \<in> session_frames ss"
  then show "pointer_stamped (ff_revision f) (ff_generation f) (ff_pointer f)"
    by (auto simp: session_frames_def list_all_iff session_inv_def history_inv_def)
qed

end
