(* ===== verification/Recovery_Demo.thy ===== *)
theory Recovery_Demo
  imports Executor_Trace Recovery_Queue Retry_Bound Outcome_Watch
begin

text \<open>
  A concrete robot, Flow, pinned plan and control plane, on which the definitions of the
  development are evaluated: the instances behind the witnesses of the properties. The
  robot pauses at step 1 of a Flow of three; the plan opens the gripper and resumes.
\<close>

section \<open>The Flow and the plan\<close>

definition demo_action :: "int \<Rightarrow> string \<Rightarrow> pyval" where
  "demo_action i c = PDict [(''action_index'', PInt i), (''command'', PStr c)]"

definition demo_flow :: "string \<Rightarrow> int \<Rightarrow> pydict" where
  "demo_flow status current =
     [(''id'', PStr ''f1''), (''status'', PStr status), (''current_action_index'', PInt current),
      (''areas'', PList [PDict [(''name'', PStr ''A''), (''items'', PList [PDict
         [(''name'', PStr ''I''), (''actions'', PList
            [demo_action 0 ''look'', demo_action 1 ''grasp'', demo_action 2 ''place''])]])]])]"

definition demo_pointer :: flow_pointer where
  "demo_pointer = the (parse_flow_pointer (PDict (demo_flow ''paused'' 1)) 1 1)"

definition demo_step :: pyval where
  "demo_step = PDict [(''actionIndex'', PInt 1), (''command'', PStr ''grasp''),
     (''areaName'', PStr ''A''), (''itemName'', PStr ''I'')]"

definition demo_resume :: pydict where
  "demo_resume = [(''mode'', PStr ''retry_current''), (''rewind_steps'', PInt 0),
     (''current_action_index'', PInt 1), (''current_command'', PStr ''grasp''),
     (''flow_id'', PStr ''f1'')]"

definition demo_actions :: "pydict list" where
  "demo_actions =
     [[(''command'', PStr ''open''), (''arguments'', PDict [])],
      [(''command'', PStr ''$resume_flow''), (''arguments'', PDict demo_resume),
       (''continuation_context'', PDict [(''expected_arguments'', PDict demo_resume),
          (''current_action'', demo_step), (''target_action'', demo_step)])]]"

definition demo_plan :: recovery_plan where
  "demo_plan = (case parse_recovery_plan (PTuple (map PDict demo_actions)) of Inr p \<Rightarrow> p)"

section \<open>The control plane\<close>

definition demo_uuid :: string where
  "demo_uuid = ''00000000-0000-4000-8000-000000000001''"

definition demo_hash :: string where
  "demo_hash = replicate 64 (CHR ''a'')"

definition demo_row :: "string \<Rightarrow> int \<Rightarrow> pyval \<Rightarrow> pydict" where
  "demo_row status attempts token =
     [(''recovery_status'', PStr status), (''pinned_actions'', PList (map PDict demo_actions)),
      (''recovery_attempts'', PInt attempts), (''recovery_max_attempts'', PInt 2),
      (''recovery_rewind_steps'', PInt 0), (''recovery_run_token'', token),
      (''pinned_actions_hash'', PStr demo_hash), (''pinned_memory_id'', PStr ''m''),
      (''pinned_resolver_suggestion'', PDict [(''memory_id'', PStr ''m''),
         (''actions'', PList (map PDict demo_actions))]),
      (''root_episode_key'', PStr demo_hash), (''sysid'', PStr ''R1''),
      (''recovery_session_id'', PStr demo_uuid), (''root_failure_id'', PStr demo_uuid),
      (''current_failure_id'', PStr demo_uuid), (''flow_id'', PStr ''f1''),
      (''action_index'', PInt 1), (''action_command'', PStr ''grasp'')]"

definition demo_failure :: pydict where
  "demo_failure =
     [(''failure_id'', PStr demo_uuid), (''sysid'', PStr ''r1''), (''flow_id'', PStr ''f1''),
      (''action_index'', PInt 1), (''action_command'', PStr ''grasp''),
      (''recovery_episode_key'', PStr demo_hash), (''analysis_status'', PStr ''completed''),
      (''matcher_status'', PStr ''solution_found''),
      (''resolver_suggestion'', PDict [(''memory_id'', PStr ''m''),
         (''actions'', PList (map PDict demo_actions))])]"

text \<open>The world counts the attempts left.\<close>

definition demo_database :: "nat database" where
  "demo_database = \<lparr>
     db_fetch_failure = (\<lambda>f. returnP (Some demo_failure)),
     db_prepare = (\<lambda>f sid m r. returnP (demo_row ''ready'' 0 PNone)),
     db_attach = (\<lambda>f sid. returnP []),
     db_project = (\<lambda>sid. returnP (demo_row ''ready'' 0 PNone)),
     db_claim = (\<lambda>f sid lease left. if left = 0 then (Inl (OtherErr ''budget''), 0)
       else (Inr (demo_row ''running'' 1 (PStr demo_uuid)), left - 1)),
     db_finish = (\<lambda>f sid tok x msg. returnP (demo_row x 1 (PStr demo_uuid))),
     db_expired_attempts = (\<lambda>n. returnP []),
     db_expire = (\<lambda>f sid tok msg. returnP []),
     db_cold_candidates = (\<lambda>ids n. returnP []),
     db_mark_non_executable = (\<lambda>f msg. returnP ()) \<rparr>"

section \<open>The robot\<close>

definition demo_commands :: pydict where
  "demo_commands = [(''open'', PDict [(''name'', PStr ''open''), (''inputs'', PList [])])]"

definition demo_session :: robot_session where
  "demo_session = receive_commands demo_commands
     (receive_flow (PDict (demo_flow ''paused'' 1)) (activate_connection 1 new_session))"

definition demo_ack :: pyval where
  "demo_ack = PDict [(''accepted'', PBool True), (''mode'', PStr ''retry_current''),
     (''rewind_steps'', PInt 0), (''previous_action_index'', PInt 1),
     (''target_action_index'', PInt 1), (''current_command'', PStr ''grasp''),
     (''flow_id'', PStr ''f1'')]"

definition demo_robot :: "nat robot" where
  "demo_robot = \<lparr>
     rb_view = (\<lambda>_. demo_session),
     rb_wait_connected = (\<lambda>t. returnP ()),
     rb_wait_for_commands = (\<lambda>g t. returnP \<lparr> cf_revision = 1, cf_generation = 1, cf_commands = demo_commands \<rparr>),
     rb_request_command = (\<lambda>c a t. returnP \<lparr> cr_result = demo_ack, cr_generation = 1, cr_flow_revision = 1 \<rparr>),
     rb_wait_for_flow = (\<lambda>p after t g. returnP
       (parse_flow_pointer (PDict (demo_flow ''in_progress'' 2)) 2 1)) \<rparr>"

definition demo_settings :: recovery_settings where
  "demo_settings = default_settings\<lparr> se_enabled := True, se_robot_allowlist := [''R1''],
     se_cf_access_client_id := ''id'', se_cf_access_client_secret := ''secret'',
     se_start_grace := FFin 0 \<rparr>"

definition demo_env :: "nat env" where
  "demo_env = \<lparr> en_settings = demo_settings, en_sessions = [(''R1'', demo_robot)],
     en_new_uuid = returnP demo_uuid, en_wait_stop = (\<lambda>t. throwP TimeoutErr),
     en_lock = (\<lambda>k. returnP ()), en_unlock = (\<lambda>k w. w), en_others = (\<lambda>w co. co),
     en_error_text = (\<lambda>e. []) \<rparr>"

definition demo_start :: "nat sys" where
  "demo_start = \<lparr> sy_world = 2, sy_coordinator = new_coordinator (Some demo_database),
     sy_trace = [], sy_dispatched = False \<rparr>"

definition demo_claimed :: recovery_session where
  "demo_claimed = (case parse_recovery_session (demo_row ''running'' 1 (PStr demo_uuid)) True of Inr r \<Rightarrow> r)"

section \<open>Evaluation\<close>

definition returns :: "'a result \<Rightarrow> bool" where
  "returns r = (case r of Inr _ \<Rightarrow> True | Inl _ \<Rightarrow> False)"

lemma returns_iff [simp]: "returns r \<longleftrightarrow> (\<exists>a. r = Inr a)"
  by (auto simp: returns_def split: sum.splits)

lemma demo_plan_parsed: "parse_recovery_plan (PTuple (map PDict demo_actions)) = Inr demo_plan"
proof -
  have "returns (parse_recovery_plan (PTuple (map PDict demo_actions)))" by code_simp
  then show ?thesis by (auto simp: demo_plan_def)
qed

lemma demo_pointer_parsed: "parse_flow_pointer (PDict (demo_flow ''paused'' 1)) 1 1 = Some demo_pointer"
proof -
  have "parse_flow_pointer (PDict (demo_flow ''paused'' 1)) 1 1 \<noteq> None" by code_simp
  then show ?thesis by (auto simp: demo_pointer_def)
qed

lemma demo_claimed_parsed:
  "parse_recovery_session (demo_row ''running'' 1 (PStr demo_uuid)) True = Inr demo_claimed"
proof -
  have "returns (parse_recovery_session (demo_row ''running'' 1 (PStr demo_uuid)) True)" by code_simp
  then show ?thesis by (auto simp: demo_claimed_def)
qed

lemma demo_claimed_fields:
  "sr_recovery_run_token demo_claimed = Some demo_uuid"
  "sr_action_index demo_claimed = 1" "sr_flow_id demo_claimed = ''f1''"
  "sr_action_command demo_claimed = ''grasp''"
proof -
  have "holds_of (demo_claimed) (\<lambda>c.
      sr_recovery_run_token c = Some demo_uuid \<and>
      sr_action_index c = 1 \<and>
      sr_flow_id c = ''f1'' \<and>
      sr_action_command c = ''grasp'')"
    by code_simp
  then show "sr_recovery_run_token demo_claimed = Some demo_uuid"
     "sr_action_index demo_claimed = 1"
     "sr_flow_id demo_claimed = ''f1''"
     "sr_action_command demo_claimed = ''grasp''"
    by (simp_all add: holds_of_def)
qed

lemma demo_plan_fields:
  "rp_corrections demo_plan = [\<lparr> ra_command = ''open'', ra_arguments = [],
     ra_arguments_effective = None, ra_explicit_arguments = None \<rparr>]"
  "rp_rewind_steps demo_plan = 0" "rp_resume_mode demo_plan = ''retry_current''"
  "rp_terminal_command demo_plan = ''$resume_flow''"
proof -
  have "holds_of (demo_plan) (\<lambda>p.
      rp_corrections p = [\<lparr> ra_command = ''open'', ra_arguments = [],
     ra_arguments_effective = None, ra_explicit_arguments = None \<rparr>] \<and>
      rp_rewind_steps p = 0 \<and>
      rp_resume_mode p = ''retry_current'' \<and>
      rp_terminal_command p = ''$resume_flow'')"
    by code_simp
  then show "rp_corrections demo_plan = [\<lparr> ra_command = ''open'', ra_arguments = [],
     ra_arguments_effective = None, ra_explicit_arguments = None \<rparr>]"
     "rp_rewind_steps demo_plan = 0"
     "rp_resume_mode demo_plan = ''retry_current''"
     "rp_terminal_command demo_plan = ''$resume_flow''"
    by (simp_all add: holds_of_def)
qed

lemma demo_pointer_fields:
  "fp_generation demo_pointer = 1" "fp_revision demo_pointer = 1" "\<not> fp_completed demo_pointer"
  "fp_action_index demo_pointer = Some 1" "fp_action_command demo_pointer = Some ''grasp''"
  "fp_flow_id demo_pointer = ''f1''"
proof -
  have "holds_of (demo_pointer) (\<lambda>p.
      fp_generation p = 1 \<and>
      fp_revision p = 1 \<and>
      \<not> fp_completed p \<and>
      fp_action_index p = Some 1 \<and>
      fp_action_command p = Some ''grasp'' \<and>
      fp_flow_id p = ''f1'')"
    by code_simp
  then show "fp_generation demo_pointer = 1"
     "fp_revision demo_pointer = 1"
     "\<not> fp_completed demo_pointer"
     "fp_action_index demo_pointer = Some 1"
     "fp_action_command demo_pointer = Some ''grasp''"
     "fp_flow_id demo_pointer = ''f1''"
    by (simp_all add: holds_of_def)
qed

lemma demo_guard: "returns (require_live_execution_state demo_session demo_pointer demo_plan)"
  by code_simp

lemma demo_resume_arguments: "resume_arguments_for_plan demo_plan demo_pointer = Inr demo_resume"
  by code_simp

lemma demo_acknowledged:
  "validate_resume_acknowledgement demo_ack demo_pointer 0 (Some ''retry_current'') = Inr ()"
  by code_simp

lemma demo_outcome:
  "classify_flow_outcome (parse_flow_pointer (PDict (demo_flow ''in_progress'' 2)) 2 1) demo_claimed
     = ''recovered''"
  by code_simp

lemma demo_recovered_row: "returns (parse_recovery_session (demo_row ''recovered'' 1 (PStr demo_uuid)) False)"
  by code_simp

text \<open>A healthy attempt sends both commands and recovers, from any state.\<close>

definition demo_sent :: "event list" where
  "demo_sent = [EvRequest ''open'' [] demo_session, EvRequest ''$resume_flow'' demo_resume demo_session,
     finish_event demo_claimed demo_uuid ''awaiting_outcome'',
     finish_event demo_claimed demo_uuid ''recovered'']"

lemma demo_attempt:
  "\<exists>rec t. execute_attempt demo_env demo_database demo_robot demo_claimed demo_uuid demo_plan
      demo_pointer s = (Inr (''recovered'', RecordPayload rec), t) \<and> sy_trace t = sy_trace s @ demo_sent"
proof -
  obtain frame where g: "require_live_execution_state demo_session demo_pointer demo_plan = Inr frame"
    using demo_guard by auto
  obtain rec where r: "parse_recovery_session (demo_row ''recovered'' 1 (PStr demo_uuid)) False = Inr rec"
    using demo_recovered_row by auto
  show ?thesis
    by (simp add: execute_attempt_def attempt_body_def send_continuation_def send_command_def live_guard_def
        same_generation_def finish_call_def conclude_def awaitP_def logP_def countP_def on_co_def view_of_def
        prog_defs demo_claimed_fields demo_plan_fields demo_pointer_fields demo_resume_arguments
        demo_acknowledged demo_outcome g r demo_robot_def demo_database_def demo_env_def
        finish_event_def demo_sent_def Let_def)
qed

section \<open>A whole run\<close>

definition demo_target :: failure_recovery_target where
  "demo_target = (case parse_failure_recovery_target demo_failure of Inr t \<Rightarrow> t)"

definition demo_pointer_target :: failure_pointer_target where
  "demo_pointer_target = (case parse_failure_pointer_target demo_failure of Inr t \<Rightarrow> t)"

definition demo_prepared :: recovery_session where
  "demo_prepared = (case parse_recovery_session (demo_row ''ready'' 0 PNone) False of Inr r \<Rightarrow> r)"

lemma demo_rows:
  "parse_failure_recovery_target demo_failure = Inr demo_target"
  "parse_failure_pointer_target demo_failure = Inr demo_pointer_target"
  "parse_recovery_session (demo_row ''ready'' 0 PNone) False = Inr demo_prepared"
proof -
  have "returns (parse_failure_recovery_target demo_failure)"
    "returns (parse_failure_pointer_target demo_failure)"
    "returns (parse_recovery_session (demo_row ''ready'' 0 PNone) False)" by code_simp+
  then show "parse_failure_recovery_target demo_failure = Inr demo_target"
    "parse_failure_pointer_target demo_failure = Inr demo_pointer_target"
    "parse_recovery_session (demo_row ''ready'' 0 PNone) False = Inr demo_prepared"
    by (auto simp: demo_target_def demo_pointer_target_def demo_prepared_def)
qed

lemma demo_row_fields:
  "ft_sysid demo_pointer_target = ''R1''" "ft_sysid demo_target = ''R1''"
  "ft_failure_id demo_target = demo_uuid" "ft_recovery_session_id demo_target = None"
  "ft_recovery_status demo_target = None" "sr_recovery_status demo_prepared = ''ready''"
  "sr_recovery_session_id demo_prepared = demo_uuid"
  "session_pointer_key demo_prepared = target_pointer_key demo_target"
  "sr_recovery_rewind_steps demo_claimed = 0"
  "text_is (dget demo_failure ''analysis_status'') ''completed''"
  "text_is (dget demo_failure ''matcher_status'') ''solution_found''"
  "pointer_matches_target (Some demo_pointer) demo_target"
proof -
  have "holds_of (demo_target, demo_pointer_target, demo_prepared, demo_claimed, demo_pointer) (\<lambda>(t, u, r, c, p).
      ft_sysid u = ''R1'' \<and>
      ft_sysid t = ''R1'' \<and>
      ft_failure_id t = demo_uuid \<and>
      ft_recovery_session_id t = None \<and>
      ft_recovery_status t = None \<and>
      sr_recovery_status r = ''ready'' \<and>
      sr_recovery_session_id r = demo_uuid \<and>
      session_pointer_key r = target_pointer_key t \<and>
      sr_recovery_rewind_steps c = 0 \<and>
      text_is (dget demo_failure ''analysis_status'') ''completed'' \<and>
      text_is (dget demo_failure ''matcher_status'') ''solution_found'' \<and>
      pointer_matches_target (Some p) t)"
    by code_simp
  then show "ft_sysid demo_pointer_target = ''R1''"
     "ft_sysid demo_target = ''R1''"
     "ft_failure_id demo_target = demo_uuid"
     "ft_recovery_session_id demo_target = None"
     "ft_recovery_status demo_target = None"
     "sr_recovery_status demo_prepared = ''ready''"
     "sr_recovery_session_id demo_prepared = demo_uuid"
     "session_pointer_key demo_prepared = target_pointer_key demo_target"
     "sr_recovery_rewind_steps demo_claimed = 0"
     "text_is (dget demo_failure ''analysis_status'') ''completed''"
     "text_is (dget demo_failure ''matcher_status'') ''solution_found''"
     "pointer_matches_target (Some demo_pointer) demo_target"
    by (simp_all add: holds_of_def)
qed

lemma demo_pinned:
  "sr_pinned_actions demo_claimed = demo_actions" "sr_pinned_actions demo_prepared = demo_actions"
  using parse_recovery_session_wf(3) [OF demo_claimed_parsed] parse_recovery_session_wf(3) [OF demo_rows(3)]
  by (simp_all add: demo_row_def inj_map_eq_map inj_def)

lemma demo_place:
  "ft_action_index demo_target = 1" "ft_action_command demo_target = ''grasp''"
  "sr_action_index demo_prepared = 1" "sr_action_command demo_prepared = ''grasp''"
  "sr_recovery_rewind_steps demo_prepared = 0"
  "expected_step demo_plan = (Some 1, Some ''grasp'')"
  "validate_plan_for_flow demo_plan demo_pointer = Inr ()"
  "dget (ft_resolver_suggestion demo_target) ''actions'' = PList (map PDict demo_actions)"
proof -
  have "holds_of (demo_target, demo_prepared, demo_plan, demo_pointer) (\<lambda>(t, r, p, q).
      ft_action_index t = 1 \<and>
      ft_action_command t = ''grasp'' \<and>
      sr_action_index r = 1 \<and>
      sr_action_command r = ''grasp'' \<and>
      sr_recovery_rewind_steps r = 0 \<and>
      expected_step p = (Some 1, Some ''grasp'') \<and>
      validate_plan_for_flow p q = Inr () \<and>
      dget (ft_resolver_suggestion t) ''actions'' = PList (map PDict demo_actions))"
    by code_simp
  then show "ft_action_index demo_target = 1"
     "ft_action_command demo_target = ''grasp''"
     "sr_action_index demo_prepared = 1"
     "sr_action_command demo_prepared = ''grasp''"
     "sr_recovery_rewind_steps demo_prepared = 0"
     "expected_step demo_plan = (Some 1, Some ''grasp'')"
     "validate_plan_for_flow demo_plan demo_pointer = Inr ()"
     "dget (ft_resolver_suggestion demo_target) ''actions'' = PList (map PDict demo_actions)"
    by (simp_all add: holds_of_def)
qed

lemma demo_plan_places:
  "validate_plan_for_session demo_plan demo_claimed = Inr ()"
  "validate_plan_for_session demo_plan demo_prepared = Inr ()"
  "validate_plan_for_target demo_plan demo_target = Inr ()"
  by (simp_all add: session_place.validate_plan_iff target_place.validate_plan_iff demo_place demo_claimed_fields)

lemma demo_plan_parsed_list: "parse_recovery_plan (PList (map PDict demo_actions)) = Inr demo_plan"
  using demo_plan_parsed by (simp add: parse_recovery_plan_def plan_items_def)

lemma demo_plans:
  "row_plan_of demo_target demo_pointer = Inr demo_plan"
  "pinned_plan_of demo_prepared demo_pointer = Inr demo_plan"
  "parse_recovery_plan (PTuple (map PDict (sr_pinned_actions demo_claimed))) = Inr demo_plan"
  by (simp_all add: row_plan_of_def pinned_plan_of_def as_non_executable_def demo_pinned demo_plan_places
      demo_place demo_plan_parsed demo_plan_parsed_list demo_resume_arguments demo_plan_fields)

lemma demo_session_fields:
  "rs_latest_flow demo_session = Some demo_pointer" "rs_generation demo_session = 1"
  by (simp_all add: demo_session_def receive_commands_def receive_flow_def activate_connection_def
      new_session_def Let_def demo_pointer_parsed)

lemma demo_lease: "lease_covers demo_settings 2 = Inr ()"
proof -
  have "fround 30 = FFin 30" "fround 90 = FFin 90" "fround 95 = FFin 95"
    using fround_small_int [of 30] fround_small_int [of 90] fround_small_int [of 95] by simp_all
  then show ?thesis
    by (simp add: lease_covers_def required_lease_seconds_def demo_settings_def default_settings_def)
qed

lemma demo_attempt_once:
  assumes "sy_world s = Suc n" "ar_current_failure_id (co_objects (sy_coordinator s) obj) = demo_uuid"
  shows "\<exists>t. attempt_once demo_env demo_database demo_robot obj demo_uuid demo_plan demo_pointer s
      = (Inr None, t) \<and> sy_trace t = sy_trace s @ EvClaim demo_uuid demo_uuid # demo_sent"
proof -
  obtain frame where g: "require_live_execution_state demo_session demo_pointer demo_plan = Inr frame"
    using demo_guard by auto
  have v: "view_of demo_robot s' = demo_session" for s' by (simp add: view_of_def demo_robot_def)
  have claim: "\<exists>s1. claim_attempt demo_env demo_database demo_uuid demo_uuid s = (Inr (Some demo_claimed), s1) \<and>
      sy_trace s1 = sy_trace s @ [EvClaim demo_uuid demo_uuid]"
    using assms(1) by (simp add: claim_attempt_def logP_def awaitP_def countP_def on_co_def prog_defs
        demo_database_def demo_claimed_parsed demo_env_def)
  then obtain s1 where s1: "claim_attempt demo_env demo_database demo_uuid demo_uuid s = (Inr (Some demo_claimed), s1)"
    "sy_trace s1 = sy_trace s @ [EvClaim demo_uuid demo_uuid]" by blast
  have ready: "claimed_plan_ready demo_env demo_robot demo_claimed demo_uuid demo_plan demo_pointer s' = (Inr True, s')"
    for s' by (simp add: claimed_plan_ready_def prog_defs demo_plan_fields demo_row_fields demo_plan_places
        demo_place live_guard_def v g)
  let ?s1 = "s1\<lparr> sy_coordinator := (sy_coordinator s1)\<lparr> co_state := (co_state (sy_coordinator s1))
    \<lparr> es_last_failure_id := Some demo_uuid \<rparr> \<rparr> \<rparr>"
  obtain rec t where t: "execute_attempt demo_env demo_database demo_robot demo_claimed demo_uuid demo_plan
      demo_pointer ?s1 = (Inr (''recovered'', RecordPayload rec), t)" "sy_trace t = sy_trace ?s1 @ demo_sent"
    using demo_attempt by blast
  show ?thesis
    using t s1(2)
    by (simp add: attempt_once_def co_get_def prog_defs assms(2) live_guard_def v g s1(1) countP_def on_co_def
        demo_plans ready next_pointer_def)
qed

lemma demo_execute_target:
  assumes "sy_world s = Suc n" "co_database (sy_coordinator s) = Some demo_database" "\<not> co_stopped (sy_coordinator s)"
  shows "\<exists>t. execute_target (Suc fuel) demo_env demo_target s = (Inr LoopReturned, t) \<and>
     sy_trace t = sy_trace s @ [EvPrepare demo_uuid demo_uuid 3 0, EvClaim demo_uuid demo_uuid] @ demo_sent"
proof -
  obtain frame where g: "require_live_execution_state demo_session demo_pointer demo_plan = Inr frame"
    using demo_guard by auto
  have v: "view_of demo_robot s' = demo_session" for s' by (simp add: view_of_def demo_robot_def)
  have fresh: "fresh_paused_pointer demo_env demo_robot demo_target s = (Inr demo_pointer, s)" for s
    by (cases s) (simp add: fresh_paused_pointer_def prog_defs awaitP_def v demo_session_fields demo_pointer_fields
      demo_row_fields, simp add: demo_robot_def demo_env_def prog_defs)
  have waits: "awaitP demo_env (rb_wait_for_commands demo_robot g' tm) s = (Inr \<lparr> cf_revision = 1, cf_generation = 1, cf_commands = demo_commands \<rparr>, s)" for g' tm s
    by (cases s) (simp add: awaitP_def demo_robot_def demo_env_def prog_defs)
  have prep: "\<exists>t. prepare_session demo_env demo_database demo_robot demo_target demo_pointer s = (Inr (demo_uuid, demo_prepared), t) \<and>
      sy_trace t = sy_trace s @ [EvPrepare demo_uuid demo_uuid 3 0] \<and> sy_world t = sy_world s \<and> co_database (sy_coordinator t) = co_database (sy_coordinator s)
     \<and> co_stopped (sy_coordinator t) = co_stopped (sy_coordinator s)" for s
    by (simp add: prepare_session_def demo_row_fields demo_plans live_guard_def v g prog_defs
      logP_def awaitP_def countP_def on_co_def demo_rows demo_plan_fields bump_prepared_def, simp add: demo_database_def
       demo_env_def prog_defs demo_rows demo_row_fields demo_settings_def default_settings_def demo_plan_fields)
  have checked: "\<exists>t. check_prepared demo_env demo_robot demo_target demo_pointer demo_uuid demo_prepared s = (Inr (Some demo_plan), t) \<and>
      sy_trace t = sy_trace s \<and> sy_world t = sy_world s \<and> co_database (sy_coordinator t) = co_database (sy_coordinator s)
     \<and> co_stopped (sy_coordinator t) = co_stopped (sy_coordinator s)" for s
    using demo_lease
    by (simp add: check_prepared_def note_session_def demo_row_fields startable_status_def terminal_session_statuses_def
       demo_plans live_guard_def v g demo_plan_fields prog_defs countP_def on_co_def demo_env_def numeral_2_eq_2)
  have grace: "start_grace demo_env demo_database sid s = (Inr True, s)" for sid s
    by (simp add: start_grace_def demo_env_def demo_settings_def prog_defs flt_def feq_def)
  obtain s1 where s1: "prepare_session demo_env demo_database demo_robot demo_target demo_pointer s = (Inr (demo_uuid, demo_prepared), s1)"
    "sy_trace s1 = sy_trace s @ [EvPrepare demo_uuid demo_uuid 3 0]" "sy_world s1 = sy_world s"
    "co_database (sy_coordinator s1) = co_database (sy_coordinator s)" "co_stopped (sy_coordinator s1) = co_stopped (sy_coordinator s)"
    using prep [of s] by blast
  obtain s2 where s2: "check_prepared demo_env demo_robot demo_target demo_pointer demo_uuid demo_prepared s1 = (Inr (Some demo_plan), s2)"
    "sy_trace s2 = sy_trace s1" "sy_world s2 = sy_world s1"
    "co_database (sy_coordinator s2) = co_database (sy_coordinator s1)" "co_stopped (sy_coordinator s2) = co_stopped (sy_coordinator s1)"
    using checked [of s1] by blast
  let ?obj = "co_next_object (sy_coordinator s2)"
  let ?s3 = "s2\<lparr> sy_coordinator := activate_recovery (target_pointer_key demo_target) demo_uuid demo_uuid (sy_coordinator s2) \<rparr>"
  obtain t where t: "attempt_once demo_env demo_database demo_robot ?obj demo_uuid demo_plan demo_pointer ?s3 = (Inr None, t)"
    "sy_trace t = sy_trace ?s3 @ EvClaim demo_uuid demo_uuid # demo_sent"
    using demo_attempt_once [of ?s3 n ?obj] assms s1 s2 by (auto simp: activate_recovery_def)
  have sess: "map_of (en_sessions demo_env) ''R1'' = Some demo_robot"
    by (simp add: demo_env_def)
  have stop: "co_stopped (sy_coordinator ?s3) = co_stopped (sy_coordinator s)"
    by (simp add: activate_recovery_def s1 s2)
  then have stop: "co_stopped (activate_recovery (target_pointer_key demo_target) demo_uuid demo_uuid
      (sy_coordinator s2)) = co_stopped (sy_coordinator s)" by simp
  show ?thesis
    using t assms
    by (simp add: execute_target_def required_database_def co_get_def prog_defs sess fresh waits s1 s2 grace run_session_def
      on_co_def demo_row_fields stop)
qed

lemma demo_process_failure:
  "\<exists>t. process_failure (Suc fuel) demo_env demo_uuid demo_start = (Inr LoopReturned, t) \<and>
     sy_trace t = [EvFetch demo_uuid, EvFetch demo_uuid, EvPrepare demo_uuid demo_uuid 3 0,
       EvClaim demo_uuid demo_uuid] @ demo_sent"
proof -
  let ?s = "demo_start\<lparr> sy_trace := [EvFetch demo_uuid, EvFetch demo_uuid] \<rparr>"
  obtain t where t: "execute_target (Suc fuel) demo_env demo_target ?s = (Inr LoopReturned, t)"
    "sy_trace t = sy_trace ?s @ [EvPrepare demo_uuid demo_uuid 3 0, EvClaim demo_uuid demo_uuid] @ demo_sent"
    using demo_execute_target [of ?s 1 fuel] by (auto simp: demo_start_def new_coordinator_def)
  have open1: "target_open demo_target" by (simp add: target_open_def demo_row_fields)
  have call: "fetch_call demo_env demo_database f s' = (Inr (Some demo_failure), s'\<lparr> sy_trace := sy_trace s' @ [EvFetch f] \<rparr>)"
    for f s' by (cases s') (simp add: fetch_call_def logP_def awaitP_def prog_defs demo_database_def demo_env_def)
  have none: "attach_active_recurrence demo_env demo_database tgt s' = (Inr False, s')"
    if "co_active (sy_coordinator s') = (\<lambda>_. None)" for tgt :: "'x failure_pointer_target_scheme" and s'
    using that by (simp add: attach_active_recurrence_def co_get_def prog_defs)
  have fields: "se_enabled (en_settings demo_env)" "''R1'' \<in> set (se_robot_allowlist (en_settings demo_env))"
    "en_lock demo_env k = returnP ()" "en_unlock demo_env k w = w" "en_others demo_env w c = c" for k w c
    by (simp_all add: demo_env_def demo_settings_def)
  show ?thesis
    using t
    by (simp add: process_failure_def fields required_database_def co_get_def prog_defs call none demo_rows demo_row_fields
      open1 process_locked_def execute_guarded_def awaitP_def demo_start_def new_coordinator_def)
qed

section \<open>Frames after the continuation\<close>

text \<open>The session after the acknowledgement: the Flow goes on, and pauses again or passes on.\<close>

definition demo_step_session :: "string \<Rightarrow> int \<Rightarrow> robot_session \<Rightarrow> robot_session" where
  "demo_step_session status current s = receive_flow (PDict (demo_flow status current)) s"

definition demo_executing :: robot_session where
  "demo_executing = demo_step_session ''in_progress'' 1 demo_session"

definition demo_paused_again :: robot_session where
  "demo_paused_again = demo_step_session ''paused'' 1 demo_executing"

definition demo_passed :: robot_session where
  "demo_passed = demo_step_session ''in_progress'' 2 demo_executing"

lemma receive_flow_connected: "rs_connected (receive_flow v s) = rs_connected s"
  by (simp add: receive_flow_def Let_def)

lemma demo_sessions_inv:
  "list_all session_inv [demo_session, demo_executing, demo_paused_again, demo_passed]"
proof -
  have new: "session_inv (activate_connection 1 new_session)"
    by (rule session_inv_connection(1) [OF session_inv_new])
  have up: "rs_connected demo_session" "rs_connected (activate_connection 1 new_session)"
    by (simp_all add: demo_session_def receive_commands_def receive_flow_def activate_connection_def
        new_session_def Let_def)
  then have "session_inv demo_session"
    unfolding demo_session_def
    by (intro session_inv_receive_commands session_inv_receive_flow new)
      (simp_all add: receive_flow_def Let_def)
  then show ?thesis using up(1)
    by (simp add: demo_executing_def demo_paused_again_def demo_passed_def demo_step_session_def
        session_inv_receive_flow receive_flow_connected)
qed

lemma demo_verdicts:
  "map_sum id (\<lambda>p. classify_flow_outcome p demo_claimed)
     (wait_for_flow (execution_outcome_predicate demo_claimed 1) 1 (new_waiter False 1)
       [demo_session, demo_executing, demo_paused_again]) = Inr ''failed''"
  "map_sum id (\<lambda>p. classify_flow_outcome p demo_claimed)
     (wait_for_flow (execution_outcome_predicate demo_claimed 1) 1 (new_waiter False 1)
       [demo_session, demo_executing, demo_passed]) = Inr ''recovered''"
  by code_simp+

lemma demo_waits:
  "returns (wait_for_flow (execution_outcome_predicate demo_claimed 1) 1 (new_waiter False 1)
     [demo_session, demo_executing, demo_paused_again])"
  "returns (wait_for_flow (execution_outcome_predicate demo_claimed 1) 1 (new_waiter False 1)
     [demo_session, demo_executing, demo_passed])"
proof -
  have "returns r" if "map_sum id g r = Inr x" for g :: "'a \<Rightarrow> string" and r :: "'a result" and x
    using that by (cases r) auto
  from this [OF demo_verdicts(1)] this [OF demo_verdicts(2)] show
    "returns (wait_for_flow (execution_outcome_predicate demo_claimed 1) 1 (new_waiter False 1)
       [demo_session, demo_executing, demo_paused_again])"
    "returns (wait_for_flow (execution_outcome_predicate demo_claimed 1) 1 (new_waiter False 1)
       [demo_session, demo_executing, demo_passed])" by simp_all
qed

end
