(* ===== verification/Py_Text.thy ===== *)
theory Py_Text
  imports Json_Text
begin

text \<open>
  The text operations of the memory and retrieval code: \<^verbatim>\<open>str.split()\<close>, \<^verbatim>\<open>splitlines\<close>,
  \<^verbatim>\<open>find\<close>, \<^verbatim>\<open>replace\<close> of a character, word tokens, \<^verbatim>\<open>json.dumps(indent=2)\<close>, and the
  line structure of the texts they build.
\<close>

section \<open>Splitting and finding\<close>

text \<open>\<open>s.split()\<close>: the maximal runs of characters that are not white space.\<close>

fun runs_of :: "(char \<Rightarrow> bool) \<Rightarrow> string \<Rightarrow> string \<Rightarrow> string list" where
  "runs_of P acc [] = (if acc = [] then [] else [rev acc])"
| "runs_of P acc (c # cs) =
     (if P c then runs_of P (c # acc) cs
      else if acc = [] then runs_of P [] cs else rev acc # runs_of P [] cs)"

definition words :: "string \<Rightarrow> string list" where
  "words s = runs_of (\<lambda>c. \<not> is_space c) [] s"

text \<open>
  The matches of the pattern \<^verbatim>\<open>[^\W_]+\<close>: runs of letters and numerals. Of the code points
  below 256, the superscripts, fractions and ordinal indicators count, too.
\<close>

definition is_word_char :: "char \<Rightarrow> bool" where
  "is_word_char c \<longleftrightarrow> is_ascii_alnum c \<or>
     (let n = cpt c in n \<in> set [170, 178, 179, 181, 185, 186, 188, 189, 190] \<or>
        192 \<le> n \<and> n \<noteq> 215 \<and> n \<noteq> 247)"

definition tokens :: "string \<Rightarrow> string list" where
  "tokens s = runs_of is_word_char [] s"

definition replace_char :: "char \<Rightarrow> char \<Rightarrow> string \<Rightarrow> string" where
  "replace_char a b s = map (\<lambda>c. if c = a then b else c) s"

text \<open>\<open>hay.find(needle)\<close>, None for -1.\<close>

fun find_at :: "string \<Rightarrow> string \<Rightarrow> nat option" where
  "find_at needle [] = (if needle = [] then Some 0 else None)"
| "find_at needle (c # cs) =
     (if prefix needle (c # cs) then Some 0 else map_option Suc (find_at needle cs))"

text \<open>\<open>dict.fromkeys(xs)\<close> keeps the first occurrence of each element.\<close>

definition dedup :: "'a list \<Rightarrow> 'a list" where
  "dedup xs = rev (remdups (rev xs))"

text \<open>\<open>s.splitlines()\<close>; a carriage return followed by a line feed is one break.\<close>

definition is_break :: "char \<Rightarrow> bool" where
  "is_break c \<longleftrightarrow> (let n = cpt c in 10 \<le> n \<and> n \<le> 13 \<or> 28 \<le> n \<and> n \<le> 30 \<or> n = 133)"

fun lines_of :: "string \<Rightarrow> string \<Rightarrow> string list" where
  "lines_of acc [] = (if acc = [] then [] else [rev acc])"
| "lines_of acc (c # cs) =
     (if \<not> is_break c then lines_of (c # acc) cs
      else rev acc # (case cs of
          d # ds \<Rightarrow> if cpt c = 13 \<and> cpt d = 10 then lines_of [] ds else lines_of [] cs
        | [] \<Rightarrow> []))"

definition splitlines :: "string \<Rightarrow> string list" where
  "splitlines s = lines_of [] s"

section \<open>json.dumps with an indentation\<close>

abbreviation lf :: char where "lf \<equiv> CHR 10"

definition new_line :: "nat \<Rightarrow> string" where
  "new_line n = lf # replicate (2 * n) (CHR '' '')"

text \<open>\<open>json.dumps(v, indent=2, sort_keys=True, ensure_ascii=False)\<close> at a nesting depth.\<close>

fun json_pretty :: "nat \<Rightarrow> pyval \<Rightarrow> string" where
  "json_pretty n (PList vs) =
     (if vs = [] then ''[]''
      else ''['' @ new_line (Suc n) @ join ('','' @ new_line (Suc n)) (map (json_pretty (Suc n)) vs) @
        new_line n @ '']'')"
| "json_pretty n (PTuple vs) =
     (if vs = [] then ''[]''
      else ''['' @ new_line (Suc n) @ join ('','' @ new_line (Suc n)) (map (json_pretty (Suc n)) vs) @
        new_line n @ '']'')"
| "json_pretty n (PDict d) =
     (if d = [] then ''{}''
      else ''{'' @ new_line (Suc n) @ join ('','' @ new_line (Suc n))
        (map snd (sort_key fst (map (\<lambda>(k, v). (k, json_string k @ '': '' @ json_pretty (Suc n) v)) d))) @
        new_line n @ ''}'')"
| "json_pretty n v = json_dumps v"

text \<open>\<open>allow_nan=False\<close>: a non-finite float raises ValueError.\<close>

definition dumps_pretty :: "pyval \<Rightarrow> string result" where
  "dumps_pretty v = guardE (finite_floats v) ValueErr (Inr (json_pretty 0 v))"

definition dumps_compact :: "pyval \<Rightarrow> string result" where
  "dumps_compact v = guardE (finite_floats v) ValueErr (Inr (json_dumps v))"

section \<open>str and repr\<close>

text \<open>
  \<open>repr\<close> of a text prefers single quotes and escapes what is not printable; of the code points
  below 256 these are the controls, the no-break space and the soft hyphen.
\<close>

definition printable :: "char \<Rightarrow> bool" where
  "printable c \<longleftrightarrow> (let n = cpt c in 32 \<le> n \<and> n \<le> 126 \<or> 161 \<le> n \<and> n \<noteq> 173)"

definition repr_char :: "char \<Rightarrow> char \<Rightarrow> string" where
  "repr_char quote c = (let n = cpt c in
     if c = quote \<or> n = 92 then [CHR 0x5C, c]
     else if n = 10 then [CHR 0x5C, CHR ''n'']
     else if n = 13 then [CHR 0x5C, CHR ''r'']
     else if n = 9 then [CHR 0x5C, CHR ''t'']
     else if \<not> printable c then [CHR 0x5C, CHR ''x'', hex_digit (n div 16), hex_digit (n mod 16)]
     else [c])"

definition repr_text :: "string \<Rightarrow> string" where
  "repr_text s = (let quote = (if CHR 0x27 \<in> set s \<and> CHR 0x22 \<notin> set s then CHR 0x22 else CHR 0x27)
     in [quote] @ concat (map (repr_char quote) s) @ [quote])"

fun py_repr :: "pyval \<Rightarrow> string" where
  "py_repr PNone = ''None''"
| "py_repr (PBool b) = (if b then ''True'' else ''False'')"
| "py_repr (PInt i) = int_text i"
| "py_repr (PFloat f) = (case f of FInf \<Rightarrow> ''inf'' | FNegInf \<Rightarrow> ''-inf'' | FNaN \<Rightarrow> ''nan'' | _ \<Rightarrow> float_text f)"
| "py_repr (PStr s) = repr_text s"
| "py_repr (PList vs) = ''['' @ join '', '' (map py_repr vs) @ '']''"
| "py_repr (PTuple vs) = ''('' @ join '', '' (map py_repr vs) @ (if length vs = 1 then '','' else []) @ '')''"
| "py_repr (PDict d) = ''{'' @ join '', '' (map (\<lambda>(k, v). repr_text k @ '': '' @ py_repr v) d) @ ''}''"

definition py_str :: "pyval \<Rightarrow> string" where
  "py_str v = (case v of PStr s \<Rightarrow> s | _ \<Rightarrow> py_repr v)"

section \<open>Lemmas\<close>

lemma dedup_props [simp]: "set (dedup xs) = set xs" "distinct (dedup xs)"
  by (simp_all add: dedup_def)

lemma find_at_Some:
  "find_at needle hay = Some i \<Longrightarrow> prefix needle (drop i hay) \<and> i \<le> length hay \<and>
     (\<forall>j < i. \<not> prefix needle (drop j hay))"
proof (induction needle hay arbitrary: i rule: find_at.induct)
  case (2 needle c cs)
  show ?case
  proof (cases "prefix needle (c # cs)")
    case False
    with "2.prems" obtain k where k: "i = Suc k" "find_at needle cs = Some k" by auto
    from "2.IH" [OF False k(2)] False k(1) show ?thesis by (auto simp: less_Suc_eq_0_disj)
  qed (use "2.prems" in auto)
qed (auto split: if_splits)

lemma find_at_None: "find_at needle hay = None \<longleftrightarrow> \<not> sublist needle hay"
  by (induction needle hay rule: find_at.induct) (auto simp: sublist_Cons_right)

lemma runs_of_props:
  "(\<forall>c \<in> set acc. P c) \<Longrightarrow> x \<in> set (runs_of P acc s) \<Longrightarrow> x \<noteq> [] \<and> (\<forall>c \<in> set x. P c)"
proof (induction s arbitrary: acc)
  case (Cons c cs)
  show ?case
  proof (cases "P c")
    case True
    with Cons.prems show ?thesis by (intro Cons.IH [of "c # acc"]) auto
  next
    case False
    with Cons.prems(2) have "x = rev acc \<and> acc \<noteq> [] \<or> x \<in> set (runs_of P [] cs)"
      by (auto split: if_splits)
    then show ?thesis
    proof
      assume "x \<in> set (runs_of P [] cs)"
      then show ?thesis by (intro Cons.IH [of "[]"]) simp_all
    qed (use Cons.prems(1) in simp)
  qed
qed (auto split: if_splits)

lemma words_props: "w \<in> set (words s) \<Longrightarrow> w \<noteq> [] \<and> (\<forall>c \<in> set w. \<not> is_space c)"
  unfolding words_def by (rule runs_of_props [of "[]"]) simp_all

lemma tokens_props: "w \<in> set (tokens s) \<Longrightarrow> w \<noteq> [] \<and> (\<forall>c \<in> set w. is_word_char c)"
  unfolding tokens_def by (rule runs_of_props [of "[]"]) simp_all

lemma lines_of_no_break:
  "(\<forall>c \<in> set acc. \<not> is_break c) \<Longrightarrow> l \<in> set (lines_of acc s) \<Longrightarrow> \<forall>c \<in> set l. \<not> is_break c"
proof (induction s arbitrary: acc rule: length_induct)
  case (1 s)
  show ?case
  proof (cases s)
    case (Cons c cs)
    show ?thesis
    proof (cases "is_break c")
      case True
      define r where "r = (case cs of d # ds \<Rightarrow> if cpt c = 13 \<and> cpt d = 10 then ds else cs | [] \<Rightarrow> [])"
      have "lines_of acc s = rev acc # lines_of [] r" "length r < length s"
        using True Cons by (cases cs; simp add: r_def)+
      with 1(3) have "l = rev acc \<or> l \<in> set (lines_of [] r)" "length r < length s" by simp_all
      then show ?thesis
      proof (elim disjE)
        assume "l \<in> set (lines_of [] r)" "length r < length s"
        then show ?thesis using 1(1) [rule_format, of r "[]"] by simp
      qed (use 1(2) in simp)
    next
      case False
      have "\<forall>acc. (\<forall>c \<in> set acc. \<not> is_break c) \<longrightarrow> l \<in> set (lines_of acc cs) \<longrightarrow> (\<forall>c \<in> set l. \<not> is_break c)"
        using 1(1) [THEN spec, of cs] Cons by simp
      from this [THEN spec, of "c # acc"] Cons False 1(2,3) show ?thesis by simp
    qed
  qed (use 1 in \<open>auto split: if_splits\<close>)
qed

lemma splitlines_no_break: "l \<in> set (splitlines s) \<Longrightarrow> \<forall>c \<in> set l. \<not> is_break c"
  unfolding splitlines_def by (rule lines_of_no_break [of "[]"]) simp_all

section \<open>Lines\<close>

text \<open>
  A text is plain when none of its lines is empty or starts like a Markdown heading, a fence
  or a quotation. The indented JSON of any value is plain, whatever its strings hold.
\<close>

definition plain_line :: "string \<Rightarrow> bool" where
  "plain_line l \<longleftrightarrow> l \<noteq> [] \<and> hd l \<noteq> CHR ''#'' \<and> hd l \<noteq> CHR 0x60"

definition plain_text :: "string \<Rightarrow> bool" where
  "plain_text s \<longleftrightarrow> list_all plain_line (split_on lf s)"

lemma split_on_nonempty [simp]: "split_on c s \<noteq> []"
  by (induction s) (auto split: list.split)

lemma split_on_append: "split_on c (a @ c # b) = split_on c a @ split_on c b"
proof (induction a)
  case (Cons x a)
  then show ?case by (cases "split_on c a") auto
qed simp

lemma split_on_no_sep: "c \<notin> set a \<Longrightarrow> split_on c a = [a]"
  by (induction a) auto

lemma split_on_append_left:
  "c \<notin> set a \<Longrightarrow> split_on c (a @ b) = (a @ hd (split_on c b)) # tl (split_on c b)"
proof (induction a)
  case Nil
  then show ?case by (simp add: hd_Cons_tl)
next
  case (Cons x a)
  then show ?case by (cases "split_on c b") auto
qed

lemma split_on_append_right:
  "c \<notin> set b \<Longrightarrow> split_on c (a @ b) = butlast (split_on c a) @ [last (split_on c a) @ b]"
proof (induction a)
  case Nil
  then show ?case by (simp add: split_on_no_sep)
next
  case (Cons x a)
  then show ?case
    by (cases "split_on c a"; cases "tl (split_on c a)") (auto simp: split: list.split)
qed

lemma split_on_lines: "\<forall>l \<in> set (split_on c s). c \<notin> set l"
proof (induction s)
  case (Cons x s)
  then show ?case by (cases "split_on c s") auto
qed simp

lemma join_split_on: "join [c] (split_on c s) = s"
proof (induction s)
  case (Cons x s)
  then show ?case by (cases "split_on c s") (auto simp: join_def)
qed (simp add: join_def)

lemma plain_left:
  assumes "plain_line a" "lf \<notin> set a" "list_all plain_line (tl (split_on lf b))"
  shows "plain_text (a @ b)"
  using assms by (simp add: plain_text_def split_on_append_left plain_line_def)

lemma plain_one: "plain_line a \<Longrightarrow> lf \<notin> set a \<Longrightarrow> plain_text a"
  by (simp add: plain_text_def split_on_no_sep)

lemma plain_tail: "plain_text b \<Longrightarrow> list_all plain_line (tl (split_on lf b))"
  unfolding plain_text_def by (cases "split_on lf b") auto

lemma plain_right:
  assumes "plain_text a" "lf \<notin> set b" shows "plain_text (a @ b)"
proof -
  have "plain_line (last (split_on lf a))" "list_all plain_line (butlast (split_on lf a))"
    using assms(1) by (auto simp: plain_text_def list_all_iff dest: in_set_butlastD)
  then show ?thesis using assms(2) by (simp add: plain_text_def split_on_append_right plain_line_def)
qed

lemma plain_lines: "plain_text a \<Longrightarrow> plain_text b \<Longrightarrow> plain_text (a @ lf # b)"
  by (simp add: plain_text_def split_on_append)

lemma plain_spaces: "plain_text b \<Longrightarrow> plain_text (replicate k (CHR '' '') @ b)"
proof (cases k)
  case (Suc n)
  assume "plain_text b"
  from plain_tail [OF this] Suc show ?thesis
    by (intro plain_left) (auto simp: plain_line_def)
qed simp

lemma plain_new_line: "plain_text a \<Longrightarrow> plain_text b \<Longrightarrow> plain_text (a @ new_line n @ b)"
  using plain_lines [OF _ plain_spaces] by (simp add: new_line_def)

lemma plain_join:
  "ws \<noteq> [] \<Longrightarrow> (\<And>w. w \<in> set ws \<Longrightarrow> plain_text w) \<Longrightarrow> lf \<notin> set sep \<Longrightarrow> plain_text (join (sep @ new_line n) ws)"
proof (induction ws)
  case (Cons w ws)
  show ?case
  proof (cases ws)
    case Nil
    with Cons.prems show ?thesis by (simp add: join_def)
  next
    case (Cons x xs)
    have eq: "join (sep @ new_line n) (w # ws) = (w @ sep) @ new_line n @ join (sep @ new_line n) ws"
      by (simp add: Cons join_def)
    have "plain_text (join (sep @ new_line n) ws)"
      using Cons by (intro Cons.IH) (simp_all add: Cons.prems)
    moreover have "plain_text (w @ sep)" by (rule plain_right) (simp_all add: Cons.prems)
    ultimately show ?thesis unfolding eq by (intro plain_new_line)
  qed
qed simp

text \<open>Numbers and strings fill part of one line.\<close>

definition number_char :: "char \<Rightarrow> bool" where
  "number_char c \<longleftrightarrow> is_digit c \<or> c \<in> set ''.e+-''"

lemma digit_char: "0 \<le> m \<Longrightarrow> m < 10 \<Longrightarrow> is_digit (char_of (48 + m))" for m :: int
  by (simp add: is_digit_def cpt_def take_bit_int_eq_self)

lemma nat_text_digits: "nat_text n \<noteq> [] \<and> list_all is_digit (nat_text n)"
proof (induction n rule: nat_text.induct)
  case (1 n)
  show ?case
  proof (cases "n < 10")
    case True
    with digit_char [of "max 0 n"] show ?thesis by (subst (1 2) nat_text.simps) simp
  next
    case False
    with digit_char [of "n mod 10"] 1 [OF False] show ?thesis by (subst (1 2) nat_text.simps) simp
  qed
qed

lemma digits_number: "list_all is_digit s \<Longrightarrow> list_all number_char s"
  by (auto simp: list_all_iff number_char_def)

lemma nat_text_number: "list_all number_char (nat_text n)"
  using nat_text_digits digits_number by blast

lemma number_no_lf: "number_char c \<Longrightarrow> c \<noteq> lf \<and> c \<noteq> CHR ''#'' \<and> c \<noteq> CHR 0x60"
  by (auto simp: number_char_def is_digit_def cpt_def)

lemma number_plain: "s \<noteq> [] \<Longrightarrow> list_all number_char s \<Longrightarrow> plain_line s \<and> lf \<notin> set s"
  by (cases s) (auto simp: plain_line_def list_all_iff dest: number_no_lf)

lemma int_text_plain: "plain_line (int_text i) \<and> lf \<notin> set (int_text i)"
proof (rule number_plain)
  have "number_char (CHR ''-'')" by (simp add: number_char_def)
  with nat_text_number show "list_all number_char (int_text i)" by (simp add: int_text_def)
  show "int_text i \<noteq> []" using nat_text_digits by (simp add: int_text_def)
qed

lemma number_signs: "number_char (CHR ''-'')" "number_char (CHR ''.'')" "number_char (CHR ''0'')"
  "number_char (CHR ''e'')" "number_char (CHR ''+'')"
  by (simp_all add: number_char_def is_digit_def cpt_def)

lemma list_all_pieces:
  "list_all P s \<Longrightarrow> list_all P (take n s)" "list_all P s \<Longrightarrow> list_all P (drop n s)"
  "P c \<Longrightarrow> list_all P (replicate n c)"
  by (auto simp: list_all_iff dest: in_set_takeD in_set_dropD)

lemma rstrip_zeros_all: "list_all P s \<Longrightarrow> list_all P (rstrip_zeros s)"
  by (auto simp: rstrip_zeros_def list_all_iff dest: set_dropWhileD)

lemma pos_float_text_number: "pos_float_text x \<noteq> [] \<and> list_all number_char (pos_float_text x)"
  by (auto simp: pos_float_text_def Let_def case_prod_unfold number_signs nat_text_number
      intro!: list_all_pieces rstrip_zeros_all)

lemma float_text_plain: "plain_line (float_text f) \<and> lf \<notin> set (float_text f)"
proof (cases f)
  case (FFin x)
  show ?thesis
    by (rule number_plain) (simp_all add: FFin float_text_def pos_float_text_number number_signs)
qed (simp_all add: float_text_def plain_line_def)

lemma cpt_char_of: "0 \<le> n \<Longrightarrow> n < 256 \<Longrightarrow> cpt (char_of n) = n" for n :: int
  by (simp add: cpt_def take_bit_int_eq_self)

lemma cpt_bounds: "0 \<le> cpt c" "cpt c < 256"
  by (cases c; simp add: cpt_def)+

lemma hex_digit_no_lf: "0 \<le> n \<Longrightarrow> n < 16 \<Longrightarrow> hex_digit n \<noteq> lf"
proof
  assume n: "0 \<le> n" "n < 16" "hex_digit n = lf"
  then have "cpt (hex_digit n) = 10" by (simp add: cpt_def)
  moreover have "cpt (hex_digit n) = (if n < 10 then 48 + n else 87 + n)"
    unfolding hex_digit_def using n(1,2) by (subst cpt_char_of) simp_all
  ultimately show False using n(1) by (simp split: if_splits)
qed

lemma escape_no_lf: "lf \<notin> set (escape_char c)"
proof -
  have "hex_digit (cpt c div 16) \<noteq> lf" "hex_digit (cpt c mod 16) \<noteq> lf"
    using cpt_bounds [of c] by (simp_all add: hex_digit_no_lf)
  moreover have "cpt c = 10" if "c = lf" using that by (simp add: cpt_def)
  ultimately show ?thesis by (auto simp: escape_char_def Let_def)
qed

lemma json_string_plain: "plain_line (json_string s) \<and> lf \<notin> set (json_string s)"
  using escape_no_lf by (auto simp: json_string_def plain_line_def)

lemma plain_text_atom: "plain_line s \<and> lf \<notin> set s \<Longrightarrow> plain_text s"
  by (auto intro: plain_one)

lemma plain_block:
  assumes "ws \<noteq> []" "\<And>w. w \<in> set ws \<Longrightarrow> plain_text w"
    and "plain_text opening" "plain_text closing"
  shows "plain_text (opening @ new_line (Suc n) @ join ('','' @ new_line (Suc n)) ws @ new_line n @ closing)"
  using assms by (intro plain_new_line plain_join) simp_all

lemma plain_entry: "plain_text s \<Longrightarrow> plain_text (json_string k @ '': '' @ s)"
  using plain_left [of "json_string k @ '': ''" s] json_string_plain [of k]
  by (simp add: plain_tail plain_line_def)

lemma plain_brackets:
  assumes "ws \<noteq> []" "\<And>w. w \<in> set ws \<Longrightarrow> plain_text w" "a \<notin> {CHR ''#'', CHR 0x60, lf}" "b \<notin> {CHR ''#'', CHR 0x60, lf}"
  shows "plain_text ([a] @ new_line (Suc n) @ join ('','' @ new_line (Suc n)) ws @ new_line n @ [b])"
proof (intro plain_block)
  show "plain_text [a]" "plain_text [b]" using assms(3,4) by (auto intro!: plain_one simp: plain_line_def)
qed (use assms in auto)

lemma json_pretty_plain: "plain_text (json_pretty n v)"
proof (induction n v rule: json_pretty.induct)
  case (1 n vs)
  then show ?case
    using plain_brackets [of "map (json_pretty (Suc n)) vs" "CHR ''[''" "CHR '']''" n]
    by (auto simp: plain_one plain_line_def)
next
  case (2 n vs)
  then show ?case
    using plain_brackets [of "map (json_pretty (Suc n)) vs" "CHR ''[''" "CHR '']''" n]
    by (auto simp: plain_one plain_line_def)
next
  case (3 n d)
  let ?ws = "map snd (sort_key fst (map (\<lambda>(k, v). (k, json_string k @ '': '' @ json_pretty (Suc n) v)) d))"
  have "plain_text w" if w: "w \<in> set ?ws" for w
  proof -
    from w obtain k v where kv: "(k, v) \<in> set d" "w = json_string k @ '': '' @ json_pretty (Suc n) v"
      by auto
    show ?thesis unfolding kv(2) by (rule plain_entry) (rule 3 [OF _ kv(1) refl], use kv(1) in auto)
  qed
  moreover have "length ?ws = length d" by simp
  then have "?ws \<noteq> []" if "d \<noteq> []" using that by (metis length_0_conv)
  ultimately have "plain_text ([CHR ''{''] @ new_line (Suc n) @ join ('','' @ new_line (Suc n)) ?ws @
      new_line n @ [CHR ''}''])" if "d \<noteq> []"
    using that by (intro plain_brackets) auto
  then show ?case
    unfolding json_pretty.simps(3) by (cases "d = []") (simp_all add: plain_one plain_line_def)
qed (auto intro!: plain_text_atom int_text_plain float_text_plain json_string_plain
    simp: plain_line_def)

end
