(* ===== verification/Json_Roundtrip.thy ===== *)
theory Json_Roundtrip
  imports Py_Text
begin

text \<open>
  Reading a written JSON text gives the value back, in the canonical form JSON can hold:
  tuples become lists and the keys of a dict are sorted. It holds for the compact and the
  indented layout, of every value with distinct keys whose numbers are within the limits of
  the reader.
\<close>

section \<open>The canonical form\<close>

fun canon :: "pyval \<Rightarrow> pyval" where
  "canon (PList vs) = PList (map canon vs)"
| "canon (PTuple vs) = PList (map canon vs)"
| "canon (PDict d) = PDict (sort_key fst (map (\<lambda>(k, v). (k, canon v)) d))"
| "canon v = v"

text \<open>A float that is written as a text its reader takes back, and an integer it accepts.\<close>

definition reads_back :: "pyfloat \<Rightarrow> bool" where
  "reads_back f \<longleftrightarrow> loads_number (float_text f) = Some (PFloat f, [])"

fun json_safe :: "pyval \<Rightarrow> bool" where
  "json_safe (PInt i) = (plen (nat_text \<bar>i\<bar>) \<le> 4300)"
| "json_safe (PFloat f) = reads_back f"
| "json_safe (PList vs) = list_all json_safe vs"
| "json_safe (PTuple vs) = list_all json_safe vs"
| "json_safe (PDict d) = (distinct (map fst d) \<and> list_all (\<lambda>(k, v). json_safe v) d)"
| "json_safe _ = True"

section \<open>Strings\<close>

lemma hex_value_digit: "0 \<le> n \<Longrightarrow> n < 16 \<Longrightarrow> hex_value (hex_digit n) = Some n"
  by (auto simp: hex_value_def hex_digit_def is_digit_def cpt_char_of)

lemma char_of_cpt: "char_of (cpt c) = c"
  by (simp add: cpt_def)

lemma cpt_eq_iff: "0 \<le> n \<Longrightarrow> n < 256 \<Longrightarrow> cpt c = n \<longleftrightarrow> c = char_of n" for n :: int
  using cpt_char_of [of n] char_of_cpt [of c] by auto

lemma hex4_control: "cpt c < 32 \<Longrightarrow>
   hex4 (CHR ''0'') (CHR ''0'') (hex_digit (cpt c div 16)) (hex_digit (cpt c mod 16)) = Some c"
proof -
  assume "cpt c < 32"
  then have "hex_value (hex_digit (cpt c div 16)) = Some (cpt c div 16)"
    "hex_value (hex_digit (cpt c mod 16)) = Some (cpt c mod 16)"
    using cpt_bounds [of c] by (auto intro!: hex_value_digit)
  moreover have "hex_value (CHR ''0'') = Some 0" by (simp add: hex_value_def is_digit_def cpt_def)
  moreover have "16 * (cpt c div 16) + cpt c mod 16 = cpt c" by simp
  ultimately show ?thesis by (simp add: hex4_def char_of_cpt)
qed

lemma cpt_special:
  "cpt c = 34 \<longleftrightarrow> c = CHR 0x22" "cpt c = 92 \<longleftrightarrow> c = CHR 0x5C" "cpt c = 10 \<longleftrightarrow> c = CHR 0x0A"
  "cpt c = 13 \<longleftrightarrow> c = CHR 0x0D" "cpt c = 9 \<longleftrightarrow> c = CHR 0x09" "cpt c = 8 \<longleftrightarrow> c = CHR 0x08"
  "cpt c = 12 \<longleftrightarrow> c = CHR 0x0C"
  by (subst cpt_eq_iff, simp, simp, simp add: char_of_def)+

lemma loads_escaped: "loads_string (escape_char c @ r) = map_option (\<lambda>(t, q). (c # t, q)) (loads_string r)"
  using hex4_control [of c] by (auto simp: escape_char_def Let_def unescape_def cpt_special)

lemma loads_string_escaped:
  "loads_string (concat (map escape_char s) @ CHR 0x22 # r) = Some (s, r)"
  by (induction s) (simp_all add: loads_escaped)

section \<open>Numbers\<close>

text \<open>What may follow a value inside a document.\<close>

definition stops :: "string \<Rightarrow> bool" where
  "stops r \<longleftrightarrow> (case r of [] \<Rightarrow> True | c # _ \<Rightarrow> c \<in> set '',]} '' \<or> c = lf)"

lemma stops_Nil: "stops []"
  by (simp add: stops_def)

lemma stops_Cons: "stops (c # r) \<longleftrightarrow> c \<in> set '',]} '' \<or> c = lf"
  by (simp add: stops_def)

lemma stops_not_number: "stops (c # r) \<Longrightarrow>
    \<not> is_digit c \<and> c \<noteq> CHR ''.'' \<and> c \<noteq> CHR ''e'' \<and> c \<noteq> CHR ''E'' \<and> c \<noteq> CHR ''-'' \<and> c \<noteq> CHR ''+''"
  by (auto simp: stops_def is_digit_def cpt_def)

lemma digits_stop: "stops r \<Longrightarrow> takeWhile is_digit (s @ r) = takeWhile is_digit s \<and>
    dropWhile is_digit (s @ r) = dropWhile is_digit s @ r"
proof (induction s)
  case Nil
  then show ?case by (cases r) (auto dest: stops_not_number)
qed auto

lemma fraction_stop: "stops r \<Longrightarrow> loads_fraction (s @ r) = map_prod id (\<lambda>q. q @ r) (loads_fraction s)"
proof (cases s)
  case Nil
  assume "stops r"
  with Nil show ?thesis by (cases r) (auto simp: loads_fraction_def dest: stops_not_number)
next
  case (Cons c t)
  assume "stops r"
  with Cons digits_stop [of r t] show ?thesis by (simp add: loads_fraction_def loads_digits_def)
qed

lemma sign_stop: "stops r \<Longrightarrow> split_sign (s @ r) = map_prod id (\<lambda>q. q @ r) (split_sign s)"
proof (cases s)
  case Nil
  assume "stops r"
  with Nil show ?thesis by (cases r) (auto simp: split_sign_def dest: stops_not_number)
qed (simp add: split_sign_def)

lemma exponent_stop: "stops r \<Longrightarrow> loads_exponent (s @ r) = map_prod id (\<lambda>q. q @ r) (loads_exponent s)"
proof (cases s)
  case Nil
  assume "stops r"
  with Nil show ?thesis by (cases r) (auto simp: loads_exponent_def dest: stops_not_number)
next
  case (Cons c t)
  assume r: "stops r"
  obtain neg q where "split_sign t = (neg, q)" by (cases "split_sign t")
  with Cons sign_stop [OF r, of t] digits_stop [OF r, of q] show ?thesis
    by (simp add: loads_exponent_def loads_digits_def Let_def)
qed

definition int_part :: "string \<Rightarrow> string" where
  "int_part u = (case u of c # _ \<Rightarrow> if c = CHR ''0'' then ''0'' else fst (loads_digits u) | [] \<Rightarrow> [])"

definition signed :: "string \<Rightarrow> bool" where
  "signed s \<longleftrightarrow> (case s of c # _ \<Rightarrow> c = CHR ''-'' | [] \<Rightarrow> False)"

lemma loads_number_parts:
  "loads_number s =
     (let neg = signed s; u = (if neg then tl s else s); i = int_part u; r = drop (length i) u;
          (f, r1) = loads_fraction r; (e, r2) = loads_exponent r1
      in if i = [] then None
         else if f = [] \<and> e = None then map_option (\<lambda>n. (PInt n, r)) (int_digits neg i)
         else Some (PFloat (decimal_float neg i f (case e of None \<Rightarrow> 0 | Some x \<Rightarrow> x)), r2))"
  unfolding loads_number_def signed_def int_part_def by (rule refl)

lemma int_part_stop:
  assumes "int_part u \<noteq> []" "stops r" shows "int_part (u @ r) = int_part u \<and> length (int_part u) \<le> length u"
  using assms digits_stop [of r u]
  by (cases u) (auto simp: int_part_def loads_digits_def length_takeWhile_le)

lemma number_stop:
  assumes "loads_number s = Some (v, [])" "stops r" shows "loads_number (s @ r) = Some (v, r)"
proof -
  define neg where "neg = signed s"
  define u where "u = (if neg then tl s else s)"
  define q where "q = drop (length (int_part u)) u"
  obtain f q1 where f: "loads_fraction q = (f, q1)" by (cases "loads_fraction q")
  obtain e q2 where e: "loads_exponent q1 = (e, q2)" by (cases "loads_exponent q1")
  note parts = assms(1) [unfolded loads_number_parts [of s], folded neg_def, unfolded Let_def, folded u_def,
      folded q_def, unfolded f split e]
  then have i: "int_part u \<noteq> []" by (auto split: if_splits)
  then have "s \<noteq> []" unfolding u_def by (auto simp: int_part_def split: if_splits list.splits)
  then have "signed (s @ r) = neg" and ur: "(if neg then tl (s @ r) else s @ r) = u @ r"
    by (cases s; simp add: neg_def u_def signed_def)+
  with i int_part_stop [OF i assms(2)] fraction_stop [OF assms(2), of q] exponent_stop [OF assms(2), of q1]
  show ?thesis
    unfolding loads_number_parts [of "s @ r"] using parts f e q_def
    by (auto simp: Let_def split: if_splits)
qed

lemma digits_value_snoc: "digits_value (ds @ [c]) = 10 * digits_value ds + (cpt c - 48)"
  by (simp add: digits_value_def)

lemma nat_text_value: "0 \<le> n \<Longrightarrow> digits_value (nat_text n) = n"
proof (induction n rule: nat_text.induct)
  case (1 n)
  show ?case
  proof (cases "n < 10")
    case True
    with 1(2) have "nat_text n = [char_of (48 + n)]" by (subst nat_text.simps) simp
    with True 1(2) show ?thesis by (simp add: digits_value_def cpt_char_of)
  next
    case False
    then have "nat_text n = nat_text (n div 10) @ [char_of (48 + n mod 10)]" by (subst nat_text.simps) simp
    with False 1 show ?thesis by (simp add: digits_value_snoc cpt_char_of)
  qed
qed

lemma nat_text_zero: "0 \<le> n \<Longrightarrow> hd (nat_text n) = CHR ''0'' \<Longrightarrow> nat_text n = ''0''"
proof (induction n rule: nat_text.induct)
  case (1 n)
  show ?case
  proof (cases "n < 10")
    case True
    with 1(2) have "nat_text n = [char_of (48 + n)]" by (subst nat_text.simps) simp
    with 1(3) show ?thesis by simp
  next
    case False
    then have eq: "nat_text n = nat_text (n div 10) @ [char_of (48 + n mod 10)]" by (subst nat_text.simps) simp
    then have "hd (nat_text (n div 10)) = CHR ''0''" using 1(3) nat_text_digits [of "n div 10"] by simp
    with 1(1) False have "nat_text (n div 10) = ''0''" by simp
    then have "n div 10 = 0" using nat_text_value [of "n div 10"] False by (simp add: digits_value_def cpt_def)
    with False show ?thesis by simp
  qed
qed

lemma number_char_set: "number_char c \<Longrightarrow> c \<in> set ''0123456789.e+-''"
proof -
  assume "number_char c"
  moreover have "cpt c \<in> {48..57} \<Longrightarrow> c \<in> set ''0123456789''"
  proof -
    assume "cpt c \<in> {48..57}"
    then have "cpt c \<in> set [48,49,50,51,52,53,54,55,56,57]" by simp presburger
    then have "c \<in> set (map char_of [48,49,50,51,52,53,54,55,56,57::int])"
      using char_of_cpt [of c] by force
    then show ?thesis by (simp add: char_of_def)
  qed
  ultimately show ?thesis by (auto simp: number_char_def is_digit_def)
qed

lemma int_text_reads: "plen (nat_text \<bar>i\<bar>) \<le> 4300 \<Longrightarrow> loads_number (int_text i) = Some (PInt i, [])"
proof -
  assume small: "plen (nat_text \<bar>i\<bar>) \<le> 4300"
  let ?t = "nat_text \<bar>i\<bar>"
  have ne: "?t \<noteq> []" and dig: "list_all is_digit ?t" using nat_text_digits by auto
  then obtain c t where ct: "?t = c # t" by (cases ?t) auto
  have tw: "takeWhile is_digit ?t = ?t" using dig by (simp add: list_all_iff takeWhile_eq_all_conv)
  have part: "int_part ?t = ?t"
    using nat_text_zero [of "\<bar>i\<bar>"] tw ct by (auto simp: int_part_def loads_digits_def)
  have "c \<noteq> CHR ''-''" using dig ct by (auto simp: is_digit_def cpt_def)
  with ct have "signed (int_text i) = (i < 0)" "(if i < 0 then tl (int_text i) else int_text i) = ?t"
    by (auto simp: signed_def int_text_def abs_if split: if_splits)
  then show ?thesis
    using small part ne nat_text_value [of "\<bar>i\<bar>"] unfolding loads_number_parts
    by (auto simp: Let_def loads_fraction_def loads_exponent_def int_digits_def)
qed

lemma loads_word_number:
  assumes s: "list_all number_char s" "loads_number s = Some (v, [])" and r: "stops r"
  shows "loads_word (s @ r) = Some (v, r)"
proof -
  obtain c t where ct: "s = c # t"
    using s(2) by (cases s) (auto simp: loads_number_def Let_def loads_fraction_def loads_exponent_def)
  then have c: "c \<in> set ''0123456789.e+-''"
    using s(1) number_char_set by auto
  have "t \<noteq> []" if "c = CHR ''-''"
    using s(2) ct that by (auto simp: loads_number_parts signed_def int_part_def Let_def)
  then obtain d u where "c = CHR ''-'' \<Longrightarrow> t = d # u" by (cases t) auto
  then have "\<not> prefix ''-Infinity'' (s @ r)"
    using s(1) number_char_set [of d] ct by auto
  moreover have "\<not> prefix ''null'' (s @ r)" "\<not> prefix ''true'' (s @ r)" "\<not> prefix ''false'' (s @ r)"
    "\<not> prefix ''NaN'' (s @ r)" "\<not> prefix ''Infinity'' (s @ r)"
    using c ct by auto
  ultimately show ?thesis using number_stop [OF s(2) r] by (simp add: loads_word_def)
qed

section \<open>Documents\<close>

text \<open>\<open>reads t v\<close>: wherever a value may stand, the reader takes the text \<open>t\<close> for \<open>v\<close>.\<close>

definition blank :: "string \<Rightarrow> bool" where
  "blank w \<longleftrightarrow> set w \<subseteq> {CHR '' '', lf}"

definition reads :: "string \<Rightarrow> pyval \<Rightarrow> bool" where
  "reads t v \<longleftrightarrow> t \<noteq> [] \<and> hd t \<notin> set '' \<newline>]}'' \<and> json_ws t = t \<and>
     (\<forall>n r. stops r \<longrightarrow> 2 * length t \<le> n \<longrightarrow> loads_value n (t @ r) = Some (v, r))"

lemma json_ws_blank: "blank w \<Longrightarrow> json_ws (w @ s) = json_ws s"
  by (induction w) (auto simp: blank_def json_ws_def cpt_def)

lemma json_ws_append: "t \<noteq> [] \<Longrightarrow> json_ws t = t \<Longrightarrow> json_ws (t @ s) = t @ s"
proof (cases t)
  case (Cons c u)
  assume "json_ws t = t"
  moreover have "length (json_ws u) \<le> length u" by (simp add: json_ws_def length_dropWhile_le)
  then have "json_ws u \<noteq> c # u" by auto
  ultimately show ?thesis using Cons by (auto simp: json_ws_def split: if_splits)
qed simp

lemma join_simps [simp]:
  "join sep [] = []" "join sep [w] = w" "join sep (w # x # ws) = w @ sep @ join sep (x # ws)"
  by (simp_all add: join_def)

lemma stops_blank: "blank w \<Longrightarrow> stops r \<Longrightarrow> stops (w @ r)"
  by (cases w) (auto simp: blank_def stops_def)

lemma reads_items:
  assumes "list_all2 reads ts vs" "ts \<noteq> []" "blank sep" "blank w"
    and "2 * length (join ('','' @ sep) ts) + 1 \<le> n"
  shows "loads_items n (join ('','' @ sep) ts @ w @ CHR '']'' # r) = Some (vs, r)"
  using assms
proof (induction ts vs arbitrary: n rule: list_all2_induct)
  case (Cons t ts v vs)
  obtain m where n: "n = Suc m" using Cons.prems(4) by (cases n) auto
  have t: "t \<noteq> []" "json_ws t = t" using Cons.hyps(1) by (auto simp: reads_def)
  have one: "loads_value m (t @ r') = Some (v, r')" if "stops r'" "2 * length t \<le> m" for r'
    using Cons.hyps(1) that by (auto simp: reads_def)
  show ?case
  proof (cases ts)
    case Nil
    have "stops (w @ CHR '']'' # r)" using Cons.prems(3) by (intro stops_blank) (simp_all add: stops_def)
    with Nil Cons.hyps(2) Cons.prems(3,4) n one show ?thesis
      by (simp add: json_ws_blank) (simp add: json_ws_def cpt_def)
  next
    case (Cons t2 ts2)
    have t2: "t2 \<noteq> []" "json_ws t2 = t2" using Cons.hyps(2) Cons by (auto simp: reads_def list_all2_Cons1)
    let ?rest = "join ('','' @ sep) ts @ w @ CHR '']'' # r"
    have "json_ws (sep @ ?rest) = ?rest"
      using Cons.prems(2) t2 Cons json_ws_append [of t2]
      by (cases ts2) (simp_all add: json_ws_blank)
    moreover have "loads_items m ?rest = Some (vs, r)"
      using Cons.prems Cons n t by (intro Cons.IH) (cases t; simp)+
    moreover have "stops (CHR '','' # sep @ ?rest)" by (simp add: stops_def)
    ultimately show ?thesis using Cons n one Cons.prems(4)
      by (simp) (simp add: json_ws_def cpt_def)
  qed
qed simp

text \<open>A member of an object, in either layout.\<close>

definition reads_member :: "string \<Rightarrow> string \<Rightarrow> string \<times> pyval \<Rightarrow> bool" where
  "reads_member w t kv \<longleftrightarrow> (\<exists>u. t = json_string (fst kv) @ CHR '':'' # w @ u \<and> reads u (snd kv))"

lemma dset_new: "k \<notin> set (map fst d) \<Longrightarrow> dset d k v = d @ [(k, v)]"
  by (induction d) (auto simp: dset_def)

lemma reads_members:
  assumes "list_all2 (reads_member wc) ts kvs" "ts \<noteq> []" "blank sep" "blank w" "blank wc"
    and "2 * length (join ('','' @ sep) ts) + 1 \<le> n" "distinct (map fst (acc @ kvs))"
  shows "loads_members n acc (join ('','' @ sep) ts @ w @ CHR ''}'' # r) = Some (acc @ kvs, r)"
  using assms
proof (induction ts kvs arbitrary: n acc rule: list_all2_induct)
  case (Cons t ts kv kvs)
  obtain m where n: "n = Suc m" using Cons.prems(5) by (cases n) auto
  obtain k v where kv: "kv = (k, v)" by (cases kv)
  obtain u where u: "t = json_string k @ CHR '':'' # wc @ u" "reads u v"
    using Cons.hyps(1) kv by (auto simp: reads_member_def)
  define q where "q = concat (map escape_char k)"
  have t: "t = CHR 0x22 # q @ CHR 0x22 # CHR '':'' # wc @ u"
    using u(1) by (simp add: json_string_def q_def)
  have str: "loads_string (q @ CHR 0x22 # x) = Some (k, x)" for x
    unfolding q_def by (rule loads_string_escaped)
  have u': "u \<noteq> []" "json_ws u = u" using u(2) by (auto simp: reads_def)
  have one: "loads_value m (u @ r') = Some (v, r')" if "stops r'" "2 * length t \<le> m + 2" for r'
    using u(2) that t by (auto simp: reads_def)
  have new: "dset acc k v = acc @ [(k, v)]" using Cons.prems(6) kv by (intro dset_new) auto
  have colon: "json_ws (CHR '':'' # x) = CHR '':'' # x" "json_ws (CHR ''}'' # x) = CHR ''}'' # x"
    "json_ws (CHR '','' # x) = CHR '','' # x" for x by (simp_all add: json_ws_def cpt_def)
  have after: "json_ws (wc @ u @ x) = u @ x" for x
    using Cons.prems(4) u' by (simp add: json_ws_blank json_ws_append)
  show ?case
  proof (cases ts)
    case Nil
    have "stops (w @ CHR ''}'' # r)" using Cons.prems(3) by (intro stops_blank) (simp_all add: stops_def)
    with Nil Cons.hyps(2) Cons.prems(3,5) n one t str new kv show ?thesis
      by (simp add: json_ws_blank colon after)
  next
    case (Cons t2 ts2)
    obtain kv2 u2 where t2: "t2 = json_string (fst kv2) @ u2"
      using Cons.hyps(2) Cons by (auto simp: reads_member_def list_all2_Cons1)
    have quote: "json_ws (t2 @ x) = t2 @ x" for x
      using t2 by (simp add: json_string_def json_ws_def cpt_def)
    let ?rest = "join ('','' @ sep) ts @ w @ CHR ''}'' # r"
    have "json_ws (sep @ ?rest) = ?rest"
      using Cons.prems(2) Cons quote by (cases ts2) (simp_all add: json_ws_blank)
    moreover have "loads_members m (acc @ [(k, v)]) ?rest = Some ((acc @ [(k, v)]) @ kvs, r)"
      using Cons.prems Cons n t kv by (intro Cons.IH) (simp_all add: distinct_append)
    moreover have "stops (CHR '','' # sep @ ?rest)" by (simp add: stops_def)
    ultimately show ?thesis using Cons n one Cons.prems(5) t str new kv
      by (simp add: colon after)
  qed
qed simp

lemma reads_atom:
  assumes "t \<noteq> []" "hd t \<notin> set '' \<newline>]}''" "json_ws t = t"
    and "\<And>n r. stops r \<Longrightarrow> loads_value (Suc n) (t @ r) = Some (v, r)"
  shows "reads t v"
  unfolding reads_def
proof (intro conjI allI impI)
  fix n r
  assume "stops r" "2 * length t \<le> n"
  then show "loads_value n (t @ r) = Some (v, r)" using assms(1,4) by (cases n) auto
qed (use assms in auto)

lemma reads_word:
  "reads ''null'' PNone" "reads ''true'' (PBool True)" "reads ''false'' (PBool False)"
  by (rule reads_atom; simp add: json_ws_def cpt_def loads_word_def)+

lemma reads_string: "reads (json_string s) (PStr s)"
  by (rule reads_atom) (simp_all add: json_string_def json_ws_def cpt_def loads_string_escaped)

lemma reads_number:
  assumes "list_all number_char s" "loads_number s = Some (v, [])"
  shows "reads s v"
proof -
  obtain c t where ct: "s = c # t"
    using assms(2) by (cases s) (auto simp: loads_number_def Let_def loads_fraction_def loads_exponent_def)
  have c: "c \<in> set ''0123456789.e+-''" using assms(1) number_char_set ct by auto
  show ?thesis
  proof (rule reads_atom)
    show "loads_value (Suc n) (s @ r) = Some (v, r)" if "stops r" for n r
      using loads_word_number [OF assms that] c ct by auto
    show "json_ws s = s" using c ct by (auto simp: json_ws_def cpt_def)
  qed (use c ct in auto)
qed

lemma reads_list:
  assumes "list_all2 reads ts vs" "ts \<noteq> []" "blank sep" "blank w" "blank wa"
  shows "reads (CHR ''['' # wa @ join ('','' @ sep) ts @ w @ '']'') (PList vs)"
  unfolding reads_def
proof (intro conjI allI impI)
  fix n r
  let ?j = "join ('','' @ sep) ts"
  let ?t = "CHR ''['' # wa @ ?j @ w @ '']''"
  assume n: "2 * length ?t \<le> n"
  obtain m where m: "n = Suc m" using n by (cases n) auto
  obtain t ts' where ts: "ts = t # ts'" using assms(2) by (cases ts) auto
  then have t: "t \<noteq> []" "hd t \<notin> set '' \<newline>]}''" "json_ws t = t"
    using assms(1) by (auto simp: list_all2_Cons1 reads_def)
  obtain x where x: "?j = t @ x" using ts by (cases ts') auto
  have "loads_items m (?j @ w @ CHR '']'' # r) = Some (vs, r)"
    using n m by (intro reads_items [OF assms(1-4)]) simp
  moreover have "json_ws (wa @ ?j @ w @ CHR '']'' # r) = ?j @ w @ CHR '']'' # r"
    using assms(5) t x by (simp add: json_ws_blank json_ws_append)
  moreover obtain c y where "?j @ w @ CHR '']'' # r = c # y" "c \<noteq> CHR '']''"
    using t x by (cases t) auto
  ultimately show "loads_value n (?t @ r) = Some (PList vs, r)" using m by simp
qed (simp_all add: json_ws_def cpt_def)

lemma reads_dict:
  assumes "list_all2 (reads_member wc) ts kvs" "ts \<noteq> []" "blank sep" "blank w" "blank wa" "blank wc"
    and "distinct (map fst kvs)"
  shows "reads (CHR ''{'' # wa @ join ('','' @ sep) ts @ w @ ''}'') (PDict kvs)"
  unfolding reads_def
proof (intro conjI allI impI)
  fix n r
  let ?j = "join ('','' @ sep) ts"
  let ?t = "CHR ''{'' # wa @ ?j @ w @ ''}''"
  assume n: "2 * length ?t \<le> n"
  obtain m where m: "n = Suc m" using n by (cases n) auto
  obtain t ts' where ts: "ts = t # ts'" using assms(2) by (cases ts) auto
  then obtain t' where t: "t = CHR 0x22 # t'"
    using assms(1) by (auto simp: list_all2_Cons1 reads_member_def json_string_def)
  obtain x where x: "?j = CHR 0x22 # x" using ts t by (cases ts') auto
  have "loads_members m [] (?j @ w @ CHR ''}'' # r) = Some ([] @ kvs, r)"
    using n m assms by (intro reads_members [where wc = wc]) simp_all
  moreover have "json_ws (wa @ ?j @ w @ CHR ''}'' # r) = ?j @ w @ CHR ''}'' # r"
    using assms(5) x by (simp add: json_ws_blank) (simp add: json_ws_def cpt_def)
  ultimately show "loads_value n (?t @ r) = Some (PDict kvs, r)" using m x by simp
qed (simp_all add: json_ws_def cpt_def)

text \<open>The float text is a number, the empty containers are read at once.\<close>

lemma float_text_number: "is_finite f \<Longrightarrow> list_all number_char (float_text f)"
  using pos_float_text_number by (cases f) (auto simp: float_text_def is_finite_def number_signs)

lemma reads_back_finite: "reads_back f \<Longrightarrow> is_finite f"
  by (cases f) (auto simp: reads_back_def float_text_def is_finite_def loads_number_def Let_def
      loads_digits_def is_digit_def cpt_def)

lemma reads_empty: "reads ''[]'' (PList [])" "reads ''{}'' (PDict [])"
  by (rule reads_atom; simp add: json_ws_def cpt_def)+

lemma sort_entries:
  "sort_key fst (map (\<lambda>(k, v). (k, h k v)) d) = map (\<lambda>(k, v). (k, h k v)) (sort_key fst d)"
proof -
  have ins: "insort_key fst (fst kv, h (fst kv) (snd kv)) (map (\<lambda>(k, v). (k, h k v)) xs) =
      map (\<lambda>(k, v). (k, h k v)) (insort_key fst kv xs)" for kv xs
    by (induction xs) (auto simp: case_prod_unfold)
  show ?thesis
    by (induction d) (use ins in \<open>auto simp: sort_key_def case_prod_unfold\<close>)
qed

lemma sorted_distinct_keys: "distinct (map fst d) \<Longrightarrow> distinct (map fst (sort_key fst d))"
  by (metis distinct_map distinct_sort set_sort)

lemma list_all2_maps:
  "(\<And>x. x \<in> set xs \<Longrightarrow> R (f x) (g x)) \<Longrightarrow> list_all2 R (map f xs) (map g xs)"
  by (induction xs) auto

lemma reads_members_sorted:
  assumes "\<And>k v. (k, v) \<in> set d \<Longrightarrow> reads (g v) (h v)"
  shows "list_all2 (reads_member wc)
    (map snd (sort_key fst (map (\<lambda>(k, v). (k, json_string k @ CHR '':'' # wc @ g v)) d)))
    (sort_key fst (map (\<lambda>(k, v). (k, h v)) d))"
  unfolding sort_entries [where h = "\<lambda>k v. json_string k @ CHR '':'' # wc @ g v"]
    sort_entries [where h = "\<lambda>k. h"] map_map
  using assms by (intro list_all2_maps) (auto simp: reads_member_def)

lemma sorted_texts_nonempty: "d \<noteq> [] \<Longrightarrow> map snd (sort_key fst (map f d)) \<noteq> []"
  by (metis length_0_conv length_map length_sort)

lemma reads_int: "plen (nat_text \<bar>i\<bar>) \<le> 4300 \<Longrightarrow> reads (int_text i) (PInt i)"
  by (rule reads_number [OF _ int_text_reads]) (auto simp: int_text_def nat_text_number number_signs)

lemma reads_float: "reads_back f \<Longrightarrow> reads (float_text f) (PFloat f)"
  using float_text_number reads_back_finite by (auto simp: reads_back_def intro: reads_number)

lemma blank_new_line: "blank (new_line n)" "blank []" "blank '' ''"
  by (auto simp: blank_def new_line_def)

lemma reads_pretty: "json_safe v \<Longrightarrow> reads (json_pretty n v) (canon v)"
proof (induction n v rule: json_pretty.induct)
  case (1 n vs)
  then have "list_all2 reads (map (json_pretty (Suc n)) vs) (map canon vs)"
    by (cases "vs = []") (auto intro!: list_all2_maps simp: list_all_iff)
  from reads_list [OF this, of "new_line (Suc n)" "new_line n" "new_line (Suc n)"] show ?case
    by (cases "vs = []") (simp_all add: blank_new_line reads_empty)
next
  case (2 n vs)
  then have "list_all2 reads (map (json_pretty (Suc n)) vs) (map canon vs)"
    by (cases "vs = []") (auto intro!: list_all2_maps simp: list_all_iff)
  from reads_list [OF this, of "new_line (Suc n)" "new_line n" "new_line (Suc n)"] show ?case
    by (cases "vs = []") (simp_all add: blank_new_line reads_empty)
next
  case (3 n d)
  have "list_all2 (reads_member '' '')
      (map snd (sort_key fst (map (\<lambda>(k, v). (k, json_string k @ CHR '':'' # '' '' @ json_pretty (Suc n) v)) d)))
      (sort_key fst (map (\<lambda>(k, v). (k, canon v)) d))"
  proof (rule reads_members_sorted)
    fix k v assume "(k, v) \<in> set d"
    with 3 show "reads (json_pretty (Suc n) v) (canon v)" by (force simp: list_all_iff)
  qed
  moreover have "distinct (map fst (sort_key fst (map (\<lambda>(k, v). (k, canon v)) d)))"
    using 3(2) by (intro sorted_distinct_keys) (simp add: case_prod_unfold comp_def)
  moreover have "map snd (sort_key fst (map (\<lambda>(k, v). (k, json_string k @ CHR '':'' # '' '' @ json_pretty (Suc n) v)) d)) \<noteq> []"
    if "d \<noteq> []" using that by (intro sorted_texts_nonempty)
  ultimately have "reads (CHR ''{'' # new_line (Suc n) @ join ('','' @ new_line (Suc n))
      (map snd (sort_key fst (map (\<lambda>(k, v). (k, json_string k @ CHR '':'' # '' '' @ json_pretty (Suc n) v)) d))) @
        new_line n @ ''}'') (canon (PDict d))" if "d \<noteq> []"
    unfolding canon.simps using that by (intro reads_dict [where wc = "'' ''"]) (simp_all add: blank_new_line)
  then show ?case
    unfolding json_pretty.simps(3) by (cases "d = []") (simp_all add: reads_empty)
qed (simp_all add: reads_word reads_string reads_int reads_float)

lemma reads_dumps: "json_safe v \<Longrightarrow> reads (json_dumps v) (canon v)"
proof (induction v rule: json_dumps.induct)
  case (6 vs)
  then have "list_all2 reads (map json_dumps vs) (map canon vs)"
    by (intro list_all2_maps) (auto simp: list_all_iff)
  from reads_list [OF this, of "[]" "[]" "[]"] show ?case
    by (cases "vs = []") (simp_all add: blank_new_line reads_empty)
next
  case (7 vs)
  then have "list_all2 reads (map json_dumps vs) (map canon vs)"
    by (intro list_all2_maps) (auto simp: list_all_iff)
  from reads_list [OF this, of "[]" "[]" "[]"] show ?case
    by (cases "vs = []") (simp_all add: blank_new_line reads_empty)
next
  case (8 d)
  have "list_all2 (reads_member [])
      (map snd (sort_key fst (map (\<lambda>(k, v). (k, json_string k @ CHR '':'' # [] @ json_dumps v)) d)))
      (sort_key fst (map (\<lambda>(k, v). (k, canon v)) d))"
  proof (rule reads_members_sorted)
    fix k v assume "(k, v) \<in> set d"
    with 8 show "reads (json_dumps v) (canon v)" by (force simp: list_all_iff)
  qed
  moreover have "distinct (map fst (sort_key fst (map (\<lambda>(k, v). (k, canon v)) d)))"
    using 8(2) by (intro sorted_distinct_keys) (simp add: case_prod_unfold comp_def)
  moreover have "map snd (sort_key fst (map (\<lambda>(k, v). (k, json_string k @ CHR '':'' # [] @ json_dumps v)) d)) \<noteq> []"
    if "d \<noteq> []" using that by (intro sorted_texts_nonempty)
  ultimately have "reads (CHR ''{'' # [] @ join ('','' @ [])
      (map snd (sort_key fst (map (\<lambda>(k, v). (k, json_string k @ CHR '':'' # [] @ json_dumps v)) d))) @
        [] @ ''}'') (canon (PDict d))" if "d \<noteq> []"
    unfolding canon.simps using that by (intro reads_dict [where wc = "[]"]) (simp_all add: blank_new_line)
  then show ?case
    unfolding json_dumps.simps(8) append.simps append_Nil2
    by (cases "d = []") (simp add: reads_empty, blast)
qed (simp_all add: reads_word reads_string reads_int reads_float)

lemma json_loads_reads: "reads t v \<Longrightarrow> json_loads t = Some v"
proof -
  assume t: "reads t v"
  then have "json_ws t = t" "loads_value (Suc (2 * length t)) (t @ []) = Some (v, [])"
    unfolding reads_def by (blast, metis (no_types, lifting) le_SucI order_refl stops_Nil)
  moreover have "json_ws [] = []" by (simp add: json_ws_def)
  ultimately show ?thesis by (simp add: json_loads_def)
qed

lemma json_roundtrip:
  "json_safe v \<Longrightarrow> json_loads (json_pretty n v) = Some (canon v)"
  "json_safe v \<Longrightarrow> json_loads (json_dumps v) = Some (canon v)"
  using reads_pretty reads_dumps json_loads_reads by blast+

section \<open>The canonical form is stable\<close>

lemma sort_sorted [simp]: "sort_key f (sort_key f xs) = sort_key f xs"
  by (simp add: sort_key_id_if_sorted)

lemma canon_dict: "canon (PDict d) = PDict (map (\<lambda>(k, v). (k, canon v)) (sort_key fst d))"
  by (simp add: sort_entries)

lemma canon_canon [simp]: "canon (canon v) = canon v"
proof (induction v rule: canon.induct)
  case (3 d)
  have entry: "canon (canon v) = canon v" if "(k, v) \<in> set (sort_key fst d)" for k v
    using 3 that by auto
  have "canon (canon (PDict d)) = PDict (map (\<lambda>(k, v). (k, canon v)) (map (\<lambda>(k, v). (k, canon v)) (sort_key fst d)))"
    unfolding canon_dict [of d] canon_dict [of "map _ _"] sort_entries by simp
  also have "\<dots> = PDict (map (\<lambda>(k, v). (k, canon v)) (sort_key fst d))"
    using entry by auto
  finally show ?case unfolding canon_dict [of d, symmetric] .
qed simp_all

lemma canon_safe [simp]: "json_safe v \<Longrightarrow> json_safe (canon v)"
proof (induction v rule: canon.induct)
  case (3 d)
  have "distinct (map fst (sort_key fst d))" using 3(2) by (intro sorted_distinct_keys) simp
  moreover have "json_safe (canon v)" if "(k, v) \<in> set d" for k v
    using 3 that by (force simp: list_all_iff)
  ultimately show ?case unfolding canon_dict by (auto simp: list_all_iff case_prod_unfold comp_def)
qed (auto simp: list_all_iff)

lemma dumps_canon [simp]: "json_dumps (canon v) = json_dumps v"
proof (induction v rule: canon.induct)
  case (1 vs)
  then have "map (json_dumps \<circ> canon) vs = map json_dumps vs" by (intro map_cong) simp_all
  then show ?case unfolding canon.simps json_dumps.simps map_map by (rule arg_cong)
next
  case (2 vs)
  then have "map (json_dumps \<circ> canon) vs = map json_dumps vs" by (intro map_cong) simp_all
  then show ?case unfolding canon.simps json_dumps.simps map_map by (rule arg_cong)
next
  case (3 d)
  have entry: "json_dumps (canon v) = json_dumps v" if "(k, v) \<in> set (sort_key fst d)" for k v
    using 3 that by auto
  let ?h = "\<lambda>k v. json_string k @ '':'' @ json_dumps v"
  have "sort_key fst (map (\<lambda>(k, v). (k, ?h k v)) (map (\<lambda>(k, v). (k, canon v)) (sort_key fst d))) =
      map (\<lambda>(k, v). (k, ?h k v)) (map (\<lambda>(k, v). (k, canon v)) (sort_key fst d))"
    unfolding sort_entries [of ?h] sort_entries [of "\<lambda>k. canon"] by simp
  also have "\<dots> = map (\<lambda>(k, v). (k, ?h k v)) (sort_key fst d)" using entry by auto
  also have "\<dots> = sort_key fst (map (\<lambda>(k, v). (k, ?h k v)) d)" by (simp only: sort_entries [of ?h])
  finally show ?case unfolding canon_dict json_dumps.simps(8) by simp
qed simp_all

lemma json_safe_finite: "json_safe v \<Longrightarrow> finite_floats v"
  by (induction v rule: json_safe.induct) (auto simp: list_all_iff dest: reads_back_finite)

lemma json_safe_get: "json_safe (PDict d) \<Longrightarrow> json_safe (dget d k)"
  by (cases "map_of d k") (auto simp: dget_def list_all_iff dest: map_of_SomeD)

lemma canon_get: "dget (map (\<lambda>(k, v). (k, canon v)) d) k = canon (dget d k)"
  by (induction d) auto

lemma map_of_sort: "distinct (map fst d) \<Longrightarrow> map_of (sort_key fst d) = map_of d"
  by (rule map_of_eqI) (auto simp: sorted_distinct_keys map_of_eq_Some_iff dest: map_of_SomeD)

lemma canon_lookup:
  assumes "canon (PDict d) = PDict e" "distinct (map fst d)"
  shows "dget e k = canon (dget d k)" "has_key e k \<longleftrightarrow> has_key d k"
proof -
  have e: "e = map (\<lambda>(k, v). (k, canon v)) (sort_key fst d)" using assms(1) unfolding canon_dict by simp
  show "dget e k = canon (dget d k)"
    unfolding e canon_get by (simp add: dget_def map_of_sort [OF assms(2)])
  show "has_key e k \<longleftrightarrow> has_key d k" by (force simp: e has_key_iff dkeys_def)
qed

end
