(* ===== verification/Episode_Evidence.thy ===== *)
theory Episode_Evidence
  imports Py_Text
begin

text \<open>
  \<^verbatim>\<open>src/episode_evidence.py\<close>: the sanitized, bounded copy of the rows of an episode that is
  kept as evidence with a memory. Keys that look like credentials, operator e-mail or the
  resolver's own bookkeeping are dropped at every depth; a bound that is exceeded raises.
\<close>

section \<open>The policy\<close>

definition max_episode_evidence_chars :: int where "max_episode_evidence_chars = 160000"
definition max_episode_string_chars :: int where "max_episode_string_chars = 32000"
definition max_episode_collection_items :: int where "max_episode_collection_items = 4096"
definition max_episode_depth :: int where "max_episode_depth = 16"

definition sensitive_key_parts :: "string list" where
  "sensitive_key_parts = [''api_key'', ''apikey'', ''authorization'', ''client_secret'', ''cookie'',
     ''credential'', ''passwd'', ''password'', ''private_key'', ''service_role'']"

definition resolver_bookkeeping_keys :: "string list" where
  "resolver_bookkeeping_keys = [''matcher_status'', ''matcher_message'', ''resolver_suggestion'',
     ''memory_status'', ''memory_resolution_id'', ''memory_commit_sha'', ''memory_message'',
     ''memory_ingested_at'', ''updated_at'']"

definition is_sensitive_key :: "string \<Rightarrow> bool" where
  "is_sensitive_key key \<longleftrightarrow>
     (let normalized = replace_char (CHR ''-'') (CHR ''_'') (lower (strip key)) in
      normalized \<in> set resolver_bookkeeping_keys \<or>
      normalized = ''operator_email'' \<or>
      suffix ''_email'' normalized \<or>
      normalized = ''token'' \<or>
      prefix ''token_'' normalized \<or>
      suffix ''_token'' normalized \<or>
      list_ex (\<lambda>part. find_at part normalized \<noteq> None) sensitive_key_parts)"

section \<open>Sanitizing\<close>

function sanitize_value :: "int \<Rightarrow> pyval \<Rightarrow> pyval result" where
  "sanitize_value depth value =
     guardE (\<not> depth > max_episode_depth) ValueErr
     (case value of
        PStr s \<Rightarrow> guardE (\<not> plen s > max_episode_string_chars) ValueErr (Inr value)
      | PFloat f \<Rightarrow> guardE (is_finite f) ValueErr (Inr value)
      | PDict d \<Rightarrow>
          guardE (\<not> plen d > max_episode_collection_items) ValueErr
          (bindE (mapE (\<lambda>(k, v). bindE (sanitize_value (depth + 1) v) (\<lambda>w. Inr (k, w)))
             (filter (\<lambda>(k, v). \<not> is_sensitive_key k) d)) (\<lambda>e. Inr (PDict e)))
      | PList vs \<Rightarrow>
          guardE (\<not> plen vs > max_episode_collection_items) ValueErr
          (bindE (mapE (sanitize_value (depth + 1)) vs) (\<lambda>ws. Inr (PList ws)))
      | PTuple vs \<Rightarrow>
          guardE (\<not> plen vs > max_episode_collection_items) ValueErr
          (bindE (mapE (sanitize_value (depth + 1)) vs) (\<lambda>ws. Inr (PList ws)))
      | _ \<Rightarrow> Inr value)"
  by auto
termination
  by (relation "measure (\<lambda>(depth, value). size value)")
    (auto intro: size_mem size_dict_mem)

declare sanitize_value.simps [simp del]

definition validate_episode_evidence :: "pyval \<Rightarrow> pydict result" where
  "validate_episode_evidence value =
     bindE (sanitize_value 0 value) (\<lambda>sanitized.
       case sanitized of
         PDict d \<Rightarrow> bindE (dumps_compact (PDict d)) (\<lambda>serialized.
           guardE (\<not> plen serialized > max_episode_evidence_chars) ValueErr (Inr d))
       | _ \<Rightarrow> Inl ValueErr)"

definition sanitize_episode_record :: "pyval \<Rightarrow> pydict result" where
  "sanitize_episode_record value =
     guardE (is_dict value) ValueErr
     (bindE (sanitize_value 0 value) (\<lambda>sanitized.
       case sanitized of PDict d \<Rightarrow> Inr d | _ \<Rightarrow> Inl ValueErr))"

definition sanitize_episode_value :: "pyval \<Rightarrow> pyval result" where
  "sanitize_episode_value value = sanitize_value 0 value"

definition build_episode_evidence :: "pydict option \<Rightarrow> pydict \<Rightarrow> pydict result" where
  "build_episode_evidence failure_event resolution_event =
     bindE (case failure_event of
         None \<Rightarrow> Inr PNone
       | Some row \<Rightarrow> bindE (sanitize_episode_record (PDict row)) (\<lambda>d. Inr (PDict d))) (\<lambda>failure.
     bindE (sanitize_episode_record (PDict resolution_event)) (\<lambda>resolution.
       validate_episode_evidence (PDict [(''failure_event'', failure),
         (''resolution_event'', PDict resolution)])))"

section \<open>What sanitized evidence satisfies\<close>

fun clean_value :: "pyval \<Rightarrow> bool" where
  "clean_value (PFloat f) = is_finite f"
| "clean_value (PStr s) = (plen s \<le> max_episode_string_chars)"
| "clean_value (PList vs) = (plen vs \<le> max_episode_collection_items \<and> list_all clean_value vs)"
| "clean_value (PTuple vs) = False"
| "clean_value (PDict d) = (plen d \<le> max_episode_collection_items \<and>
     list_all (\<lambda>(k, v). \<not> is_sensitive_key k \<and> clean_value v) d)"
| "clean_value _ = True"

lemma mapE_length: "mapE f xs = Inr ys \<Longrightarrow> length ys = length xs"
  by (auto simp: mapE_eq_Inr dest: list_all2_lengthD)

lemma sanitize_fields_eq:
  "mapE (\<lambda>(k, v). bindE (f v) (\<lambda>w. Inr (k, w))) d = Inr e \<longleftrightarrow>
     list_all2 (\<lambda>(k, v) (k', w). k = k' \<and> f v = Inr w) d e"
  by (auto simp add: mapE_eq_Inr list_all2_conv_all_nth case_prod_unfold bindE_eq_Inr prod_eq_iff)

lemma sanitize_value_clean: "sanitize_value depth v = Inr w \<Longrightarrow> clean_value w"
proof (induction depth v arbitrary: w rule: sanitize_value.induct)
  case (1 depth v)
  show ?case
  proof (cases v)
    case (PDict d)
    with 1(4) obtain e where w: "w = PDict e" "plen d \<le> max_episode_collection_items" "\<not> depth > max_episode_depth"
      and e: "list_all2 (\<lambda>(k, v) (k', w). k = k' \<and> sanitize_value (depth + 1) v = Inr w)
        (filter (\<lambda>(k, v). \<not> is_sensitive_key k) d) e"
      by (auto simp: sanitize_value.simps [of depth] guardE_eq_Inr bindE_eq_Inr sanitize_fields_eq)
    have "length e \<le> length d" using list_all2_lengthD [OF e] length_filter_le by metis
    moreover have "\<not> is_sensitive_key k \<and> clean_value x" if "(k, x) \<in> set e" for k x
      using list_all2_mem2 [OF e that] 1(3) [OF _ PDict] w by auto
    ultimately show ?thesis using w by (auto simp: plen_def list_all_iff)
  next
    case (PList vs)
    with 1(4) obtain ws where w: "w = PList ws" "plen vs \<le> max_episode_collection_items" "\<not> depth > max_episode_depth"
      and ws: "list_all2 (\<lambda>v w. sanitize_value (depth + 1) v = Inr w) vs ws"
      by (auto simp: sanitize_value.simps [of depth] result_simps mapE_eq_Inr)
    have "clean_value x" if "x \<in> set ws" for x
      using list_all2_mem2 [OF ws that] 1(1) PList w by auto
    then show ?thesis using w list_all2_lengthD [OF ws] by (auto simp: plen_def list_all_iff)
  next
    case (PTuple vs)
    with 1(4) obtain ws where w: "w = PList ws" "plen vs \<le> max_episode_collection_items" "\<not> depth > max_episode_depth"
      and ws: "list_all2 (\<lambda>v w. sanitize_value (depth + 1) v = Inr w) vs ws"
      by (auto simp: sanitize_value.simps [of depth] result_simps mapE_eq_Inr)
    have "clean_value x" if "x \<in> set ws" for x
      using list_all2_mem2 [OF ws that] 1(2) PTuple w by auto
    then show ?thesis using w list_all2_lengthD [OF ws] by (auto simp: plen_def list_all_iff)
  qed (use 1(4) in \<open>auto simp: sanitize_value.simps [of depth] result_simps\<close>)
qed

text \<open>Sanitizing once is enough: sanitized evidence passes unchanged.\<close>

lemma mapE_fixed:
  "list_all2 (\<lambda>x y. f x = Inr y) xs ys \<Longrightarrow> (\<And>x y. x \<in> set xs \<Longrightarrow> f x = Inr y \<Longrightarrow> f y = Inr y) \<Longrightarrow>
   mapE f ys = Inr ys"
  unfolding mapE_eq_Inr list_all2_same by (auto dest!: list_all2_mem2 [of _ xs ys])

lemma sanitize_value_idem: "sanitize_value depth v = Inr w \<Longrightarrow> sanitize_value depth w = Inr w"
proof (induction depth v arbitrary: w rule: sanitize_value.induct)
  case (1 depth v)
  show ?case
  proof (cases v)
    case (PDict d)
    let ?keep = "filter (\<lambda>(k, v). \<not> is_sensitive_key k) d"
    from PDict 1(4) obtain e where w: "w = PDict e" "plen d \<le> max_episode_collection_items"
        "\<not> depth > max_episode_depth"
      and e: "list_all2 (\<lambda>(k, v) (k', w). k = k' \<and> sanitize_value (depth + 1) v = Inr w) ?keep e"
      by (auto simp: sanitize_value.simps [of depth] guardE_eq_Inr bindE_eq_Inr sanitize_fields_eq)
    have len: "length e \<le> length d" using list_all2_lengthD [OF e] length_filter_le by metis
    have entry: "\<not> is_sensitive_key k \<and> sanitize_value (depth + 1) x = Inr x" if "(k, x) \<in> set e" for k x
      using list_all2_mem2 [OF e that] 1(3) [OF _ PDict] w by auto
    have "filter (\<lambda>(k, v). \<not> is_sensitive_key k) e = e" using entry by (auto intro: filter_True)
    moreover have "mapE (\<lambda>(k, v). bindE (sanitize_value (depth + 1) v) (\<lambda>w. Inr (k, w))) e = Inr e"
      unfolding sanitize_fields_eq by (rule list_all2_all_nthI) (use entry in \<open>auto dest: nth_mem\<close>)
    ultimately show ?thesis using w len
      by (simp add: sanitize_value.simps [of depth] guardE_eq_Inr bindE_eq_Inr plen_def)
  next
    case (PList vs)
    with 1(4) obtain ws where w: "w = PList ws" "plen vs \<le> max_episode_collection_items"
        "\<not> depth > max_episode_depth"
      and ws: "list_all2 (\<lambda>v w. sanitize_value (depth + 1) v = Inr w) vs ws"
      by (auto simp: sanitize_value.simps [of depth] result_simps mapE_eq_Inr)
    have "mapE (sanitize_value (depth + 1)) ws = Inr ws"
      using 1(1) PList w by (intro mapE_fixed [OF ws]) auto
    then show ?thesis using w list_all2_lengthD [OF ws]
      by (simp add: sanitize_value.simps [of depth] guardE_eq_Inr bindE_eq_Inr plen_def)
  next
    case (PTuple vs)
    with 1(4) obtain ws where w: "w = PList ws" "plen vs \<le> max_episode_collection_items"
        "\<not> depth > max_episode_depth"
      and ws: "list_all2 (\<lambda>v w. sanitize_value (depth + 1) v = Inr w) vs ws"
      by (auto simp: sanitize_value.simps [of depth] result_simps mapE_eq_Inr)
    have "mapE (sanitize_value (depth + 1)) ws = Inr ws"
      using 1(2) PTuple w by (intro mapE_fixed [OF ws]) auto
    then show ?thesis using w list_all2_lengthD [OF ws]
      by (simp add: sanitize_value.simps [of depth] guardE_eq_Inr bindE_eq_Inr plen_def)
  qed (use 1(4) in \<open>auto simp: sanitize_value.simps [of depth] result_simps\<close>)
qed

lemma validate_episode_evidence_eq:
  "validate_episode_evidence v = Inr e \<longleftrightarrow> sanitize_value 0 v = Inr (PDict e) \<and>
     finite_floats (PDict e) \<and> plen (json_dumps (PDict e)) \<le> max_episode_evidence_chars"
proof (cases "sanitize_value 0 v")
  case (Inr w)
  then show ?thesis
    by (cases w) (auto simp: validate_episode_evidence_def dumps_compact_def guardE_eq_Inr bindE_eq_Inr
        simp del: json_dumps.simps finite_floats.simps)
qed (simp add: validate_episode_evidence_def)

text \<open>A field that is not sensitive is kept, with its sanitized value.\<close>

lemma map_of_filter_keys: "P k \<Longrightarrow> map_of (filter (\<lambda>(k, v). P k) d) k = map_of d k"
  by (induction d) auto

lemma fields_map_of:
  "list_all2 (\<lambda>(k, v) (k', w). k = k' \<and> f v = Inr w) d e \<Longrightarrow>
   (case map_of d k of None \<Rightarrow> map_of e k = None | Some v \<Rightarrow> \<exists>w. map_of e k = Some w \<and> f v = Inr w)"
  by (induction rule: list_all2_induct) (auto split: option.splits)

lemma sanitize_keeps_field:
  assumes "sanitize_value depth (PDict d) = Inr (PDict e)" and "\<not> is_sensitive_key k"
  shows "has_key e k \<longleftrightarrow> has_key d k"
    and "has_key d k \<Longrightarrow> sanitize_value (depth + 1) (dget d k) = Inr (dget e k)"
proof -
  from assms(1) have "list_all2 (\<lambda>(k, v) (k', w). k = k' \<and> sanitize_value (depth + 1) v = Inr w)
      (filter (\<lambda>(k, v). \<not> is_sensitive_key k) d) e"
    by (auto simp: sanitize_value.simps [of depth] guardE_eq_Inr bindE_eq_Inr sanitize_fields_eq)
  from fields_map_of [OF this, of k] assms(2)
  show "has_key e k \<longleftrightarrow> has_key d k"
    "has_key d k \<Longrightarrow> sanitize_value (depth + 1) (dget d k) = Inr (dget e k)"
    by (auto simp: map_of_filter_keys [where P = "\<lambda>k. \<not> is_sensitive_key k"] has_key_def dget_def
        split: option.splits)
qed

end
