(* ===== verification/Memory_Document.thy ===== *)
theory Memory_Document
  imports Json_Roundtrip Episode_Evidence Contract_Fields
begin

text \<open>
  \<^verbatim>\<open>src/memory_store.py\<close>, its pure part: the source of a memory normalised from a database
  row, the draft a model prepares, the Markdown document rendered from it and the parser of
  such documents. SHA-256 is a parameter. Paths are reduced to the stem of the file name.
\<close>

section \<open>UUID texts\<close>

text \<open>\<open>s.replace(old, "")\<close> and \<open>s.strip(chars)\<close>.\<close>

fun remove_at :: "nat \<Rightarrow> string \<Rightarrow> string \<Rightarrow> string" where
  "remove_at k old [] = []"
| "remove_at (Suc k) old (c # cs) = remove_at k old cs"
| "remove_at 0 old (c # cs) =
     (if prefix old (c # cs) then remove_at (length old - 1) old cs else c # remove_at 0 old cs)"

definition remove_all :: "string \<Rightarrow> string \<Rightarrow> string" where
  "remove_all old s = remove_at 0 old s"

definition strip_chars :: "string \<Rightarrow> string \<Rightarrow> string" where
  "strip_chars cs s = (let f = dropWhile (\<lambda>c. c \<in> set cs) in rev (f (rev (f s))))"

text \<open>\<open>int(s, 16)\<close>: a sign, a prefix \<^verbatim>\<open>0x\<close> and single underscores are accepted.\<close>

definition hex_groups :: "string \<Rightarrow> string option" where
  "hex_groups s = (let gs = split_on (CHR ''_'') s
     in if list_all (\<lambda>g. g \<noteq> [] \<and> list_all (\<lambda>c. hex_value c \<noteq> None) g) gs
        then Some (concat gs) else None)"

definition hex_number :: "string \<Rightarrow> int" where
  "hex_number ds = foldl (\<lambda>n c. 16 * n + the (hex_value c)) 0 ds"

definition unprefixed :: "string \<Rightarrow> string" where
  "unprefixed s = (if prefix ''0x'' s \<or> prefix ''0X'' s
     then (if prefix ''_'' (drop 2 s) then drop 3 s else drop 2 s) else s)"

definition parse_int16 :: "string \<Rightarrow> int option" where
  "parse_int16 s = (let (neg, r) = split_sign (strip s)
     in map_option (\<lambda>ds. if neg then - hex_number ds else hex_number ds) (hex_groups (unprefixed r)))"

text \<open>\<open>'%032x' % n\<close>, and the text of a UUID.\<close>

fun hex_text :: "nat \<Rightarrow> int \<Rightarrow> string" where
  "hex_text 0 n = []"
| "hex_text (Suc k) n = hex_text k (n div 16) @ [hex_digit (n mod 16)]"

definition uuid_string :: "int \<Rightarrow> string" where
  "uuid_string n = (let h = hex_text 32 n in
     take 8 h @ ''-'' @ take 4 (drop 8 h) @ ''-'' @ take 4 (drop 12 h) @ ''-'' @
     take 4 (drop 16 h) @ ''-'' @ drop 20 h)"

definition parse_uuid :: "string \<Rightarrow> int option" where
  "parse_uuid s =
     (let hex = remove_all ''-'' (strip_chars ''{}'' (remove_all ''uuid:'' (remove_all ''urn:'' s)))
      in if length hex \<noteq> 32 then None
         else case parse_int16 hex of
           None \<Rightarrow> None
         | Some n \<Rightarrow> if 0 \<le> n \<and> n < 2 ^ 128 then Some n else None)"

definition memory_uuid :: "py_error \<Rightarrow> pyval \<Rightarrow> string result" where
  "memory_uuid error_type value =
     (case value of
        PStr s \<Rightarrow>
          guardE (strip s \<noteq> []) error_type
          (case parse_uuid (strip s) of
             None \<Rightarrow> Inl error_type
           | Some n \<Rightarrow> Inr (uuid_string n))
      | _ \<Rightarrow> Inl error_type)"

section \<open>The source of a memory\<close>

definition source_fields :: "string list" where
  "source_fields = [''resolution_id'', ''failure_id'', ''sysid'', ''site_id'', ''site'', ''floor'',
     ''room_number'', ''map_id'', ''map_name'', ''map_observed_at'', ''flow_id'', ''flow_name'',
     ''activity_id'', ''area_name'', ''item_name'', ''failure_status'', ''failure_reason'',
     ''failed_command'', ''failed_action'', ''robot_message'', ''auto_failure_reason'',
     ''resolution'', ''actions'', ''action_runs'', ''action_specs'', ''robot_version'',
     ''robot_status'', ''navigation'', ''arm_state'', ''mapping_pose'', ''status_reported_at'',
     ''flow_snapshot'', ''run_code'', ''outcome'', ''applied'', ''captured_at'', ''resolved_at'',
     ''created_at'', ''description'', ''failed_step'', ''episode_evidence'']"

record resolution_source =
  rs_resolution_id :: string
  rs_failure_id :: "string option"
  rs_source_hash :: string
  rs_payload_json :: string

definition source_payload :: "resolution_source \<Rightarrow> pydict result" where
  "source_payload source =
     (case json_loads (rs_payload_json source) of
        Some (PDict d) \<Rightarrow> Inr d | Some _ \<Rightarrow> Inl TypeErr | None \<Rightarrow> Inl ValueErr)"

text \<open>\<open>tuple(x)\<close>: a text gives its characters, a dict its keys.\<close>

definition py_items :: "pyval \<Rightarrow> pyval list result" where
  "py_items v =
     (case v of PList vs \<Rightarrow> Inr vs | PTuple vs \<Rightarrow> Inr vs
      | PStr s \<Rightarrow> Inr (map (\<lambda>c. PStr [c]) s)
      | PDict d \<Rightarrow> Inr (map PStr (dkeys d))
      | _ \<Rightarrow> Inl TypeErr)"

definition dispatched_actions :: "resolution_source \<Rightarrow> pyval list result" where
  "dispatched_actions source =
     bindE (source_payload source) (\<lambda>payload.
       py_items (if has_key payload ''action_runs'' then dget payload ''action_runs'' else PList []))"

definition optional_row_text :: "pydict \<Rightarrow> string \<Rightarrow> string option result" where
  "optional_row_text row key =
     (case dget row key of
        PNone \<Rightarrow> Inr None
      | PStr s \<Rightarrow> Inr (if strip s = [] then None else Some (strip s))
      | _ \<Rightarrow> Inl ResolutionRowErr)"

text \<open>The map is taken from the navigation status where the row does not name it.\<close>

definition fill_missing :: "string \<Rightarrow> pyval \<Rightarrow> pydict \<Rightarrow> pydict" where
  "fill_missing key value payload =
     (if dget payload key = PNone then dset payload key value else payload)"

definition with_map :: "pydict \<Rightarrow> pydict \<Rightarrow> pydict" where
  "with_map row payload =
     (case as_dict (dget row ''navigation'') of
        None \<Rightarrow> payload
      | Some navigation \<Rightarrow>
          (case as_dict (dget navigation ''current_map'') of
             None \<Rightarrow> payload
           | Some current_map \<Rightarrow>
               fill_missing ''map_observed_at'' (dget row ''status_reported_at'')
                 (fill_missing ''map_name'' (dget current_map ''map_name'')
                   (fill_missing ''map_id'' (dget current_map ''id'') payload))))"

text \<open>\<open>json.loads(json.dumps(payload))\<close>: only a non-finite float cannot be written.\<close>

definition canonical_payload :: "pydict \<Rightarrow> pydict result" where
  "canonical_payload payload =
     guardE (finite_floats (PDict payload)) ResolutionRowErr
     (case json_loads (json_dumps (PDict payload)) of
        Some (PDict d) \<Rightarrow> Inr d
      | _ \<Rightarrow> Inl ResolutionRowErr)"

definition checked_action_runs :: "pydict \<Rightarrow> pydict result" where
  "checked_action_runs payload =
     (let payload' = (if dget payload ''action_runs'' = PNone
          then dset payload ''action_runs'' (PList []) else payload)
      in case dget payload' ''action_runs'' of
           PList runs \<Rightarrow> guardE (list_all is_dict runs) ResolutionRowErr (Inr payload')
         | _ \<Rightarrow> Inl ResolutionRowErr)"

definition row_payload ::
  "pydict \<Rightarrow> string \<Rightarrow> string option \<Rightarrow> string \<Rightarrow> bool \<Rightarrow> pydict" where
  "row_payload row resolution_id failure_id outcome applied =
     dset (dset (dset (dset (map (\<lambda>f. (f, dget row f)) source_fields)
       ''resolution_id'' (PStr resolution_id))
       ''failure_id'' (case failure_id of None \<Rightarrow> PNone | Some f \<Rightarrow> PStr f))
       ''outcome'' (PStr outcome)) ''applied'' (PBool applied)"

definition resolution_source_from_row ::
  "(string \<Rightarrow> string) \<Rightarrow> pyval \<Rightarrow> resolution_source result" where
  "resolution_source_from_row sha256 row_value =
     (case row_value of
        PDict row \<Rightarrow>
          bindE (memory_uuid ResolutionRowErr (dget row ''resolution_id'')) (\<lambda>resolution_id.
          bindE (if dget row ''failure_id'' = PNone then Inr None
                 else bindE (memory_uuid ResolutionRowErr (dget row ''failure_id'')) (\<lambda>f. Inr (Some f)))
            (\<lambda>failure_id.
          case (if has_key row ''applied'' then dget row ''applied'' else PBool False) of
            PBool applied \<Rightarrow>
              bindE (optional_row_text row ''outcome'') (\<lambda>outcome.
              (let payload = row_payload row resolution_id failure_id
                   (case outcome of None \<Rightarrow> ''recorded'' | Some out \<Rightarrow> out) applied
               in bindE (if dget payload ''episode_evidence'' = PNone then Inr payload
                    else bindE (validate_episode_evidence (dget payload ''episode_evidence''))
                      (\<lambda>e. Inr (dset payload ''episode_evidence'' (PDict e)))) (\<lambda>payload.
                  bindE (canonical_payload (with_map row payload)) (\<lambda>canonical.
                  bindE (checked_action_runs canonical) (\<lambda>canonical.
                  (let source_json = json_dumps (PDict canonical)
                   in guardE (finite_floats (PDict canonical)) ValueErr
                      (Inr \<lparr>rs_resolution_id = resolution_id, rs_failure_id = failure_id,
                         rs_source_hash = sha256 source_json, rs_payload_json = source_json\<rparr>)))))))
          | _ \<Rightarrow> Inl ResolutionRowErr))
      | _ \<Rightarrow> Inl ResolutionRowErr)"

section \<open>The draft of a memory\<close>

record memory_draft =
  md_source :: resolution_source
  md_memory_kind :: string
  md_actionable :: bool
  md_failure_summary :: string
  md_recovery_summary :: string
  md_lessons :: "string list"
  md_signature :: "pydict option"
  md_model :: string
  md_response_id :: "string option"

definition required_draft_text :: "pyval \<Rightarrow> string result" where
  "required_draft_text value =
     (case value of
        PStr s \<Rightarrow> guardE (strip s \<noteq> [] \<and> CHR 0x00 \<notin> set s) MemoryDraftErr (Inr (strip s))
      | _ \<Rightarrow> Inl MemoryDraftErr)"

definition draft_text_or_none :: "pyval \<Rightarrow> string option result" where
  "draft_text_or_none value =
     (case value of
        PNone \<Rightarrow> Inr None
      | PStr s \<Rightarrow> guardE (CHR 0x00 \<notin> set s) MemoryDraftErr (Inr (if strip s = [] then None else Some (strip s)))
      | _ \<Rightarrow> Inl MemoryDraftErr)"

text \<open>The checks on the source of an actionable memory.\<close>

definition check_actionable :: "resolution_source \<Rightarrow> string \<Rightarrow> bool \<Rightarrow> unit result" where
  "check_actionable source kind actionable =
     guardE (\<not> (actionable \<and> kind \<noteq> ''positive'')) MemoryDraftErr
     (bindE (if actionable then dispatched_actions source else Inr []) (\<lambda>actions.
        guardE (\<not> (actionable \<and> actions = [])) MemoryDraftErr
        (bindE (source_payload source) (\<lambda>payload.
           guardE (\<not> (actionable \<and>
               (dget payload ''outcome'' \<noteq> PStr ''resolved'' \<or> \<not> is_true (dget payload ''applied''))))
             MemoryDraftErr (Inr ())))))"

definition clean_signature :: "pydict option \<Rightarrow> pydict option result" where
  "clean_signature signature =
     (case signature of
        None \<Rightarrow> Inr None
      | Some d \<Rightarrow> bindE (validate_episode_evidence (PDict d)) (\<lambda>e. Inr (Some e)))"

definition memory_draft_post_init ::
  "resolution_source \<Rightarrow> pyval \<Rightarrow> pyval \<Rightarrow> pyval \<Rightarrow> pyval \<Rightarrow> pyval list \<Rightarrow> pydict option \<Rightarrow> pyval \<Rightarrow> pyval
     \<Rightarrow> memory_draft result" where
  "memory_draft_post_init source memory_kind actionable failure_summary recovery_summary lessons
       signature model response_id =
     guardE (memory_kind = PStr ''positive'' \<or> memory_kind = PStr ''negative'') MemoryDraftErr
     (case (memory_kind, actionable) of
        (PStr kind, PBool act) \<Rightarrow>
          bindE (required_draft_text failure_summary) (\<lambda>failure.
          bindE (required_draft_text recovery_summary) (\<lambda>recovery.
          bindE (required_draft_text model) (\<lambda>model_name.
          bindE (draft_text_or_none response_id) (\<lambda>response.
          bindE (mapE required_draft_text lessons) (\<lambda>lesson_texts.
          bindE (clean_signature signature) (\<lambda>clean.
          bindE (check_actionable source kind act) (\<lambda>_.
            Inr \<lparr>md_source = source, md_memory_kind = kind, md_actionable = act,
              md_failure_summary = failure, md_recovery_summary = recovery, md_lessons = lesson_texts,
              md_signature = clean, md_model = model_name, md_response_id = response\<rparr>)))))))
      | _ \<Rightarrow> Inl MemoryDraftErr)"

section \<open>Rendering\<close>

definition source_table :: string where "source_table = ''public.flow_failure_resolutions''"

definition frontmatter_fields :: "string list" where
  "frontmatter_fields = [''schema_version'', ''source'', ''source_hash'', ''resolution_id'',
     ''failure_id'', ''memory_kind'', ''actionable'', ''sysid'', ''site_id'', ''site'', ''floor'',
     ''room_number'', ''map_id'', ''map_name'', ''map_observed_at'', ''flow_id'', ''flow_name'',
     ''area_name'', ''item_name'', ''failure_status'', ''failed_command'', ''outcome'', ''applied'',
     ''action_count'', ''model'', ''response_id'', ''captured_at'', ''resolved_at'', ''created_at'']"

text \<open>\<open>json.dumps(v, ensure_ascii=False, separators=(",", ":"))\<close> keeps the order of the keys.\<close>

fun json_flat :: "pyval \<Rightarrow> string" where
  "json_flat (PList vs) = ''['' @ join '','' (map json_flat vs) @ '']''"
| "json_flat (PTuple vs) = ''['' @ join '','' (map json_flat vs) @ '']''"
| "json_flat (PDict d) = ''{'' @ join '','' (map (\<lambda>(k, v). json_string k @ '':'' @ json_flat v) d) @ ''}''"
| "json_flat v = json_dumps v"

definition yaml_scalar :: "pyval \<Rightarrow> string result" where
  "yaml_scalar value = guardE (finite_floats value) ValueErr (Inr (json_flat value))"

definition blockquote :: "string \<Rightarrow> string" where
  "blockquote value = join [lf] (map (\<lambda>line. if line = [] then ''>'' else ''> '' @ line) (splitlines value))"

definition body_scalar :: "pyval \<Rightarrow> string" where
  "body_scalar value = (if value = PNone then ''Not recorded'' else join '' '' (splitlines (py_str value)))"

definition text_value :: "string option \<Rightarrow> pyval" where
  "text_value t = (case t of None \<Rightarrow> PNone | Some s \<Rightarrow> PStr s)"

definition opt_dict :: "pydict option \<Rightarrow> pyval" where
  "opt_dict d = (case d of None \<Rightarrow> PNone | Some e \<Rightarrow> PDict e)"

definition frontmatter_of :: "memory_draft \<Rightarrow> pydict \<Rightarrow> nat \<Rightarrow> pydict" where
  "frontmatter_of draft payload action_count =
     (let source = md_source draft; same = (\<lambda>k. (k, dget payload k)) in
      [(''schema_version'', PInt 1), (''source'', PStr source_table),
       (''source_hash'', PStr (rs_source_hash source)),
       (''resolution_id'', PStr (rs_resolution_id source)),
       (''failure_id'', text_value (rs_failure_id source)),
       (''memory_kind'', PStr (md_memory_kind draft)), (''actionable'', PBool (md_actionable draft)),
       same ''sysid'', same ''site_id'', same ''site'', same ''floor'', same ''room_number'',
       same ''map_id'', same ''map_name'', same ''map_observed_at'', same ''flow_id'',
       same ''flow_name'', same ''area_name'', same ''item_name'', same ''failure_status'',
       same ''failed_command'', same ''outcome'', same ''applied'',
       (''action_count'', PInt (int action_count)), (''model'', PStr (md_model draft)),
       (''response_id'', text_value (md_response_id draft)),
       same ''captured_at'', same ''resolved_at'', same ''created_at''])"

definition frontmatter_line :: "pydict \<Rightarrow> string \<Rightarrow> string result" where
  "frontmatter_line frontmatter key =
     bindE (yaml_scalar (dget frontmatter key)) (\<lambda>text. Inr (key @ '': '' @ text))"

definition lesson_lines :: "string list \<Rightarrow> string" where
  "lesson_lines lessons =
     (if lessons = [] then ''_None recorded._''
      else join [lf] (map (\<lambda>(index, lesson). blockquote (nat_text (int index) @ ''. '' @ lesson))
        (enumerate 1 lessons)))"

definition context_lines :: "memory_draft \<Rightarrow> pydict \<Rightarrow> string list" where
  "context_lines draft payload =
     (let item = (\<lambda>label key. ''- '' @ label @ '': '' @ body_scalar (dget payload key));
          yes_no = (\<lambda>b. if b then ''yes'' else ''no'')
      in [item ''Robot'' ''sysid'', item ''Site ID'' ''site_id'', item ''Site'' ''site'',
          item ''Floor'' ''floor'', item ''Room'' ''room_number'', item ''Map ID'' ''map_id'',
          item ''Map'' ''map_name'', item ''Map observed at'' ''map_observed_at'',
          item ''Flow'' ''flow_name'', item ''Area'' ''area_name'', item ''Item'' ''item_name'',
          item ''Failed command'' ''failed_command'', item ''Failed step'' ''failed_step'',
          item ''Outcome'' ''outcome'', ''- Applied: '' @ yes_no (truthy (dget payload ''applied'')),
          ''- Actionable: '' @ yes_no (md_actionable draft)])"

definition fence :: string where "fence = replicate 3 (CHR 0x60)"

definition json_block :: "string \<Rightarrow> string \<Rightarrow> string list" where
  "json_block heading text = [[], heading, fence @ ''json'', text, fence]"

definition prose_lines :: "memory_draft \<Rightarrow> pydict \<Rightarrow> string list" where
  "prose_lines draft payload =
     [[], ''# Resolution Memory '' @ rs_resolution_id (md_source draft), [],
      ''## Failure Pattern'', blockquote (md_failure_summary draft), [],
      ''## Recovery Knowledge'', blockquote (md_recovery_summary draft), [],
      ''## Lessons'', lesson_lines (md_lessons draft), [], ''## Context''] @
     context_lines draft payload"

definition render_memory :: "memory_draft \<Rightarrow> string result" where
  "render_memory draft =
     bindE (source_payload (md_source draft)) (\<lambda>payload.
     bindE (dispatched_actions (md_source draft)) (\<lambda>actions.
     bindE (mapE (frontmatter_line (frontmatter_of draft payload (length actions))) frontmatter_fields)
       (\<lambda>frontmatter_lines.
     bindE (dumps_pretty (PList actions)) (\<lambda>actions_json.
     bindE (dumps_pretty (dget payload ''episode_evidence'')) (\<lambda>evidence_json.
     bindE (dumps_pretty (opt_dict (md_signature draft))) (\<lambda>signature_json.
       Inr (join [lf] (''---'' # frontmatter_lines @ ''---'' # prose_lines draft payload @
         json_block ''## Retrieval Signature'' signature_json @
         json_block ''## Episode Evidence'' evidence_json @
         json_block ''## Dispatched Actions'' actions_json @ [[]]))))))))"

section \<open>Parsing\<close>

text \<open>A text file is read with universal newlines.\<close>

fun universal_newlines :: "string \<Rightarrow> string" where
  "universal_newlines [] = []"
| "universal_newlines (c # cs) =
     (if c = CHR 13 then lf # (case cs of d # ds \<Rightarrow> if d = lf then universal_newlines ds
        else universal_newlines cs | [] \<Rightarrow> []) else c # universal_newlines cs)"

text \<open>
  The pattern \<^verbatim>\<open>(?:^|\n)## H\n```json\n(.*?)\n```(?:\n|$)\<close> of a section, matched leftmost and with
  the shortest block: with a line feed in front of the text, \<^verbatim>\<open>^\<close> needs no case of its own.
\<close>

definition closes :: "string \<Rightarrow> bool" where
  "closes s \<longleftrightarrow> prefix (lf # fence) s \<and> (drop 4 s = [] \<or> hd (drop 4 s) = lf)"

fun until_fence :: "string \<Rightarrow> string option" where
  "until_fence [] = None"
| "until_fence (c # cs) = (if closes (c # cs) then Some [] else map_option ((#) c) (until_fence cs))"

definition section_open :: "string \<Rightarrow> string" where
  "section_open heading = heading @ [lf] @ fence @ ''json'' @ [lf]"

fun find_section :: "string \<Rightarrow> string \<Rightarrow> string option" where
  "find_section heading [] = None"
| "find_section heading (c # cs) =
     (case (if c = lf \<and> prefix (section_open heading) cs
            then until_fence (drop (length (section_open heading)) cs) else None) of
        Some block \<Rightarrow> Some block
      | None \<Rightarrow> find_section heading cs)"

definition section_text :: "string \<Rightarrow> string \<Rightarrow> string option" where
  "section_text heading body = find_section heading (lf # body)"

definition frontmatter_key :: "string \<Rightarrow> bool" where
  "frontmatter_key k \<longleftrightarrow> (case k of [] \<Rightarrow> False | c # cs \<Rightarrow> 97 \<le> cpt c \<and> cpt c \<le> 122 \<and>
     list_all (\<lambda>c. 97 \<le> cpt c \<and> cpt c \<le> 122 \<or> is_digit c \<or> c = CHR ''_'') cs)"

definition add_field :: "string \<Rightarrow> pydict \<Rightarrow> pydict result" where
  "add_field line parsed =
     (let name = takeWhile (\<lambda>c. c \<noteq> CHR '':'') line; key = strip name;
          text = strip (drop (Suc (length name)) line)
      in guardE (CHR '':'' \<in> set line \<and> frontmatter_key key) MemoryFormatErr
         (guardE (\<not> has_key parsed key) MemoryFormatErr
         (Inr (dset parsed key (case json_loads text of None \<Rightarrow> PStr text | Some v \<Rightarrow> v)))))"

definition check_frontmatter :: "pydict \<Rightarrow> pydict result" where
  "check_frontmatter parsed =
     guardE (list_all (has_key parsed) frontmatter_fields) MemoryFormatErr
     (guardE (py_eq (dget parsed ''schema_version'') (PInt 1)) MemoryFormatErr
     (guardE (dget parsed ''source'' = PStr source_table) MemoryFormatErr
     (guardE (dget parsed ''memory_kind'' = PStr ''positive'' \<or> dget parsed ''memory_kind'' = PStr ''negative'')
       MemoryFormatErr
     (case (dget parsed ''actionable'', dget parsed ''action_count'') of
        (PBool _, PInt n) \<Rightarrow> guardE (0 \<le> n) MemoryFormatErr (Inr parsed)
      | _ \<Rightarrow> Inl MemoryFormatErr))))"

definition parse_frontmatter :: "string \<Rightarrow> pydict result" where
  "parse_frontmatter text = bindE (foldE add_field (splitlines text) []) check_frontmatter"

record memory_document =
  doc_stem :: string
  doc_frontmatter :: pydict
  doc_actions :: "pyval list"
  doc_body :: string
  doc_evidence :: "pydict option"
  doc_signature :: "pydict option"

text \<open>An optional section that holds sanitized evidence.\<close>

definition evidence_section :: "string \<Rightarrow> string \<Rightarrow> pydict option result" where
  "evidence_section heading body =
     (case section_text heading body of
        None \<Rightarrow> Inr None
      | Some text \<Rightarrow>
          (case json_loads text of
             None \<Rightarrow> Inl MemoryFormatErr
           | Some v \<Rightarrow>
               if v = PNone then Inr None
               else (case validate_episode_evidence v of
                  Inl e \<Rightarrow> Inl (if is_value_error e then MemoryFormatErr else e)
                | Inr d \<Rightarrow> Inr (Some d))))"

definition actions_section :: "string \<Rightarrow> pyval list result" where
  "actions_section body =
     (case section_text ''## Dispatched Actions'' body of
        None \<Rightarrow> Inl MemoryFormatErr
      | Some text \<Rightarrow>
          (case json_loads text of
             Some (PList actions) \<Rightarrow> guardE (list_all is_dict actions) MemoryFormatErr (Inr actions)
           | _ \<Rightarrow> Inl MemoryFormatErr))"

definition parse_sections :: "string \<Rightarrow> pydict \<Rightarrow> string \<Rightarrow> memory_document result" where
  "parse_sections stem frontmatter body =
     (case dget frontmatter ''source_hash'' of
        PStr source_hash \<Rightarrow>
          guardE (hash_pattern source_hash) MemoryFormatErr
          (bindE (actions_section body) (\<lambda>actions.
           guardE (dget frontmatter ''action_count'' = PInt (plen actions)) MemoryFormatErr
           (bindE (evidence_section ''## Episode Evidence'' body) (\<lambda>evidence.
            bindE (evidence_section ''## Retrieval Signature'' body) (\<lambda>signature.
              Inr \<lparr>doc_stem = stem, doc_frontmatter = frontmatter, doc_actions = actions,
                doc_body = body, doc_evidence = evidence, doc_signature = signature\<rparr>)))))
      | _ \<Rightarrow> Inl MemoryFormatErr)"

definition parse_memory_document :: "string \<Rightarrow> string \<Rightarrow> memory_document result" where
  "parse_memory_document stem file_text =
     (let content = universal_newlines file_text in
      guardE (prefix (''---'' @ [lf]) content) MemoryFormatErr
      (case find_at ([lf] @ ''---'' @ [lf]) (drop 4 content) of
         None \<Rightarrow> Inl MemoryFormatErr
       | Some closing \<Rightarrow>
           bindE (parse_frontmatter (take closing (drop 4 content))) (\<lambda>frontmatter.
           bindE (memory_uuid MemoryFormatErr (dget frontmatter ''resolution_id'')) (\<lambda>resolution_id.
             parse_sections stem (dset frontmatter ''resolution_id'' (PStr resolution_id))
               (drop (closing + 5) (drop 4 content))))))"

definition doc_resolution_id :: "memory_document \<Rightarrow> string" where
  "doc_resolution_id doc = py_str (dget (doc_frontmatter doc) ''resolution_id'')"

definition doc_source_hash :: "memory_document \<Rightarrow> string" where
  "doc_source_hash doc = py_str (dget (doc_frontmatter doc) ''source_hash'')"

definition is_execution_candidate :: "memory_document \<Rightarrow> bool" where
  "is_execution_candidate doc \<longleftrightarrow>
     (let f = doc_frontmatter doc in
      dget f ''memory_kind'' = PStr ''positive'' \<and> is_true (dget f ''actionable'') \<and>
      dget f ''outcome'' = PStr ''resolved'' \<and> is_true (dget f ''applied'') \<and> doc_actions doc \<noteq> [])"

section \<open>The text of a UUID reads back\<close>

lemma remove_at_single: "remove_at 0 [c] s = filter (\<lambda>d. d \<noteq> c) s"
  by (induction s) (auto simp: prefix_def)

lemma remove_all_absent: "c \<notin> set s \<Longrightarrow> remove_all (c # old) s = s"
  unfolding remove_all_def by (induction s) auto

lemma strip_chars_absent: "set s \<inter> set cs = {} \<Longrightarrow> strip_chars cs s = s"
proof -
  assume *: "set s \<inter> set cs = {}"
  have "dropWhile (\<lambda>c. c \<in> set cs) t = t" if "set t \<inter> set cs = {}" for t
    using that by (cases t) auto
  with * show ?thesis by (simp add: strip_chars_def Let_def)
qed

definition uuid_char :: "char \<Rightarrow> bool" where
  "uuid_char c \<longleftrightarrow> is_lower_hex c"

lemma hex_digit_char: "0 \<le> n \<Longrightarrow> n < 16 \<Longrightarrow> uuid_char (hex_digit n)"
  unfolding uuid_char_def is_lower_hex_def is_digit_def hex_digit_def
  by (subst (1 2 3 4) cpt_char_of) auto

lemma hex_text_props: "length (hex_text k n) = k" "\<forall>c \<in> set (hex_text k n). uuid_char c"
  by (induction k arbitrary: n) (auto intro: hex_digit_char)

lemma hex_number_text: "0 \<le> n \<Longrightarrow> n < 16 ^ k \<Longrightarrow> hex_number (hex_text k n) = n"
proof (induction k arbitrary: n)
  case (Suc k)
  have "hex_value (hex_digit (n mod 16)) = Some (n mod 16)" by (rule hex_value_digit) auto
  moreover have "n div 16 < 16 ^ k" using Suc.prems by simp
  moreover have "hex_number (ds @ [c]) = 16 * hex_number ds + the (hex_value c)" for ds c
    by (simp add: hex_number_def)
  ultimately show ?case using Suc by simp
qed (simp add: hex_number_def)

lemma uuid_char_facts:
  "uuid_char c \<Longrightarrow> \<not> is_space c \<and> hex_value c \<noteq> None \<and>
     c \<notin> {CHR ''-'', CHR ''u'', CHR ''{'', CHR ''}'', CHR ''_'', CHR ''+'', CHR ''x'', CHR ''X'', lf}"
  by (auto simp: uuid_char_def is_lower_hex_def is_space_def hex_value_def is_digit_def cpt_def Let_def)

lemma strip_spaceless: "\<forall>c \<in> set s. \<not> is_space c \<Longrightarrow> strip s = s"
proof -
  assume *: "\<forall>c \<in> set s. \<not> is_space c"
  have "lstrip t = t" if "\<forall>c \<in> set t. \<not> is_space c" for t
    using that by (cases t) (auto simp: lstrip_def)
  with * show ?thesis by (simp add: strip_def)
qed

lemma parse_int16_hex:
  assumes "\<forall>c \<in> set h. uuid_char c" "h \<noteq> []" shows "parse_int16 h = Some (hex_number h)"
proof -
  obtain c t where h: "h = c # t" using assms(2) by (cases h) auto
  have facts: "\<not> is_space d \<and> hex_value d \<noteq> None \<and>
     d \<notin> {CHR ''-'', CHR ''u'', CHR ''{'', CHR ''}'', CHR ''_'', CHR ''+'', CHR ''x'', CHR ''X'', lf}"
    if "d \<in> set h" for d
    using assms(1) that by (intro uuid_char_facts) blast
  have "strip h = h" using facts by (intro strip_spaceless) blast
  moreover have "split_sign h = (False, h)" using facts [of c] h by (simp add: split_sign_def)
  moreover have x: "CHR ''x'' \<notin> set h" "CHR ''X'' \<notin> set h" using facts by blast+
  then have "\<not> prefix ''0x'' h" "\<not> prefix ''0X'' h" by (auto simp: prefix_def)
  then have "unprefixed h = h" by (simp add: unprefixed_def)
  moreover have "split_on (CHR ''_'') h = [h]" using facts by (intro split_on_no_sep) blast
  ultimately show ?thesis
    using facts assms(2) by (simp add: parse_int16_def hex_groups_def Let_def list_all_iff)
qed

lemma uuid_string_chars: "c \<in> set (uuid_string n) \<Longrightarrow> uuid_char c \<or> c = CHR ''-''"
  using hex_text_props(2) [of 32 n]
  by (auto simp: uuid_string_def Let_def dest: in_set_takeD in_set_dropD)

lemma uuid_string_facts:
  "c \<in> set (uuid_string n) \<Longrightarrow> \<not> is_space c \<and> c \<notin> {CHR ''u'', CHR ''{'', CHR ''}'', lf}"
proof -
  assume "c \<in> set (uuid_string n)"
  then have "uuid_char c \<or> c = CHR ''-''" by (rule uuid_string_chars)
  then show ?thesis
  proof
    assume "c = CHR ''-''"
    moreover have "\<not> is_space (CHR ''-'')" by (simp add: is_space_def cpt_def Let_def)
    ultimately show ?thesis by simp
  qed (drule uuid_char_facts, simp)
qed

lemma uuid_string_digits: "filter (\<lambda>c. c \<noteq> CHR ''-'') (uuid_string n) = hex_text 32 n"
proof -
  let ?h = "hex_text 32 n"
  have "\<forall>c \<in> set ?h. c \<noteq> CHR ''-''" using hex_text_props(2) uuid_char_facts by blast
  then have "filter (\<lambda>c. c \<noteq> CHR ''-'') (take i (drop j ?h)) = take i (drop j ?h)"
    "filter (\<lambda>c. c \<noteq> CHR ''-'') (drop j ?h) = drop j ?h" for i j
    by (auto simp: filter_id_conv dest: in_set_takeD in_set_dropD)
  from this(1) [of 8 0] this(1) [of 4 8] this(1) [of 4 12] this(1) [of 4 16] this(2) [of 20]
  have "filter (\<lambda>c. c \<noteq> CHR ''-'') (uuid_string n) =
      take 8 ?h @ take 4 (drop 8 ?h) @ take 4 (drop 12 ?h) @ take 4 (drop 16 ?h) @ drop 20 ?h"
    by (simp add: uuid_string_def Let_def)
  also have "\<dots> = ?h"
    using append_take_drop_id [of 4 "drop 16 ?h"] append_take_drop_id [of 4 "drop 12 ?h"]
      append_take_drop_id [of 4 "drop 8 ?h"] append_take_drop_id [of 8 ?h] by simp
  finally show ?thesis .
qed

lemma memory_uuid_string:
  assumes "0 \<le> n" "n < 2 ^ 128" shows "memory_uuid err (PStr (uuid_string n)) = Inr (uuid_string n)"
proof -
  let ?u = "uuid_string n"
  have facts: "\<not> is_space c \<and> c \<notin> {CHR ''u'', CHR ''{'', CHR ''}'', lf}" if "c \<in> set ?u" for c
    using that by (rule uuid_string_facts)
  have "strip ?u = ?u" using facts by (intro strip_spaceless) blast
  moreover have "remove_all ''uuid:'' (remove_all ''urn:'' ?u) = ?u"
    using facts remove_all_absent [of "CHR ''u''" ?u] by force
  moreover have "strip_chars ''{}'' ?u = ?u" using facts by (intro strip_chars_absent) auto
  moreover have "remove_all ''-'' ?u = hex_text 32 n"
    by (simp add: remove_all_def remove_at_single uuid_string_digits)
  moreover have "hex_text 32 n \<noteq> []" using hex_text_props(1) [of 32 n] by auto
  then have "parse_int16 (hex_text 32 n) = Some n"
    using parse_int16_hex [OF hex_text_props(2)] hex_number_text [of n 32] assms by simp
  ultimately have "parse_uuid ?u = Some n"
    using assms hex_text_props(1) [of 32 n] by (simp add: parse_uuid_def Let_def)
  moreover have "?u \<noteq> []" by (simp add: uuid_string_def Let_def)
  ultimately show ?thesis using \<open>strip ?u = ?u\<close> by (simp add: memory_uuid_def)
qed

lemma memory_uuid_Inr:
  "memory_uuid err v = Inr u \<Longrightarrow> \<exists>n. 0 \<le> n \<and> n < 2 ^ 128 \<and> u = uuid_string n"
  by (auto simp: memory_uuid_def parse_uuid_def guardE_eq_Inr Let_def split: pyval.splits option.splits if_splits)

lemma memory_uuid_canonical: "memory_uuid err v = Inr u \<Longrightarrow> memory_uuid err' (PStr u) = Inr u"
  using memory_uuid_Inr memory_uuid_string by blast

lemma memory_uuid_no_lf: "memory_uuid err v = Inr u \<Longrightarrow> lf \<notin> set u \<and> CHR 13 \<notin> set u"
proof -
  assume "memory_uuid err v = Inr u"
  then obtain n where "u = uuid_string n" using memory_uuid_Inr by blast
  moreover have "\<not> is_space c" if "c \<in> set (uuid_string n)" for c
    using uuid_string_facts [OF that] by simp
  moreover have "is_space lf" "is_space (CHR 13)" by (simp_all add: is_space_def cpt_def Let_def)
  ultimately show ?thesis by blast
qed

end
