(* ===== verification/Memory_Roundtrip.thy ===== *)
theory Memory_Roundtrip
  imports Memory_Document
begin

text \<open>
  A rendered memory reads back: the sections of the document hold exactly the JSON the code
  wrote into them, whatever the prose of the model says, and the frontmatter and the sections
  parse to the draft's fields.
\<close>

section \<open>Sections\<close>

definition starts_line :: "string \<Rightarrow> bool" where
  "starts_line s \<longleftrightarrow> s = [] \<or> hd s = lf"

text \<open>Texts without a line that is the heading are skipped.\<close>

definition clear_of :: "string \<Rightarrow> string \<Rightarrow> bool" where
  "clear_of heading t \<longleftrightarrow> heading \<notin> set (split_on lf t)"

lemma takeWhile_line: "lf \<notin> set l \<Longrightarrow> starts_line s \<Longrightarrow> takeWhile (\<lambda>c. c \<noteq> lf) (l @ s) = l"
  by (induction l) (auto simp: starts_line_def takeWhile_eq_Nil_iff)

lemma find_section_no_lf:
  "lf \<notin> set l \<Longrightarrow> find_section heading (l @ s) = find_section heading s"
  by (induction l) auto

lemma find_skip_line:
  assumes "lf \<notin> set heading" "lf \<notin> set l" "l \<noteq> heading" "starts_line s"
  shows "find_section heading (lf # l @ s) = find_section heading s"
proof -
  have "\<not> prefix (section_open heading) (l @ s)"
  proof
    assume "prefix (section_open heading) (l @ s)"
    then obtain x where x: "l @ s = heading @ lf # x" by (auto simp: prefix_def section_open_def)
    from takeWhile_line [OF assms(2,4)] takeWhile_line [OF assms(1), of "lf # x"] x
    have "l = heading" by (simp add: starts_line_def)
    with assms(3) show False by simp
  qed
  then show ?thesis using find_section_no_lf [OF assms(2)] by simp
qed

definition lines_text :: "string list \<Rightarrow> string" where
  "lines_text ls = concat (map (\<lambda>l. lf # l) ls)"

lemma lines_text_simps [simp]:
  "lines_text [] = []" "lines_text (l # ls) = lf # l @ lines_text ls"
  "lines_text (ls @ ms) = lines_text ls @ lines_text ms"
  by (simp_all add: lines_text_def)

lemma starts_lines_text: "starts_line s \<Longrightarrow> starts_line (lines_text ls @ s)"
  by (cases ls) (auto simp: starts_line_def)

lemma lines_text_split: "lines_text (split_on lf t) = lf # t"
proof (induction t)
  case (Cons c t)
  then show ?case by (cases "split_on lf t") auto
qed simp

lemma lines_text_join: "ls \<noteq> [] \<Longrightarrow> lf # join [lf] ls = lines_text ls"
proof (cases ls)
  case (Cons l r)
  have "(@) [lf] = (#) lf" by auto
  with Cons show ?thesis by (simp add: join_def lines_text_def)
qed simp

lemma find_skip_lines:
  assumes "lf \<notin> set heading" "\<And>l. l \<in> set ls \<Longrightarrow> lf \<notin> set l \<and> l \<noteq> heading" "starts_line s"
  shows "find_section heading (lines_text ls @ s) = find_section heading s"
  using assms(2)
proof (induction ls)
  case (Cons l ls)
  have "find_section heading (lf # l @ lines_text ls @ s) = find_section heading (lines_text ls @ s)"
    using Cons.prems assms by (intro find_skip_line starts_lines_text) auto
  with Cons show ?case by simp
qed simp

lemma find_skip_text:
  assumes "lf \<notin> set heading" "clear_of heading t" "starts_line s"
  shows "find_section heading (lf # t @ s) = find_section heading s"
proof -
  have "find_section heading (lines_text (split_on lf t) @ s) = find_section heading s"
    using assms split_on_lines [of lf t] by (intro find_skip_lines) (auto simp: clear_of_def)
  then show ?thesis by (simp add: lines_text_split)
qed

lemma find_skip_texts:
  assumes "lf \<notin> set heading" "\<forall>t \<in> set ts. clear_of heading t" "starts_line s"
  shows "find_section heading (lines_text ts @ s) = find_section heading s"
  using assms(2)
proof (induction ts)
  case (Cons t ts)
  have "find_section heading (lf # t @ lines_text ts @ s) = find_section heading (lines_text ts @ s)"
    using Cons.prems assms by (intro find_skip_text starts_lines_text) auto
  with Cons show ?case by simp
qed simp

text \<open>A block without a line that starts with the fence ends at the fence behind it.\<close>

lemma until_fence_plain:
  assumes "list_all plain_line (tl (split_on lf t))" "starts_line r"
  shows "until_fence (t @ lf # fence @ r) = Some t"
  using assms(1)
proof (induction t)
  case Nil
  have "closes (lf # fence @ r)" using assms(2) by (auto simp: closes_def fence_def starts_line_def)
  then show ?case by simp
next
  case (Cons c t)
  obtain l ls where ls: "split_on lf t = l # ls" by (cases "split_on lf t") auto
  have "\<not> closes (c # t @ lf # fence @ r)"
  proof (cases "c = lf")
    case True
    with Cons.prems ls have l: "plain_line l" by simp
    have "lf # t = lines_text (split_on lf t)" by (simp add: lines_text_split)
    with ls have "t = l @ lines_text ls" by simp
    with l show ?thesis using True by (cases l) (auto simp: plain_line_def closes_def fence_def numeral_3_eq_3)
  qed (simp add: closes_def)
  moreover have "list_all plain_line (tl (split_on lf t))"
    using Cons.prems ls by (cases "c = lf") auto
  ultimately show ?case using Cons.IH by simp
qed

lemma drop_section_open:
  "prefix (section_open heading) (heading @ lf # fence @ ''json'' @ lf # x)"
  "drop (length (section_open heading)) (heading @ lf # fence @ ''json'' @ lf # x) = x"
proof -
  have "heading @ lf # fence @ ''json'' @ lf # x = section_open heading @ x"
    by (simp add: section_open_def)
  then show "prefix (section_open heading) (heading @ lf # fence @ ''json'' @ lf # x)"
    "drop (length (section_open heading)) (heading @ lf # fence @ ''json'' @ lf # x) = x"
    by (metis prefixI, metis append_eq_conv_conj)
qed

lemma find_block:
  assumes "plain_text json" "starts_line r" "lf \<notin> set heading" "heading \<noteq> []"
  shows "find_section heading (lines_text (json_block heading json) @ r) = Some json"
proof -
  have "until_fence (json @ lf # fence @ r) = Some json"
    using assms(1,2) by (intro until_fence_plain plain_tail)
  then have "find_section heading (lf # heading @ lf # fence @ ''json'' @ lf # json @ lf # fence @ r) = Some json"
    using drop_section_open [of heading "json @ lf # fence @ r"] by simp
  moreover have "find_section heading (lf # [] @ lf # x) = find_section heading (lf # x)" for x
    using assms(3,4) by (intro find_skip_line) (auto simp: starts_line_def)
  ultimately show ?thesis by (simp add: json_block_def)
qed

text \<open>Prose without a line that starts like a heading.\<close>

definition quiet_text :: "string \<Rightarrow> bool" where
  "quiet_text t \<longleftrightarrow> list_all (\<lambda>l. l = [] \<or> hd l \<noteq> CHR ''#'') (split_on lf t)"

lemma quiet_clear: "quiet_text t \<Longrightarrow> hd heading = CHR ''#'' \<Longrightarrow> heading \<noteq> [] \<Longrightarrow> clear_of heading t"
  by (auto simp: quiet_text_def clear_of_def list_all_iff)

lemma plain_quiet: "plain_text t \<Longrightarrow> quiet_text t"
  by (auto simp: plain_text_def quiet_text_def plain_line_def list_all_iff)

lemma clear_line: "lf \<notin> set l \<Longrightarrow> l \<noteq> heading \<Longrightarrow> clear_of heading l"
  by (simp add: clear_of_def split_on_no_sep)

lemma quiet_line: "lf \<notin> set l \<Longrightarrow> l = [] \<or> hd l \<noteq> CHR ''#'' \<Longrightarrow> quiet_text l"
  by (simp add: quiet_text_def split_on_no_sep)

lemma quiet_join: "\<forall>t \<in> set ts. quiet_text t \<Longrightarrow> quiet_text (join [lf] ts)"
proof (induction ts)
  case (Cons t ts)
  show ?case
  proof (cases ts)
    case (Cons u us)
    then have "join [lf] (t # ts) = t @ lf # join [lf] ts" by simp
    with Cons.IH Cons.prems show ?thesis by (simp add: quiet_text_def split_on_append)
  qed (use Cons.prems in simp)
qed (simp add: quiet_text_def)

lemma break_lf: "is_break lf" "is_break (CHR 13)"
  by (simp_all add: is_break_def cpt_def)

lemma splitlines_no_lf: "l \<in> set (splitlines s) \<Longrightarrow> lf \<notin> set l \<and> CHR 13 \<notin> set l"
  using splitlines_no_break break_lf by blast

lemma quiet_blockquote: "quiet_text (blockquote v)"
  unfolding blockquote_def by (rule quiet_join) (auto intro!: quiet_line dest: splitlines_no_lf)

lemma quiet_lessons: "quiet_text (lesson_lines ls)"
proof (cases "ls = []")
  case False
  then show ?thesis
    unfolding lesson_lines_def by (simp, intro quiet_join) (auto intro: quiet_blockquote)
qed (simp add: lesson_lines_def quiet_line)

lemma set_join: "set (join sep ts) \<subseteq> set sep \<union> (\<Union>t \<in> set ts. set t)"
  by (induction ts rule: induct_list012) auto

lemma body_scalar_no_lf: "lf \<notin> set (body_scalar v) \<and> CHR 13 \<notin> set (body_scalar v)"
proof -
  have "c \<notin> set (join '' '' (splitlines (py_str v)))" if "c \<in> {lf, CHR 13}" for c
    using set_join [of "'' ''" "splitlines (py_str v)"] splitlines_no_lf [of _ "py_str v"] that by force
  then show ?thesis by (auto simp: body_scalar_def)
qed

lemma quiet_context: "t \<in> set (context_lines draft payload) \<Longrightarrow> quiet_text t"
  using body_scalar_no_lf
  by (auto simp: context_lines_def Let_def intro!: quiet_line split: if_splits)

definition section_headings :: "string list" where
  "section_headings = [''## Retrieval Signature'', ''## Episode Evidence'', ''## Dispatched Actions'']"

lemma section_heading_facts:
  "h \<in> set section_headings \<Longrightarrow> lf \<notin> set h \<and> h \<noteq> [] \<and> hd h = CHR ''#'' \<and> hd (tl h) = CHR ''#''"
  by (auto simp: section_headings_def)

lemma prose_clear:
  assumes "h \<in> set section_headings" "lf \<notin> set (rs_resolution_id (md_source draft))"
  shows "\<forall>t \<in> set (prose_lines draft payload). clear_of h t"
proof
  fix t
  assume t: "t \<in> set (prose_lines draft payload)"
  have quiet: "quiet_text x \<Longrightarrow> clear_of h x" for x
    using assms(1) section_heading_facts quiet_clear by blast
  have "t = [] \<or> t = ''# Resolution Memory '' @ rs_resolution_id (md_source draft) \<or>
      t \<in> {''## Failure Pattern'', ''## Recovery Knowledge'', ''## Lessons'', ''## Context''} \<or>
      t \<in> {blockquote (md_failure_summary draft), blockquote (md_recovery_summary draft),
        lesson_lines (md_lessons draft)} \<or> t \<in> set (context_lines draft payload)"
    using t unfolding prose_lines_def set_append set_simps Un_iff insert_iff by blast
  then show "clear_of h t"
  proof (elim disjE)
    assume "t = ''# Resolution Memory '' @ rs_resolution_id (md_source draft)"
    with assms show ?thesis
      using section_heading_facts [OF assms(1)] by (intro clear_line) auto
  next
    assume "t \<in> {''## Failure Pattern'', ''## Recovery Knowledge'', ''## Lessons'', ''## Context''}"
    moreover have "list_all (\<lambda>g. list_all (\<lambda>u. lf \<notin> set u \<and> u \<noteq> g)
        [''## Failure Pattern'', ''## Recovery Knowledge'', ''## Lessons'', ''## Context'']) section_headings"
      by code_simp
    ultimately show ?thesis using assms(1) by (intro clear_line) (auto simp only: list_all_iff set_simps)
  next
    assume "t \<in> {blockquote (md_failure_summary draft), blockquote (md_recovery_summary draft),
        lesson_lines (md_lessons draft)}"
    then show ?thesis by (elim insertE emptyE) (simp_all only: quiet quiet_blockquote quiet_lessons)
  next
    assume "t \<in> set (context_lines draft payload)"
    then show ?thesis by (rule quiet [OF quiet_context])
  qed (auto intro: quiet simp: quiet_text_def)
qed

lemma block_clear:
  assumes "h \<in> set section_headings" "lf \<notin> set g" "g \<noteq> h" "plain_text json"
  shows "\<forall>t \<in> set (json_block g json). clear_of h t"
proof -
  have "clear_of h json" "clear_of h []"
    using assms(1,4) section_heading_facts
    by (auto intro!: quiet_clear intro: plain_quiet quiet_line)
  moreover have "clear_of h g" using assms(2,3) by (rule clear_line)
  moreover have "clear_of h (fence @ ''json'')" "clear_of h fence"
    using section_heading_facts [OF assms(1)]
    by (auto intro!: quiet_clear quiet_line simp: fence_def numeral_3_eq_3)
  ultimately show ?thesis by (simp add: json_block_def)
qed

text \<open>
  The body of a rendered memory, and what the readers of its sections find in it.
\<close>

definition memory_body :: "memory_draft \<Rightarrow> pydict \<Rightarrow> string \<Rightarrow> string \<Rightarrow> string \<Rightarrow> string" where
  "memory_body draft payload signature_json evidence_json actions_json =
     join [lf] (prose_lines draft payload @ json_block ''## Retrieval Signature'' signature_json @
         json_block ''## Episode Evidence'' evidence_json @
         json_block ''## Dispatched Actions'' actions_json @ [[]])"

lemma memory_body_sections:
  assumes "plain_text sj" "plain_text ej" "plain_text aj" "lf \<notin> set (rs_resolution_id (md_source draft))"
  shows "section_text ''## Retrieval Signature'' (memory_body draft payload sj ej aj) = Some sj"
    and "section_text ''## Episode Evidence'' (memory_body draft payload sj ej aj) = Some ej"
    and "section_text ''## Dispatched Actions'' (memory_body draft payload sj ej aj) = Some aj"
proof -
  let ?p = "prose_lines draft payload"
  let ?s = "json_block ''## Retrieval Signature'' sj" and ?e = "json_block ''## Episode Evidence'' ej"
    and ?a = "json_block ''## Dispatched Actions'' aj"
  have body: "lf # memory_body draft payload sj ej aj = lines_text (?p @ ?s @ ?e @ ?a @ [[]])"
    unfolding memory_body_def by (rule lines_text_join) simp
  have skip: "find_section h (lines_text ts @ lines_text us) = find_section h (lines_text us)"
    if "h \<in> set section_headings" "\<forall>t \<in> set ts. clear_of h t" for h ts us
    using that section_heading_facts starts_lines_text [of "[]" us]
    by (intro find_skip_texts) (auto simp: starts_line_def)
  have found: "find_section h (lines_text (json_block h j) @ lines_text us) = Some j"
    if "h \<in> set section_headings" "plain_text j" for h j us
    using that section_heading_facts starts_lines_text [of "[]" us]
    by (intro find_block) (auto simp: starts_line_def)
  have heads: "''## Retrieval Signature'' \<in> set section_headings" "''## Episode Evidence'' \<in> set section_headings"
    "''## Dispatched Actions'' \<in> set section_headings" by (simp_all add: section_headings_def)
  show "section_text ''## Retrieval Signature'' (memory_body draft payload sj ej aj) = Some sj"
    unfolding section_text_def body lines_text_simps(3)
    using skip [OF heads(1) prose_clear [OF heads(1) assms(4)], of payload "?s @ ?e @ ?a @ [[]]"]
      found [OF heads(1) assms(1), of "?e @ ?a @ [[]]"] by simp
  show "section_text ''## Episode Evidence'' (memory_body draft payload sj ej aj) = Some ej"
    unfolding section_text_def body lines_text_simps(3)
    using skip [OF heads(2) prose_clear [OF heads(2) assms(4)], of payload "?s @ ?e @ ?a @ [[]]"]
      skip [OF heads(2) block_clear [OF heads(2) _ _ assms(1)], of "''## Retrieval Signature''" "?e @ ?a @ [[]]"]
      found [OF heads(2) assms(2), of "?a @ [[]]"] by simp
  show "section_text ''## Dispatched Actions'' (memory_body draft payload sj ej aj) = Some aj"
    unfolding section_text_def body lines_text_simps(3)
    using skip [OF heads(3) prose_clear [OF heads(3) assms(4)], of payload "?s @ ?e @ ?a @ [[]]"]
      skip [OF heads(3) block_clear [OF heads(3) _ _ assms(1)], of "''## Retrieval Signature''" "?e @ ?a @ [[]]"]
      skip [OF heads(3) block_clear [OF heads(3) _ _ assms(2)], of "''## Episode Evidence''" "?a @ [[]]"]
      found [OF heads(3) assms(3), of "[[]]"] by simp
qed

section \<open>The frontmatter\<close>

text \<open>The compact JSON of a frontmatter value reads back to the value, as a single line.\<close>

fun untuple :: "pyval \<Rightarrow> pyval" where
  "untuple (PList vs) = PList (map untuple vs)"
| "untuple (PTuple vs) = PList (map untuple vs)"
| "untuple (PDict d) = PDict (map (\<lambda>(k, v). (k, untuple v)) d)"
| "untuple v = v"

lemma reads_flat: "json_safe v \<Longrightarrow> reads (json_flat v) (untuple v)"
proof (induction v rule: json_flat.induct)
  case (1 vs)
  then have "list_all2 reads (map json_flat vs) (map untuple vs)"
    by (intro list_all2_maps) (auto simp: list_all_iff)
  from reads_list [OF this, of "[]" "[]" "[]"] show ?case
    by (cases "vs = []") (simp_all add: blank_new_line reads_empty)
next
  case (2 vs)
  then have "list_all2 reads (map json_flat vs) (map untuple vs)"
    by (intro list_all2_maps) (auto simp: list_all_iff)
  from reads_list [OF this, of "[]" "[]" "[]"] show ?case
    by (cases "vs = []") (simp_all add: blank_new_line reads_empty)
next
  case (3 d)
  have "list_all2 (reads_member []) (map (\<lambda>(k, v). json_string k @ '':'' @ json_flat v) d)
      (map (\<lambda>(k, v). (k, untuple v)) d)"
    using 3 by (intro list_all2_maps) (force simp: list_all_iff reads_member_def)
  moreover have "distinct (map fst (map (\<lambda>(k, v). (k, untuple v)) d))"
    using 3(2) by (simp add: case_prod_unfold comp_def)
  ultimately show ?case
    using reads_dict [of "[]" _ _ "[]" "[]" "[]"]
    by (cases "d = []") (simp_all add: blank_new_line reads_empty)
qed (simp_all add: reads_word reads_string reads_int reads_float)

lemma cpt_consts:
  "cpt (CHR 0x5C) = 92" "cpt (CHR 0x22) = 34" "cpt (CHR ''n'') = 110" "cpt (CHR ''r'') = 114"
  "cpt (CHR ''t'') = 116" "cpt (CHR ''b'') = 98" "cpt (CHR ''f'') = 102" "cpt (CHR ''u'') = 117"
  "cpt (CHR ''0'') = 48"
  by (simp_all add: cpt_def)

lemma escape_char_range: "c \<in> set (escape_char d) \<Longrightarrow> 32 \<le> cpt c"
proof -
  have hex: "32 \<le> cpt (hex_digit n)" if "0 \<le> n" "n < 16" for n
    using that unfolding hex_digit_def by (subst cpt_char_of) auto
  have "list_all (\<lambda>x. 32 \<le> cpt x) (escape_char d)"
    unfolding escape_char_def Let_def
    using hex [of "cpt d div 16"] hex [of "cpt d mod 16"] cpt_bounds [of d]
    by (simp add: cpt_consts)
  then show "c \<in> set (escape_char d) \<Longrightarrow> 32 \<le> cpt c" by (auto simp: list_all_iff)
qed

lemma json_string_range: "c \<in> set (json_string s) \<Longrightarrow> 32 \<le> cpt c"
  by (auto simp: json_string_def cpt_def [of "CHR 0x22"] dest: escape_char_range)

lemma number_range: "list_all number_char s \<Longrightarrow> c \<in> set s \<Longrightarrow> 32 \<le> cpt c"
  by (auto simp: list_all_iff number_char_def is_digit_def cpt_def)

lemma int_text_number: "list_all number_char (int_text i)"
  by (simp add: int_text_def nat_text_number number_signs)

lemma atom_range:
  "c \<in> set (int_text i) \<Longrightarrow> 32 \<le> cpt c"
  "c \<in> set (float_text f) \<Longrightarrow> 32 \<le> cpt c"
proof -
  show "c \<in> set (int_text i) \<Longrightarrow> 32 \<le> cpt c" using int_text_number number_range by blast
  assume c: "c \<in> set (float_text f)"
  show "32 \<le> cpt c"
  proof (cases "is_finite f")
    case True
    with c show ?thesis using float_text_number number_range by blast
  next
    case False
    with c show ?thesis by (cases f) (auto simp: is_finite_def float_text_def cpt_def)
  qed
qed

lemma json_flat_range: "c \<in> set (json_flat v) \<Longrightarrow> 32 \<le> cpt c"
proof (induction v rule: json_flat.induct)
  case (1 vs)
  have "\<forall>t \<in> set (map json_flat vs). \<forall>x \<in> set t. x = c \<longrightarrow> 32 \<le> cpt c" using 1 by auto
  with 1(2) set_join [of "'',''" "map json_flat vs"] show ?case by (auto simp: cpt_def)
next
  case (2 vs)
  have "\<forall>t \<in> set (map json_flat vs). \<forall>x \<in> set t. x = c \<longrightarrow> 32 \<le> cpt c" using 2 by auto
  with 2(2) set_join [of "'',''" "map json_flat vs"] show ?case by (auto simp: cpt_def)
next
  case (3 d)
  let ?ts = "map (\<lambda>(k, v). json_string k @ '':'' @ json_flat v) d"
  have "\<forall>t \<in> set ?ts. \<forall>x \<in> set t. x = c \<longrightarrow> 32 \<le> cpt c"
    using 3(1) json_string_range by (auto simp: cpt_def)
  with 3(2) set_join [of "'',''" ?ts] show ?case by (auto simp: cpt_def)
qed (auto simp: cpt_def dest: json_string_range atom_range split: if_splits)

text \<open>The text of a value has no white space at its ends.\<close>

lemma strip_id: "s \<noteq> [] \<Longrightarrow> \<not> is_space (hd s) \<Longrightarrow> \<not> is_space (last s) \<Longrightarrow> strip s = s"
proof -
  have keep: "lstrip t = t" if "t \<noteq> []" "\<not> is_space (hd t)" for t
    using that by (cases t) (auto simp: lstrip_def)
  assume s: "s \<noteq> []" "\<not> is_space (hd s)" "\<not> is_space (last s)"
  then have "lstrip (rev s) = rev s" by (intro keep) (simp_all add: hd_rev)
  with keep [OF s(1,2)] show ?thesis by (simp add: strip_def)
qed

lemma strip_space: "is_space c \<Longrightarrow> strip (c # s) = strip s"
  by (simp add: strip_def lstrip_def)

lemma number_no_space: "number_char c \<Longrightarrow> \<not> is_space c"
  by (auto simp: number_char_def is_digit_def is_space_def cpt_def Let_def)

lemma strip_number: "s \<noteq> [] \<Longrightarrow> list_all number_char s \<Longrightarrow> strip s = s"
  by (intro strip_id) (auto simp: list_all_iff dest!: number_no_space)

lemma strip_flat: "strip (json_flat v) = json_flat v \<and> json_flat v \<noteq> []"
proof (cases v)
  case (PInt i)
  have "int_text i \<noteq> []" using nat_text_digits by (simp add: int_text_def)
  with PInt int_text_number show ?thesis by (simp add: strip_number)
next
  case (PFloat f)
  show ?thesis
  proof (cases f)
    case (FFin x)
    then have "float_text f \<noteq> []" using pos_float_text_number by (simp add: float_text_def)
    moreover have "list_all number_char (float_text f)"
      using FFin by (intro float_text_number) (simp add: is_finite_def)
    ultimately show ?thesis using PFloat by (simp add: strip_number)
  qed (use PFloat in \<open>simp_all add: float_text_def strip_id is_space_def cpt_def Let_def\<close>)
qed (auto intro!: strip_id simp: json_string_def is_space_def cpt_def Let_def)

text \<open>The lines of a text without other line breaks.\<close>

lemma lines_of_line:
  "\<forall>c \<in> set l. \<not> is_break c \<Longrightarrow> lines_of acc (l @ lf # s) = (rev acc @ l) # lines_of [] s"
proof (induction l arbitrary: acc)
  case Nil
  have "cpt lf = 10" by (simp add: cpt_def)
  then show ?case using break_lf by (cases s) auto
qed simp

lemma lines_of_last: "\<forall>c \<in> set l. \<not> is_break c \<Longrightarrow> l \<noteq> [] \<or> acc \<noteq> [] \<Longrightarrow> lines_of acc l = [rev acc @ l]"
  by (induction l arbitrary: acc) auto

lemma splitlines_join:
  "(\<And>l. l \<in> set ls \<Longrightarrow> l \<noteq> [] \<and> (\<forall>c \<in> set l. \<not> is_break c)) \<Longrightarrow> splitlines (join [lf] ls) = ls"
proof (induction ls)
  case (Cons l ls)
  have l: "l \<noteq> []" "\<forall>c \<in> set l. \<not> is_break c" using Cons.prems [of l] by auto
  have IH: "splitlines (join [lf] ls) = ls" using Cons.prems by (intro Cons.IH) auto
  show ?case
  proof (cases ls)
    case Nil
    with l show ?thesis by (simp add: splitlines_def lines_of_last)
  next
    case (Cons m ms)
    then have "join [lf] (l # ls) = l @ lf # join [lf] ls" by simp
    with IH lines_of_line [OF l(2), of "[]"] show ?thesis by (simp add: splitlines_def)
  qed
qed (simp add: splitlines_def)

text \<open>The first closing mark is the one behind the fields.\<close>

lemma find_at_skip: "lf \<notin> set l \<Longrightarrow> find_at (lf # m) (l @ s) = map_option ((+) (length l)) (find_at (lf # m) s)"
proof (induction l)
  case Nil
  show ?case by (simp add: option.map_id0 [unfolded id_def])
next
  case (Cons c l)
  then show ?case by (cases "find_at (lf # m) s") auto
qed

lemma closing_mark:
  assumes "\<And>l. l \<in> set ls \<Longrightarrow> lf \<notin> set l \<and> l \<noteq> ''---''" "ls \<noteq> []"
  shows "find_at (lf # ''---'' @ [lf]) (join [lf] ls @ lf # ''---'' @ lf # s) = Some (length (join [lf] ls))"
  using assms
proof (induction ls)
  case (Cons l ls)
  let ?m = "lf # ''---'' @ [lf]" and ?rest = "lf # ''---'' @ lf # s"
  have l: "lf \<notin> set l" using Cons.prems by auto
  have start: "find_at ?m ?rest = Some 0" by simp
  show ?case
  proof (cases ls)
    case Nil
    with find_at_skip [OF l, of "''---'' @ [lf]" ?rest] start show ?thesis by simp
  next
    case (Cons m ms)
    have IH: "find_at ?m (join [lf] ls @ ?rest) = Some (length (join [lf] ls))"
      using Cons Cons.prems by (intro Cons.IH) auto
    have m: "lf \<notin> set m" "m \<noteq> ''---''" using Cons Cons.prems(1) [of m] by auto
    obtain x where x: "join [lf] ls @ ?rest = m @ lf # x" using Cons by (cases ms) auto
    have "\<not> prefix ?m (lf # join [lf] ls @ ?rest)"
    proof
      assume "prefix ?m (lf # join [lf] ls @ ?rest)"
      then obtain y where "''---'' @ lf # y = m @ lf # x" unfolding x by (auto simp: prefix_def)
      then have "takeWhile (\<lambda>c. c \<noteq> lf) (''---'' @ lf # y) = takeWhile (\<lambda>c. c \<noteq> lf) (m @ lf # x)"
        by (rule arg_cong)
      with takeWhile_line [OF m(1), of "lf # x"] m(2) show False by (simp add: starts_line_def)
    qed
    then have "find_at ?m (lf # join [lf] ls @ ?rest) = Some (Suc (length (join [lf] ls)))"
      using IH by simp
    moreover have "join [lf] (l # ls) @ ?rest = l @ lf # join [lf] ls @ ?rest" using Cons by simp
    ultimately show ?thesis using find_at_skip [OF l, of "''---'' @ [lf]"] Cons by simp
  qed
qed simp

text \<open>Each line of the frontmatter is one field of the parsed mapping.\<close>

definition field_line :: "pydict \<Rightarrow> string \<Rightarrow> string" where
  "field_line fm k = k @ '': '' @ json_flat (dget fm k)"

definition plain_key :: "string \<Rightarrow> bool" where
  "plain_key k \<longleftrightarrow> frontmatter_key k \<and> CHR '':'' \<notin> set k \<and> strip k = k \<and>
     list_all (\<lambda>c. 32 \<le> cpt c \<and> cpt c < 127) k"

lemma frontmatter_fields_keys: "list_all plain_key frontmatter_fields"
  by code_simp

lemma frontmatter_fields_distinct: "distinct frontmatter_fields"
  by code_simp

lemma plain_key_hd: "plain_key k \<Longrightarrow> k \<noteq> [] \<and> 97 \<le> cpt (hd k)"
  by (cases k) (auto simp: plain_key_def frontmatter_key_def)

lemma add_field_line:
  assumes "plain_key k" "json_safe (dget fm k)" "\<not> has_key parsed k"
  shows "add_field (field_line fm k) parsed = Inr (parsed @ [(k, untuple (dget fm k))])"
proof -
  let ?j = "json_flat (dget fm k)"
  have k: "frontmatter_key k" "CHR '':'' \<notin> set k" "strip k = k" using assms(1) by (auto simp: plain_key_def)
  have "takeWhile (\<lambda>c. c \<noteq> CHR '':'') (field_line fm k) = k"
    using k(2) by (auto simp: field_line_def intro!: takeWhile_append2 [THEN trans])
  moreover have "strip (drop (Suc (length k)) (field_line fm k)) = ?j"
    using strip_flat [of "dget fm k"] strip_space [of "CHR '' ''" ?j]
    by (simp add: field_line_def is_space_def cpt_def Let_def)
  moreover have "json_loads ?j = Some (untuple (dget fm k))"
    using assms(2) by (intro json_loads_reads reads_flat)
  moreover have "dset parsed k (untuple (dget fm k)) = parsed @ [(k, untuple (dget fm k))]"
    using assms(3) by (intro dset_new) (simp add: has_key_iff dkeys_def)
  moreover have "CHR '':'' \<in> set (field_line fm k)" by (simp add: field_line_def)
  ultimately show ?thesis using k assms(3) by (simp add: add_field_def Let_def)
qed

definition parsed_fields :: "pydict \<Rightarrow> string list \<Rightarrow> pydict" where
  "parsed_fields fm ks = map (\<lambda>k. (k, untuple (dget fm k))) ks"

lemma parsed_fields_get: "k \<in> set ks \<Longrightarrow> dget (parsed_fields fm ks) k = untuple (dget fm k)"
  by (induction ks) (auto simp: parsed_fields_def)

lemma parsed_fields_has: "has_key (parsed_fields fm ks) k \<longleftrightarrow> k \<in> set ks"
  by (induction ks) (auto simp: parsed_fields_def)

lemma add_field_lines:
  assumes "list_all plain_key ks" "\<And>k. k \<in> set ks \<Longrightarrow> json_safe (dget fm k)"
    and "distinct ks" "\<And>k. k \<in> set ks \<Longrightarrow> \<not> has_key acc k"
  shows "foldE add_field (map (field_line fm) ks) acc = Inr (acc @ parsed_fields fm ks)"
  using assms
proof (induction ks arbitrary: acc)
  case (Cons k ks)
  have "foldE add_field (map (field_line fm) ks) (acc @ [(k, untuple (dget fm k))]) =
      Inr ((acc @ [(k, untuple (dget fm k))]) @ parsed_fields fm ks)"
    using Cons.prems by (intro Cons.IH) (auto simp: has_key_iff dkeys_def)
  moreover have "add_field (field_line fm k) acc = Inr (acc @ [(k, untuple (dget fm k))])"
    using Cons.prems by (intro add_field_line) auto
  ultimately show ?case by (simp add: parsed_fields_def)
qed (simp add: parsed_fields_def)

lemma frontmatter_lines_render:
  assumes "\<And>k. k \<in> set ks \<Longrightarrow> finite_floats (dget fm k)"
  shows "mapE (frontmatter_line fm) ks = Inr (map (field_line fm) ks)"
  using assms by (induction ks) (simp_all add: frontmatter_line_def yaml_scalar_def field_line_def)

text \<open>A frontmatter line is one line when its value holds no next-line character.\<close>

definition unbroken :: "pydict \<Rightarrow> bool" where
  "unbroken fm \<longleftrightarrow> list_all (\<lambda>k. CHR 0x85 \<notin> set (json_flat (dget fm k))) frontmatter_fields"

lemma break_chars: "is_break c \<Longrightarrow> 32 \<le> cpt c \<Longrightarrow> c = CHR 0x85"
  using cpt_eq_iff [of 133 c] by (auto simp: is_break_def Let_def char_of_def)

lemma field_line_unbroken:
  assumes "k \<in> set frontmatter_fields" "unbroken fm"
  shows "field_line fm k \<noteq> [] \<and> (\<forall>c \<in> set (field_line fm k). \<not> is_break c) \<and> field_line fm k \<noteq> ''---''"
proof -
  have k: "plain_key k" using frontmatter_fields_keys assms(1) by (simp add: list_all_iff)
  have "\<not> is_break c" if c: "c \<in> set (field_line fm k)" for c
  proof
    assume "is_break c"
    have "32 \<le> cpt c" using c k json_flat_range
      by (auto simp: field_line_def plain_key_def list_all_iff cpt_def [of "CHR '':''"] cpt_def [of "CHR '' ''"])
    with \<open>is_break c\<close> have "c = CHR 0x85" by (rule break_chars)
    moreover have "CHR 0x85 \<notin> set k"
      using k by (auto simp: plain_key_def list_all_iff cpt_def)
    ultimately show False
      using c assms by (auto simp: field_line_def unbroken_def list_all_iff)
  qed
  moreover have "field_line fm k \<noteq> ''---''" "field_line fm k \<noteq> []"
    using plain_key_hd [OF k] by (cases k; auto simp: field_line_def cpt_def)+
  ultimately show ?thesis by blast
qed

lemma frontmatter_splits:
  assumes "unbroken fm"
  shows "splitlines (join [lf] (map (field_line fm) frontmatter_fields)) = map (field_line fm) frontmatter_fields"
    and "find_at (lf # ''---'' @ [lf]) (join [lf] (map (field_line fm) frontmatter_fields) @ lf # ''---'' @ lf # s) =
      Some (length (join [lf] (map (field_line fm) frontmatter_fields)))"
proof -
  show "splitlines (join [lf] (map (field_line fm) frontmatter_fields)) = map (field_line fm) frontmatter_fields"
    using field_line_unbroken [OF _ assms] by (intro splitlines_join) auto
  have "frontmatter_fields \<noteq> []" by (simp add: frontmatter_fields_def)
  then show "find_at (lf # ''---'' @ [lf]) (join [lf] (map (field_line fm) frontmatter_fields) @ lf # ''---'' @ lf # s) =
      Some (length (join [lf] (map (field_line fm) frontmatter_fields)))"
    using field_line_unbroken [OF _ assms] break_lf(1) by (intro closing_mark) auto
qed

end
