(* ===== verification/Memory_Fidelity.thy ===== *)
theory Memory_Fidelity
  imports Memory_Roundtrip
begin

text \<open>
  From the database row to the parsed document: the source normalised from a row, the draft
  built over it and the document rendered from the draft agree on the actions, the evidence,
  the identity and the verdict whether the memory may be executed.
\<close>

section \<open>Evidence in canonical form\<close>

lemma entries_fixed:
  "(\<And>k w. (k, w) \<in> set s \<Longrightarrow> f w = Inr w) \<Longrightarrow> mapE (\<lambda>(k, v). bindE (f v) (\<lambda>w. Inr (k, w))) s = Inr s"
proof (induction s)
  case (Cons x s)
  obtain k v where x: "x = (k, v)" by (cases x)
  have "f v = Inr v" using Cons.prems x by auto
  moreover have "mapE (\<lambda>(k, v). bindE (f v) (\<lambda>w. Inr (k, w))) s = Inr s"
    using Cons.prems by (intro Cons.IH) auto
  ultimately show ?case by (simp add: x)
qed simp

lemma sanitize_canon: "sanitize_value depth v = Inr v \<Longrightarrow> sanitize_value depth (canon v) = Inr (canon v)"
proof (induction depth v rule: sanitize_value.induct)
  case (1 depth v)
  show ?case
  proof (cases v)
    case (PDict d)
    let ?ok = "\<lambda>(k, v). \<not> is_sensitive_key k"
    from PDict 1(4) have b: "plen d \<le> max_episode_collection_items" "\<not> depth > max_episode_depth"
      and e: "list_all2 (\<lambda>(k, v) (k', w). k = k' \<and> sanitize_value (depth + 1) v = Inr w) (filter ?ok d) d"
      by (auto simp: sanitize_value.simps [of depth] guardE_eq_Inr bindE_eq_Inr sanitize_fields_eq)
    have "length (filter ?ok d) = length d" using list_all2_lengthD [OF e] .
    then have keep: "\<forall>x \<in> set d. ?ok x" using length_filter_less [of _ d ?ok] by (metis less_irrefl)
    then have "filter ?ok d = d" by (rule filter_True)
    with e have fix_entry: "sanitize_value (depth + 1) w = Inr w" if "(k, w) \<in> set d" for k w
      using that by (auto simp: list_all2_conv_all_nth in_set_conv_nth case_prod_unfold)
    let ?s = "map (\<lambda>(k, v). (k, canon v)) (sort_key fst d)"
    have entry: "\<not> is_sensitive_key k \<and> sanitize_value (depth + 1) w = Inr w" if "(k, w) \<in> set ?s" for k w
      using that keep fix_entry 1(3) [OF b(2) PDict b(1) [unfolded not_less [symmetric]]] PDict by auto
    have "filter ?ok ?s = ?s"
    proof (intro filter_True ballI)
      fix x assume x: "x \<in> set ?s"
      obtain k w where "x = (k, w)" by (cases x)
      with x entry [of k w] show "?ok x" by simp
    qed
    moreover have "mapE (\<lambda>(k, v). bindE (sanitize_value (depth + 1) v) (\<lambda>w. Inr (k, w))) ?s = Inr ?s"
      using entry by (intro entries_fixed) blast
    moreover have "plen ?s = plen d" by (simp add: plen_def)
    ultimately have "sanitize_value depth (PDict ?s) = Inr (PDict ?s)"
      using b by (simp add: sanitize_value.simps [of depth] guardE_eq_Inr bindE_eq_Inr)
    then show ?thesis unfolding PDict canon_dict .
  next
    case (PList vs)
    with 1(4) have b: "plen vs \<le> max_episode_collection_items" "\<not> depth > max_episode_depth"
      and ws: "list_all2 (\<lambda>v w. sanitize_value (depth + 1) v = Inr w) vs vs"
      by (auto simp: sanitize_value.simps [of depth] guardE_eq_Inr bindE_eq_Inr mapE_eq_Inr)
    have "sanitize_value (depth + 1) (canon x) = Inr (canon x)" if "x \<in> set vs" for x
      using 1(1) [OF b(2) PList _ that] b ws that by (auto simp: list_all2_same)
    then have "mapE (sanitize_value (depth + 1)) (map canon vs) = Inr (map canon vs)"
      by (auto simp: mapE_eq_Inr list_all2_same)
    then show ?thesis using PList b
      by (simp add: sanitize_value.simps [of depth] guardE_eq_Inr bindE_eq_Inr plen_def)
  next
    case (PTuple vs)
    with 1(4) show ?thesis
      by (auto simp: sanitize_value.simps [of depth] guardE_eq_Inr bindE_eq_Inr)
  qed (use 1(4) in auto)
qed

lemma sanitize_safe: "sanitize_value depth v = Inr w \<Longrightarrow> json_safe v \<Longrightarrow> json_safe w"
proof (induction depth v arbitrary: w rule: sanitize_value.induct)
  case (1 depth v)
  show ?case
  proof (cases v)
    case (PDict d)
    let ?keep = "filter (\<lambda>(k, v). \<not> is_sensitive_key k) d"
    from PDict 1(4) obtain e where w: "w = PDict e" "plen d \<le> max_episode_collection_items"
        "\<not> depth > max_episode_depth"
      and e: "list_all2 (\<lambda>(k, v) (k', w). k = k' \<and> sanitize_value (depth + 1) v = Inr w) ?keep e"
      by (auto simp: sanitize_value.simps [of depth] guardE_eq_Inr bindE_eq_Inr sanitize_fields_eq)
    have "map fst e = map fst ?keep"
      using e by (auto simp: list_all2_conv_all_nth list_eq_iff_nth_eq case_prod_unfold)
    moreover have "distinct (map fst ?keep)" using 1(5) PDict by (simp add: distinct_map_filter)
    moreover have "json_safe x" if "(k, x) \<in> set e" for k x
      using list_all2_mem2 [OF e that] 1(3) [OF _ PDict] 1(5) PDict w by (auto simp: list_all_iff)
    ultimately show ?thesis using w by (auto simp: list_all_iff)
  next
    case (PList vs)
    with 1(4) obtain ws where w: "w = PList ws" "plen vs \<le> max_episode_collection_items"
        "\<not> depth > max_episode_depth"
      and ws: "list_all2 (\<lambda>v w. sanitize_value (depth + 1) v = Inr w) vs ws"
      by (auto simp: sanitize_value.simps [of depth] guardE_eq_Inr bindE_eq_Inr mapE_eq_Inr)
    have "json_safe x" if "x \<in> set ws" for x
      using list_all2_mem2 [OF ws that] 1(1) 1(5) PList w by (auto simp: list_all_iff)
    then show ?thesis using w by (auto simp: list_all_iff)
  next
    case (PTuple vs)
    with 1(4) obtain ws where w: "w = PList ws" "plen vs \<le> max_episode_collection_items"
        "\<not> depth > max_episode_depth"
      and ws: "list_all2 (\<lambda>v w. sanitize_value (depth + 1) v = Inr w) vs ws"
      by (auto simp: sanitize_value.simps [of depth] guardE_eq_Inr bindE_eq_Inr mapE_eq_Inr)
    have "json_safe x" if "x \<in> set ws" for x
      using list_all2_mem2 [OF ws that] 1(2) 1(5) PTuple w by (auto simp: list_all_iff)
    then show ?thesis using w by (auto simp: list_all_iff)
  qed (use 1(4,5) in \<open>auto simp: sanitize_value.simps [of depth] result_simps\<close>)
qed

text \<open>Validated evidence, written and read again, is validated without a change.\<close>

lemma validated_canon:
  assumes "validate_episode_evidence v = Inr e" "json_safe v" "canon (PDict e) = PDict e'"
  shows "validate_episode_evidence (PDict e') = Inr e'" "json_safe (PDict e)"
proof -
  have s: "sanitize_value 0 v = Inr (PDict e)" "plen (json_dumps (PDict e)) \<le> max_episode_evidence_chars"
    using assms(1) unfolding validate_episode_evidence_eq by blast+
  show safe: "json_safe (PDict e)" using s(1) assms(2) by (rule sanitize_safe)
  have "json_safe (PDict e')" using canon_safe [OF safe] assms(3) by simp
  then have "finite_floats (PDict e')" by (rule json_safe_finite)
  moreover have "sanitize_value 0 (PDict e') = Inr (PDict e')"
    using sanitize_canon [OF sanitize_value_idem [OF s(1)]] assms(3) by simp
  moreover have "json_dumps (PDict e') = json_dumps (PDict e)"
    using dumps_canon [of "PDict e"] assms(3) by simp
  ultimately show "validate_episode_evidence (PDict e') = Inr e'"
    using s(2) unfolding validate_episode_evidence_eq by (metis)
qed

section \<open>The source of a memory\<close>

lemma json_safe_iff:
  "json_safe (PDict d) \<longleftrightarrow> distinct (map fst d) \<and> (\<forall>k. json_safe (dget d k))"
proof
  assume *: "distinct (map fst d) \<and> (\<forall>k. json_safe (dget d k))"
  have "json_safe v" if "(k, v) \<in> set d" for k v
    using * that by (auto simp: dget_def dest: spec [of _ k])
  with * show "json_safe (PDict d)" by (auto simp: list_all_iff)
qed (use json_safe_get in auto)

lemma json_safe_dset [intro]: "json_safe (PDict d) \<Longrightarrow> json_safe v \<Longrightarrow> json_safe (PDict (dset d k v))"
  unfolding json_safe_iff using distinct_update [of d k v] by (simp add: dset_def [symmetric])

lemma json_safe_fill: "json_safe (PDict d) \<Longrightarrow> json_safe v \<Longrightarrow> json_safe (PDict (fill_missing k v d))"
  by (auto simp: fill_missing_def simp del: json_safe.simps)

lemma json_safe_field: "json_safe v \<Longrightarrow> as_dict v = Some d \<Longrightarrow> json_safe (dget d k)"
  by (auto simp: as_dict_def intro: json_safe_get simp del: json_safe.simps split: pyval.splits)

lemma json_safe_with_map:
  assumes "json_safe (PDict row)" "json_safe (PDict payload)"
  shows "json_safe (PDict (with_map row payload))"
proof (cases "as_dict (dget row ''navigation'')")
  case (Some navigation)
  show ?thesis
  proof (cases "as_dict (dget navigation ''current_map'')")
    case (Some current)
    have "json_safe (dget navigation k)" for k
      using json_safe_field [OF json_safe_get [OF assms(1)]] \<open>as_dict (dget row _) = _\<close> .
    then have cur: "json_safe (dget current k)" for k using json_safe_field Some by blast
    have "json_safe (PDict (fill_missing ''map_observed_at'' (dget row ''status_reported_at'')
        (fill_missing ''map_name'' (dget current ''map_name'')
          (fill_missing ''map_id'' (dget current ''id'') payload))))"
      by (intro json_safe_fill assms cur json_safe_get [OF assms(1)])
    then show ?thesis unfolding with_map_def \<open>as_dict (dget row _) = _\<close> Some option.case .
  qed (use assms(2) in \<open>simp add: with_map_def Some\<close>)
qed (use assms(2) in \<open>simp add: with_map_def\<close>)

lemma json_safe_None: "json_safe PNone"
  by simp

lemma source_fields_distinct: "distinct source_fields"
  by code_simp

lemma dget_fields: "dget (map (\<lambda>f. (f, h f)) fs) k = (if k \<in> set fs then h k else PNone)"
  by (induction fs) auto

lemma json_safe_row_payload:
  assumes "json_safe (PDict row)" shows "json_safe (PDict (row_payload row u f out app))"
proof -
  have "json_safe (PDict (map (\<lambda>f. (f, dget row f)) source_fields))"
    unfolding json_safe_iff using source_fields_distinct json_safe_get [OF assms] json_safe_None
    by (simp add: comp_def dget_fields del: json_safe.simps)
  then show ?thesis unfolding row_payload_def by (intro json_safe_dset) (auto split: option.split)
qed

lemma with_map_get:
  "k \<notin> {''map_id'', ''map_name'', ''map_observed_at''} \<Longrightarrow> dget (with_map row payload) k = dget payload k"
  by (auto simp: with_map_def fill_missing_def split: option.splits)

lemma is_dict_canon: "is_dict (canon v) = is_dict v"
  by (cases v) (auto simp: is_dict_def)

text \<open>What a payload read from a source satisfies.\<close>

definition good_evidence :: "pyval \<Rightarrow> bool" where
  "good_evidence v \<longleftrightarrow> v = PNone \<or> (\<exists>e. v = PDict e \<and> validate_episode_evidence v = Inr e)"

lemma good_evidence_canon:
  assumes "v = PNone \<or> (\<exists>x e. json_safe x \<and> validate_episode_evidence x = Inr e \<and> v = PDict e)"
  shows "good_evidence (canon v)"
proof -
  have "good_evidence (canon (PDict e))" if "json_safe x" "validate_episode_evidence x = Inr e" for x e
    using validated_canon [OF that(2,1)] unfolding good_evidence_def by (metis canon.simps(3))
  with assms show ?thesis by (auto simp: good_evidence_def)
qed

definition stored_source :: "resolution_source \<Rightarrow> pydict \<Rightarrow> pyval list \<Rightarrow> bool" where
  "stored_source source payload runs \<longleftrightarrow>
     source_payload source = Inr payload \<and> canon (PDict payload) = PDict payload \<and>
     json_safe (PDict payload) \<and> dget payload ''action_runs'' = PList runs \<and> list_all is_dict runs \<and>
     dispatched_actions source = Inr runs \<and> good_evidence (dget payload ''episode_evidence'') \<and>
     memory_uuid MemoryFormatErr (PStr (rs_resolution_id source)) = Inr (rs_resolution_id source) \<and>
     lf \<notin> set (rs_resolution_id source) \<and> CHR 13 \<notin> set (rs_resolution_id source)"

lemma stored_payload:
  assumes "json_safe (PDict d)" "dget d ''action_runs'' = PList runs" "list_all is_dict runs"
    and "\<exists>v. dget d ''episode_evidence'' = canon v \<and> good_evidence (canon v)"
    and "memory_uuid err v = Inr u"
  shows "\<exists>payload runs'. stored_source \<lparr>rs_resolution_id = u, rs_failure_id = f, rs_source_hash = h,
      rs_payload_json = json_dumps (PDict d)\<rparr> payload runs'"
proof -
  obtain payload where p: "canon (PDict d) = PDict payload" by simp
  have dist: "distinct (map fst d)" using assms(1) by simp
  have runs: "dget payload ''action_runs'' = PList (map canon runs)"
    using canon_lookup(1) [OF p dist, of "''action_runs''"] assms(2) by simp
  then have key: "has_key payload ''action_runs''" using not_has_key_dget by fastforce
  have sp: "json_loads (json_dumps (PDict d)) = Some (PDict payload)"
    using json_roundtrip(2) [OF assms(1)] p by simp
  have "good_evidence (dget payload ''episode_evidence'')"
    using assms(4) canon_lookup(1) [OF p dist, of "''episode_evidence''"] by auto
  moreover have "canon (PDict payload) = PDict payload" using canon_canon [of "PDict d"] p by simp
  moreover have "json_safe (PDict payload)" using canon_safe [OF assms(1)] p by simp
  moreover have "list_all is_dict (map canon runs)"
    using assms(3) by (simp add: list_all_iff is_dict_canon)
  ultimately show ?thesis
    using runs key sp memory_uuid_canonical [OF assms(5)] memory_uuid_no_lf [OF assms(5)]
    by (intro exI [of _ payload] exI [of _ "map canon runs"])
      (simp add: stored_source_def source_payload_def dispatched_actions_def py_items_def)
qed

definition with_evidence :: "pydict \<Rightarrow> pydict result" where
  "with_evidence payload =
     (if dget payload ''episode_evidence'' = PNone then Inr payload
      else bindE (validate_episode_evidence (dget payload ''episode_evidence''))
        (\<lambda>e. Inr (dset payload ''episode_evidence'' (PDict e))))"

lemma source_from_row_parts:
  assumes "resolution_source_from_row sha (PDict row) = Inr source"
  obtains u f out applied p c d where
    "memory_uuid ResolutionRowErr (dget row ''resolution_id'') = Inr u"
    "with_evidence (row_payload row u f out applied) = Inr p"
    "canonical_payload (with_map row p) = Inr c" "checked_action_runs c = Inr d"
    "source = \<lparr>rs_resolution_id = u, rs_failure_id = f, rs_source_hash = sha (json_dumps (PDict d)),
       rs_payload_json = json_dumps (PDict d)\<rparr>"
  using assms unfolding resolution_source_from_row_def
  by (cases "if has_key row ''applied'' then dget row ''applied'' else PBool False")
    (auto simp: bindE_eq_Inr guardE_eq_Inr Let_def with_evidence_def [symmetric] that
      simp del: json_dumps.simps finite_floats.simps split del: if_split)

lemma with_evidence_facts:
  assumes "with_evidence p0 = Inr p" "json_safe (PDict p0)"
  shows "json_safe (PDict p)" "dget p ''episode_evidence'' = PNone \<or>
    (\<exists>x e. json_safe x \<and> validate_episode_evidence x = Inr e \<and> dget p ''episode_evidence'' = PDict e)"
proof -
  have "p = p0 \<and> dget p ''episode_evidence'' = PNone \<or>
      (\<exists>e. validate_episode_evidence (dget p0 ''episode_evidence'') = Inr e \<and>
        p = dset p0 ''episode_evidence'' (PDict e))"
    using assms(1) by (auto simp: with_evidence_def bindE_eq_Inr split: if_splits)
  moreover have "json_safe (PDict e)" if "validate_episode_evidence (dget p0 ''episode_evidence'') = Inr e" for e
    using validated_canon(2) [OF that json_safe_get [OF assms(2)]] by (metis canon.simps(3))
  ultimately show "json_safe (PDict p)" "dget p ''episode_evidence'' = PNone \<or>
    (\<exists>x e. json_safe x \<and> validate_episode_evidence x = Inr e \<and> dget p ''episode_evidence'' = PDict e)"
    using assms(2) json_safe_get [OF assms(2)] by (auto simp del: json_safe.simps)
qed

lemma checked_action_runs_facts:
  assumes "checked_action_runs c = Inr d" "json_safe (PDict c)"
  shows "json_safe (PDict d)" "\<exists>runs. dget d ''action_runs'' = PList runs \<and> list_all is_dict runs"
    "dget d ''episode_evidence'' = dget c ''episode_evidence''"
proof -
  have "d = c \<or> d = dset c ''action_runs'' (PList [])"
    using assms(1) by (auto simp: checked_action_runs_def Let_def guardE_eq_Inr split: if_splits pyval.splits)
  then show "json_safe (PDict d)" "dget d ''episode_evidence'' = dget c ''episode_evidence''"
    using assms(2) json_safe_dset [OF assms(2), of "PList []"] by (auto simp del: json_safe.simps(5))
  show "\<exists>runs. dget d ''action_runs'' = PList runs \<and> list_all is_dict runs"
    using assms(1) by (auto simp: checked_action_runs_def Let_def guardE_eq_Inr split: if_splits pyval.splits)
qed

lemma source_from_row_stored:
  assumes "resolution_source_from_row sha (PDict row) = Inr source" "json_safe (PDict row)"
  shows "\<exists>payload runs. stored_source source payload runs"
proof -
  from assms(1) obtain u f out applied p c d where
    u: "memory_uuid ResolutionRowErr (dget row ''resolution_id'') = Inr u"
    and p: "with_evidence (row_payload row u f out applied) = Inr p"
    and c: "canonical_payload (with_map row p) = Inr c" and d: "checked_action_runs c = Inr d"
    and source: "source = \<lparr>rs_resolution_id = u, rs_failure_id = f,
      rs_source_hash = sha (json_dumps (PDict d)), rs_payload_json = json_dumps (PDict d)\<rparr>"
    by (rule source_from_row_parts)
  note pf = with_evidence_facts [OF p json_safe_row_payload [OF assms(2)]]
  have wm: "json_safe (PDict (with_map row p))" using json_safe_with_map [OF assms(2) pf(1)] .
  have "json_loads (json_dumps (PDict (with_map row p))) = Some (PDict c)"
    using c by (auto simp: canonical_payload_def guardE_eq_Inr simp del: json_dumps.simps finite_floats.simps
        split: option.splits pyval.splits)
  with json_roundtrip(2) [OF wm] have can: "canon (PDict (with_map row p)) = PDict c" by simp
  have cs: "json_safe (PDict c)" using canon_safe [OF wm] can by simp
  have "dget c ''episode_evidence'' = canon (dget p ''episode_evidence'')"
    using canon_lookup(1) [OF can] wm by (simp add: with_map_get)
  then have ev: "\<exists>v. dget d ''episode_evidence'' = canon v \<and> good_evidence (canon v)"
    using checked_action_runs_facts(3) [OF d cs] good_evidence_canon [OF pf(2)] by auto
  obtain runs where "dget d ''action_runs'' = PList runs" "list_all is_dict runs"
    using checked_action_runs_facts(2) [OF d cs] by blast
  from stored_payload [OF checked_action_runs_facts(1) [OF d cs] this ev u] show ?thesis
    unfolding source by blast
qed

section \<open>The rendered document\<close>

lemma draft_facts:
  assumes "memory_draft_post_init source kind act failure recovery lessons sig model response = Inr draft"
  shows "md_source draft = source" "md_memory_kind draft \<in> {''positive'', ''negative''}"
    "clean_signature sig = Inr (md_signature draft)"
    "md_actionable draft \<Longrightarrow> md_memory_kind draft = ''positive'' \<and> (\<exists>actions payload.
       dispatched_actions source = Inr actions \<and> actions \<noteq> [] \<and> source_payload source = Inr payload \<and>
       dget payload ''outcome'' = PStr ''resolved'' \<and> is_true (dget payload ''applied''))"
  using assms unfolding memory_draft_post_init_def
  by (cases kind; cases act; auto simp: guardE_eq_Inr bindE_eq_Inr check_actionable_def)+

lemma nat_text_length: "0 \<le> n \<Longrightarrow> n < 10 ^ Suc k \<Longrightarrow> length (nat_text n) \<le> Suc k"
proof (induction k arbitrary: n)
  case 0
  then show ?case by (subst nat_text.simps) simp
next
  case (Suc k)
  show ?case
  proof (cases "n < 10")
    case True
    then show ?thesis by (subst nat_text.simps) simp
  next
    case False
    have "length (nat_text (n div 10)) \<le> Suc k" using Suc.prems by (intro Suc.IH) simp_all
    with False show ?thesis by (subst nat_text.simps) simp
  qed
qed

lemma json_safe_length: "plen xs < 2 ^ 63 \<Longrightarrow> json_safe (PInt (int (length xs)))"
proof -
  assume "plen xs < 2 ^ 63"
  then have "length (nat_text (int (length xs))) \<le> Suc 18"
    by (intro nat_text_length) (simp_all add: plen_def)
  then show ?thesis by (simp add: plen_def)
qed

lemma frontmatter_keys: "map fst (frontmatter_of draft payload n) = frontmatter_fields"
  by (simp add: frontmatter_of_def frontmatter_fields_def Let_def)

lemma json_safe_text_value: "json_safe (text_value t)"
  by (cases t) (simp_all add: text_value_def)

lemma frontmatter_safe:
  assumes "json_safe (PDict payload)" "plen runs < 2 ^ 63"
  shows "json_safe (dget (frontmatter_of draft payload (length runs)) k)"
proof -
  have one: "json_safe (PInt 1)" by code_simp
  have "json_safe (PDict (frontmatter_of draft payload (length runs)))"
    using json_safe_get [OF assms(1)] json_safe_length [OF assms(2)] one json_safe_text_value
      frontmatter_fields_distinct [folded frontmatter_keys [of draft payload "length runs"]]
    unfolding json_safe.simps(5) by (simp add: frontmatter_of_def Let_def del: json_safe.simps(1))
  then show ?thesis by (rule json_safe_get)
qed

text \<open>Nothing the renderer writes holds a carriage return, so reading the file changes nothing.\<close>

lemma universal_newlines_id: "CHR 13 \<notin> set s \<Longrightarrow> universal_newlines s = s"
  by (induction s) auto

lemma join_absent: "c \<notin> set sep \<Longrightarrow> (\<And>t. t \<in> set ts \<Longrightarrow> c \<notin> set t) \<Longrightarrow> c \<notin> set (join sep ts)"
  using set_join [of sep ts] by auto

lemma cr_not_lf: "CHR 13 \<notin> set [lf]" "CHR 13 \<notin> set ('','' @ new_line n)" "CHR 13 \<notin> set (new_line n)"
  by (auto simp: new_line_def)

lemma json_pretty_no_cr: "CHR 13 \<notin> set (json_pretty n v)"
proof (induction n v rule: json_pretty.induct)
  case (1 n vs)
  have "CHR 13 \<notin> set (join ('','' @ new_line (Suc n)) (map (json_pretty (Suc n)) vs))" if "vs \<noteq> []"
    using 1 that by (intro join_absent cr_not_lf) auto
  then show ?case using cr_not_lf by auto
next
  case (2 n vs)
  have "CHR 13 \<notin> set (join ('','' @ new_line (Suc n)) (map (json_pretty (Suc n)) vs))" if "vs \<noteq> []"
    using 2 that by (intro join_absent cr_not_lf) auto
  then show ?case using cr_not_lf by auto
next
  case (3 n d)
  let ?ws = "map snd (sort_key fst (map (\<lambda>(k, v). (k, json_string k @ '': '' @ json_pretty (Suc n) v)) d))"
  have cr: "cpt (CHR 13) = 13" by (simp add: cpt_def)
  have str: "CHR 13 \<notin> set (json_string k)" for k using json_string_range [of "CHR 13" k] cr by auto
  have "CHR 13 \<notin> set w" if "w \<in> set ?ws" for w
  proof -
    from that obtain k v where kv: "(k, v) \<in> set d" "w = json_string k @ '': '' @ json_pretty (Suc n) v"
      by auto
    have "CHR 13 \<notin> set (json_pretty (Suc n) v)" by (rule 3 [OF _ kv(1) refl]) (use kv(1) in auto)
    with str kv(2) show ?thesis by simp
  qed
  then have "CHR 13 \<notin> set (join ('','' @ new_line (Suc n)) ?ws)"
    by (intro join_absent cr_not_lf)
  then show ?case unfolding json_pretty.simps(3) using cr_not_lf by (auto simp del: set_map)
qed (use json_string_range [of "CHR 13"] atom_range [of "CHR 13"] in \<open>auto simp: cpt_def\<close>)

lemma blockquote_no_cr: "CHR 13 \<notin> set (blockquote v)"
  unfolding blockquote_def
  by (intro join_absent cr_not_lf) (use splitlines_no_lf [of _ v] in \<open>auto split: if_splits\<close>)

lemma lessons_no_cr: "CHR 13 \<notin> set (lesson_lines ls)"
proof (cases "ls = []")
  case False
  then show ?thesis
    unfolding lesson_lines_def by (simp, intro join_absent cr_not_lf) (auto simp: blockquote_no_cr)
qed (simp add: lesson_lines_def)

lemma context_no_cr: "t \<in> set (context_lines draft payload) \<Longrightarrow> CHR 13 \<notin> set t"
  using body_scalar_no_lf by (auto simp: context_lines_def Let_def split: if_splits)

lemma block_no_cr: "CHR 13 \<notin> set h \<Longrightarrow> CHR 13 \<notin> set j \<Longrightarrow> t \<in> set (json_block h j) \<Longrightarrow> CHR 13 \<notin> set t"
  by (auto simp: json_block_def fence_def)

lemma prose_no_cr:
  "CHR 13 \<notin> set (rs_resolution_id (md_source draft)) \<Longrightarrow> t \<in> set (prose_lines draft payload) \<Longrightarrow>
   CHR 13 \<notin> set t"
  using blockquote_no_cr lessons_no_cr context_no_cr [of t draft payload]
  unfolding prose_lines_def set_append set_simps Un_iff insert_iff by (elim disjE) simp_all

lemma body_no_cr:
  assumes "CHR 13 \<notin> set (rs_resolution_id (md_source draft))" "CHR 13 \<notin> set sj" "CHR 13 \<notin> set ej"
    "CHR 13 \<notin> set aj"
  shows "CHR 13 \<notin> set (memory_body draft payload sj ej aj)"
proof -
  let ?ok = "\<lambda>t. CHR 13 \<notin> set t"
  have "list_all ?ok (prose_lines draft payload)"
    using prose_no_cr [OF assms(1)] unfolding list_all_iff by blast
  moreover have "list_all ?ok (json_block h j)" if "?ok h" "?ok j" for h j
    using block_no_cr [OF that] unfolding list_all_iff by blast
  from this [OF _ assms(2), of "''## Retrieval Signature''"] this [OF _ assms(3), of "''## Episode Evidence''"]
    this [OF _ assms(4), of "''## Dispatched Actions''"]
  have "list_all ?ok (json_block ''## Retrieval Signature'' sj)"
    "list_all ?ok (json_block ''## Episode Evidence'' ej)"
    "list_all ?ok (json_block ''## Dispatched Actions'' aj)" by simp_all
  ultimately have "list_all ?ok (prose_lines draft payload @ json_block ''## Retrieval Signature'' sj @
      json_block ''## Episode Evidence'' ej @ json_block ''## Dispatched Actions'' aj @ [[]])"
    unfolding list_all_append by simp
  then show ?thesis
    unfolding memory_body_def list_all_iff by (intro join_absent cr_not_lf) blast
qed

lemma dset_same: "has_key d k \<Longrightarrow> dget d k = v \<Longrightarrow> dset d k v = d"
  by (induction d) (auto simp: dset_def)

definition document_text :: "pydict \<Rightarrow> string \<Rightarrow> string" where
  "document_text fm body = ''---'' @ lf # join [lf] (map (field_line fm) frontmatter_fields) @ lf # ''---'' @ lf # body"

lemma render_document:
  assumes "stored_source source payload runs" "md_source draft = source" "plen runs < 2 ^ 63"
    and "md_signature draft = sig" "json_safe (opt_dict sig)"
  shows "render_memory draft = Inr (document_text (frontmatter_of draft payload (length runs))
    (memory_body draft payload (json_pretty 0 (opt_dict sig))
      (json_pretty 0 (dget payload ''episode_evidence'')) (json_pretty 0 (PList runs))))"
proof -
  let ?fm = "frontmatter_of draft payload (length runs)"
  have safe: "json_safe (PDict payload)" "dget payload ''action_runs'' = PList runs"
    using assms(1) by (simp_all add: stored_source_def)
  have "mapE (frontmatter_line ?fm) frontmatter_fields = Inr (map (field_line ?fm) frontmatter_fields)"
    using frontmatter_safe [OF safe(1) assms(3)] json_safe_finite by (intro frontmatter_lines_render) blast
  moreover have "finite_floats (PList runs)" "finite_floats (dget payload ''episode_evidence'')"
    using json_safe_finite [OF json_safe_get [OF safe(1)]] safe(2) by metis+
  moreover have "finite_floats (opt_dict sig)" using assms(5) by (rule json_safe_finite)
  moreover have "join [lf] (x # ys @ z # ws) = x @ lf # join [lf] ys @ lf # z @ lf # join [lf] ws"
    if "ys \<noteq> []" "ws \<noteq> []" for x z :: string and ys ws
  proof -
    have "join [lf] (ys @ z # ws) = join [lf] ys @ lf # z @ lf # join [lf] ws" using that
      by (induction ys rule: induct_list012) (cases ws; simp)+
    with that show ?thesis by (cases ys) simp_all
  qed
  moreover have "frontmatter_fields \<noteq> []" by (simp add: frontmatter_fields_def)
  ultimately show ?thesis
    using assms(1,2,4) unfolding render_memory_def stored_source_def
    by (simp add: dumps_pretty_def document_text_def memory_body_def del: finite_floats.simps json_pretty.simps)
qed

lemma document_reads:
  assumes "unbroken fm" "CHR 13 \<notin> set body" "\<And>k. json_safe (dget fm k)"
    and "check_frontmatter (parsed_fields fm frontmatter_fields) = Inr (parsed_fields fm frontmatter_fields)"
    and "dget fm ''resolution_id'' = PStr u" "memory_uuid MemoryFormatErr (PStr u) = Inr u"
  shows "parse_memory_document stem (document_text fm body) =
    parse_sections stem (parsed_fields fm frontmatter_fields) body"
proof -
  let ?fls = "map (field_line fm) frontmatter_fields"
  let ?rest = "join [lf] ?fls @ lf # ''---'' @ lf # body"
  have "CHR 13 \<notin> set (document_text fm body)"
  proof -
    have "CHR 13 \<notin> set (join [lf] ?fls)"
      using field_line_unbroken [OF _ assms(1)] break_lf(2) by (intro join_absent cr_not_lf) auto
    then show ?thesis using assms(2) by (simp add: document_text_def)
  qed
  then have newlines: "universal_newlines (document_text fm body) = ''---'' @ lf # ?rest"
    by (simp add: universal_newlines_id) (simp add: document_text_def)
  have closing: "find_at ([lf] @ ''---'' @ [lf]) ?rest = Some (length (join [lf] ?fls))"
    using frontmatter_splits(2) [OF assms(1)] by simp
  have "foldE add_field ?fls [] = Inr ([] @ parsed_fields fm frontmatter_fields)"
    using frontmatter_fields_keys frontmatter_fields_distinct assms(3) by (intro add_field_lines) simp_all
  then have parsed: "parse_frontmatter (join [lf] ?fls) = Inr (parsed_fields fm frontmatter_fields)"
    using frontmatter_splits(1) [OF assms(1)] assms(4) by (simp add: parse_frontmatter_def)
  have id: "''resolution_id'' \<in> set frontmatter_fields" by (simp add: frontmatter_fields_def)
  then have get: "dget (parsed_fields fm frontmatter_fields) ''resolution_id'' = PStr u"
    using assms(5) by (simp add: parsed_fields_get)
  then have same: "dset (parsed_fields fm frontmatter_fields) ''resolution_id'' (PStr u) =
      parsed_fields fm frontmatter_fields"
    using id by (intro dset_same) (simp add: parsed_fields_has)
  have "drop (length (join [lf] ?fls) + 5) ?rest = body" by simp
  then show ?thesis
    using closing parsed get same assms(6) unfolding parse_memory_document_def newlines Let_def by simp
qed

lemma check_parsed_frontmatter:
  assumes "md_memory_kind draft \<in> {''positive'', ''negative''}"
  shows "check_frontmatter (parsed_fields (frontmatter_of draft payload n) frontmatter_fields) =
    Inr (parsed_fields (frontmatter_of draft payload n) frontmatter_fields)"
proof -
  let ?fm = "frontmatter_of draft payload n"
  let ?p = "parsed_fields ?fm frontmatter_fields"
  have keys: "{''schema_version'', ''source'', ''memory_kind'', ''actionable'', ''action_count''} \<subseteq> set frontmatter_fields"
    by (simp add: frontmatter_fields_def)
  have "dget ?p ''schema_version'' = PInt 1" "dget ?p ''source'' = PStr source_table"
    "dget ?p ''memory_kind'' = PStr (md_memory_kind draft)" "dget ?p ''actionable'' = PBool (md_actionable draft)"
    "dget ?p ''action_count'' = PInt (int n)"
    using keys by (simp_all add: parsed_fields_get) (simp_all add: frontmatter_of_def Let_def)
  moreover have "list_all (has_key ?p) frontmatter_fields" by (simp add: list_all_iff parsed_fields_has)
  ultimately show ?thesis using assms by (auto simp: check_frontmatter_def)
qed

lemma evidence_reads:
  assumes "section_text h body = Some (json_pretty 0 v)" "json_safe v" "canon v = w" "good_evidence w"
  shows "evidence_section h body = Inr (as_dict w)"
  using assms json_roundtrip(1) [OF assms(2), of 0]
  by (auto simp: evidence_section_def good_evidence_def as_dict_def)

lemma stored_canon:
  assumes "stored_source source payload runs"
  shows "canon (dget payload k) = dget payload k" "map canon runs = runs"
proof -
  have "canon (PDict payload) = PDict payload" "distinct (map fst payload)"
    and r: "dget payload ''action_runs'' = PList runs"
    using assms by (simp_all add: stored_source_def)
  then show c: "canon (dget payload k) = dget payload k" for k
    using canon_lookup(1) [of payload payload k] by simp
  from c [of "''action_runs''"] r show "map canon runs = runs" by simp
qed

definition doc_of :: "string \<Rightarrow> memory_draft \<Rightarrow> pydict \<Rightarrow> pyval list \<Rightarrow> string \<Rightarrow> memory_document" where
  "doc_of stem draft payload runs body =
     \<lparr>doc_stem = stem,
      doc_frontmatter = parsed_fields (frontmatter_of draft payload (length runs)) frontmatter_fields,
      doc_actions = runs, doc_body = body,
      doc_evidence = as_dict (dget payload ''episode_evidence''),
      doc_signature = as_dict (canon (opt_dict (md_signature draft)))\<rparr>"

lemma sections_read:
  assumes st: "stored_source source payload runs" and dr: "md_source draft = source"
    and "hash_pattern (rs_source_hash source)"
    and sig: "json_safe (opt_dict (md_signature draft))" "good_evidence (canon (opt_dict (md_signature draft)))"
  defines "body \<equiv> memory_body draft payload (json_pretty 0 (opt_dict (md_signature draft)))
      (json_pretty 0 (dget payload ''episode_evidence'')) (json_pretty 0 (PList runs))"
  shows "parse_sections stem (parsed_fields (frontmatter_of draft payload (length runs)) frontmatter_fields) body =
    Inr (doc_of stem draft payload runs body)"
proof -
  let ?fm = "frontmatter_of draft payload (length runs)"
  have safe: "json_safe (PDict payload)" and runs: "dget payload ''action_runs'' = PList runs" "list_all is_dict runs"
    and ev: "good_evidence (dget payload ''episode_evidence'')" and lf: "lf \<notin> set (rs_resolution_id (md_source draft))"
    using st dr by (simp_all add: stored_source_def)
  note found = memory_body_sections [where payload = payload, OF json_pretty_plain json_pretty_plain
      json_pretty_plain lf, of 0 "opt_dict (md_signature draft)" 0 "dget payload ''episode_evidence''" 0 "PList runs",
      folded body_def]
  have "json_safe (PList runs)" using json_safe_get [OF safe, of "''action_runs''"] runs(1) by simp
  from json_roundtrip(1) [OF this, of 0] stored_canon(2) [OF st]
  have "json_loads (json_pretty 0 (PList runs)) = Some (PList runs)" by simp
  with found(3) runs(2) have "actions_section body = Inr runs" by (simp add: actions_section_def)
  moreover have "evidence_section ''## Episode Evidence'' body = Inr (as_dict (dget payload ''episode_evidence''))"
    using found(2) json_safe_get [OF safe] stored_canon(1) [OF st] ev by (rule evidence_reads)
  moreover have "evidence_section ''## Retrieval Signature'' body = Inr (as_dict (canon (opt_dict (md_signature draft))))"
    using found(1) sig(1) refl sig(2) by (rule evidence_reads)
  moreover have "dget (parsed_fields ?fm frontmatter_fields) ''source_hash'' = PStr (rs_source_hash source)"
    "dget (parsed_fields ?fm frontmatter_fields) ''action_count'' = PInt (plen runs)"
  proof -
    have "{''source_hash'', ''action_count''} \<subseteq> set frontmatter_fields" by (simp add: frontmatter_fields_def)
    then show "dget (parsed_fields ?fm frontmatter_fields) ''source_hash'' = PStr (rs_source_hash source)"
      "dget (parsed_fields ?fm frontmatter_fields) ''action_count'' = PInt (plen runs)"
      using dr by (simp_all add: parsed_fields_get) (simp_all add: frontmatter_of_def Let_def plen_def)
  qed
  ultimately show ?thesis using assms(3) by (simp add: parse_sections_def doc_of_def)
qed

lemma signature_facts:
  assumes "clean_signature sig = Inr clean" "json_safe (opt_dict sig)"
  shows "json_safe (opt_dict clean)" "good_evidence (canon (opt_dict clean))"
proof -
  have "json_safe (opt_dict clean) \<and> good_evidence (canon (opt_dict clean))"
  proof (cases sig)
    case None
    with assms(1) show ?thesis by (simp add: clean_signature_def opt_dict_def good_evidence_def)
  next
    case (Some d)
    then obtain e where e: "validate_episode_evidence (PDict d) = Inr e" "clean = Some e"
      using assms(1) by (auto simp: clean_signature_def bindE_eq_Inr)
    have d: "json_safe (PDict d)" using assms(2) Some by (simp add: opt_dict_def)
    obtain e' where e': "canon (PDict e) = PDict e'" by simp
    from validated_canon [OF e(1) d e'] e good_evidence_canon [of "PDict e"] d show ?thesis
      unfolding opt_dict_def e(2) option.case by blast
  qed
  then show "json_safe (opt_dict clean)" "good_evidence (canon (opt_dict clean))" by blast+
qed

text \<open>Rendering and parsing, end to end.\<close>

lemma rendered_memory_parses:
  assumes st: "stored_source source payload runs" and bound: "plen runs < 2 ^ 63"
    and hash: "hash_pattern (rs_source_hash source)"
    and draft: "memory_draft_post_init source kind act failure recovery lessons sig model response = Inr draft"
    and sig: "json_safe (opt_dict sig)"
    and nel: "unbroken (frontmatter_of draft payload (length runs))"
  shows "\<exists>file body. render_memory draft = Inr file \<and>
    parse_memory_document stem file = Inr (doc_of stem draft payload runs body)"
proof -
  let ?fm = "frontmatter_of draft payload (length runs)"
  define body where "body = memory_body draft payload (json_pretty 0 (opt_dict (md_signature draft)))
      (json_pretty 0 (dget payload ''episode_evidence'')) (json_pretty 0 (PList runs))"
  note df = draft_facts(1-3) [OF draft]
  note sf = signature_facts [OF df(3) sig]
  have safe: "json_safe (PDict payload)" and u: "CHR 13 \<notin> set (rs_resolution_id (md_source draft))"
    "memory_uuid MemoryFormatErr (PStr (rs_resolution_id source)) = Inr (rs_resolution_id source)"
    using st df(1) by (simp_all add: stored_source_def)
  have "render_memory draft = Inr (document_text ?fm body)"
    unfolding body_def using render_document [OF st df(1) bound refl sf(1)] .
  moreover have "CHR 13 \<notin> set body"
    unfolding body_def using u(1) by (intro body_no_cr json_pretty_no_cr)
  moreover have "dget ?fm ''resolution_id'' = PStr (rs_resolution_id source)"
    using df(1) by (simp add: frontmatter_of_def Let_def)
  ultimately have "parse_memory_document stem (document_text ?fm body) =
      parse_sections stem (parsed_fields ?fm frontmatter_fields) body"
    using nel frontmatter_safe [OF safe bound] check_parsed_frontmatter [OF df(2)] u(2)
    by (intro document_reads)
  also have "\<dots> = Inr (doc_of stem draft payload runs body)"
    unfolding body_def using sections_read [OF st df(1) hash sf] .
  finally show ?thesis using \<open>render_memory draft = _\<close> by blast
qed

lemma doc_of_verdict:
  assumes "stored_source source payload runs"
    and "memory_draft_post_init source kind act failure recovery lessons sig model response = Inr draft"
  shows "is_execution_candidate (doc_of stem draft payload runs body) = md_actionable draft"
    "doc_resolution_id (doc_of stem draft payload runs body) = rs_resolution_id source"
    "doc_source_hash (doc_of stem draft payload runs body) = rs_source_hash source"
proof -
  let ?fm = "frontmatter_of draft payload (length runs)"
  note df = draft_facts [OF assms(2)]
  have p: "source_payload source = Inr payload" "dispatched_actions source = Inr runs"
    using assms(1) by (simp_all add: stored_source_def)
  have "{''memory_kind'', ''actionable'', ''outcome'', ''applied'', ''resolution_id'', ''source_hash''} \<subseteq>
      set frontmatter_fields" by (simp add: frontmatter_fields_def)
  then have get: "dget (doc_frontmatter (doc_of stem draft payload runs body)) k = untuple (dget ?fm k)"
    if "k \<in> {''memory_kind'', ''actionable'', ''outcome'', ''applied'', ''resolution_id'', ''source_hash''}" for k
    using that by (auto simp: doc_of_def intro!: parsed_fields_get)
  have fm: "dget ?fm ''memory_kind'' = PStr (md_memory_kind draft)"
    "dget ?fm ''actionable'' = PBool (md_actionable draft)" "dget ?fm ''outcome'' = dget payload ''outcome''"
    "dget ?fm ''applied'' = dget payload ''applied''" "dget ?fm ''resolution_id'' = PStr (rs_resolution_id source)"
    "dget ?fm ''source_hash'' = PStr (rs_source_hash source)"
    using df(1) by (simp_all add: frontmatter_of_def Let_def)
  show "is_execution_candidate (doc_of stem draft payload runs body) = md_actionable draft"
  proof (cases "md_actionable draft")
    case True
    with df(4) p have "md_memory_kind draft = ''positive''" "runs \<noteq> []" "dget payload ''outcome'' = PStr ''resolved''"
      "is_true (dget payload ''applied'')" by auto
    with True fm show ?thesis
      by (simp add: is_execution_candidate_def get is_true_def) (simp add: doc_of_def)
  next
    case False
    with fm show ?thesis by (simp add: is_execution_candidate_def get is_true_def)
  qed
  show "doc_resolution_id (doc_of stem draft payload runs body) = rs_resolution_id source"
    "doc_source_hash (doc_of stem draft payload runs body) = rs_source_hash source"
    by (simp_all add: doc_resolution_id_def doc_source_hash_def get fm py_str_def)
qed

section \<open>A next-line character in the frontmatter\<close>

text \<open>
  \<^verbatim>\<open>json.dumps(ensure_ascii=False)\<close> writes U+0085 as it is, \<^verbatim>\<open>splitlines\<close> breaks at it: the rest of
  the text becomes a line of its own, which is no field.
\<close>

lemma lines_of_fragment:
  assumes "\<forall>c \<in> set y. \<not> is_break c"
  shows "y \<in> set (lines_of acc (p @ CHR 0x85 # y @ lf # s))"
proof (induction p arbitrary: acc rule: length_induct)
  case (1 p)
  let ?r = "CHR 0x85 # y @ lf # s"
  have nel: "is_break (CHR 0x85)" "cpt (CHR 0x85) = 133" by (simp_all add: is_break_def cpt_def Let_def)
  have IH: "y \<in> set (lines_of a (q @ ?r))" if "length q < length p" for q a
    using 1 that by blast
  show ?case
  proof (cases p)
    case Nil
    have "lines_of acc ?r = rev acc # lines_of [] (y @ lf # s)"
      using nel by (cases "y @ lf # s") auto
    with Nil lines_of_line [OF assms, of "[]" s] show ?thesis by simp
  next
    case (Cons c q)
    show ?thesis
    proof (cases q)
      case Nil
      with Cons IH [of "[]" "c # acc"] IH [of "[]" "[]"] nel show ?thesis by auto
    next
      case (Cons d q')
      with \<open>p = c # q\<close> IH [of q "c # acc"] IH [of q "[]"] IH [of q' "[]"] show ?thesis by auto
    qed
  qed
qed

lemma add_field_error: "add_field line parsed = Inl e \<Longrightarrow> e = MemoryFormatErr"
  by (auto simp: add_field_def Let_def guardE_eq_Inl)

lemma bad_line_refused:
  assumes "l \<in> set ls" "CHR '':'' \<notin> set l" shows "foldE add_field ls acc = Inl MemoryFormatErr"
  using assms(1)
proof (induction ls arbitrary: acc)
  case (Cons x ls)
  show ?case
  proof (cases "add_field x acc")
    case (Inl e)
    with add_field_error show ?thesis by simp
  next
    case (Inr b)
    with assms(2) have "x \<noteq> l" by (auto simp: add_field_def Let_def guardE_eq_Inr)
    with Cons Inr show ?thesis by simp
  qed
qed simp

lemma json_escape_plain: "32 \<le> cpt c \<Longrightarrow> c \<noteq> CHR 0x22 \<Longrightarrow> c \<noteq> CHR 0x5C \<Longrightarrow> escape_char c = [c]"
proof -
  assume c: "32 \<le> cpt c" "c \<noteq> CHR 0x22" "c \<noteq> CHR 0x5C"
  then have "cpt c \<noteq> 34" "cpt c \<noteq> 92" using cpt_special(1,2) by blast+
  with c(1) show ?thesis by (simp add: escape_char_def Let_def)
qed

definition plain_char :: "char \<Rightarrow> bool" where
  "plain_char c \<longleftrightarrow> 32 \<le> cpt c \<and> c \<notin> {CHR 0x22, CHR 0x5C, CHR 0x85, CHR '':''}"

lemma plain_escape: "list_all plain_char b \<Longrightarrow> concat (map escape_char b) = b"
proof (induction b)
  case (Cons c b)
  then have "escape_char c = [c]" by (intro json_escape_plain) (simp_all add: plain_char_def)
  with Cons show ?case by simp
qed simp

lemma field_line_chars:
  assumes "k \<in> set frontmatter_fields" "c \<in> set (field_line fm k)" shows "32 \<le> cpt c"
proof -
  have "plain_key k" using frontmatter_fields_keys assms(1) by (simp add: list_all_iff)
  with assms(2) json_flat_range show ?thesis
    by (auto simp: field_line_def plain_key_def list_all_iff cpt_def [of "CHR '':''"] cpt_def [of "CHR '' ''"])
qed

lemma join_middle:
  "ks \<noteq> [] \<Longrightarrow> \<exists>p. join [lf] (us @ w # ks) = p @ w @ lf # join [lf] ks \<and>
     (if us = [] then p = [] else \<exists>q. p = hd us @ q @ [lf])"
proof (induction us)
  case Nil
  then show ?case by (cases ks) auto
next
  case (Cons u us)
  then obtain p where p: "join [lf] (us @ w # ks) = p @ w @ lf # join [lf] ks"
    "if us = [] then p = [] else \<exists>q. p = hd us @ q @ [lf]" by blast
  show ?case
  proof (cases us)
    case Nil
    with p show ?thesis by (intro exI [of _ "u @ [lf]"]) simp
  next
    case (Cons v vs)
    with p obtain q where "p = v @ q @ [lf]" by auto
    with p(1) Cons show ?thesis by (intro exI [of _ "u @ lf # p"]) (auto intro!: exI [of _ "lf # v @ q"])
  qed
qed

lemma next_line_refused:
  assumes k: "k \<in> set (butlast frontmatter_fields)" and v: "dget fm k = PStr (a @ CHR 0x85 # b)"
    and b: "list_all plain_char b"
  shows "parse_frontmatter (join [lf] (map (field_line fm) frontmatter_fields)) = Inl MemoryFormatErr"
proof -
  let ?y = "b @ [CHR 0x22]"
  obtain us ks where fields: "frontmatter_fields = us @ k # ks" "ks \<noteq> []"
  proof -
    from k obtain us xs where "butlast frontmatter_fields = us @ k # xs" by (meson split_list)
    moreover have "frontmatter_fields \<noteq> []" by (simp add: frontmatter_fields_def)
    ultimately have "frontmatter_fields = us @ k # (xs @ [last frontmatter_fields])"
      by (metis append_Cons append_assoc append_butlast_last_id)
    then show thesis by (rule that) simp
  qed
  have esc: "escape_char (CHR 0x85) = [CHR 0x85]" by (intro json_escape_plain) (simp_all add: cpt_def)
  obtain q where line: "field_line fm k = q @ CHR 0x85 # ?y"
  proof -
    have "field_line fm k = (k @ '': '' @ CHR 0x22 # concat (map escape_char a)) @ CHR 0x85 # ?y"
      by (simp add: field_line_def v json_string_def esc plain_escape [OF b])
    then show thesis by (rule that)
  qed
  obtain p where "join [lf] (map (field_line fm) frontmatter_fields) =
      p @ (q @ CHR 0x85 # ?y) @ lf # join [lf] (map (field_line fm) ks)"
    using join_middle [of "map (field_line fm) ks" "map (field_line fm) us" "field_line fm k"] fields(2)
    unfolding fields(1) map_append list.map line by blast
  moreover have "\<forall>c \<in> set ?y. \<not> is_break c"
  proof -
    have "\<not> is_break c" if "plain_char c" for c
      using that break_chars [of c] by (auto simp: plain_char_def)
    moreover have "\<not> is_break (CHR 0x22)" by (simp add: is_break_def cpt_def Let_def)
    ultimately show ?thesis using b by (auto simp: list_all_iff)
  qed
  from lines_of_fragment [OF this, of "[]" "p @ q"]
  have "?y \<in> set (splitlines ((p @ q) @ CHR 0x85 # ?y @ lf # join [lf] (map (field_line fm) ks)))"
    unfolding splitlines_def .
  ultimately have "?y \<in> set (splitlines (join [lf] (map (field_line fm) frontmatter_fields)))" by simp
  moreover have "CHR '':'' \<notin> set ?y" using b by (auto simp: list_all_iff plain_char_def)
  ultimately show ?thesis by (simp add: parse_frontmatter_def bad_line_refused)
qed

lemma document_refused:
  assumes "k \<in> set (butlast frontmatter_fields)" "dget fm k = PStr (a @ CHR 0x85 # b)" "list_all plain_char b"
    and "CHR 13 \<notin> set body"
  shows "parse_memory_document stem (document_text fm body) = Inl MemoryFormatErr"
proof -
  let ?fls = "map (field_line fm) frontmatter_fields"
  let ?rest = "join [lf] ?fls @ lf # ''---'' @ lf # body"
  have low: "cpt lf = 10" "cpt (CHR 13) = 13" by (simp_all add: cpt_def)
  have lines: "c \<notin> set l" if "l \<in> set ?fls" "cpt c < 32" for c l
    using that field_line_chars by force
  have "CHR 13 \<notin> set (document_text fm body)"
  proof -
    have "CHR 13 \<notin> set (join [lf] ?fls)" using lines low by (intro join_absent cr_not_lf) simp
    then show ?thesis using assms(4) by (simp add: document_text_def)
  qed
  then have newlines: "universal_newlines (document_text fm body) = ''---'' @ lf # ?rest"
    by (simp add: universal_newlines_id) (simp add: document_text_def)
  have "frontmatter_fields \<noteq> []" by (simp add: frontmatter_fields_def)
  moreover have "l \<noteq> ''---''" if "l \<in> set ?fls" for l
  proof -
    from that obtain j where "j \<in> set frontmatter_fields" "l = field_line fm j" by auto
    with plain_key_hd [of j] frontmatter_fields_keys show ?thesis
      by (cases j) (auto simp: field_line_def list_all_iff cpt_def)
  qed
  ultimately have "find_at ([lf] @ ''---'' @ [lf]) ?rest = Some (length (join [lf] ?fls))"
    using lines low(1) closing_mark [of ?fls body] by simp
  then show ?thesis
    using next_line_refused [OF assms(1-3)] unfolding parse_memory_document_def newlines Let_def by simp
qed

section \<open>Rows that are accepted\<close>

lemma canonical_payload_safe:
  "json_safe (PDict p) \<Longrightarrow> canon (PDict p) = PDict c \<Longrightarrow> canonical_payload p = Inr c"
  using json_roundtrip(2) [of "PDict p"] json_safe_finite [of "PDict p"]
  by (simp add: canonical_payload_def del: json_dumps.simps finite_floats.simps json_safe.simps canon.simps)

lemma source_from_row_accepts:
  assumes "memory_uuid ResolutionRowErr (dget row ''resolution_id'') = Inr u"
    and "(if dget row ''failure_id'' = PNone then Inr None
      else bindE (memory_uuid ResolutionRowErr (dget row ''failure_id'')) (\<lambda>f. Inr (Some f))) = Inr f"
    and "dget row ''applied'' = PBool applied" "dget row ''outcome'' = PStr out" "strip out \<noteq> []"
    and "with_evidence (row_payload row u f (strip out) applied) = Inr p"
    and "json_safe (PDict row)" "canon (PDict (with_map row p)) = PDict c" "checked_action_runs c = Inr d"
  shows "resolution_source_from_row sha (PDict row) = Inr \<lparr>rs_resolution_id = u, rs_failure_id = f,
     rs_source_hash = sha (json_dumps (PDict d)), rs_payload_json = json_dumps (PDict d)\<rparr>"
    and "canon (PDict d) = PDict e \<Longrightarrow> source_payload \<lparr>rs_resolution_id = u, rs_failure_id = f,
     rs_source_hash = sha (json_dumps (PDict d)), rs_payload_json = json_dumps (PDict d)\<rparr> = Inr e"
proof -
  have p: "json_safe (PDict (with_map row p))"
    using json_safe_with_map [OF assms(7)] with_evidence_facts(1) [OF assms(6) json_safe_row_payload [OF assms(7)]] .
  then have "json_safe (PDict c)" using canon_safe assms(8) by metis
  then have d: "json_safe (PDict d)" by (rule checked_action_runs_facts(1) [OF assms(9)])
  have "has_key row ''applied''" using assms(3) not_has_key_dget by fastforce
  then show "resolution_source_from_row sha (PDict row) = Inr \<lparr>rs_resolution_id = u, rs_failure_id = f,
     rs_source_hash = sha (json_dumps (PDict d)), rs_payload_json = json_dumps (PDict d)\<rparr>"
    using assms(1-6,9) canonical_payload_safe [OF p assms(8)] json_safe_finite [OF d]
    by (simp add: resolution_source_from_row_def with_evidence_def [symmetric] optional_row_text_def Let_def
        del: json_dumps.simps finite_floats.simps)
  show "source_payload \<lparr>rs_resolution_id = u, rs_failure_id = f,
     rs_source_hash = sha (json_dumps (PDict d)), rs_payload_json = json_dumps (PDict d)\<rparr> = Inr e"
    if "canon (PDict d) = PDict e"
    using that json_roundtrip(2) [OF d] by (simp add: source_payload_def del: json_dumps.simps canon.simps)
qed

lemma renders_and_refused:
  assumes "stored_source source payload runs" "plen runs < 2 ^ 63"
    and "memory_draft_post_init source kind act failure recovery lessons sig model response = Inr draft"
    and "json_safe (opt_dict sig)" "dget payload ''site'' = PStr (a @ CHR 0x85 # b)" "list_all plain_char b"
  shows "\<exists>document. render_memory draft = Inr document \<and>
    parse_memory_document stem document = Inl MemoryFormatErr"
proof -
  let ?fm = "frontmatter_of draft payload (length runs)"
  note df = draft_facts(1-3) [OF assms(3)]
  define body where "body = memory_body draft payload (json_pretty 0 (opt_dict (md_signature draft)))
      (json_pretty 0 (dget payload ''episode_evidence'')) (json_pretty 0 (PList runs))"
  have "CHR 13 \<notin> set body"
    using assms(1) df(1) unfolding body_def by (intro body_no_cr json_pretty_no_cr) (simp add: stored_source_def)
  moreover have "''site'' \<in> set (butlast frontmatter_fields)" by (simp add: frontmatter_fields_def)
  moreover have "dget ?fm ''site'' = PStr (a @ CHR 0x85 # b)"
    using assms(5) by (simp add: frontmatter_of_def Let_def)
  ultimately have "parse_memory_document stem (document_text ?fm body) = Inl MemoryFormatErr"
    using assms(6) by (intro document_refused)
  moreover have "render_memory draft = Inr (document_text ?fm body)"
    unfolding body_def using render_document [OF assms(1) df(1) assms(2) refl signature_facts(1) [OF df(3) assms(4)]] .
  ultimately show ?thesis by blast
qed

end
