(* ===== verification/Memory_Store.thy ===== *)
theory Memory_Store
  imports Memory_Document
begin

text \<open>
  \<^verbatim>\<open>GitMemoryStore\<close> of \<^verbatim>\<open>src/memory_store.py\<close>. Git, the file system and the locks are parameters, a
  record of calls on the world; a run of the store also logs the calls it makes. The checkout
  holds the directory of memories, one Markdown file for each resolution.
\<close>

section \<open>Configuration\<close>

record git_config =
  gc_repo_url :: string
  gc_repo_root :: string
  gc_branch :: string
  gc_author_name :: string
  gc_author_email :: string
  gc_timeout :: pyfloat

definition branch_pattern :: "string \<Rightarrow> bool" where
  "branch_pattern b \<longleftrightarrow> (case b of [] \<Rightarrow> False
     | c # cs \<Rightarrow> is_ascii_alnum c \<and> list_all (\<lambda>c. is_ascii_alnum c \<or> c \<in> set ''._/-'') cs)"

definition valid_branch :: "string \<Rightarrow> bool" where
  "valid_branch b \<longleftrightarrow> branch_pattern b \<and> find_at ''..'' b = None \<and> find_at [CHR ''@'', CHR 0x7B] b = None \<and>
     \<not> suffix ''/'' b \<and> \<not> suffix ''.'' b"

definition validate_identity :: "string \<Rightarrow> unit result" where
  "validate_identity value =
     guardE (\<not> (value = [] \<or> plen value > 200 \<or> list_ex (\<lambda>c. c \<in> {CHR 13, lf, CHR 0x00}) value))
       MemoryConfigErr (Inr ())"

text \<open>\<open>resolve\<close> is \<^verbatim>\<open>Path(p).expanduser().resolve()\<close>, \<open>is_anchor\<close> whether a path is a root.\<close>

definition git_config_post_init ::
  "(string \<Rightarrow> string) \<Rightarrow> (string \<Rightarrow> bool) \<Rightarrow> git_config \<Rightarrow> git_config result" where
  "git_config_post_init resolve is_anchor config =
     (let repo_url = strip (gc_repo_url config); branch = strip (gc_branch config) in
      guardE (repo_url \<noteq> []) MemoryConfigErr
      (guardE (valid_branch branch) MemoryConfigErr
      (guardE (\<not> fle (gc_timeout config) (FFin 0)) MemoryConfigErr
      (bindE (validate_identity (gc_author_name config)) (\<lambda>_.
       bindE (validate_identity (gc_author_email config)) (\<lambda>_.
       (let root = resolve (gc_repo_root config)
        in guardE (\<not> is_anchor root) MemoryConfigErr
           (Inr (config\<lparr>gc_repo_url := repo_url, gc_repo_root := root, gc_branch := branch\<rparr>)))))))))"

section \<open>The world of the store\<close>

datatype store_path = RootDir | MemoriesDir | MemoryFile string

record path_info =
  pi_exists :: bool
  pi_symlink :: bool
  pi_dir :: bool
  pi_file :: bool
  pi_inside :: bool  \<comment> \<open>the path resolves to itself\<close>

text \<open>
  \<open>ge_run\<close> is \<^verbatim>\<open>subprocess.run\<close> on the arguments and the input text; it returns the exit code and
  the standard output, or raises. \<open>ge_stems\<close> are the stems of \<^verbatim>\<open>memories/*.md\<close>.
\<close>

record 'w git_env =
  ge_run :: "string list \<Rightarrow> string option \<Rightarrow> ('w, int \<times> string) prog"
  ge_stat :: "store_path \<Rightarrow> 'w \<Rightarrow> path_info"
  ge_stems :: "'w \<Rightarrow> string list"
  ge_read :: "store_path \<Rightarrow> ('w, string) prog"
  ge_write :: "store_path \<Rightarrow> string \<Rightarrow> ('w, unit) prog"
  ge_mkdir :: "store_path \<Rightarrow> ('w, unit) prog"
  ge_lock :: "('w, unit) prog"
  ge_locator :: "string \<Rightarrow> string"

datatype store_call =
    Clone | ReadCheckout string | Pull | WriteFile string string | Stage string | InspectStaged string
  | CommitFile string string | ReadCommit | Push | ReadLog string

record 'w store_state =
  ss_world :: 'w
  ss_log :: "store_call list"

definition on_world :: "('w, 'a) prog \<Rightarrow> ('w store_state, 'a) prog" where
  "on_world m = (\<lambda>s. case m (ss_world s) of (r, w) \<Rightarrow> (r, s\<lparr>ss_world := w\<rparr>))"

definition log_store :: "store_call \<Rightarrow> ('w store_state, unit) prog" where
  "log_store c = modifyP (\<lambda>s. s\<lparr>ss_log := ss_log s @ [c]\<rparr>)"

definition stat :: "'w git_env \<Rightarrow> store_path \<Rightarrow> ('w store_state, path_info) prog" where
  "stat env p = getsP (\<lambda>s. ge_stat env p (ss_world s))"

definition guardP :: "bool \<Rightarrow> py_error \<Rightarrow> ('s, unit) prog" where
  "guardP b e = (if b then returnP () else throwP e)"

section \<open>Git commands\<close>

text \<open>\<^verbatim>\<open>_run\<close>: what \<^verbatim>\<open>subprocess\<close> raises becomes a redacted Git error, as does an exit code not allowed.\<close>

definition subprocess_error :: "py_error \<Rightarrow> py_error" where
  "subprocess_error e =
     (if e = OtherErr ''OSError'' \<or> e = OtherErr ''SubprocessError'' then GitOperationErr else e)"

definition run_command ::
  "'w git_env \<Rightarrow> store_call \<Rightarrow> int list \<Rightarrow> string list \<Rightarrow> string option \<Rightarrow> ('w store_state, int \<times> string) prog" where
  "run_command env call allowed arguments input_text =
     seqP (log_store call)
     (bindP (catchP (on_world (ge_run env arguments input_text)) (\<lambda>e. throwP (subprocess_error e))) (\<lambda>(code, output).
        seqP (guardP (code \<in> set allowed) GitOperationErr) (returnP (code, output))))"

definition git ::
  "git_config \<Rightarrow> 'w git_env \<Rightarrow> store_call \<Rightarrow> string list \<Rightarrow> string option \<Rightarrow> ('w store_state, string) prog" where
  "git config env call arguments input_text =
     bindP (run_command env call [0] ([''git'', ''-C'', gc_repo_root config] @ arguments) input_text)
       (\<lambda>(code, output). returnP (strip output))"

definition ensure_checkout :: "git_config \<Rightarrow> 'w git_env \<Rightarrow> ('w store_state, unit) prog" where
  "ensure_checkout config env =
     bindP (stat env RootDir) (\<lambda>root.
     seqP (if \<not> pi_exists root then
             seqP (on_world (ge_mkdir env RootDir))
             (seqP (run_command env Clone [0] [''git'', ''clone'', ''--branch'', gc_branch config,
                 ''--single-branch'', ''--'', gc_repo_url config, gc_repo_root config] None) (returnP ()))
           else guardP (pi_dir root \<and> \<not> pi_symlink root) MemoryConfigErr)
     (bindP (git config env (ReadCheckout ''verify'') [''rev-parse'', ''--is-inside-work-tree''] None) (\<lambda>inside.
      seqP (guardP (inside = ''true'') MemoryConfigErr)
     (bindP (git config env (ReadCheckout ''branch'') [''branch'', ''--show-current''] None) (\<lambda>branch.
      seqP (guardP (branch = gc_branch config) MemoryConfigErr)
     (bindP (git config env (ReadCheckout ''origin'') [''remote'', ''get-url'', ''origin''] None) (\<lambda>origin.
      guardP (ge_locator env origin = ge_locator env (gc_repo_url config)) MemoryConfigErr)))))))"

definition pull_ff_only :: "git_config \<Rightarrow> 'w git_env \<Rightarrow> ('w store_state, unit) prog" where
  "pull_ff_only config env =
     seqP (git config env Pull [''pull'', ''--ff-only'', ''origin'', gc_branch config] None) (returnP ())"

definition push :: "git_config \<Rightarrow> 'w git_env \<Rightarrow> ('w store_state, unit) prog" where
  "push config env =
     seqP (git config env Push [''push'', ''origin'', ''HEAD:refs/heads/'' @ gc_branch config] None) (returnP ())"

definition memory_path :: "string \<Rightarrow> string" where
  "memory_path resolution_id = ''memories/'' @ resolution_id @ ''.md''"

definition commit_message :: "memory_draft \<Rightarrow> string" where
  "commit_message draft =
     (let source = md_source draft in
      join [lf] [''Record resolution memory '' @ rs_resolution_id source, [], ''Agent: failure-resolver'',
        ''Source-Table: '' @ source_table, ''Source-Hash: '' @ rs_source_hash source,
        ''Memory-Kind: '' @ md_memory_kind draft, ''Resolution-ID: '' @ rs_resolution_id source,
        ''Failure-ID: '' @ (case rs_failure_id source of None \<Rightarrow> ''none''
           | Some f \<Rightarrow> if f = [] then ''none'' else f), []])"

definition commit_memory :: "git_config \<Rightarrow> 'w git_env \<Rightarrow> memory_draft \<Rightarrow> ('w store_state, unit) prog" where
  "commit_memory config env draft =
     (let rid = rs_resolution_id (md_source draft) in
      seqP (git config env (CommitFile rid (commit_message draft))
        [''-c'', ''user.name='' @ gc_author_name config, ''-c'', ''user.email='' @ gc_author_email config,
         ''-c'', ''commit.gpgsign=false'', ''commit'', ''--only'', ''--file=-'', ''--'', memory_path rid]
        (Some (commit_message draft))) (returnP ()))"

definition has_staged_change :: "git_config \<Rightarrow> 'w git_env \<Rightarrow> string \<Rightarrow> ('w store_state, bool) prog" where
  "has_staged_change config env rid =
     bindP (run_command env (InspectStaged rid) [0, 1] [''git'', ''-C'', gc_repo_root config, ''diff'',
       ''--cached'', ''--quiet'', ''--'', memory_path rid] None) (\<lambda>(code, output). returnP (code = 1))"

section \<open>The directory of memories\<close>

definition safe_memories_directory :: "'w git_env \<Rightarrow> bool \<Rightarrow> ('w store_state, unit) prog" where
  "safe_memories_directory env create =
     bindP (stat env MemoriesDir) (\<lambda>dir.
     seqP (guardP (\<not> pi_symlink dir) MemoryConfigErr)
     (seqP (guardP (\<not> (pi_exists dir \<and> \<not> pi_dir dir)) MemoryConfigErr)
     (seqP (if create then on_world (ge_mkdir env MemoriesDir) else returnP ())
     (bindP (stat env MemoriesDir) (\<lambda>made.
        guardP (\<not> (pi_exists made \<and> \<not> pi_inside made)) MemoryConfigErr)))))"

definition safe_memory_path :: "'w git_env \<Rightarrow> string \<Rightarrow> ('w store_state, unit) prog" where
  "safe_memory_path env rid =
     seqP (safe_memories_directory env True)
     (bindP (stat env (MemoryFile rid)) (\<lambda>target.
      seqP (guardP (\<not> pi_symlink target) MemoryConfigErr)
        (guardP (pi_inside target) MemoryConfigErr)))"

definition read_memory :: "'w git_env \<Rightarrow> string \<Rightarrow> ('w store_state, string) prog" where
  "read_memory env stem = bindP (on_world (ge_read env (MemoryFile stem))) (\<lambda>t. returnP (universal_newlines t))"

text \<open>\<^verbatim>\<open>_scan_memories\<close>: the documents of the directory, in the order of the file names, by resolution.\<close>

type_synonym memory_index = "(string \<times> memory_document) list"

definition scan_entry ::
  "'w git_env \<Rightarrow> string \<Rightarrow> memory_index \<Rightarrow> ('w store_state, memory_index) prog" where
  "scan_entry env stem index =
     bindP (stat env (MemoryFile stem)) (\<lambda>entry.
     seqP (guardP (\<not> pi_symlink entry \<and> pi_file entry) MemoryFormatErr)
     (bindP (catchP (on_world (ge_read env (MemoryFile stem)))
        (\<lambda>e. throwP (if e = OtherErr ''OSError'' then MemoryFormatErr else e))) (\<lambda>content.
      bindP (liftP (parse_memory_document stem content)) (\<lambda>document.
      seqP (guardP (stem = doc_resolution_id document) MemoryFormatErr)
      (seqP (guardP (map_of index (doc_resolution_id document) = None) MemoryFormatErr)
        (returnP (index @ [(doc_resolution_id document, document)])))))))"

fun scan_entries ::
  "'w git_env \<Rightarrow> string list \<Rightarrow> memory_index \<Rightarrow> ('w store_state, memory_index) prog" where
  "scan_entries env [] index = returnP index"
| "scan_entries env (stem # stems) index =
     bindP (scan_entry env stem index) (scan_entries env stems)"

definition scan_memories :: "'w git_env \<Rightarrow> ('w store_state, memory_index) prog" where
  "scan_memories env =
     seqP (safe_memories_directory env False)
     (bindP (stat env MemoriesDir) (\<lambda>dir.
      if \<not> pi_exists dir then returnP []
      else bindP (getsP (\<lambda>s. sort_key (\<lambda>stem. stem @ ''.md'') (ge_stems env (ss_world s)))) (\<lambda>stems. scan_entries env stems [])))"

section \<open>Operations\<close>

record write_result =
  wr_resolution_id :: string
  wr_relative_path :: string
  wr_changed :: bool
  wr_commit_sha :: "string option"

definition write_file ::
  "'w git_env \<Rightarrow> string \<Rightarrow> string \<Rightarrow> ('w store_state, unit) prog" where
  "write_file env rid content =
     bindP (stat env (MemoryFile rid)) (\<lambda>target.
     bindP (if pi_exists target then bindP (read_memory env rid) (\<lambda>t. returnP (t \<noteq> content))
            else returnP True) (\<lambda>differs.
       if differs then seqP (log_store (WriteFile rid content))
         (on_world (ge_write env (MemoryFile rid) content)) else returnP ()))"

definition write_memory :: "git_config \<Rightarrow> 'w git_env \<Rightarrow> memory_draft \<Rightarrow> ('w store_state, write_result) prog" where
  "write_memory config env draft =
     (let rid = rs_resolution_id (md_source draft) in
      bindP (liftP (render_memory draft)) (\<lambda>content.
      seqP (on_world (ge_lock env))
      (seqP (ensure_checkout config env)
      (seqP (pull_ff_only config env)
      (seqP (safe_memory_path env rid)
      (seqP (write_file env rid content)
      (seqP (git config env (Stage rid) [''add'', ''--'', memory_path rid] None)
      (bindP (has_staged_change config env rid) (\<lambda>changed.
       bindP (if changed then seqP (commit_memory config env draft)
                (bindP (git config env ReadCommit [''rev-parse'', ''HEAD''] None) (\<lambda>sha. returnP (Some sha)))
              else returnP None) (\<lambda>commit_sha.
       seqP (push config env)
         (returnP \<lparr>wr_resolution_id = rid, wr_relative_path = memory_path rid, wr_changed = changed,
            wr_commit_sha = commit_sha\<rparr>)))))))))))"

definition rebuild_index :: "git_config \<Rightarrow> 'w git_env \<Rightarrow> bool \<Rightarrow> ('w store_state, memory_index) prog" where
  "rebuild_index config env refresh =
     seqP (on_world (ge_lock env))
     (seqP (ensure_checkout config env)
     (seqP (if refresh then pull_ff_only config env else returnP ()) (scan_memories env)))"

definition has_source_hash ::
  "git_config \<Rightarrow> 'w git_env \<Rightarrow> pyval \<Rightarrow> pyval \<Rightarrow> bool \<Rightarrow> ('w store_state, bool) prog" where
  "has_source_hash config env resolution_id source_hash refresh =
     bindP (liftP (memory_uuid ResolutionRowErr resolution_id)) (\<lambda>canonical_id.
     case source_hash of
       PStr h \<Rightarrow>
         seqP (guardP (hash_pattern h) ResolutionRowErr)
         (bindP (rebuild_index config env refresh) (\<lambda>index.
           returnP (case map_of index canonical_id of None \<Rightarrow> False
             | Some document \<Rightarrow> doc_source_hash document = h)))
     | _ \<Rightarrow> throwP ResolutionRowErr)"

definition commit_pattern :: "string \<Rightarrow> bool" where
  "commit_pattern s \<longleftrightarrow> 40 \<le> plen s \<and> plen s \<le> 64 \<and> list_all is_lower_hex s"

definition latest_memory_commit ::
  "git_config \<Rightarrow> 'w git_env \<Rightarrow> pyval \<Rightarrow> bool \<Rightarrow> ('w store_state, string option) prog" where
  "latest_memory_commit config env resolution_id refresh =
     bindP (liftP (memory_uuid ResolutionRowErr resolution_id)) (\<lambda>canonical_id.
     seqP (on_world (ge_lock env))
     (seqP (ensure_checkout config env)
     (seqP (if refresh then pull_ff_only config env else returnP ())
     (bindP (stat env (MemoryFile canonical_id)) (\<lambda>target.
      seqP (guardP (\<not> pi_symlink target) MemoryConfigErr)
      (if \<not> pi_file target then returnP None
       else seqP (push config env)
         (bindP (git config env (ReadLog canonical_id) [''log'', ''-1'', ''--format=%H'', ''--'',
              memory_path canonical_id] None) (\<lambda>sha.
           if sha = [] then returnP None
           else seqP (guardP (commit_pattern sha) MemoryFormatErr) (returnP (Some sha))))))))))"

definition execution_candidates ::
  "git_config \<Rightarrow> 'w git_env \<Rightarrow> bool \<Rightarrow> ('w store_state, memory_document list) prog" where
  "execution_candidates config env refresh =
     bindP (rebuild_index config env refresh) (\<lambda>index.
       returnP (filter is_execution_candidate (map snd (sort_key fst index))))"

section \<open>The order of the calls\<close>

text \<open>
  The calls of a program as a language: a run that returns logs a word of it, a run that raises
  logs a prefix of one.
\<close>

definition follows :: "store_call list set \<Rightarrow> ('w store_state, 'a) prog \<Rightarrow> bool" where
  "follows A m \<longleftrightarrow> (\<forall>s r t. m s = (r, t) \<longrightarrow> (\<exists>l. ss_log t = ss_log s @ l \<and>
     (case r of Inr _ \<Rightarrow> l \<in> A | Inl _ \<Rightarrow> (\<exists>w \<in> A. prefix l w))))"

definition joined :: "store_call list set \<Rightarrow> store_call list set \<Rightarrow> store_call list set" where
  "joined A B = {a @ b | a b. a \<in> A \<and> b \<in> B}"

named_theorems follows_rules \<open>the calls of the combinators\<close>

lemma followsD: "follows A m \<Longrightarrow> m s = (r, t) \<Longrightarrow> \<exists>l. ss_log t = ss_log s @ l \<and>
    (case r of Inr _ \<Rightarrow> l \<in> A | Inl _ \<Rightarrow> (\<exists>w \<in> A. prefix l w))"
  by (simp add: follows_def)

lemma follows_weaken: "follows A m \<Longrightarrow> A \<subseteq> B \<Longrightarrow> follows B m"
  unfolding follows_def by (fastforce split: sum.splits)

lemma follows_silent [follows_rules]:
  "follows {[]} (returnP a)" "follows {[]} (throwP e)" "follows {[]} (liftP r)" "follows {[]} (getsP f)"
  "follows {[]} (stat env p)" "follows {[]} (on_world m)" "follows {[]} (guardP b e)"
  by (auto simp: follows_def prog_defs stat_def on_world_def guardP_def split: sum.splits prod.splits)

lemma follows_log [follows_rules]: "follows {[c]} (log_store c)"
  by (auto simp: follows_def log_store_def modifyP_def)

lemma follows_bind:
  assumes "follows A m" "\<And>a. follows B (f a)" "B \<noteq> {}" shows "follows (joined A B) (bindP m f)"
  unfolding follows_def
proof (intro allI impI)
  fix s r t
  assume run: "bindP m f s = (r, t)"
  obtain q u where q: "m s = (q, u)" by (cases "m s")
  from followsD [OF assms(1) q] obtain l where l: "ss_log u = ss_log s @ l"
    "case q of Inr _ \<Rightarrow> l \<in> A | Inl _ \<Rightarrow> (\<exists>w \<in> A. prefix l w)" by blast
  show "\<exists>l. ss_log t = ss_log s @ l \<and>
      (case r of Inr _ \<Rightarrow> l \<in> joined A B | Inl _ \<Rightarrow> (\<exists>w \<in> joined A B. prefix l w))"
  proof (cases q)
    case (Inl e)
    with q run have "r = Inl e" "t = u" by (simp_all add: bindP_def)
    moreover obtain b where "b \<in> B" using assms(3) by blast
    moreover obtain w where "w \<in> A" "prefix l w" using l(2) Inl by auto
    ultimately have "prefix l (w @ b)" "w @ b \<in> joined A B" by (auto simp: joined_def)
    with l(1) \<open>r = Inl e\<close> \<open>t = u\<close> show ?thesis by auto
  next
    case (Inr a)
    with q run have "f a u = (r, t)" by (simp add: bindP_def)
    from followsD [OF assms(2) this] obtain k where k: "ss_log t = ss_log u @ k"
      "case r of Inr _ \<Rightarrow> k \<in> B | Inl _ \<Rightarrow> (\<exists>w \<in> B. prefix k w)" by blast
    have "l \<in> A" using l(2) Inr by simp
    have "l @ w \<in> joined A B" if "w \<in> B" for w using \<open>l \<in> A\<close> that by (auto simp: joined_def)
    moreover have "prefix (l @ k) (l @ w)" if "prefix k w" for w using that by simp
    ultimately have "case r of Inr _ \<Rightarrow> l @ k \<in> joined A B | Inl _ \<Rightarrow> (\<exists>w \<in> joined A B. prefix (l @ k) w)"
      using k(2) by (auto split: sum.splits simp del: same_prefix_prefix)
    with k(1) l(1) show ?thesis by (intro exI [of _ "l @ k"]) simp
  qed
qed

lemma follows_seq:
  "follows A m \<Longrightarrow> follows B k \<Longrightarrow> B \<noteq> {} \<Longrightarrow> follows (joined A B) (seqP m k)"
  unfolding seqP_def by (rule follows_bind)

lemma follows_catch_silent: "follows {[]} m \<Longrightarrow> (\<And>e. follows {[]} (h e)) \<Longrightarrow> follows {[]} (catchP m h)"
  unfolding follows_def catchP_def by (fastforce split: prod.splits sum.splits)

lemma follows_if: "(b \<Longrightarrow> follows A m) \<Longrightarrow> (\<not> b \<Longrightarrow> follows B k) \<Longrightarrow> follows (A \<union> B) (if b then m else k)"
  by (auto intro: follows_weaken)

lemma joined_simps [simp]:
  "joined {[]} B = B" "joined A {[]} = A" "joined {a} {b} = {a @ b}"
  "joined (A \<union> B) C = joined A C \<union> joined B C" "joined A B = {} \<longleftrightarrow> A = {} \<or> B = {}"
  by (auto simp: joined_def)

lemma follows_quiet:
  "follows {[]} m \<Longrightarrow> (\<And>a. follows A (f a)) \<Longrightarrow> A \<noteq> {} \<Longrightarrow> follows A (bindP m f)"
  "follows {[]} m \<Longrightarrow> follows A k \<Longrightarrow> A \<noteq> {} \<Longrightarrow> follows A (seqP m k)"
  "follows A m \<Longrightarrow> (\<And>a. follows {[]} (f a)) \<Longrightarrow> follows A (bindP m f)"
  "follows A m \<Longrightarrow> follows {[]} k \<Longrightarrow> follows A (seqP m k)"
  using follows_bind [of "{[]}" m A f] follows_seq [of "{[]}" m A k]
    follows_bind [of A m "{[]}" f] follows_seq [of A m "{[]}" k] by simp_all

lemma follows_command [follows_rules]: "follows {[c]} (run_command env c allowed args input)"
proof -
  have "follows {[]} (bindP (catchP (on_world (ge_run env args input)) (\<lambda>e. throwP (subprocess_error e)))
      (\<lambda>(code, output). seqP (guardP (code \<in> set allowed) GitOperationErr) (returnP (code, output))))"
    by (intro follows_quiet follows_catch_silent follows_rules) (auto split: prod.split intro!: follows_quiet follows_rules)
  then show ?thesis unfolding run_command_def by (rule follows_quiet(4) [OF follows_log])
qed

lemma follows_git [follows_rules]: "follows {[c]} (git config env c args input)"
  unfolding git_def by (intro follows_quiet(3) follows_rules) (auto split: prod.split intro: follows_rules)

definition checkout_words :: "store_call list set" where
  "checkout_words = joined {[], [Clone]} {[ReadCheckout ''verify'', ReadCheckout ''branch'', ReadCheckout ''origin'']}"

lemma follows_checkout [follows_rules]: "follows checkout_words (ensure_checkout config env)"
proof -
  let ?read = "bindP (git config env (ReadCheckout ''verify'') [''rev-parse'', ''--is-inside-work-tree''] None) (\<lambda>inside.
      seqP (guardP (inside = ''true'') MemoryConfigErr)
     (bindP (git config env (ReadCheckout ''branch'') [''branch'', ''--show-current''] None) (\<lambda>branch.
      seqP (guardP (branch = gc_branch config) MemoryConfigErr)
     (bindP (git config env (ReadCheckout ''origin'') [''remote'', ''get-url'', ''origin''] None) (\<lambda>origin.
      guardP (ge_locator env origin = ge_locator env (gc_repo_url config)) MemoryConfigErr)))))"
  have "follows (joined {[ReadCheckout ''verify'']} (joined {[ReadCheckout ''branch'']} {[ReadCheckout ''origin'']})) ?read"
    by (intro follows_bind follows_quiet(2) follows_quiet(3) follows_rules) simp_all
  then have read: "follows {[ReadCheckout ''verify'', ReadCheckout ''branch'', ReadCheckout ''origin'']} ?read"
    by simp
  have start: "follows {[], [Clone]} (if \<not> pi_exists root then
             seqP (on_world (ge_mkdir env RootDir))
             (seqP (run_command env Clone [0] [''git'', ''clone'', ''--branch'', gc_branch config,
                 ''--single-branch'', ''--'', gc_repo_url config, gc_repo_root config] None) (returnP ()))
           else guardP (pi_dir root \<and> \<not> pi_symlink root) MemoryConfigErr)" for root
    by (rule follows_weaken [OF follows_if [of _ "{[Clone]}" _ "{[]}"]])
      (intro follows_quiet(2,4) follows_rules, auto intro: follows_rules)
  show ?thesis
    unfolding ensure_checkout_def checkout_words_def
    by (intro follows_quiet(1) follows_seq read start follows_rules) simp_all
qed

lemma checkout_words_nonempty [simp]: "checkout_words \<noteq> {}"
  by (simp add: checkout_words_def)

lemma follows_memory_path [follows_rules]: "follows {[]} (safe_memories_directory env create)"
    "follows {[]} (safe_memory_path env rid)"
proof -
  show dir: "follows {[]} (safe_memories_directory env create)" for create
    unfolding safe_memories_directory_def
    by (intro follows_quiet(1,2) follows_rules) (auto intro: follows_rules)
  show "follows {[]} (safe_memory_path env rid)"
    unfolding safe_memory_path_def by (intro follows_quiet(1,2) follows_rules dir) simp_all
qed

lemma follows_write_file: "follows {[], [WriteFile rid content]} (write_file env rid content)"
proof -
  have check: "follows {[]} (if pi_exists target then bindP (read_memory env rid) (\<lambda>t. returnP (t \<noteq> content))
      else returnP True)" for target
    unfolding read_memory_def by (auto intro!: follows_quiet(1) follows_rules)
  have put: "follows {[], [WriteFile rid content]} (if differs then seqP (log_store (WriteFile rid content))
      (on_world (ge_write env (MemoryFile rid) content)) else returnP ())" for differs
    by (rule follows_weaken [OF follows_if [of _ "{[WriteFile rid content]}" _ "{[]}"]])
      (auto intro: follows_quiet(4) follows_rules)
  show ?thesis
    unfolding write_file_def
    by (intro follows_quiet(1) [OF follows_silent(5)] follows_quiet(1) [OF check] put) simp_all
qed

text \<open>
  The word of a write: the checkout is verified and pulled before the file is written, the
  commit of exactly this file follows, and the push is last.
\<close>

definition write_words :: "memory_draft \<Rightarrow> string \<Rightarrow> store_call list set" where
  "write_words draft content =
     (let rid = rs_resolution_id (md_source draft) in
      joined checkout_words (joined {[Pull]} (joined {[], [WriteFile rid content]}
        (joined {[Stage rid, InspectStaged rid]}
          (joined {[], [CommitFile rid (commit_message draft), ReadCommit]} {[Push]})))))"

lemma follows_push [follows_rules]: "follows {[Push]} (push config env)" "follows {[Pull]} (pull_ff_only config env)"
  unfolding push_def pull_ff_only_def by (intro follows_quiet(4) follows_rules)+

lemma bind_lift_Inr: "bindP (liftP (Inr a)) f = f a"
  by (simp add: bindP_def liftP_def fun_eq_iff)

lemma follows_write:
  assumes "render_memory draft = Inr content"
  shows "follows (write_words draft content) (write_memory config env draft)"
proof -
  let ?rid = "rs_resolution_id (md_source draft)"
  let ?finish = "\<lambda>changed commit_sha. seqP (push config env)
     (returnP \<lparr>wr_resolution_id = ?rid, wr_relative_path = memory_path ?rid, wr_changed = changed,
        wr_commit_sha = commit_sha\<rparr>)"
  have finish: "follows {[Push]} (?finish changed sha)" for changed sha
    by (intro follows_quiet(4) follows_rules)
  have "follows (joined {[CommitFile ?rid (commit_message draft)]} {[ReadCommit]})
      (seqP (commit_memory config env draft)
        (bindP (git config env ReadCommit [''rev-parse'', ''HEAD''] None) (\<lambda>sha. returnP (Some sha))))"
    unfolding commit_memory_def Let_def
    by (intro follows_seq follows_quiet(3,4) follows_rules) simp
  then have commit: "follows {[CommitFile ?rid (commit_message draft), ReadCommit]}
      (seqP (commit_memory config env draft)
        (bindP (git config env ReadCommit [''rev-parse'', ''HEAD''] None) (\<lambda>sha. returnP (Some sha))))"
    by simp
  have recorded: "follows {[], [CommitFile ?rid (commit_message draft), ReadCommit]}
      (if changed then seqP (commit_memory config env draft)
        (bindP (git config env ReadCommit [''rev-parse'', ''HEAD''] None) (\<lambda>sha. returnP (Some sha)))
       else returnP None)" for changed
    by (rule follows_weaken [OF follows_if [OF commit]]) (auto intro: follows_rules)
  have inspect: "follows {[InspectStaged ?rid]} (has_staged_change config env ?rid)"
    unfolding has_staged_change_def
    by (intro follows_quiet(3) follows_rules) (auto split: prod.split intro: follows_rules)
  have "follows (joined checkout_words (joined {[Pull]} (joined {[], [WriteFile ?rid content]}
      (joined {[Stage ?rid]} (joined {[InspectStaged ?rid]}
        (joined {[], [CommitFile ?rid (commit_message draft), ReadCommit]} {[Push]}))))))
     (write_memory config env draft)"
    unfolding write_memory_def Let_def assms bind_lift_Inr
    by (auto intro!: follows_quiet(2) [OF follows_silent(6)] follows_seq [OF follows_checkout]
        follows_seq [OF follows_push(2)] follows_quiet(2) [OF follows_memory_path(2)]
        follows_seq [OF follows_write_file] follows_seq [OF follows_git]
        follows_bind [OF inspect] follows_bind [OF recorded] finish)
  moreover have "joined {[Stage ?rid]} (joined {[InspectStaged ?rid]} B) =
      joined {[Stage ?rid, InspectStaged ?rid]} B" for B
    by (auto simp: joined_def)
  ultimately show ?thesis unfolding write_words_def Let_def by simp
qed

section \<open>The index\<close>

definition readable :: "'w git_env \<Rightarrow> string \<Rightarrow> memory_document \<Rightarrow> bool" where
  "readable env stem document \<longleftrightarrow>
     doc_resolution_id document = stem \<and>
     (\<exists>w w' content. ge_read env (MemoryFile stem) w = (Inr content, w') \<and>
        parse_memory_document stem content = Inr document)"

lemma returned_guard: "guardP b e s = (Inr u, t) \<longleftrightarrow> b \<and> t = s"
  by (simp add: guardP_def returned)

lemma returned_world: "on_world m s = (Inr a, t) \<longleftrightarrow> (\<exists>w. m (ss_world s) = (Inr a, w) \<and> t = s\<lparr>ss_world := w\<rparr>)"
  by (auto simp: on_world_def split: prod.splits)

lemma returned_catch_throw: "catchP m (\<lambda>e. throwP (g e)) s = (Inr a, t) \<longleftrightarrow> m s = (Inr a, t)"
  by (auto simp: catchP_def throwP_def split: prod.splits sum.splits)

lemma scan_entry_returned:
  "scan_entry env stem index s = (Inr index', t) \<Longrightarrow>
   \<exists>document. index' = index @ [(stem, document)] \<and> map_of index stem = None \<and> readable env stem document"
  unfolding scan_entry_def stat_def readable_def
  by (auto simp: returned returned_guard returned_world returned_catch_throw)

lemma scan_entries_returned:
  "scan_entries env stems index s = (Inr index', t) \<Longrightarrow> distinct (map fst index) \<Longrightarrow>
   \<exists>documents. index' = index @ zip stems documents \<and> list_all2 (readable env) stems documents \<and>
     distinct (map fst index')"
proof (induction stems arbitrary: index s)
  case Nil
  then show ?case by (simp add: returned)
next
  case (Cons stem stems)
  from Cons.prems(1) obtain j u where j: "scan_entry env stem index s = (Inr j, u)"
    "scan_entries env stems j u = (Inr index', t)" by (auto simp: returned)
  from scan_entry_returned [OF j(1)] obtain d where d: "j = index @ [(stem, d)]" "map_of index stem = None"
    "readable env stem d" by blast
  have "distinct (map fst j)" using d Cons.prems(2) by (auto simp: map_of_eq_None_iff)
  from Cons.IH [OF j(2) this] obtain documents where
    "index' = j @ zip stems documents" "list_all2 (readable env) stems documents" "distinct (map fst index')"
    by blast
  with d show ?case by (intro exI [of _ "d # documents"]) simp
qed

definition index_stems :: "'w git_env \<Rightarrow> 'w \<Rightarrow> string list" where
  "index_stems env w = (if pi_exists (ge_stat env MemoriesDir w)
     then sort_key (\<lambda>stem. stem @ ''.md'') (ge_stems env w) else [])"

lemma scan_memories_returned:
  assumes "scan_memories env s = (Inr index, t)"
  obtains u documents where "index = zip (index_stems env u) documents"
    "list_all2 (readable env) (index_stems env u) documents" "distinct (map fst index)"
proof -
  from assms obtain u where u: "(if \<not> pi_exists (ge_stat env MemoriesDir (ss_world u)) then returnP []
      else bindP (getsP (\<lambda>s. sort_key (\<lambda>stem. stem @ ''.md'') (ge_stems env (ss_world s))))
        (\<lambda>stems. scan_entries env stems [])) u = (Inr index, t)"
    by (auto simp: scan_memories_def stat_def returned)
  show ?thesis
  proof (cases "pi_exists (ge_stat env MemoriesDir (ss_world u))")
    case True
    with u have "scan_entries env (index_stems env (ss_world u)) [] u = (Inr index, t)"
      by (simp add: returned index_stems_def)
    from scan_entries_returned [OF this] that show ?thesis by auto
  next
    case False
    with u have "index = []" by (simp add: returned)
    with False that [of "ss_world u" "[]"] show ?thesis by (simp add: index_stems_def)
  qed
qed

lemma rebuild_index_scans:
  assumes "rebuild_index config env refresh s = (Inr index, t)"
  obtains u where "scan_memories env u = (Inr index, t)"
  using assms by (auto simp: rebuild_index_def returned)

text \<open>
  One memory that does not parse makes every index fail.
\<close>

lemma broken_memory_blocks_index:
  assumes "\<And>w. stem \<in> set (index_stems env w)"
    and "\<And>w content w'. ge_read env (MemoryFile stem) w = (Inr content, w') \<Longrightarrow>
      \<exists>e. parse_memory_document stem content = Inl e"
  shows "fst (rebuild_index config env refresh s) \<noteq> Inr index"
proof
  assume "fst (rebuild_index config env refresh s) = Inr index"
  then obtain t where "rebuild_index config env refresh s = (Inr index, t)" by (metis prod.collapse)
  then obtain u where "scan_memories env u = (Inr index, t)" by (rule rebuild_index_scans)
  then obtain w documents where "list_all2 (readable env) (index_stems env w) documents"
    by (rule scan_memories_returned)
  then obtain d where "readable env stem d"
    using assms(1) [of w] by (auto simp: list_all2_conv_all_nth in_set_conv_nth)
  with assms(2) show False by (force simp: readable_def)
qed

lemma index_lookup:
  assumes "rebuild_index config env refresh s = (Inr index, t)" "map_of index rid = Some document"
  shows "readable env rid document" "doc_resolution_id document = rid"
proof -
  obtain u where "scan_memories env u = (Inr index, t)" using assms(1) by (rule rebuild_index_scans)
  then obtain w documents where i: "index = zip (index_stems env w) documents"
    "list_all2 (readable env) (index_stems env w) documents" by (rule scan_memories_returned)
  have "(rid, document) \<in> set index" using assms(2) by (rule map_of_SomeD)
  with i show "readable env rid document" by (auto simp: list_all2_iff)
  then show "doc_resolution_id document = rid" by (simp add: readable_def)
qed

section \<open>The commit of a memory\<close>

lemma latest_commit_pushed:
  assumes "latest_memory_commit config env rid refresh s = (Inr (Some sha), t)"
  shows "commit_pattern sha \<and> (\<exists>u l. memory_uuid ResolutionRowErr rid = Inr u \<and>
    ss_log t = ss_log s @ l @ [Push, ReadLog u])"
proof -
  obtain u where u: "memory_uuid ResolutionRowErr rid = Inr u"
    using assms by (auto simp: latest_memory_commit_def returned)
  let ?front = "seqP (on_world (ge_lock env)) (seqP (ensure_checkout config env)
     (seqP (if refresh then pull_ff_only config env else returnP ()) (stat env (MemoryFile u))))"
  let ?tail = "seqP (push config env) (git config env (ReadLog u) [''log'', ''-1'', ''--format=%H'', ''--'', memory_path u] None)"
  from assms u obtain s1 target s2 where front: "?front s = (Inr target, s1)"
    and tail: "?tail s1 = (Inr sha, s2)" "commit_pattern sha" "t = s2"
    by (auto simp: latest_memory_commit_def returned returned_guard split: if_splits)
  have "follows {[], [Pull]} (if refresh then pull_ff_only config env else returnP ())"
    by (rule follows_weaken [OF follows_if [of _ "{[Pull]}" _ "{[]}"]]) (auto intro: follows_rules)
  then have "follows (joined checkout_words (joined {[], [Pull]} {[]})) ?front"
    by (intro follows_quiet(2) [OF follows_silent(6)] follows_seq follows_rules) simp_all
  from followsD [OF this front] obtain l where l: "ss_log s1 = ss_log s @ l" by blast
  have "follows (joined {[Push]} {[ReadLog u]}) ?tail" by (intro follows_seq follows_rules) simp
  from followsD [OF this tail(1)] have "ss_log s2 = ss_log s1 @ [Push, ReadLog u]" by simp
  with l u tail(2,3) show ?thesis by simp
qed

end
