(* ===== verification/Memory_Demo.thy ===== *)
theory Memory_Demo
  imports Memory_Fidelity Memory_Store
begin

text \<open>
  A concrete resolution row, the source and the draft made of it, and a repository, on which
  the properties of the memory are applied.
\<close>

definition memory_id :: string where
  "memory_id = ''6f9619ff-8b86-4d11-b42d-00c04fc964ff''"

definition memory_row :: "string \<Rightarrow> pydict" where
  "memory_row site =
     [(''resolution_id'', PStr ''{6F9619FF-8B86-4D11-B42D-00C04FC964FF}''), (''failure_id'', PNone),
      (''site'', PStr site), (''outcome'', PStr ''resolved''), (''applied'', PBool True),
      (''operator_email'', PStr ''a@b''),
      (''action_runs'', PList [PDict [(''cmd'', PStr ''open_gripper''), (''arguments'', PDict [(''width'', PInt 7)])]]),
      (''episode_evidence'', PDict [(''failure_event'', PNone),
         (''resolution_event'', PDict [(''note'', PStr ''a''), (''auth_token'', PStr ''x'')])])]"

definition memory_sha :: "string \<Rightarrow> string" where
  "memory_sha s = replicate 64 (CHR ''0'')"

text \<open>The payload that is stored: the fields of the source, sorted, with the evidence cleaned.\<close>

definition dict_of :: "pyval \<Rightarrow> pydict" where
  "dict_of v = (case v of PDict d \<Rightarrow> d | _ \<Rightarrow> [])"

definition memory_payload :: "string \<Rightarrow> pydict" where
  "memory_payload site =
     (case with_evidence (row_payload (memory_row site) memory_id None ''resolved'' True) of
        Inr p \<Rightarrow> dict_of (canon (PDict (with_map (memory_row site) p))) | Inl _ \<Rightarrow> [])"

definition memory_actions :: "pyval list" where
  "memory_actions = [PDict [(''arguments'', PDict [(''width'', PInt 7)]), (''cmd'', PStr ''open_gripper'')]]"

definition memory_source :: "string \<Rightarrow> resolution_source" where
  "memory_source site = \<lparr>rs_resolution_id = memory_id, rs_failure_id = None,
     rs_source_hash = memory_sha (json_dumps (PDict (memory_payload site))),
     rs_payload_json = json_dumps (PDict (memory_payload site))\<rparr>"

definition memory_draft_demo :: "string \<Rightarrow> memory_draft" where
  "memory_draft_demo site = \<lparr>md_source = memory_source site, md_memory_kind = ''positive'', md_actionable = True,
     md_failure_summary = ''Gripper stuck'', md_recovery_summary = ''Open it'', md_lessons = [''Look first''],
     md_signature = None, md_model = ''m'', md_response_id = None\<rparr>"

lemma memory_sha_ok: "hash_pattern (memory_sha s)"
  unfolding memory_sha_def by code_simp

lemma memory_uuid_demo: "memory_uuid ResolutionRowErr (PStr ''{6F9619FF-8B86-4D11-B42D-00C04FC964FF}'') = Inr memory_id"
  unfolding memory_id_def by code_simp

definition plain_site :: string where "plain_site = ''Harbour''"
definition broken_site :: string where "broken_site = ''Har'' @ CHR 0x85 # ''bour''"

lemmas site_defs = plain_site_def broken_site_def

lemma memory_row_safe: "json_safe (PDict (memory_row plain_site))" "json_safe (PDict (memory_row broken_site))"
  by code_simp+

lemma memory_payload_facts:
  "dget (memory_payload plain_site) ''action_runs'' = PList memory_actions"
  "dget (memory_payload broken_site) ''action_runs'' = PList memory_actions"
  "dget (memory_payload plain_site) ''outcome'' = PStr ''resolved''"
  "dget (memory_payload broken_site) ''outcome'' = PStr ''resolved''"
  "dget (memory_payload plain_site) ''applied'' = PBool True"
  "dget (memory_payload broken_site) ''applied'' = PBool True"
  "dget (memory_payload broken_site) ''site'' = PStr broken_site"
proof -
  have "holds_of (memory_payload plain_site) (\<lambda>p. dget p ''action_runs'' = PList memory_actions \<and>
      dget p ''outcome'' = PStr ''resolved'' \<and> dget p ''applied'' = PBool True)"
    "holds_of (memory_payload broken_site) (\<lambda>p. dget p ''action_runs'' = PList memory_actions \<and>
      dget p ''outcome'' = PStr ''resolved'' \<and> dget p ''applied'' = PBool True \<and> dget p ''site'' = PStr broken_site)"
    by code_simp+
  then show "dget (memory_payload plain_site) ''action_runs'' = PList memory_actions"
    "dget (memory_payload broken_site) ''action_runs'' = PList memory_actions"
    "dget (memory_payload plain_site) ''outcome'' = PStr ''resolved''"
    "dget (memory_payload broken_site) ''outcome'' = PStr ''resolved''"
    "dget (memory_payload plain_site) ''applied'' = PBool True"
    "dget (memory_payload broken_site) ''applied'' = PBool True"
    "dget (memory_payload broken_site) ''site'' = PStr broken_site"
    by (simp_all add: holds_of_def)
qed

lemma memory_payload_checked:
  "checked_action_runs (memory_payload site) = Inr (memory_payload site)" if "site \<in> {plain_site, broken_site}"
  using that memory_payload_facts by (auto simp: checked_action_runs_def memory_actions_def is_dict_def)

lemma with_evidence_demo:
  "\<exists>p. with_evidence (row_payload (memory_row plain_site) memory_id None ''resolved'' True) = Inr p"
  "\<exists>p. with_evidence (row_payload (memory_row broken_site) memory_id None ''resolved'' True) = Inr p"
proof -
  have "(case with_evidence (row_payload (memory_row plain_site) memory_id None ''resolved'' True) of Inr _ \<Rightarrow> True | Inl _ \<Rightarrow> False)"
    "(case with_evidence (row_payload (memory_row broken_site) memory_id None ''resolved'' True) of Inr _ \<Rightarrow> True | Inl _ \<Rightarrow> False)"
    by code_simp+
  then show "\<exists>p. with_evidence (row_payload (memory_row plain_site) memory_id None ''resolved'' True) = Inr p"
    "\<exists>p. with_evidence (row_payload (memory_row broken_site) memory_id None ''resolved'' True) = Inr p"
    by (auto split: sum.splits)
qed

lemma memory_source_demo:
  assumes "site \<in> {plain_site, broken_site}"
  shows "resolution_source_from_row memory_sha (PDict (memory_row site)) = Inr (memory_source site)"
    and "source_payload (memory_source site) = Inr (memory_payload site)"
    and "dispatched_actions (memory_source site) = Inr memory_actions"
proof -
  obtain p where p: "with_evidence (row_payload (memory_row site) memory_id None ''resolved'' True) = Inr p"
    using assms with_evidence_demo by auto
  have out: "strip ''resolved'' = ''resolved''" by code_simp
  obtain c where c: "canon (PDict (with_map (memory_row site) p)) = PDict c" by simp
  then have pl: "memory_payload site = c" using p by (simp add: memory_payload_def dict_of_def del: canon.simps)
  then have can: "canon (PDict (memory_payload site)) = PDict (memory_payload site)"
    using canon_canon [of "PDict (with_map (memory_row site) p)"] c by metis
  have row: "memory_uuid ResolutionRowErr (dget (memory_row site) ''resolution_id'') = Inr memory_id"
    "(if dget (memory_row site) ''failure_id'' = PNone then Inr None
      else bindE (memory_uuid ResolutionRowErr (dget (memory_row site) ''failure_id'')) (\<lambda>f. Inr (Some f))) = Inr None"
    "dget (memory_row site) ''applied'' = PBool True"
    "dget (memory_row site) ''outcome'' = PStr ''resolved''"
    using memory_uuid_demo by (simp_all add: memory_row_def)
  have safe: "json_safe (PDict (memory_row site))" using assms memory_row_safe by auto
  note acc = source_from_row_accepts [OF row, unfolded out, OF _ p safe c [folded pl] memory_payload_checked [OF assms]]
  show "resolution_source_from_row memory_sha (PDict (memory_row site)) = Inr (memory_source site)"
    using acc(1) [of memory_sha] by (simp add: memory_source_def)
  show sp: "source_payload (memory_source site) = Inr (memory_payload site)"
    using acc(2) [OF _ can, of memory_sha] by (simp add: memory_source_def)
  have runs: "dget (memory_payload site) ''action_runs'' = PList memory_actions"
    using assms memory_payload_facts by auto
  then have "has_key (memory_payload site) ''action_runs''" using not_has_key_dget by fastforce
  with sp runs show "dispatched_actions (memory_source site) = Inr memory_actions"
    by (simp add: dispatched_actions_def py_items_def)
qed

lemma memory_draft_demo:
  assumes "site \<in> {plain_site, broken_site}"
  shows "memory_draft_post_init (memory_source site) (PStr ''positive'') (PBool True) (PStr ''Gripper stuck'')
    (PStr ''Open it'') [PStr ''Look first''] None (PStr ''m'') PNone = Inr (memory_draft_demo site)"
proof -
  have texts: "strip ''Gripper stuck'' = ''Gripper stuck''" "strip ''Open it'' = ''Open it''"
    "strip ''Look first'' = ''Look first''" "strip ''m'' = ''m''" by code_simp+
  have "dget (memory_payload site) ''outcome'' = PStr ''resolved''" "dget (memory_payload site) ''applied'' = PBool True"
    using assms memory_payload_facts by auto
  then have "check_actionable (memory_source site) ''positive'' True = Inr ()"
    using memory_source_demo [OF assms] by (simp add: check_actionable_def is_true_def memory_actions_def)
  then show ?thesis
    by (simp add: memory_draft_post_init_def required_draft_text_def draft_text_or_none_def texts
        clean_signature_def memory_draft_demo_def)
qed

lemma memory_draft_unbroken: "unbroken (frontmatter_of (memory_draft_demo plain_site) (memory_payload plain_site) 1)"
  by code_simp

lemma memory_renders:
  assumes "site \<in> {plain_site, broken_site}" shows "\<exists>document. render_memory (memory_draft_demo site) = Inr document"
proof -
  have "json_safe (PDict (memory_row site))" using assms memory_row_safe by auto
  from source_from_row_stored [OF memory_source_demo(1) [OF assms] this] obtain payload runs where
    st: "stored_source (memory_source site) payload runs" by blast
  then have "runs = memory_actions" using memory_source_demo(3) [OF assms] by (simp add: stored_source_def)
  then have "plen runs < 2 ^ 63" by (simp add: memory_actions_def plen_def)
  from render_document [OF st _ this, of "memory_draft_demo site" None] show ?thesis
    by (simp add: memory_draft_demo_def opt_dict_def del: json_pretty.simps)
qed

end
