(* ===== verification/Memory_Properties.thy ===== *)
theory Memory_Properties
  imports Memory_Demo
begin

text \<open>
  The properties of the memory: documents read back what was recorded, prose cannot change
  their structure, evidence holds no secrets, and a memory is written, committed and pushed in
  a fixed order. One property shows a text that makes a whole repository unreadable.
\<close>

text \<open>
  C5. A memory reads back: for every resolution row that is accepted and every draft accepted
  over it, the document is rendered, it parses, and the parsed document has exactly the actions
  that were dispatched, the evidence, the identity and the source hash of the source; it may be
  executed if and only if the draft is actionable. The frontmatter must hold no next-line
  character.
\<close>

theorem rendered_memory_reads_back:
  assumes "resolution_source_from_row sha256 (PDict row) = Inr source" and "json_safe (PDict row)"
    and "\<And>s. hash_pattern (sha256 s)"
    and "memory_draft_post_init source kind act failure recovery lessons sig model response = Inr draft"
    and "json_safe (opt_dict sig)"
    and "source_payload source = Inr payload" and "dispatched_actions source = Inr actions"
    and "plen actions < 2 ^ 63" and "unbroken (frontmatter_of draft payload (length actions))"
  shows "\<exists>document doc. render_memory draft = Inr document \<and> parse_memory_document stem document = Inr doc \<and>
    doc_actions doc = actions \<and> doc_evidence doc = as_dict (dget payload ''episode_evidence'') \<and>
    doc_resolution_id doc = rs_resolution_id source \<and> doc_source_hash doc = rs_source_hash source \<and>
    is_execution_candidate doc = md_actionable draft"
proof -
  obtain p runs where st: "stored_source source p runs" using source_from_row_stored [OF assms(1,2)] by blast
  with assms(6,7) have eq: "p = payload" "runs = actions" by (auto simp: stored_source_def)
  have hash: "hash_pattern (rs_source_hash source)"
    using assms(1,3) by (elim source_from_row_parts) simp
  from rendered_memory_parses [OF st [unfolded eq] assms(8) hash assms(4,5,9)] doc_of_verdict [OF st [unfolded eq] assms(4)]
  show ?thesis by (metis doc_of_def memory_document.select_convs(3,5))
qed

lemma rendered_memory_reads_back_witness:
  "\<exists>document doc. render_memory (memory_draft_demo plain_site) = Inr document \<and>
    parse_memory_document memory_id document = Inr doc \<and> doc_actions doc = memory_actions \<and>
    is_execution_candidate doc"
proof -
  have site: "plain_site \<in> {plain_site, broken_site}" by simp
  have none: "json_safe (opt_dict None)" by (simp add: opt_dict_def)
  have count: "plen memory_actions < 2 ^ 63" "length memory_actions = 1"
    by (simp_all add: memory_actions_def plen_def)
  from rendered_memory_reads_back [OF memory_source_demo(1) [OF site] memory_row_safe(1) memory_sha_ok
      memory_draft_demo [OF site] none memory_source_demo(2) [OF site] memory_source_demo(3) [OF site] count(1), of memory_id]
  show ?thesis using memory_draft_unbroken count(2) by (auto simp: memory_draft_demo_def)
qed

text \<open>
  C6. Prose cannot inject a section: whatever the summaries, the lessons and the recorded texts
  say, the reader of the section of dispatched actions of a rendered memory finds exactly the
  JSON that the code wrote for the dispatched actions.
\<close>

theorem prose_cannot_inject_actions:
  assumes "render_memory draft = Inr document" and "dispatched_actions (md_source draft) = Inr actions"
    and "lf \<notin> set (rs_resolution_id (md_source draft))"
  shows "\<exists>front body. document = ''---'' @ front @ [lf] @ ''---'' @ [lf] @ body \<and>
    section_text ''## Dispatched Actions'' body = Some (json_pretty 0 (PList actions))"
proof -
  from assms(1,2) obtain payload fls sj ej where
    whole: "document = join [lf] (''---'' # fls @ ''---'' # prose_lines draft payload @
         json_block ''## Retrieval Signature'' (json_pretty 0 sj) @
         json_block ''## Episode Evidence'' (json_pretty 0 ej) @
         json_block ''## Dispatched Actions'' (json_pretty 0 (PList actions)) @ [[]])"
    by (auto simp: render_memory_def bindE_eq_Inr guardE_eq_Inr dumps_pretty_def
        simp del: json_pretty.simps finite_floats.simps)
  let ?body = "memory_body draft payload (json_pretty 0 sj) (json_pretty 0 ej) (json_pretty 0 (PList actions))"
  from join_middle [of "prose_lines draft payload @ json_block ''## Retrieval Signature'' (json_pretty 0 sj) @
         json_block ''## Episode Evidence'' (json_pretty 0 ej) @
         json_block ''## Dispatched Actions'' (json_pretty 0 (PList actions)) @ [[]]" "''---'' # fls" "''---''"]
  obtain q where "document = (''---'' @ q @ [lf]) @ ''---'' @ lf # ?body"
    unfolding whole memory_body_def by auto
  moreover have "section_text ''## Dispatched Actions'' ?body = Some (json_pretty 0 (PList actions))"
    by (rule memory_body_sections(3)) (simp_all only: json_pretty_plain assms(3) not_False_eq_True)
  ultimately show ?thesis by (intro exI [of _ q] exI [of _ ?body]) simp
qed

lemma prose_cannot_inject_actions_witness:
  "\<exists>document front body. render_memory (memory_draft_demo broken_site) = Inr document \<and>
    document = ''---'' @ front @ [lf] @ ''---'' @ [lf] @ body \<and>
    section_text ''## Dispatched Actions'' body = Some (json_pretty 0 (PList memory_actions))"
proof -
  have site: "broken_site \<in> {plain_site, broken_site}" by simp
  obtain document where r: "render_memory (memory_draft_demo broken_site) = Inr document"
    using memory_renders [OF site] by blast
  have "lf \<notin> set (rs_resolution_id (md_source (memory_draft_demo broken_site)))"
    "dispatched_actions (md_source (memory_draft_demo broken_site)) = Inr memory_actions"
    using memory_source_demo(3) [OF site]
    by (simp_all add: memory_draft_demo_def memory_source_def memory_id_def)
  from prose_cannot_inject_actions [OF r this(2,1)] r show ?thesis by blast
qed




definition demo_config :: git_config where
  "demo_config = \<lparr>gc_repo_url = ''git@host:memory'', gc_repo_root = ''/data'', gc_branch = ''main'',
     gc_author_name = ''a'', gc_author_email = ''b'', gc_timeout = FFin 60\<rparr>"

definition demo_sha :: string where
  "demo_sha = replicate 40 (CHR ''a'')"

definition demo_git :: "unit git_env" where
  "demo_git =
     (let info = \<lparr>pi_exists = True, pi_symlink = False, pi_dir = True, pi_file = True, pi_inside = True\<rparr> in
      \<lparr>ge_run = (\<lambda>args input. returnP
          (if ''diff'' \<in> set args then (1, [])
           else (0, if ''rev-parse'' \<in> set args \<and> ''HEAD'' \<notin> set args then ''true''
                  else if ''branch'' \<in> set args then ''main''
                  else demo_sha))),
        ge_stat = (\<lambda>p w. case p of MemoryFile _ \<Rightarrow> info\<lparr>pi_exists := False\<rparr> | _ \<Rightarrow> info),
        ge_stems = (\<lambda>w. []), ge_read = (\<lambda>p. throwP (OtherErr ''OSError'')), ge_write = (\<lambda>p t. returnP ()),
        ge_mkdir = (\<lambda>p. returnP ()), ge_lock = returnP (), ge_locator = (\<lambda>url. [])\<rparr>)"


text \<open>
  The commit that is reported for a memory, before the database may acknowledge the memory as
  ingested, is a well-formed Git commit and was read after the branch had been pushed.
\<close>

theorem reported_commit_is_pushed:
  assumes "latest_memory_commit config env rid refresh s = (Inr (Some sha), t)"
  shows "commit_pattern sha \<and> (\<exists>u l. memory_uuid ResolutionRowErr rid = Inr u \<and>
    ss_log t = ss_log s @ l @ [Push, ReadLog u])"
  using assms by (rule latest_commit_pushed)

lemma reported_commit_is_pushed_witness:
  "\<exists>t l. latest_memory_commit demo_config demo_git (PStr memory_id) True \<lparr>ss_world = (), ss_log = []\<rparr> =
      (Inr (Some demo_sha), t) \<and> ss_log t = l @ [Push, ReadLog memory_id]"
proof -
  have u: "memory_uuid ResolutionRowErr (PStr memory_id) = Inr memory_id"
    using memory_uuid_canonical [OF memory_uuid_demo] .
  have texts: "strip ''true'' = ''true''" "strip ''main'' = ''main''" "commit_pattern demo_sha"
    "strip demo_sha = demo_sha" "demo_sha \<noteq> []" by code_simp+
  have path: "memory_path memory_id = ''memories/6f9619ff-8b86-4d11-b42d-00c04fc964ff.md''"
    by (simp add: memory_path_def memory_id_def)
  obtain t where run: "latest_memory_commit demo_config demo_git (PStr memory_id) True \<lparr>ss_world = (), ss_log = []\<rparr> =
      (Inr (Some demo_sha), t)"
    using u texts path
    by (simp add: latest_memory_commit_def Let_def demo_git_def demo_config_def ensure_checkout_def git_def
        run_command_def stat_def guardP_def on_world_def log_store_def prog_defs pull_ff_only_def push_def)
  from reported_commit_is_pushed [OF run] run u show ?thesis by auto
qed

text \<open>
  C27. Evidence is sanitized: what validation accepts holds no key that looks like a credential,
  an operator's address or bookkeeping at any depth, no text, collection or serialized whole
  beyond its bound and no infinite number; validating it again changes nothing; and of a mapping,
  exactly the sensitive fields are dropped.
\<close>

theorem evidence_is_sanitized:
  assumes "validate_episode_evidence v = Inr e"
  shows "clean_value (PDict e) \<and> plen (json_dumps (PDict e)) \<le> max_episode_evidence_chars \<and>
    validate_episode_evidence (PDict e) = Inr e \<and>
    (\<forall>d k. v = PDict d \<longrightarrow> has_key e k = (has_key d k \<and> \<not> is_sensitive_key k))"
proof -
  from assms have s: "sanitize_value 0 v = Inr (PDict e)" "finite_floats (PDict e)"
    "plen (json_dumps (PDict e)) \<le> max_episode_evidence_chars" unfolding validate_episode_evidence_eq by blast+
  have clean: "clean_value (PDict e)" using s(1) by (rule sanitize_value_clean)
  moreover have "validate_episode_evidence (PDict e) = Inr e"
    unfolding validate_episode_evidence_eq using sanitize_value_idem [OF s(1)] s(2,3) by blast
  moreover have "has_key e k = (has_key d k \<and> \<not> is_sensitive_key k)" if "v = PDict d" for d k
  proof (cases "is_sensitive_key k")
    case True
    with clean show ?thesis by (auto simp: has_key_iff dkeys_def list_all_iff)
  next
    case False
    with sanitize_keeps_field(1) [OF s(1) [unfolded that]] show ?thesis by blast
  qed
  ultimately show ?thesis using s(3) by blast
qed

lemma evidence_is_sanitized_witness:
  "validate_episode_evidence (PDict [(''X-Api-Key'', PStr ''k''), (''reason'', PStr ''stuck'')]) =
    Inr [(''reason'', PStr ''stuck'')] \<and> clean_value (PDict [(''reason'', PStr ''stuck'')])"
proof -
  have run: "validate_episode_evidence (PDict [(''X-Api-Key'', PStr ''k''), (''reason'', PStr ''stuck'')]) =
      Inr [(''reason'', PStr ''stuck'')]" by code_simp
  with evidence_is_sanitized [OF run] show ?thesis by blast
qed

end
