(* ===== verification/Retrieval.thy ===== *)
theory Retrieval
  imports Memory_Document "HOL-Library.Product_Lexorder"
begin

text \<open>
  \<^verbatim>\<open>src/retrieval.py\<close>: the immutable search snapshot over the memories of a match, its ranking,
  its snippets and its bounded reads. The snapshot is the list of its entries; budgets, queries
  and hints stay Python values, since the code validates them.
\<close>

section \<open>Constants and records\<close>

definition max_search_calls :: int where "max_search_calls = 4"
definition max_search_results :: int where "max_search_results = 8"
definition max_read_documents :: int where "max_read_documents = 4"
definition max_total_read_chars :: int where "max_total_read_chars = 300000"
definition max_memory_read_chars :: int where "max_memory_read_chars = 200000"
definition max_index_documents :: int where "max_index_documents = 2000"
definition max_index_chars :: int where "max_index_chars = 64000000"
definition max_query_chars :: int where "max_query_chars = 500"
definition max_search_hints :: int where "max_search_hints = 16"
definition max_hint_chars :: int where "max_hint_chars = 500"
definition max_snippet_chars :: int where "max_snippet_chars = 800"

lemmas retrieval_bounds = max_search_calls_def max_search_results_def max_read_documents_def
  max_total_read_chars_def max_memory_read_chars_def max_index_documents_def max_index_chars_def
  max_query_chars_def max_search_hints_def max_hint_chars_def max_snippet_chars_def

text \<open>The fields of an entry; their weights fall in the order the code lists them.\<close>

datatype field_name = RetrievalSignature | Frontmatter | GeneralizedProse | EpisodeEvidence

definition field_weight :: "field_name \<Rightarrow> int" where
  "field_weight f = (case f of RetrievalSignature \<Rightarrow> 12 | Frontmatter \<Rightarrow> 8 | GeneralizedProse \<Rightarrow> 6
     | EpisodeEvidence \<Rightarrow> 4)"

definition field_position :: "field_name \<Rightarrow> nat" where
  "field_position f = (case f of RetrievalSignature \<Rightarrow> 0 | Frontmatter \<Rightarrow> 1 | GeneralizedProse \<Rightarrow> 2
     | EpisodeEvidence \<Rightarrow> 3)"

record search_field =
  sf_name :: field_name
  sf_text :: string
  sf_normalized :: string
  sf_counts :: "(string \<times> int) list"

record indexed_memory =
  im_id :: string
  im_markdown :: string
  im_metadata :: pydict
  im_fields :: "search_field list"

text \<open>A snippet names its field and says whether it is cut on the left or on the right.\<close>

record snippet =
  sn_field :: field_name
  sn_cut_left :: bool
  sn_text :: string
  sn_cut_right :: bool

record search_result =
  sr_id :: string
  sr_score :: int
  sr_fields :: "field_name list"
  sr_snippet :: "snippet option"
  sr_metadata :: pydict

record read_result =
  rr_id :: string
  rr_markdown :: string
  rr_count :: int
  rr_metadata :: pydict

record auto_read =
  ar_eligible :: bool
  ar_ids :: "string list"
  ar_total :: int
  ar_reason :: string

section \<open>Validation\<close>

definition normalize_text :: "string \<Rightarrow> string" where
  "normalize_text s =
     join '' '' (words (replace_char (CHR ''-'') (CHR '' '') (replace_char (CHR ''_'') (CHR '' '') (casefold s))))"

definition budget_between :: "int \<Rightarrow> pyval \<Rightarrow> int result" where
  "budget_between maximum value =
     (case value of PInt n \<Rightarrow> guardE (1 \<le> n \<and> n \<le> maximum) RetrievalBudgetErr (Inr n)
      | _ \<Rightarrow> Inl RetrievalBudgetErr)"

definition validated_limit :: "pyval \<Rightarrow> int result" where
  "validated_limit = budget_between max_search_results"

definition validated_document_budget :: "pyval \<Rightarrow> int result" where
  "validated_document_budget = budget_between max_read_documents"

definition validated_character_budget :: "pyval \<Rightarrow> int result" where
  "validated_character_budget = budget_between max_total_read_chars"

definition validated_index_document_budget :: "pyval \<Rightarrow> int result" where
  "validated_index_document_budget = budget_between max_index_documents"

definition validated_index_character_budget :: "pyval \<Rightarrow> int result" where
  "validated_index_character_budget = budget_between max_index_chars"

definition validated_query :: "pyval \<Rightarrow> (string \<times> string list) result" where
  "validated_query query =
     (case query of
        PStr s \<Rightarrow>
          (let stripped = strip s; normalized = normalize_text stripped in
           guardE (stripped \<noteq> []) RetrievalErr
           (guardE (plen stripped \<le> max_query_chars) RetrievalBudgetErr
           (guardE (CHR 0x00 \<notin> set stripped) RetrievalErr
             (Inr (normalized, dedup (tokens normalized))))))
      | _ \<Rightarrow> Inl RetrievalErr)"

text \<open>Identifiers are stripped; the seen ones are the reversed accumulator.\<close>

fun validated_ids :: "string list \<Rightarrow> pyval list \<Rightarrow> string list result" where
  "validated_ids seen [] = Inr (rev seen)"
| "validated_ids seen (v # vs) =
     (case v of
        PStr s \<Rightarrow>
          guardE (strip s \<noteq> []) RetrievalErr
          (guardE (strip s \<notin> set seen) RetrievalErr (validated_ids (strip s # seen) vs))
      | _ \<Rightarrow> Inl RetrievalErr)"

definition validated_memory_ids :: "pyval \<Rightarrow> string list result" where
  "validated_memory_ids memory_ids =
     (case memory_ids of PList vs \<Rightarrow> validated_ids [] vs | PTuple vs \<Rightarrow> validated_ids [] vs
      | _ \<Rightarrow> Inl RetrievalErr)"

section \<open>Frozen values\<close>

text \<open>
  Freezing sorts every object by key and turns arrays into tuples, thawing turns the tuples
  into lists again. Every value of the model is a JSON value.
\<close>

fun freeze :: "pyval \<Rightarrow> pyval" where
  "freeze (PDict d) = PDict (sort_key fst (map (\<lambda>(k, v). (k, freeze v)) d))"
| "freeze (PList vs) = PTuple (map freeze vs)"
| "freeze (PTuple vs) = PTuple (map freeze vs)"
| "freeze v = v"

fun thaw :: "pyval \<Rightarrow> pyval" where
  "thaw (PDict d) = PDict (map (\<lambda>(k, v). (k, thaw v)) d)"
| "thaw (PTuple vs) = PList (map thaw vs)"
| "thaw v = v"

definition thaw_dict :: "pydict \<Rightarrow> pydict" where
  "thaw_dict d = map (\<lambda>(k, v). (k, thaw v)) d"

definition json_text :: "pyval \<Rightarrow> string result" where
  "json_text value = dumps_compact (thaw value)"

definition pretty_text :: "pyval \<Rightarrow> string result" where
  "pretty_text value = dumps_pretty (thaw value)"

definition or_empty :: "pydict option \<Rightarrow> pyval" where
  "or_empty d = PDict (case d of None \<Rightarrow> [] | Some e \<Rightarrow> e)"

definition validated_hint :: "string \<times> pyval \<Rightarrow> (string \<times> string \<times> string list) list result" where
  "validated_hint = (\<lambda>(key, value).
     guardE (strip key \<noteq> []) RetrievalErr
     (if value = PNone \<or> (case value of PStr s \<Rightarrow> strip s = [] | _ \<Rightarrow> False) then Inr []
      else bindE (json_text (freeze value)) (\<lambda>text.
        guardE (plen text \<le> max_hint_chars) RetrievalBudgetErr
        (Inr [(strip key, normalize_text text, dedup (tokens (normalize_text text)))]))))"

definition validated_hints :: "pyval \<Rightarrow> (string \<times> string \<times> string list) list result" where
  "validated_hints hints =
     (case hints of
        PNone \<Rightarrow> Inr []
      | PDict d \<Rightarrow>
          guardE (plen d \<le> max_search_hints) RetrievalBudgetErr
          (bindE (mapE validated_hint (sort_key fst d)) (\<lambda>found. Inr (concat found)))
      | _ \<Rightarrow> Inl RetrievalErr)"

section \<open>The entries of the index\<close>

text \<open>
  The pattern \<^verbatim>\<open>(?m)^## ([^\n]+)\n\<close> at the start of a line, with one of the structural headings.
\<close>

definition structural_heading :: "string \<Rightarrow> bool" where
  "structural_heading s \<longleftrightarrow>
     (let rest = drop 3 s; heading = takeWhile (\<lambda>c. c \<noteq> lf) rest in
      prefix ''## '' s \<and> heading \<noteq> [] \<and> lf \<in> set rest \<and>
      casefold (strip heading) \<in> set [''retrieval signature'', ''episode evidence'', ''dispatched actions''])"

fun first_section :: "bool \<Rightarrow> string \<Rightarrow> nat option" where
  "first_section line_start [] = None"
| "first_section line_start (c # cs) =
     (if line_start \<and> structural_heading (c # cs) then Some 0
      else map_option Suc (first_section (c = lf) cs))"

definition generalized_prose :: "string \<Rightarrow> string" where
  "generalized_prose body =
     strip (case first_section True body of None \<Rightarrow> body | Some boundary \<Rightarrow> take boundary body)"

definition fenced :: "string \<Rightarrow> string list" where
  "fenced text = [fence @ ''json'', text, fence]"

definition retrieval_markdown :: "pyval \<Rightarrow> string \<Rightarrow> pyval \<Rightarrow> pyval \<Rightarrow> string result" where
  "retrieval_markdown metadata prose signature evidence =
     bindE (pretty_text metadata) (\<lambda>metadata_json.
     bindE (pretty_text signature) (\<lambda>signature_json.
     bindE (pretty_text evidence) (\<lambda>evidence_json.
       Inr (join [lf]
         ([''# Recovery memory'', [], ''## Retrieval Metadata''] @ fenced metadata_json @
          (if prose \<noteq> [] then [[], ''## Generalized Memory'', prose] else []) @
          [[], ''## Retrieval Signature''] @ fenced signature_json @
          [[], ''## Episode Evidence''] @ fenced evidence_json @ [[]])))))"

definition count_term :: "(string \<times> int) list \<Rightarrow> string \<Rightarrow> int" where
  "count_term counts term = (case map_of counts term of None \<Rightarrow> 0 | Some n \<Rightarrow> n)"

definition build_search_field :: "field_name \<Rightarrow> string \<Rightarrow> search_field" where
  "build_search_field name text =
     (let normalized = normalize_text text in
      \<lparr>sf_name = name, sf_text = text, sf_normalized = normalized,
       sf_counts = foldl (\<lambda>counts term. AList.update term (count_term counts term + 1) counts) []
         (tokens normalized)\<rparr>)"

definition index_document :: "memory_document \<Rightarrow> indexed_memory result" where
  "index_document document =
     (let metadata = freeze (PDict (doc_frontmatter document));
          signature = freeze (or_empty (doc_signature document));
          evidence = freeze (or_empty (doc_evidence document));
          prose = generalized_prose (doc_body document)
      in bindE (json_text metadata) (\<lambda>frontmatter_text.
         bindE (json_text signature) (\<lambda>signature_text.
         bindE (json_text evidence) (\<lambda>evidence_text.
         bindE (retrieval_markdown metadata prose signature evidence) (\<lambda>markdown.
           Inr \<lparr>im_id = doc_resolution_id document, im_markdown = markdown,
             im_metadata = (case metadata of PDict d \<Rightarrow> d | _ \<Rightarrow> []),
             im_fields = [build_search_field RetrievalSignature signature_text,
               build_search_field Frontmatter frontmatter_text,
               build_search_field GeneralizedProse prose,
               build_search_field EpisodeEvidence evidence_text]\<rparr>)))))"

definition document_index_chars :: "memory_document \<Rightarrow> int result" where
  "document_index_chars document =
     bindE (json_text (freeze (PDict (doc_frontmatter document)))) (\<lambda>frontmatter_text.
     bindE (json_text (freeze (or_empty (doc_signature document)))) (\<lambda>signature_text.
     bindE (json_text (freeze (or_empty (doc_evidence document)))) (\<lambda>evidence_text.
       Inr (plen (doc_body document) + plen frontmatter_text + plen signature_text + plen evidence_text))))"

text \<open>The loop of the constructor: the candidates by identifier and the characters they add up to.\<close>

type_synonym candidates = "(string \<times> memory_document) list \<times> int"

definition add_candidate :: "int \<Rightarrow> string \<times> memory_document \<Rightarrow> candidates \<Rightarrow> candidates result" where
  "add_candidate character_budget = (\<lambda>(supplied_id, document) (by_id, chars).
     (let memory_id = doc_resolution_id document in
      guardE (supplied_id = memory_id) RetrievalErr
      (guardE (memory_id \<notin> fst ` set by_id) RetrievalErr
      (if is_execution_candidate document
       then bindE (document_index_chars document) (\<lambda>n.
         guardE (chars + n \<le> character_budget) RetrievalBudgetErr
         (Inr (by_id @ [(memory_id, document)], chars + n)))
       else Inr (by_id, chars)))))"

definition build_index ::
  "(string \<times> memory_document) list \<Rightarrow> pyval \<Rightarrow> pyval \<Rightarrow> indexed_memory list result" where
  "build_index supplied max_documents max_chars =
     bindE (validated_index_document_budget max_documents) (\<lambda>document_budget.
     bindE (validated_index_character_budget max_chars) (\<lambda>character_budget.
     guardE (plen supplied \<le> document_budget) RetrievalBudgetErr
     (bindE (foldE (add_candidate character_budget) supplied ([], 0)) (\<lambda>(by_id, chars).
        mapE (\<lambda>(memory_id, document). index_document document) (sort_key fst by_id)))))"

definition memory_ids :: "indexed_memory list \<Rightarrow> string list" where
  "memory_ids index = map im_id index"

definition document_count :: "indexed_memory list \<Rightarrow> nat" where
  "document_count index = length index"

definition by_id :: "indexed_memory list \<Rightarrow> string \<rightharpoonup> indexed_memory" where
  "by_id index = map_of (map (\<lambda>entry. (im_id entry, entry)) index)"

section \<open>Search\<close>

definition field_score :: "string \<Rightarrow> string list \<Rightarrow> search_field \<Rightarrow> int" where
  "field_score normalized_query query_terms field =
     (let weight = field_weight (sf_name field) in
      (\<Sum>term \<leftarrow> query_terms. weight * min (count_term (sf_counts field) term) 4) +
      (if normalized_query \<noteq> [] \<and> sublist normalized_query (sf_normalized field) then weight * 3 else 0))"

definition normalized_metadata :: "pydict \<Rightarrow> (string \<times> string) list result" where
  "normalized_metadata metadata =
     foldE (\<lambda>(key, value) found. bindE (json_text value) (\<lambda>text.
       Inr (AList.update (casefold key) (normalize_text text) found))) metadata []"

definition one_hint_score :: "(string \<times> string) list \<Rightarrow> string \<times> string \<times> string list \<Rightarrow> int" where
  "one_hint_score metadata = (\<lambda>(key, expected, expected_terms).
     (case map_of metadata (casefold key) of
        None \<Rightarrow> 0
      | Some actual \<Rightarrow>
          if actual = [] then 0
          else if expected = actual then 50
          else 8 * plen (filter (\<lambda>term. term \<in> set (tokens actual)) expected_terms)))"

definition hint_score :: "pydict \<Rightarrow> (string \<times> string \<times> string list) list \<Rightarrow> int result" where
  "hint_score metadata hints =
     bindE (normalized_metadata metadata) (\<lambda>found. Inr (\<Sum>hint \<leftarrow> hints. one_hint_score found hint))"

definition best_field :: "indexed_memory \<Rightarrow> int list \<Rightarrow> search_field" where
  "best_field entry field_scores =
     fst (hd (sort_key (\<lambda>(field, score). (- score, field_position (sf_name field)))
       (zip (im_fields entry) field_scores)))"

definition match_offset :: "string \<Rightarrow> string list \<Rightarrow> string \<Rightarrow> nat" where
  "match_offset normalized_query query_terms normalized =
     (case (if normalized_query \<noteq> [] then find_at normalized_query normalized else None) of
        Some offset \<Rightarrow> offset
      | None \<Rightarrow>
          (case List.map_filter (\<lambda>term. find_at term normalized) query_terms of
             [] \<Rightarrow> 0 | offset # offsets \<Rightarrow> foldl min offset offsets))"

definition best_snippet :: "indexed_memory \<Rightarrow> int list \<Rightarrow> string \<Rightarrow> string list \<Rightarrow> snippet option" where
  "best_snippet entry field_scores normalized_query query_terms =
     (let field = best_field entry field_scores; flat = join '' '' (words (sf_text field)) in
      if flat = [] then None
      else
        (let offset = int (match_offset normalized_query query_terms (normalize_text flat));
             first = max 0 (offset - max_snippet_chars div 3);
             end = min (plen flat) (first + max_snippet_chars);
             start = (if end - first < max_snippet_chars then max 0 (end - max_snippet_chars) else first)
         in Some \<lparr>sn_field = sf_name field, sn_cut_left = (start \<noteq> 0),
              sn_text = take (nat (end - start)) (drop (nat start) flat),
              sn_cut_right = (end < plen flat)\<rparr>))"

record ranked =
  rk_score :: int
  rk_field_scores :: "int list"
  rk_entry :: indexed_memory

definition rank_entry ::
  "string \<Rightarrow> string list \<Rightarrow> (string \<times> string \<times> string list) list \<Rightarrow> indexed_memory \<Rightarrow> ranked result" where
  "rank_entry normalized_query query_terms hints entry =
     (let field_scores = map (field_score normalized_query query_terms) (im_fields entry) in
      bindE (hint_score (im_metadata entry) hints) (\<lambda>hint.
        Inr \<lparr>rk_score = sum_list field_scores + hint, rk_field_scores = field_scores, rk_entry = entry\<rparr>))"

definition rank_key :: "ranked \<Rightarrow> int \<times> string" where
  "rank_key r = (- rk_score r, im_id (rk_entry r))"

definition matched_fields :: "ranked \<Rightarrow> field_name list" where
  "matched_fields r =
     map (\<lambda>(field, score). sf_name field)
       (filter (\<lambda>(field, score). 0 < score) (zip (im_fields (rk_entry r)) (rk_field_scores r)))"

definition search_result_of :: "string \<Rightarrow> string list \<Rightarrow> ranked \<Rightarrow> search_result" where
  "search_result_of normalized_query query_terms r =
     \<lparr>sr_id = im_id (rk_entry r), sr_score = rk_score r, sr_fields = matched_fields r,
      sr_snippet = best_snippet (rk_entry r) (rk_field_scores r) normalized_query query_terms,
      sr_metadata = thaw_dict (im_metadata (rk_entry r))\<rparr>"

definition search :: "indexed_memory list \<Rightarrow> pyval \<Rightarrow> pyval \<Rightarrow> pyval \<Rightarrow> search_result list result" where
  "search index query hints limit =
     bindE (validated_query query) (\<lambda>(normalized_query, query_terms).
     bindE (validated_hints hints) (\<lambda>normalized_hints.
     bindE (validated_limit limit) (\<lambda>result_limit.
     bindE (mapE (rank_entry normalized_query query_terms normalized_hints) index) (\<lambda>ranked.
       Inr (map (search_result_of normalized_query query_terms)
         (take (nat result_limit) (sort_key rank_key ranked)))))))"

section \<open>Reads\<close>

definition read_one ::
  "indexed_memory list \<Rightarrow> int \<Rightarrow> string \<Rightarrow> int \<times> read_result list \<Rightarrow> (int \<times> read_result list) result" where
  "read_one index character_budget memory_id = (\<lambda>(total, results).
     (case by_id index memory_id of
        None \<Rightarrow> Inl (OtherErr ''KeyError'')
      | Some entry \<Rightarrow>
          (let count = plen (im_markdown entry) in
           guardE (count \<le> max_memory_read_chars) RetrievalBudgetErr
           (guardE (total + count \<le> character_budget) RetrievalBudgetErr
           (Inr (total + count, results @ [\<lparr>rr_id = memory_id, rr_markdown = im_markdown entry,
              rr_count = count, rr_metadata = thaw_dict (im_metadata entry)\<rparr>]))))))"

definition read :: "indexed_memory list \<Rightarrow> pyval \<Rightarrow> pyval \<Rightarrow> pyval \<Rightarrow> read_result list result" where
  "read index requested_ids max_documents max_total_chars =
     bindE (validated_memory_ids requested_ids) (\<lambda>requested.
     bindE (validated_document_budget max_documents) (\<lambda>document_budget.
     bindE (validated_character_budget max_total_chars) (\<lambda>character_budget.
     guardE (plen requested \<le> document_budget) RetrievalBudgetErr
     (guardE (list_all (\<lambda>memory_id. by_id index memory_id \<noteq> None) requested) UnknownMemoryErr
     (bindE (foldE (read_one index character_budget) requested (0, [])) (\<lambda>(total, results). Inr results))))))"

definition auto_read_eligibility :: "indexed_memory list \<Rightarrow> pyval \<Rightarrow> pyval \<Rightarrow> auto_read result" where
  "auto_read_eligibility index max_documents max_total_chars =
     bindE (validated_document_budget max_documents) (\<lambda>document_budget.
     bindE (validated_character_budget max_total_chars) (\<lambda>character_budget.
       (let total = (\<Sum>entry \<leftarrow> index. plen (im_markdown entry));
            refused = (\<lambda>reason. \<lparr>ar_eligible = False, ar_ids = [], ar_total = total, ar_reason = reason\<rparr>)
        in Inr (if document_budget < plen (memory_ids index) then refused ''too_many_documents''
             else if list_ex (\<lambda>entry. max_memory_read_chars < plen (im_markdown entry)) index \<or>
                 character_budget < total then refused ''content_too_large''
             else \<lparr>ar_eligible = True, ar_ids = memory_ids index, ar_total = total,
                    ar_reason = ''eligible''\<rparr>))))"

definition auto_read_ids :: "indexed_memory list \<Rightarrow> pyval \<Rightarrow> pyval \<Rightarrow> string list result" where
  "auto_read_ids index max_documents max_total_chars =
     bindE (auto_read_eligibility index max_documents max_total_chars) (\<lambda>eligibility. Inr (ar_ids eligibility))"

section \<open>Building\<close>

lemma budget_between_Inr [result_simps]:
  "budget_between m v = Inr n \<longleftrightarrow> v = PInt n \<and> 1 \<le> n \<and> n \<le> m"
  by (auto simp: budget_between_def result_simps split: pyval.splits)

lemmas budget_defs = validated_limit_def validated_document_budget_def validated_character_budget_def
  validated_index_document_budget_def validated_index_character_budget_def

definition candidate_pairs :: "(string \<times> memory_document) list \<Rightarrow> (string \<times> memory_document) list" where
  "candidate_pairs supplied = filter (\<lambda>(k, d). is_execution_candidate d) supplied"

lemma fold_candidates:
  "foldE (add_candidate b) supplied (ids, chars) = Inr (ids', chars') \<Longrightarrow> distinct (map fst ids) \<Longrightarrow>
     ids' = ids @ candidate_pairs supplied \<and> (\<forall>(k, d) \<in> set supplied. k = doc_resolution_id d) \<and>
     distinct (map fst ids')"
proof (induction supplied arbitrary: ids chars)
  case (Cons p supplied)
  obtain k d where p: "p = (k, d)" by (cases p)
  from Cons.prems(1) obtain ids2 chars2 where step: "add_candidate b (k, d) (ids, chars) = Inr (ids2, chars2)"
    and rest: "foldE (add_candidate b) supplied (ids2, chars2) = Inr (ids', chars')"
    by (auto simp: p result_simps)
  from step have k: "k = doc_resolution_id d" "k \<notin> fst ` set ids"
    "ids2 = ids @ (if is_execution_candidate d then [(k, d)] else [])"
    by (auto simp: add_candidate_def Let_def result_simps split: if_splits)
  with Cons.prems(2) have "distinct (map fst ids2)" by auto
  from Cons.IH [OF rest this] have "ids' = ids2 @ candidate_pairs supplied"
    "\<forall>(k, d) \<in> set supplied. k = doc_resolution_id d" "distinct (map fst ids')" by blast+
  with k p show ?case by (auto simp: candidate_pairs_def)
qed (simp add: candidate_pairs_def)

lemma index_document_id: "index_document d = Inr entry \<Longrightarrow> im_id entry = doc_resolution_id d"
  by (auto simp: index_document_def Let_def result_simps)

lemma sort_key_fst_sorted: "sorted (map fst (sort_key fst xs))"
  by simp

text \<open>
  An index holds exactly the execution candidates among the documents it is given, each under its
  own identifier, in the order of the identifiers.
\<close>

lemma build_index_entries:
  assumes "build_index supplied max_documents max_chars = Inr index"
  shows "list_all2 (\<lambda>(k, d) entry. index_document d = Inr entry \<and> k = doc_resolution_id d)
      (sort_key fst (candidate_pairs supplied)) index"
    and "memory_ids index = map fst (sort_key fst (candidate_pairs supplied))"
    and "sorted (memory_ids index)" and "distinct (memory_ids index)"
proof -
  from assms obtain b ids chars where
    ids: "foldE (add_candidate b) supplied ([], 0) = Inr (ids, chars)" and
    built: "mapE (\<lambda>(k, d). index_document d) (sort_key fst ids) = Inr index"
    by (auto simp: build_index_def result_simps)
  from fold_candidates [OF ids] have pairs: "ids = candidate_pairs supplied"
    "\<forall>(k, d) \<in> set supplied. k = doc_resolution_id d" "distinct (map fst ids)" by auto
  from pairs(2) have "\<forall>(k, d) \<in> set (sort_key fst (candidate_pairs supplied)). k = doc_resolution_id d"
    by (auto simp: candidate_pairs_def)
  with built pairs(1) show entries: "list_all2 (\<lambda>(k, d) entry. index_document d = Inr entry \<and> k = doc_resolution_id d)
      (sort_key fst (candidate_pairs supplied)) index"
    by (auto simp: mapE_eq_Inr list_all2_conv_all_nth case_prod_unfold) (metis length_sort nth_mem set_sort)
  then show ids_eq: "memory_ids index = map fst (sort_key fst (candidate_pairs supplied))"
    by (auto simp: memory_ids_def list_all2_conv_all_nth case_prod_unfold index_document_id intro!: nth_equalityI)
  show "sorted (memory_ids index)" unfolding ids_eq by (rule sort_key_fst_sorted)
  have "distinct (map fst (sort_key fst (candidate_pairs supplied))) \<longleftrightarrow> distinct (map fst (candidate_pairs supplied))"
    by (simp add: distinct_map)
  with pairs(1,3) show "distinct (memory_ids index)" unfolding ids_eq by simp
qed

lemma by_id_entry:
  "distinct (memory_ids index) \<Longrightarrow> by_id index k = Some entry \<longleftrightarrow> entry \<in> set index \<and> im_id entry = k"
  unfolding by_id_def memory_ids_def
  by (subst map_of_eq_Some_iff) (auto simp: comp_def image_iff)

lemma by_id_known: "by_id index k \<noteq> None \<longleftrightarrow> k \<in> set (memory_ids index)"
  by (simp add: by_id_def memory_ids_def map_of_eq_None_iff image_image)

section \<open>Prose\<close>

text \<open>The text before the first structural heading has none that starts a complete line.\<close>

lemma first_section_take:
  "first_section b s = Some k \<Longrightarrow> structural_heading (drop k s) \<and> k \<le> length s \<and>
     (\<forall>j < k. (j = 0 \<and> b \<or> 0 < j \<and> s ! (j - 1) = lf) \<longrightarrow> \<not> structural_heading (drop j s)) \<and>
     (0 < k \<longrightarrow> s ! (k - 1) = lf) \<and> (k = 0 \<longrightarrow> b)"
proof (induction b s arbitrary: k rule: first_section.induct)
  case (2 b c cs)
  show ?case
  proof (cases "b \<and> structural_heading (c # cs)")
    case True
    with "2.prems" show ?thesis by auto
  next
    case False
    with "2.prems" obtain i where i: "k = Suc i" "first_section (c = lf) cs = Some i" by (auto split: if_splits)
    from "2.IH" [OF False i(2)] False i(1) show ?thesis
      by (auto simp: nth_Cons' less_Suc_eq_0_disj split: if_splits)
  qed
qed simp

lemma first_section_found:
  "structural_heading (drop j s) \<Longrightarrow> j = 0 \<and> b \<or> 0 < j \<and> j < length s \<and> s ! (j - 1) = lf \<Longrightarrow> first_section b s \<noteq> None"
proof (induction b s arbitrary: j rule: first_section.induct)
  case (1 b)
  then show ?case by (simp add: structural_heading_def Let_def)
next
  case (2 b c cs)
  show ?case
  proof (cases "b \<and> structural_heading (c # cs)")
    case False
    with "2.prems" obtain i where i: "j = Suc i" by (cases j) auto
    have "first_section (c = lf) cs \<noteq> None"
      by (rule "2.IH" [OF False, of i]) (use "2.prems" i False in \<open>auto simp: nth_Cons' split: if_splits\<close>)
    with False show ?thesis by simp
  qed simp
qed

lemma section_is_structural:
  assumes "find_section ''## Dispatched Actions'' s = Some block" "s = lf # body"
  shows "first_section True body \<noteq> None"
proof -
  have "\<exists>j. j < length s \<and> s ! j = lf \<and> prefix (section_open ''## Dispatched Actions'') (drop (Suc j) s)"
    using assms(1)
  proof (induction "''## Dispatched Actions''" s rule: find_section.induct)
    case (2 c cs)
    show ?case
    proof (cases "c = lf \<and> prefix (section_open ''## Dispatched Actions'') cs")
      case True
      then show ?thesis by (intro exI [of _ 0]) simp
    next
      case False
      with 2 obtain j where "j < length cs" "cs ! j = lf"
        "prefix (section_open ''## Dispatched Actions'') (drop (Suc j) cs)" by (auto split: if_splits)
      then show ?thesis by (intro exI [of _ "Suc j"]) simp
    qed
  qed simp
  then obtain j where j: "j < length s" "s ! j = lf" "prefix (section_open ''## Dispatched Actions'') (drop j body)"
    unfolding assms(2) by auto
  from j(3) obtain r where r: "drop j body = ''## Dispatched Actions'' @ [lf] @ fence @ ''json'' @ [lf] @ r"
    by (auto simp: section_open_def prefix_def)
  have tw: "takeWhile (\<lambda>c. c \<noteq> lf) (''Dispatched Actions'' @ [lf] @ x) = ''Dispatched Actions''" for x by simp
  have "casefold (strip ''Dispatched Actions'') = ''dispatched actions''" by code_simp
  then have "structural_heading (drop j body)"
    unfolding structural_heading_def Let_def r by simp
  moreover have "j = 0 \<or> 0 < j \<and> j < length body \<and> body ! (j - 1) = lf"
    using j(1,2) r unfolding assms(2) by (cases "j < length body") (auto simp: nth_Cons')
  ultimately show ?thesis by (intro first_section_found) auto
qed

lemma strip_parts:
  obtains u v where "s = u @ strip s @ v" "list_all is_space u" "list_all is_space v"
proof -
  have a: "s = takeWhile is_space s @ lstrip s" by (simp add: lstrip_def)
  have "rev (lstrip s) = takeWhile is_space (rev (lstrip s)) @ rev (strip s)"
    by (simp add: strip_def lstrip_def)
  then have b: "lstrip s = strip s @ rev (takeWhile is_space (rev (lstrip s)))"
    by (metis rev_append rev_rev_ident)
  show ?thesis
    by (rule that [of "takeWhile is_space s" "rev (takeWhile is_space (rev (lstrip s)))"])
      (use a b in \<open>auto simp: list_all_iff dest: set_takeWhileD\<close>)
qed

lemma strip_trailing: "list_all is_space v \<Longrightarrow> strip (x @ v) = strip x"
proof -
  assume v: "list_all is_space v"
  then have dv: "dropWhile is_space v = []" "dropWhile is_space (rev v @ y) = dropWhile is_space y" for y
    by (auto simp: dropWhile_eq_Nil_conv list_all_iff dropWhile_append)
  show ?thesis
  proof (cases "list_all is_space x")
    case True
    with v have "lstrip (x @ v) = []" "lstrip x = []"
      by (auto simp: lstrip_def dropWhile_eq_Nil_conv list_all_iff)
    then show ?thesis by (simp add: strip_def)
  next
    case False
    then have "lstrip (x @ v) = lstrip x @ v"
      by (auto simp: lstrip_def list_all_iff dropWhile_append1)
    with dv show ?thesis by (simp add: strip_def lstrip_def)
  qed
qed

lemma split_on_tl:
  "l \<in> set (tl (split_on c s)) \<Longrightarrow> \<exists>a b. s = a @ c # l @ b \<and> (b = [] \<or> hd b = c) \<and> c \<notin> set l"
proof (induction s)
  case (Cons x s)
  obtain h t where ht: "split_on c s = h # t" by (cases "split_on c s") auto
  have first: "\<exists>b. s = h @ b \<and> (b = [] \<or> hd b = c) \<and> c \<notin> set h"
  proof -
    have "s = join [c] (h # t)" using join_split_on [of c s] ht by simp
    moreover have "c \<notin> set h" using split_on_lines [of c s] ht by simp
    ultimately show ?thesis by (cases t) (auto simp: join_def)
  qed
  show ?case
  proof (cases "x = c \<and> l = h")
    case True
    moreover from first obtain b where "s = h @ b" "b = [] \<or> hd b = c" "c \<notin> set h" by blast
    ultimately show ?thesis by (intro exI [of _ "[]"] exI [of _ b]) simp
  next
    case False
    with Cons.prems ht have "l \<in> set (tl (split_on c s))" by (auto split: if_splits)
    from Cons.IH [OF this] obtain a b where "s = a @ c # l @ b" "b = [] \<or> hd b = c" "c \<notin> set l" by blast
    then show ?thesis by (intro exI [of _ "x # a"] exI [of _ b]) simp
  qed
qed simp

lemma is_space_lf [simp]: "is_space lf"
  by (simp add: is_space_def cpt_def)

text \<open>A line that is one of the structural headings.\<close>

definition structural_line :: "string \<Rightarrow> bool" where
  "structural_line l \<longleftrightarrow> prefix ''## '' l \<and> drop 3 l \<noteq> [] \<and>
     casefold (strip (drop 3 l)) \<in> set [''retrieval signature'', ''episode evidence'', ''dispatched actions'']"

lemma structural_line_heading:
  assumes "structural_line l" "lf \<notin> set l" "list_all is_space v" "lf \<notin> set v"
  shows "structural_heading (l @ v @ lf # r)"
proof -
  from assms(1) obtain h where l: "l = ''## '' @ h" "h \<noteq> []"
    "casefold (strip h) \<in> set [''retrieval signature'', ''episode evidence'', ''dispatched actions'']"
    by (auto simp: structural_line_def prefix_def)
  have "takeWhile (\<lambda>c. c \<noteq> lf) (h @ v @ lf # r) = h @ v"
    using assms(2,4) l(1) by (subst append_assoc [symmetric], subst takeWhile_append2) auto
  moreover have "drop 3 (l @ v @ lf # r) = h @ v @ lf # r" by (simp add: l(1))
  moreover have "prefix ''## '' (l @ v @ lf # r)" by (simp add: l(1))
  ultimately show ?thesis
    using l(2,3) strip_trailing [OF assms(3), of h] unfolding structural_heading_def Let_def by simp
qed

text \<open>
  The prose of a body with a structural heading has no structural line, unless its first line is
  indented.
\<close>

lemma split_on_line:
  assumes "l \<in> set (split_on c s)"
  obtains p b where "s = p @ l @ b" "b = [] \<or> hd b = c" "c \<notin> set l" "p = [] \<or> last p = c"
proof (cases "l \<in> set (tl (split_on c s))")
  case True
  from split_on_tl [OF this] obtain a b where "s = a @ c # l @ b" "b = [] \<or> hd b = c" "c \<notin> set l" by blast
  then show ?thesis by (intro that [of "a @ [c]" b]) simp_all
next
  case False
  with assms obtain ts where ts: "split_on c s = l # ts" by (cases "split_on c s") auto
  have "s = join [c] (l # ts)" using join_split_on [of c s] ts by simp
  moreover have "c \<notin> set l" using ts split_on_lines [of c s] by simp
  ultimately show ?thesis
    by (intro that [of "[]" "concat (map ((@) [c]) ts)"]) (cases ts; simp add: join_def)+
qed

text \<open>A line of a stripped text that ends with a line feed, seen in the text itself.\<close>

lemma stripped_line:
  assumes "l \<in> set (split_on lf (strip t))" "strip t \<noteq> []" "t \<noteq> []" "last t = lf"
  obtains j w r where "drop j t = l @ w @ lf # r" "list_all is_space w" "lf \<notin> set w" "lf \<notin> set l"
    "0 < j \<and> t ! (j - 1) = lf \<or> j = length (takeWhile is_space t)"
proof -
  from strip_parts [of t] obtain u v where uv: "t = u @ strip t @ v" "list_all is_space u" "list_all is_space v"
    by blast
  have edge: "\<not> is_space (hd (strip t))" "\<not> is_space (last (strip t))"
    using strip_ends [of "strip t"] assms(2) by simp_all
  have "v \<noteq> []" using edge(2) assms(4) uv(1) by (metis append_Nil2 assms(2) is_space_lf last_appendR)
  with uv(1) assms(4) have "lf \<in> set v" by (metis append_is_Nil_conv last_appendR last_in_set)
  then obtain v1 v2 where v: "v = v1 @ lf # v2" "lf \<notin> set v1" by (meson split_list_first)
  from split_on_line [OF assms(1)] obtain p b where
    pb: "strip t = p @ l @ b" "b = [] \<or> hd b = lf" "lf \<notin> set l" "p = [] \<or> last p = lf" by blast
  have "\<exists>w r. b @ v = w @ lf # r \<and> list_all is_space w \<and> lf \<notin> set w"
  proof (cases b)
    case Nil
    then show ?thesis using v uv(3) by (intro exI [of _ v1] exI [of _ v2]) simp
  next
    case (Cons c cs)
    with pb(2) show ?thesis by (intro exI [of _ "[]"] exI [of _ "cs @ v"]) simp
  qed
  then obtain w r where wr: "b @ v = w @ lf # r" "list_all is_space w" "lf \<notin> set w" by blast
  define j where "j = length (u @ p)"
  have t: "t = u @ p @ l @ b @ v" using uv(1) pb(1) by (metis append_assoc)
  then have "drop j t = l @ w @ lf # r" using wr(1) by (simp add: j_def)
  moreover have "0 < j \<and> t ! (j - 1) = lf \<or> j = length (takeWhile is_space t)"
  proof (cases "p = []")
    case True
    have "takeWhile is_space t = u"
      using uv(1,2) edge(1) assms(2) by (cases "strip t") (auto simp: takeWhile_append2 list_all_iff)
    with True show ?thesis by (simp add: j_def)
  next
    case False
    then have "(u @ p @ x) ! (length u + length p - 1) = last p" for x
      by (cases p rule: rev_cases) (simp_all add: nth_append)
    with False pb(4) t show ?thesis unfolding j_def by (metis add_gr_0 length_append length_greater_0_conv)
  qed
  ultimately show ?thesis using that wr(2,3) pb(3) by blast
qed

lemma flush_start:
  assumes "dropWhile (\<lambda>c. c = lf) s = lstrip s" "j = length (takeWhile is_space s)" "0 < j"
  shows "s ! (j - 1) = lf"
proof -
  have "length (takeWhile is_space s) = length (takeWhile (\<lambda>c. c = lf) s)"
    using arg_cong [OF assms(1), of length] takeWhile_dropWhile_id [of is_space s]
      takeWhile_dropWhile_id [of "\<lambda>c. c = lf" s] by (metis add_right_cancel length_append lstrip_def)
  with assms(2,3) show ?thesis by (metis (mono_tags, lifting) One_nat_def diff_less lessI nth_mem
    set_takeWhileD takeWhile_nth)
qed

lemma prose_lines_plain:
  assumes found: "first_section True body = Some k"
    and flush: "dropWhile (\<lambda>c. c = lf) body = lstrip body"
    and l: "l \<in> set (split_on lf (generalized_prose body))"
  shows "\<not> structural_line l"
proof
  assume bad: "structural_line l"
  define t where "t = take k body"
  note facts = first_section_take [OF found]
  have prose: "generalized_prose body = strip t" by (simp add: generalized_prose_def found t_def)
  have "l \<noteq> []" using bad by (auto simp: structural_line_def)
  with l prose have ne: "strip t \<noteq> []" by (cases "strip t") auto
  then have "0 < k" by (cases k) (auto simp: t_def)
  have len: "length t = k" using facts by (simp add: t_def)
  with \<open>0 < k\<close> have "t \<noteq> []" by auto
  with len \<open>0 < k\<close> facts have "last t = lf" by (simp add: last_conv_nth) (simp add: t_def)
  from stripped_line [OF _ ne \<open>t \<noteq> []\<close> this] l prose obtain j w r where
    j: "drop j t = l @ w @ lf # r" "list_all is_space w" "lf \<notin> set w" "lf \<notin> set l"
      "0 < j \<and> t ! (j - 1) = lf \<or> j = length (takeWhile is_space t)" by metis
  have "j < k" using len j(1) by (metis append_is_Nil_conv drop_eq_Nil list.distinct(1) not_le)
  have body: "body = t @ drop k body" by (simp add: t_def)
  then have "drop j body = drop j t @ drop k body" using \<open>j < k\<close> len
    by (metis diff_is_0_eq drop_0 drop_append less_imp_le_nat)
  with structural_line_heading [OF bad j(4,2,3)] j(1) have "structural_heading (drop j body)" by simp
  moreover have "j = 0 \<or> body ! (j - 1) = lf"
  proof (cases "j = 0 \<or> t ! (j - 1) = lf")
    case False
    with j(5) have "j = length (takeWhile is_space t)" by simp
    moreover have "takeWhile is_space body = takeWhile is_space t"
      using body \<open>j < k\<close> len calculation takeWhile_eq_all_conv by (metis nat_neq_iff takeWhile_append)
    ultimately show ?thesis using flush_start [OF flush, of j] by auto
  qed (use \<open>j < k\<close> in \<open>auto simp: t_def\<close>)
  ultimately show False using facts \<open>j < k\<close> by (cases "j = 0") auto
qed

section \<open>The Markdown\<close>

lemma split_on_join: "xs \<noteq> [] \<Longrightarrow> split_on c (join [c] xs) = concat (map (split_on c) xs)"
proof (induction xs)
  case (Cons x xs)
  show ?case
  proof (cases xs)
    case (Cons y ys)
    then have "join [c] (x # xs) = x @ c # join [c] xs" by (simp add: join_def)
    then show ?thesis using Cons.IH Cons by (simp add: split_on_append)
  qed (simp add: join_def)
qed simp

lemma plain_not_structural: "plain_text s \<Longrightarrow> l \<in> set (split_on lf s) \<Longrightarrow> \<not> structural_line l"
  by (auto simp: plain_text_def plain_line_def structural_line_def list_all_iff prefix_def)

lemma pretty_text_plain: "pretty_text v = Inr s \<Longrightarrow> plain_text s"
  by (auto simp: pretty_text_def dumps_pretty_def result_simps json_pretty_plain)

lemma fixed_lines:
  "\<not> structural_line ''# Recovery memory''" "\<not> structural_line []"
  "\<not> structural_line ''## Retrieval Metadata''" "\<not> structural_line ''## Generalized Memory''"
  "\<not> structural_line (fence @ ''json'')" "\<not> structural_line fence"
  by code_simp+

lemma single_line: "lf \<notin> set s \<Longrightarrow> split_on lf s = [s]"
  by (rule split_on_no_sep)

lemma fenced_lines:
  "plain_text s \<Longrightarrow> l \<in> set (concat (map (split_on lf) (fenced s))) \<Longrightarrow> \<not> structural_line l"
  using fixed_lines plain_not_structural [of s l]
  by (auto simp: fenced_def fence_def single_line)

lemma markdown_structure:
  assumes md: "retrieval_markdown metadata prose signature evidence = Inr markdown"
    and prose: "\<And>l. l \<in> set (split_on lf prose) \<Longrightarrow> \<not> structural_line l"
    and l: "l \<in> set (split_on lf markdown)" "structural_line l"
  shows "l = ''## Retrieval Signature'' \<or> l = ''## Episode Evidence''"
proof -
  from md obtain mj sj ej where parts: "pretty_text metadata = Inr mj" "pretty_text signature = Inr sj"
    "pretty_text evidence = Inr ej" and m: "markdown = join [lf]
         ([''# Recovery memory'', [], ''## Retrieval Metadata''] @ fenced mj @
          (if prose \<noteq> [] then [[], ''## Generalized Memory'', prose] else []) @
          [[], ''## Retrieval Signature''] @ fenced sj @ [[], ''## Episode Evidence''] @ fenced ej @ [[]])"
    by (auto simp: retrieval_markdown_def result_simps)
  note plain = parts [THEN pretty_text_plain]
  have "l \<in> set (concat (map (split_on lf) (fenced mj @ fenced sj @ fenced ej))) \<or>
      l \<in> set (split_on lf prose) \<or> l \<in> {''# Recovery memory'', [], ''## Retrieval Metadata'',
        ''## Generalized Memory'', ''## Retrieval Signature'', ''## Episode Evidence''}"
    using l(1) unfolding m by (subst (asm) split_on_join) (auto simp: single_line split: if_splits)
  moreover have "l \<notin> set (concat (map (split_on lf) (fenced mj @ fenced sj @ fenced ej)))"
    unfolding map_append concat_append set_append Un_iff de_Morgan_disj
    using fenced_lines [OF plain(1)] fenced_lines [OF plain(2)] fenced_lines [OF plain(3)] l(2) by blast
  ultimately show ?thesis using prose l(2) fixed_lines by blast
qed

lemma entry_markdown:
  assumes "index_document d = Inr entry" and "first_section True (doc_body d) = Some k"
    and "dropWhile (\<lambda>c. c = lf) (doc_body d) = lstrip (doc_body d)"
    and "l \<in> set (split_on lf (im_markdown entry))" "structural_line l"
  shows "l = ''## Retrieval Signature'' \<or> l = ''## Episode Evidence''"
proof -
  from assms(1) have "retrieval_markdown (freeze (PDict (doc_frontmatter d))) (generalized_prose (doc_body d))
      (freeze (or_empty (doc_signature d))) (freeze (or_empty (doc_evidence d))) = Inr (im_markdown entry)"
    by (auto simp: index_document_def Let_def result_simps)
  from markdown_structure [OF this _ assms(4,5)] prose_lines_plain [OF assms(2,3)] show ?thesis by blast
qed

section \<open>Ranking\<close>

text \<open>The first elements of a list sorted by a key are its best.\<close>

lemma sorted_drop_take:
  "sorted xs \<Longrightarrow> a \<in> set (take k xs) \<Longrightarrow> b \<in> set (drop k xs) \<Longrightarrow> a \<le> b"
  by (metis append_take_drop_id sorted_append)

lemma best_first:
  fixes f :: "'a \<Rightarrow> 'b::linorder"
  assumes "inj_on f (set xs)" "distinct xs" "y \<in> set xs" "y \<notin> set (take k (sort_key f xs))"
    "r \<in> set (take k (sort_key f xs))"
  shows "f r < f y"
proof -
  let ?ys = "sort_key f xs"
  have "y \<in> set (drop k ?ys)"
    using assms(3,4) by (metis UnE append_take_drop_id set_append set_sort)
  with assms(5) have "f r \<le> f y"
    using sorted_drop_take [of "map f ?ys" "f r" k "f y"] by (simp add: take_map drop_map)
  moreover have "r \<in> set xs" using assms(5) by (metis in_set_takeD set_sort)
  then have "f r \<noteq> f y" using assms(1,3,4,5) by (metis inj_onD)
  ultimately show ?thesis by simp
qed

lemma rank_entry_facts:
  "rank_entry nq qt hints entry = Inr r \<Longrightarrow> rk_entry r = entry \<and>
     rk_field_scores r = map (field_score nq qt) (im_fields entry)"
  by (auto simp: rank_entry_def Let_def result_simps)

lemma ranked_entries:
  "mapE (rank_entry nq qt hints) index = Inr rs \<Longrightarrow> map rk_entry rs = index"
  by (auto simp: mapE_eq_Inr list_all2_conv_all_nth rank_entry_facts intro!: nth_equalityI)

lemma rank_key_inj:
  "distinct (memory_ids (map rk_entry rs)) \<Longrightarrow> inj_on rank_key (set rs) \<and> distinct rs"
  unfolding memory_ids_def map_map
  by (auto simp: distinct_map inj_on_def rank_key_def)

lemma count_term_update: "count_term (AList.update t n counts) u = (if u = t then n else count_term counts u)"
  by (simp add: count_term_def update_conv')

text \<open>The counts of a field are the occurrences of a term among the tokens of its text.\<close>

lemma search_field_counts:
  "count_term (sf_counts (build_search_field name text)) term =
     plen (filter (\<lambda>t. t = term) (tokens (normalize_text text)))"
proof -
  have "count_term (foldl (\<lambda>counts t. AList.update t (count_term counts t + 1) counts) counts ts) term =
      count_term counts term + plen (filter (\<lambda>t. t = term) ts)" for counts ts
    by (induction ts arbitrary: counts) (auto simp: count_term_update plen_def)
  moreover have "count_term [] term = 0" by (simp add: count_term_def)
  ultimately show ?thesis unfolding build_search_field_def Let_def by simp
qed

section \<open>Bounds of a read\<close>

lemma foldE_read_known:
  assumes "list_all (\<lambda>k. by_id index k \<noteq> None) ids"
  shows "foldE (read_one index budget) ids (seen_chars, rs) =
    (let counts = map (\<lambda>k. plen (im_markdown (the (by_id index k)))) ids in
     guardE (list_all (\<lambda>n. n \<le> max_memory_read_chars) counts \<and> (ids \<noteq> [] \<longrightarrow> seen_chars + sum_list counts \<le> budget))
       RetrievalBudgetErr
       (Inr (seen_chars + sum_list counts, rs @ map (\<lambda>k. let entry = the (by_id index k) in
          \<lparr>rr_id = k, rr_markdown = im_markdown entry, rr_count = plen (im_markdown entry),
           rr_metadata = thaw_dict (im_metadata entry)\<rparr>) ids)))"
  using assms
proof (induction ids arbitrary: seen_chars rs)
  case (Cons k ids)
  then obtain entry where e: "by_id index k = Some entry" by auto
  have nonneg: "0 \<le> sum_list (map (\<lambda>k. plen (im_markdown (the (by_id index k)))) ids)"
    by (intro sum_list_nonneg) (auto simp: plen_def)
  show ?case
  proof (cases "plen (im_markdown entry) \<le> max_memory_read_chars \<and> seen_chars + plen (im_markdown entry) \<le> budget")
    case True
    then have "read_one index budget k (seen_chars, rs) = Inr (seen_chars + plen (im_markdown entry),
        rs @ [\<lparr>rr_id = k, rr_markdown = im_markdown entry, rr_count = plen (im_markdown entry),
           rr_metadata = thaw_dict (im_metadata entry)\<rparr>])"
      by (simp add: read_one_def e Let_def)
    moreover have "list_all (\<lambda>k. by_id index k \<noteq> None) ids" using Cons.prems by simp
    ultimately show ?thesis using Cons.IH True e by (cases ids) (simp_all add: Let_def algebra_simps)
  next
    case False
    then have "read_one index budget k (seen_chars, rs) = Inl RetrievalBudgetErr"
      by (auto simp: read_one_def e Let_def guardE_def)
    moreover have "\<not> (plen (im_markdown entry) \<le> max_memory_read_chars \<and>
        seen_chars + (plen (im_markdown entry) + sum_list (map (\<lambda>k. plen (im_markdown (the (by_id index k)))) ids)) \<le> budget)"
      using False nonneg by linarith
    ultimately show ?thesis using e by (auto simp: Let_def guardE_def)
  qed
qed simp

lemma build_index_documents:
  assumes "build_index supplied max_documents max_chars = Inr index"
  shows "(k, d) \<in> set supplied \<Longrightarrow> k = doc_resolution_id d"
    and "entry \<in> set index \<Longrightarrow> \<exists>k d. (k, d) \<in> set supplied \<and> is_execution_candidate d \<and>
      index_document d = Inr entry \<and> im_id entry = k"
    and "set (memory_ids index) = {doc_resolution_id d | k d. (k, d) \<in> set supplied \<and> is_execution_candidate d}"
proof -
  from assms obtain b ids chars where "foldE (add_candidate b) supplied ([], 0) = Inr (ids, chars)"
    by (auto simp: build_index_def result_simps)
  then show keys: "(k, d) \<in> set supplied \<Longrightarrow> k = doc_resolution_id d" for k d
    using fold_candidates by fastforce
  show "\<exists>k d. (k, d) \<in> set supplied \<and> is_execution_candidate d \<and> index_document d = Inr entry \<and> im_id entry = k"
    if "entry \<in> set index"
    using list_all2_mem2 [OF build_index_entries(1) [OF assms] that]
    by (auto simp: candidate_pairs_def index_document_id)
  show "set (memory_ids index) = {doc_resolution_id d | k d. (k, d) \<in> set supplied \<and> is_execution_candidate d}"
    unfolding build_index_entries(2) [OF assms] using keys
    by (auto simp: candidate_pairs_def image_iff) (metis fst_conv)+
qed

lemma actions_section_boundary:
  assumes "actions_section body = Inr actions" obtains k where "first_section True body = Some k"
proof -
  obtain block where "find_section ''## Dispatched Actions'' (lf # body) = Some block"
    using assms by (auto simp: actions_section_def section_text_def split: option.splits)
  from section_is_structural [OF this refl] that show ?thesis by blast
qed

section \<open>Successful operations\<close>

lemma search_parts:
  assumes "search index query hints limit = Inr rs"
  obtains nq qt hs n ranked where "validated_query query = Inr (nq, qt)" "validated_hints hints = Inr hs"
    "limit = PInt n" "1 \<le> n" "n \<le> max_search_results"
    "mapE (rank_entry nq qt hs) index = Inr ranked"
    "rs = map (search_result_of nq qt) (take (nat n) (sort_key rank_key ranked))"
  using assms by (auto simp: search_def budget_defs result_simps)

definition read_of :: "indexed_memory list \<Rightarrow> string \<Rightarrow> read_result" where
  "read_of index k = (let entry = the (by_id index k) in
     \<lparr>rr_id = k, rr_markdown = im_markdown entry, rr_count = plen (im_markdown entry),
      rr_metadata = thaw_dict (im_metadata entry)\<rparr>)"

lemma foldE_read:
  assumes "list_all (\<lambda>k. by_id index k \<noteq> None) ids"
  shows "foldE (read_one index budget) ids (n, rs) =
    guardE (list_all (\<lambda>k. rr_count (read_of index k) \<le> max_memory_read_chars) ids \<and>
        (ids \<noteq> [] \<longrightarrow> n + (\<Sum>k \<leftarrow> ids. rr_count (read_of index k)) \<le> budget))
      RetrievalBudgetErr
      (Inr (n + (\<Sum>k \<leftarrow> ids. rr_count (read_of index k)), rs @ map (read_of index) ids))"
  using foldE_read_known [OF assms, of budget n rs]
  by (simp add: read_of_def Let_def list_all_iff cong: map_cong)

lemma read_Inr_iff:
  "read index requested max_documents max_chars = Inr rs \<longleftrightarrow>
    (\<exists>ids db cb. validated_memory_ids requested = Inr ids \<and> max_documents = PInt db \<and> 1 \<le> db \<and>
       db \<le> max_read_documents \<and> max_chars = PInt cb \<and> 1 \<le> cb \<and> cb \<le> max_total_read_chars \<and>
       plen ids \<le> db \<and> set ids \<subseteq> set (memory_ids index) \<and>
       (\<forall>k \<in> set ids. rr_count (read_of index k) \<le> max_memory_read_chars) \<and>
       (\<Sum>k \<leftarrow> ids. rr_count (read_of index k)) \<le> cb \<and> rs = map (read_of index) ids)"
  (is "?l \<longleftrightarrow> ?r")
proof
  assume ?l
  then obtain ids db cb n where parts: "validated_memory_ids requested = Inr ids" "max_documents = PInt db"
    "1 \<le> db" "db \<le> max_read_documents" "max_chars = PInt cb" "1 \<le> cb" "cb \<le> max_total_read_chars"
    "plen ids \<le> db" "list_all (\<lambda>k. by_id index k \<noteq> None) ids"
    "foldE (read_one index cb) ids (0, []) = Inr (n, rs)"
    by (auto simp: read_def budget_defs result_simps)
  from parts(10) [unfolded foldE_read [OF parts(9)]] parts(6)
  have "list_all (\<lambda>k. rr_count (read_of index k) \<le> max_memory_read_chars) ids"
    "(\<Sum>k \<leftarrow> ids. rr_count (read_of index k)) \<le> cb" "rs = map (read_of index) ids"
    by (auto simp: result_simps)
  moreover have "set ids \<subseteq> set (memory_ids index)"
    using parts(9) unfolding by_id_known by (auto simp: list_all_iff)
  ultimately show ?r using parts(1-8) by (auto simp: list_all_iff)
next
  assume ?r
  then obtain ids db cb where parts: "validated_memory_ids requested = Inr ids" "max_documents = PInt db"
    "1 \<le> db" "db \<le> max_read_documents" "max_chars = PInt cb" "1 \<le> cb" "cb \<le> max_total_read_chars"
    "plen ids \<le> db" "set ids \<subseteq> set (memory_ids index)"
    "\<forall>k \<in> set ids. rr_count (read_of index k) \<le> max_memory_read_chars"
    "(\<Sum>k \<leftarrow> ids. rr_count (read_of index k)) \<le> cb" "rs = map (read_of index) ids" by blast
  then have known: "list_all (\<lambda>k. by_id index k \<noteq> None) ids"
    unfolding by_id_known by (auto simp: list_all_iff)
  with parts show ?l
    by (simp add: read_def budget_defs result_simps foldE_read list_all_iff guardE_def)
qed

lemma validated_ids_canonical:
  "list_all (\<lambda>k. strip k = k \<and> k \<noteq> []) ks \<Longrightarrow> distinct ks \<Longrightarrow> set ks \<inter> set seen = {} \<Longrightarrow>
   validated_ids seen (map PStr ks) = Inr (rev seen @ ks)"
  by (induction ks arbitrary: seen) auto

lemma validated_ids_props:
  "validated_ids seen vs = Inr ids \<Longrightarrow> distinct seen \<Longrightarrow> distinct ids \<and> (\<exists>ks. ids = rev seen @ ks \<and>
     list_all2 (\<lambda>v k. \<exists>s. v = PStr s \<and> k = strip s \<and> k \<noteq> []) vs ks)"
proof (induction seen vs arbitrary: ids rule: validated_ids.induct)
  case (2 seen v vs)
  then obtain s where s: "v = PStr s" "strip s \<noteq> []" "strip s \<notin> set seen"
    "validated_ids (strip s # seen) vs = Inr ids" by (auto simp: result_simps split: pyval.splits)
  from "2.IH" [OF s(1-4)] s(3) "2.prems"(2) obtain ks where "distinct ids" "ids = rev seen @ strip s # ks"
    "list_all2 (\<lambda>v k. \<exists>s. v = PStr s \<and> k = strip s \<and> k \<noteq> []) vs ks" by auto
  with s(1,2) show ?case by auto
qed simp

lemma read_of_entry:
  "distinct (memory_ids index) \<Longrightarrow> entry \<in> set index \<Longrightarrow>
   read_of index (im_id entry) = \<lparr>rr_id = im_id entry, rr_markdown = im_markdown entry,
      rr_count = plen (im_markdown entry), rr_metadata = thaw_dict (im_metadata entry)\<rparr>"
  using by_id_entry [of index "im_id entry" entry] by (simp add: read_of_def)

lemma auto_read_parts:
  assumes "auto_read_eligibility index max_documents max_chars = Inr auto" "ar_eligible auto"
  obtains db cb where "max_documents = PInt db" "1 \<le> db" "db \<le> max_read_documents"
    "max_chars = PInt cb" "1 \<le> cb" "cb \<le> max_total_read_chars" "ar_ids auto = memory_ids index"
    "plen index \<le> db" "(\<Sum>entry \<leftarrow> index. plen (im_markdown entry)) \<le> cb"
    "list_all (\<lambda>entry. plen (im_markdown entry) \<le> max_memory_read_chars) index"
  using assms
  by (auto simp: auto_read_eligibility_def budget_defs result_simps Let_def memory_ids_def plen_def
      list_all_iff list_ex_iff not_less split: if_splits)

lemma auto_read_succeeds:
  assumes "auto_read_eligibility index max_documents max_chars = Inr auto" "ar_eligible auto"
    and "distinct (memory_ids index)" "list_all (\<lambda>k. strip k = k \<and> k \<noteq> []) (memory_ids index)"
  shows "read index (PTuple (map PStr (ar_ids auto))) max_documents max_chars =
    Inr (map (read_of index) (memory_ids index))"
proof -
  obtain db cb where p: "max_documents = PInt db" "1 \<le> db" "db \<le> max_read_documents"
    "max_chars = PInt cb" "1 \<le> cb" "cb \<le> max_total_read_chars" "ar_ids auto = memory_ids index"
    "plen index \<le> db" "(\<Sum>entry \<leftarrow> index. plen (im_markdown entry)) \<le> cb"
    "list_all (\<lambda>entry. plen (im_markdown entry) \<le> max_memory_read_chars) index"
    by (rule auto_read_parts [OF assms(1,2)])
  have "validated_memory_ids (PTuple (map PStr (ar_ids auto))) = Inr (memory_ids index)"
    using validated_ids_canonical [OF assms(4,3), of "[]"] p(7) by (simp add: validated_memory_ids_def)
  moreover have "map (\<lambda>k. rr_count (read_of index k)) (memory_ids index) = map (\<lambda>entry. plen (im_markdown entry)) index"
    using read_of_entry [OF assms(3)] by (simp add: memory_ids_def)
  moreover have "plen (memory_ids index) = plen index" by (simp add: memory_ids_def plen_def)
  moreover have "\<forall>k \<in> set (memory_ids index). rr_count (read_of index k) \<le> max_memory_read_chars"
    using p(10) read_of_entry [OF assms(3)] by (auto simp: memory_ids_def list_all_iff)
  ultimately show ?thesis using p(1-6,8,9) unfolding read_Inr_iff by (metis order_refl)
qed

lemma mapE_map: "mapE f xs = Inr ys \<Longrightarrow> (\<And>x. x \<in> set xs \<Longrightarrow> f x = Inr (g x)) \<Longrightarrow> ys = map g xs"
  by (induction xs arbitrary: ys) (auto simp: bindE_eq_Inr)

end
