(* ===== verification/Retrieval_Properties.thy ===== *)
theory Retrieval_Properties
  imports Retrieval
begin

text \<open>
  The properties of memory retrieval: what an index holds and shows, that a search returns the
  best entries, and when reads succeed.
\<close>

section \<open>A concrete index\<close>

definition demo_body :: string where
  "demo_body = join [lf] ([[], ''# Resolution Memory'', ''## Lessons'', ''> open it''] @
     json_block ''## Retrieval Signature'' ''null'' @ json_block ''## Dispatched Actions'' ''[]'' @ [[]])"

definition demo_document :: "string \<Rightarrow> string \<Rightarrow> memory_document" where
  "demo_document memory_id area =
     \<lparr>doc_stem = memory_id, doc_frontmatter = [(''resolution_id'', PStr memory_id),
        (''memory_kind'', PStr ''positive''), (''actionable'', PBool True), (''outcome'', PStr ''resolved''),
        (''applied'', PBool True), (''area_name'', PStr area)],
      doc_actions = [PDict [(''command'', PStr ''open_gripper'')]], doc_body = demo_body,
      doc_evidence = None, doc_signature = None\<rparr>"

definition demo_supplied :: "(string \<times> memory_document) list" where
  "demo_supplied = [(''m2'', demo_document ''m2'' ''dock''), (''m1'', demo_document ''m1'' ''lift''),
     (''m0'', (demo_document ''m0'' ''dock'')\<lparr>doc_actions := []\<rparr>)]"

definition demo_index :: "indexed_memory list" where
  "demo_index = (case build_index demo_supplied (PInt 10) (PInt 10000) of Inr index \<Rightarrow> index | Inl _ \<Rightarrow> [])"

lemma demo_index_facts: "build_index demo_supplied (PInt 10) (PInt 10000) = Inr demo_index \<and> memory_ids demo_index = [''m1'', ''m2'']"
proof -
  have "(case build_index demo_supplied (PInt 10) (PInt 10000) of Inr index \<Rightarrow> memory_ids index = [''m1'', ''m2''] | Inl _ \<Rightarrow> False)"
    by code_simp
  then show ?thesis by (auto simp: demo_index_def split: sum.splits)
qed

lemmas demo_index_built = demo_index_facts [THEN conjunct1] and demo_index_ids = demo_index_facts [THEN conjunct2]

text \<open>
  C24. An index holds exactly the execution candidates among the documents it is given, sorted by
  their unique identifiers, and hides what they would execute: in the Markdown of an entry, the
  only lines that are structural headings are the two the index writes itself, so there is no
  section of dispatched actions. The body of the document must have such a section and must not
  begin with an indented line.
\<close>

theorem index_hides_actions:
  assumes "build_index supplied max_documents max_chars = Inr index"
  shows "sorted (memory_ids index) \<and> distinct (memory_ids index) \<and>
    set (memory_ids index) = {doc_resolution_id d | k d. (k, d) \<in> set supplied \<and> is_execution_candidate d} \<and>
    (\<forall>entry \<in> set index. \<exists>d. (im_id entry, d) \<in> set supplied \<and> is_execution_candidate d \<and>
      index_document d = Inr entry \<and>
      ((\<exists>actions. actions_section (doc_body d) = Inr actions) \<longrightarrow>
       dropWhile (\<lambda>c. c = lf) (doc_body d) = lstrip (doc_body d) \<longrightarrow>
       (\<forall>l \<in> set (split_on lf (im_markdown entry)). structural_line l \<longrightarrow>
          l = ''## Retrieval Signature'' \<or> l = ''## Episode Evidence'')))"
proof (intro conjI ballI)
  fix entry
  assume "entry \<in> set index"
  from build_index_documents(2) [OF assms this] obtain d where
    d: "(im_id entry, d) \<in> set supplied" "is_execution_candidate d" "index_document d = Inr entry" by blast
  moreover have "l = ''## Retrieval Signature'' \<or> l = ''## Episode Evidence''"
    if "actions_section (doc_body d) = Inr actions" "dropWhile (\<lambda>c. c = lf) (doc_body d) = lstrip (doc_body d)"
      "l \<in> set (split_on lf (im_markdown entry))" "structural_line l" for actions l
    using actions_section_boundary [OF that(1)] entry_markdown [OF d(3) _ that(2-4)] by blast
  ultimately show "\<exists>d. (im_id entry, d) \<in> set supplied \<and> is_execution_candidate d \<and>
      index_document d = Inr entry \<and>
      ((\<exists>actions. actions_section (doc_body d) = Inr actions) \<longrightarrow>
       dropWhile (\<lambda>c. c = lf) (doc_body d) = lstrip (doc_body d) \<longrightarrow>
       (\<forall>l \<in> set (split_on lf (im_markdown entry)). structural_line l \<longrightarrow>
          l = ''## Retrieval Signature'' \<or> l = ''## Episode Evidence''))" by blast
qed (use build_index_entries(3,4) [OF assms] build_index_documents(3) [OF assms] in simp_all)

lemma index_hides_actions_witness:
  "\<exists>entry d. entry \<in> set demo_index \<and> index_document d = Inr entry \<and>
    (\<exists>actions. actions_section (doc_body d) = Inr actions) \<and>
    (\<forall>l \<in> set (split_on lf (im_markdown entry)). structural_line l \<longrightarrow>
       l = ''## Retrieval Signature'' \<or> l = ''## Episode Evidence'')"
proof -
  have "demo_index \<noteq> []" using demo_index_ids by (auto simp: memory_ids_def)
  then obtain entry where e: "entry \<in> set demo_index" using hd_in_set by blast
  note all = index_hides_actions [OF demo_index_built]
  with e obtain d where d: "(im_id entry, d) \<in> set demo_supplied" "index_document d = Inr entry"
    "(\<exists>actions. actions_section (doc_body d) = Inr actions) \<longrightarrow>
       dropWhile (\<lambda>c. c = lf) (doc_body d) = lstrip (doc_body d) \<longrightarrow>
       (\<forall>l \<in> set (split_on lf (im_markdown entry)). structural_line l \<longrightarrow>
          l = ''## Retrieval Signature'' \<or> l = ''## Episode Evidence'')" by blast
  from d(1) have "doc_body d = demo_body" by (auto simp: demo_supplied_def demo_document_def)
  moreover have "actions_section demo_body = Inr []" by code_simp
  moreover have "dropWhile (\<lambda>c. c = lf) demo_body = lstrip demo_body" by code_simp
  ultimately show ?thesis using e d(2,3) by metis
qed

section \<open>Search\<close>

text \<open>
  C25. A search returns the best entries: as many as its limit and the index allow, in the order of
  falling scores with ties broken by the identifier, each with the score of its entry, and every
  entry that is left out ranks behind every one that is returned.
\<close>

theorem search_returns_the_best:
  assumes "search index query hints limit = Inr rs" and "distinct (memory_ids index)"
  shows "\<exists>n nq qt hs rank. limit = PInt n \<and> validated_query query = Inr (nq, qt) \<and>
    validated_hints hints = Inr hs \<and> (\<forall>entry \<in> set index. rank_entry nq qt hs entry = Inr (rank entry)) \<and>
    length rs = min (nat n) (length index) \<and>
    sorted_wrt (\<lambda>a b. (- sr_score a, sr_id a) < (- sr_score b, sr_id b)) rs \<and>
    (\<forall>r \<in> set rs. \<exists>entry \<in> set index. r = search_result_of nq qt (rank entry)) \<and>
    (\<forall>entry \<in> set index. im_id entry \<notin> sr_id ` set rs \<longrightarrow>
       (\<forall>r \<in> set rs. (- sr_score r, sr_id r) < rank_key (rank entry)))"
proof -
  obtain nq qt hs n ranked where
    p: "validated_query query = Inr (nq, qt)" "validated_hints hints = Inr hs" "limit = PInt n"
      "1 \<le> n" "n \<le> max_search_results"
    and ranked: "mapE (rank_entry nq qt hs) index = Inr ranked"
    and rs: "rs = map (search_result_of nq qt) (take (nat n) (sort_key rank_key ranked))"
    by (rule search_parts [OF assms(1)])
  define rank where "rank entry = (case rank_entry nq qt hs entry of Inr r \<Rightarrow> r | Inl _ \<Rightarrow> undefined)" for entry
  have each: "rank_entry nq qt hs entry = Inr (rank entry)" if "entry \<in> set index" for entry
    using ranked that by (auto simp: mapE_eq_Inr rank_def list_all2_conv_all_nth in_set_conv_nth)
  have ranked_eq: "ranked = map rank index"
    by (rule mapE_map [OF ranked each])
  have entries: "map rk_entry ranked = index" by (rule ranked_entries [OF ranked])
  with rank_key_inj assms(2) have inj: "inj_on rank_key (set ranked)" "distinct ranked" by metis+
  let ?top = "take (nat n) (sort_key rank_key ranked)"
  have key: "(- sr_score (search_result_of nq qt r), sr_id (search_result_of nq qt r)) = rank_key r" for r
    by (simp add: search_result_of_def rank_key_def)
  have "sorted (map rank_key ?top)" "distinct (map rank_key ?top)"
    using inj by (auto simp: take_map [symmetric] sorted_wrt_take distinct_map inj_on_def dest!: in_set_takeD)
  then have "sorted_wrt (\<lambda>a b. rank_key a < rank_key b) ?top"
    using strict_sorted_iff [of "map rank_key ?top"] unfolding sorted_wrt_map by blast
  then have order: "sorted_wrt (\<lambda>a b. (- sr_score a, sr_id a) < (- sr_score b, sr_id b)) rs"
    unfolding rs sorted_wrt_map key .
  have members: "\<exists>entry \<in> set index. r = search_result_of nq qt (rank entry)" if "r \<in> set rs" for r
    using that unfolding rs ranked_eq by (auto dest!: in_set_takeD)
  have behind: "(- sr_score r, sr_id r) < rank_key (rank entry)"
    if "entry \<in> set index" "im_id entry \<notin> sr_id ` set rs" "r \<in> set rs" for entry r
  proof -
    obtain q where q: "q \<in> set ?top" "r = search_result_of nq qt q" using \<open>r \<in> set rs\<close> unfolding rs by auto
    have "rk_entry (rank entry) = entry" using each [OF that(1)] rank_entry_facts by blast
    with that(2) have "rank entry \<notin> set ?top" unfolding rs by (auto simp: search_result_of_def image_iff)
    with best_first [OF inj _ _ q(1)] that(1) show ?thesis unfolding q(2) key by (auto simp: ranked_eq)
  qed
  have "length rs = min (nat n) (length index)" unfolding rs using entries by (metis length_map length_sort length_take min.commute)
  with p(1-3) each order members behind show ?thesis by blast
qed

lemma search_returns_the_best_witness:
  "\<exists>r. search demo_index (PStr ''dock'') PNone (PInt 1) = Inr [r] \<and>
    sorted_wrt (\<lambda>a b. (- sr_score a, sr_id a) < (- sr_score b, sr_id b)) [r] \<and> sr_id r = ''m2''"
proof -
  have "(case search demo_index (PStr ''dock'') PNone (PInt 1) of Inr [r] \<Rightarrow> sr_id r = ''m2'' | _ \<Rightarrow> False)"
    by code_simp
  then obtain r where r: "search demo_index (PStr ''dock'') PNone (PInt 1) = Inr [r]" "sr_id r = ''m2''"
    by (auto split: sum.splits list.splits)
  moreover have "distinct (memory_ids demo_index)" by (simp add: demo_index_ids)
  ultimately have "sorted_wrt (\<lambda>a b. (- sr_score a, sr_id a) < (- sr_score b, sr_id b)) [r]"
    using search_returns_the_best [OF r(1)] by blast
  with r show ?thesis by blast
qed

section \<open>Reads\<close>

text \<open>
  C26. A read is exact and within its budgets: it succeeds precisely when its identifiers are
  distinct, known and within every bound, and then returns their Markdown in the order asked for,
  at most four documents of at most 200000 characters each and at most the character budget in all.
  When the index says that it can be read exhaustively, reading the identifiers it names succeeds
  and returns every entry.
\<close>

theorem read_is_exact:
  shows "(read index requested max_documents max_chars = Inr rs \<longleftrightarrow>
      (\<exists>ids db cb. validated_memory_ids requested = Inr ids \<and> max_documents = PInt db \<and> 1 \<le> db \<and>
         db \<le> max_read_documents \<and> max_chars = PInt cb \<and> 1 \<le> cb \<and> cb \<le> max_total_read_chars \<and>
         plen ids \<le> db \<and> set ids \<subseteq> set (memory_ids index) \<and>
         (\<forall>k \<in> set ids. rr_count (read_of index k) \<le> max_memory_read_chars) \<and>
         (\<Sum>k \<leftarrow> ids. rr_count (read_of index k)) \<le> cb \<and> rs = map (read_of index) ids)) \<and>
    (distinct (memory_ids index) \<longrightarrow>
      (\<forall>entry \<in> set index. read_of index (im_id entry) =
         \<lparr>rr_id = im_id entry, rr_markdown = im_markdown entry, rr_count = plen (im_markdown entry),
          rr_metadata = thaw_dict (im_metadata entry)\<rparr>) \<and>
      (list_all (\<lambda>k. strip k = k \<and> k \<noteq> []) (memory_ids index) \<longrightarrow>
       auto_read_eligibility index max_documents max_chars = Inr auto \<longrightarrow> ar_eligible auto \<longrightarrow>
         read index (PTuple (map PStr (ar_ids auto))) max_documents max_chars =
           Inr (map (read_of index) (memory_ids index))))"
  by (intro conjI impI ballI read_Inr_iff read_of_entry auto_read_succeeds) assumption+

lemma read_is_exact_witness:
  "read demo_index (PTuple [PStr ''m1'', PStr ''m2'']) (PInt 4) (PInt 300000) =
     Inr (map (read_of demo_index) [''m1'', ''m2''])"
proof -
  have auto: "auto_read_eligibility demo_index (PInt 4) (PInt 300000) =
      Inr \<lparr>ar_eligible = True, ar_ids = [''m1'', ''m2''],
        ar_total = (\<Sum>entry \<leftarrow> demo_index. plen (im_markdown entry)), ar_reason = ''eligible''\<rparr>" by code_simp
  have "distinct (memory_ids demo_index)" "list_all (\<lambda>k. strip k = k \<and> k \<noteq> []) (memory_ids demo_index)"
    unfolding demo_index_ids by code_simp+
  with read_is_exact [of demo_index PNone "PInt 4" "PInt 300000" "[]", THEN conjunct2] auto
  have "read demo_index (PTuple (map PStr [''m1'', ''m2''])) (PInt 4) (PInt 300000) =
      Inr (map (read_of demo_index) (memory_ids demo_index))" by fastforce
  then show ?thesis by (simp add: demo_index_ids)
qed

end
