(* ===== verification/Resolver_Rows.thy ===== *)
theory Resolver_Rows
  imports Memory_Document Recovery_Flow Recovery_Settings
begin

text \<open>
  The pure part of \<^verbatim>\<open>src/resolver.py\<close>: its settings, what it reads from the rows of failures and
  resolutions, which memories it considers safe to execute and what it publishes of them.

  Two characters the code writes lie outside the code points of the model: the replacement
  character for what is not printable and the arrow between titles. A control character stands
  for each; no other character of the texts they are written to is a control character.
\<close>

section \<open>Texts\<close>

definition replacement :: char where "replacement = CHR 0x1A"
definition arrow :: char where "arrow = CHR 0x10"

definition printable_text :: "string \<Rightarrow> string" where
  "printable_text s = map (\<lambda>c. if printable c then c else replacement) s"

definition safe_identifier :: "pyval \<Rightarrow> string option" where
  "safe_identifier value =
     (case value of
        PNone \<Rightarrow> None | PDict d \<Rightarrow> None | PList vs \<Rightarrow> None | PTuple vs \<Rightarrow> None
      | _ \<Rightarrow> (let text = strip (py_str value)
              in if text = [] then None else Some (take 200 (printable_text text))))"

definition normalized_text :: "pyval \<Rightarrow> string" where
  "normalized_text value = (if value = PNone then [] else casefold (strip (py_str value)))"

definition max_matcher_message_length :: nat where "max_matcher_message_length = 800"
definition max_suggestion_text_length :: nat where "max_suggestion_text_length = 2000"

definition bounded_matcher_message :: "string \<Rightarrow> string" where
  "bounded_matcher_message value =
     take max_matcher_message_length (printable_text (strip (join '' '' (splitlines value))))"

definition py_or :: "pyval \<Rightarrow> pyval \<Rightarrow> pyval" where
  "py_or a b = (if truthy a then a else b)"

section \<open>Safe memories\<close>

definition has_usable_rerun_context :: "pydict \<Rightarrow> bool" where
  "has_usable_rerun_context action =
     (case dget action ''command'' of
        PStr command \<Rightarrow>
          strip command = ''$rerun'' \<longrightarrow>
          (case as_dict (dget action ''retry_context'') of
             None \<Rightarrow> False
           | Some retry_context \<Rightarrow>
               (case as_dict (dget retry_context ''retried_action'') of
                  None \<Rightarrow> False
                | Some retried \<Rightarrow> retried \<noteq> [] \<and>
                    (case dget retried ''command'' of PStr c \<Rightarrow> strip c \<noteq> [] | _ \<Rightarrow> False)))
      | _ \<Rightarrow> True)"

definition was_sent :: "pydict \<Rightarrow> bool" where
  "was_sent action \<longleftrightarrow> dget action ''status'' = PStr ''sent'' \<and>
     (case dget action ''command'' of PStr command \<Rightarrow> strip command \<noteq> [] | _ \<Rightarrow> False) \<and>
     has_usable_rerun_context action"

definition document_actions :: "memory_document \<Rightarrow> pydict list" where
  "document_actions document = List.map_filter as_dict (doc_actions document)"

definition is_safe_execution_candidate :: "memory_document \<Rightarrow> bool" where
  "is_safe_execution_candidate document \<longleftrightarrow>
     is_execution_candidate document \<and> list_all was_sent (document_actions document)"

definition successful_action_runs :: "pydict \<Rightarrow> pyval list" where
  "successful_action_runs row =
     (case dget row ''action_runs'' of
        PList runs \<Rightarrow> filter (\<lambda>action. case action of PDict d \<Rightarrow> was_sent d | _ \<Rightarrow> False) runs
      | _ \<Rightarrow> [])"

definition is_positive_demonstration :: "pydict \<Rightarrow> bool" where
  "is_positive_demonstration row \<longleftrightarrow>
     normalized_text (dget row ''outcome'') = ''resolved'' \<and> is_true (dget row ''applied'') \<and>
     successful_action_runs row \<noteq> []"

definition row_with_successful_actions :: "pydict \<Rightarrow> pydict" where
  "row_with_successful_actions row = dset row ''action_runs'' (PList (successful_action_runs row))"

section \<open>What is published of a memory\<close>

definition unquote_line :: "string \<Rightarrow> string list" where
  "unquote_line line =
     (if line = ''>'' then [[]]
      else if prefix ''> '' line then [drop 2 line]
      else if strip line \<noteq> [] then [strip line] else [])"

definition knowledge_marker :: string where
  "knowledge_marker = [lf] @ ''## Recovery Knowledge'' @ [lf]"

definition knowledge_text :: "string \<Rightarrow> string" where
  "knowledge_text body =
     (case find_at knowledge_marker body of
        None \<Rightarrow> []
      | Some i \<Rightarrow>
          (let rest = drop (i + length knowledge_marker) body;
               section_end = (case find_at ([lf] @ ''## '') rest of None \<Rightarrow> length rest | Some j \<Rightarrow> j)
           in join '' '' (words (join '' ''
                (concat (map unquote_line (splitlines (strip (take section_end rest)))))))))"

definition action_title :: "pydict \<Rightarrow> string" where
  "action_title action =
     strip (py_str (py_or (py_or (dget action ''title'') (dget action ''command'')) (PStr [])))"

definition suggested_fix_text :: "memory_document \<Rightarrow> string" where
  "suggested_fix_text document =
     (let known = knowledge_text (doc_body document);
          titles = map action_title (document_actions document);
          fallback = take max_suggestion_text_length
            (join [CHR '' '', arrow, CHR '' ''] (filter (\<lambda>title. title \<noteq> []) titles))
      in if known \<noteq> [] then take max_suggestion_text_length known
         else if fallback \<noteq> [] then fallback else ''Apply the selected stored recovery actions.'')"

definition run_only_fields :: "string list" where
  "run_only_fields = [''status'', ''sent_at'', ''state_before'']"

definition suggestion_action :: "pydict \<Rightarrow> pydict" where
  "suggestion_action action = filter (\<lambda>(key, value). key \<notin> set run_only_fields) action"

definition required_recovery_text :: "pydict \<Rightarrow> string \<Rightarrow> string result" where
  "required_recovery_text row field_name =
     (case dget row field_name of
        PStr s \<Rightarrow> guardE (s \<noteq> [] \<and> strip s = s) ContractError (Inr s)
      | _ \<Rightarrow> Inl ContractError)"

definition required_recovery_index :: "pydict \<Rightarrow> string \<Rightarrow> int result" where
  "required_recovery_index row field_name =
     (case dget row field_name of
        PInt n \<Rightarrow> guardE (0 \<le> n) ContractError (Inr n)
      | _ \<Rightarrow> Inl ContractError)"

text \<open>The actions that are published: those remembered, bound to this run when they end by resuming it.\<close>

definition published_actions :: "pydict \<Rightarrow> memory_document \<Rightarrow> pydict list result" where
  "published_actions row selected =
     (let remembered = map suggestion_action (document_actions selected) in
      guardE (remembered \<noteq> []) ReasoningErr
      (if dget (last remembered) ''command'' \<in> {PStr ''$rerun'', PStr ''$resume_flow''}
       then (case dget row ''flow_snapshot'' of
               PDict flow_snapshot \<Rightarrow>
                 bindE (required_recovery_text row ''flow_id'') (\<lambda>flow_id.
                 bindE (required_recovery_index row ''action_index'') (\<lambda>action_index.
                 bindE (required_recovery_text row ''action_command'') (\<lambda>action_command.
                   rebind_recovery_actions remembered flow_snapshot flow_id action_index action_command)))
             | _ \<Rightarrow> Inl ContractError)
       else Inr remembered))"

section \<open>Context of a failure\<close>

definition location_fields :: "string list" where
  "location_fields = [''site_id'', ''site'', ''floor'', ''room_number'', ''map_id'', ''map_name'',
     ''map_observed_at'']"

definition dict_or_empty :: "pyval \<Rightarrow> pydict" where
  "dict_or_empty value = (case as_dict value of None \<Rightarrow> [] | Some d \<Rightarrow> d)"

definition set_unless_none :: "pydict \<Rightarrow> string \<Rightarrow> pydict \<Rightarrow> pydict" where
  "set_unless_none row field target = (if dget row field = PNone then target else dset target field (dget row field))"

definition fill_location :: "string \<Rightarrow> pyval \<Rightarrow> pydict \<Rightarrow> pydict" where
  "fill_location field value location =
     (if has_key location field \<or> value = PNone then location else dset location field value)"

definition failure_with_location_context :: "pydict \<Rightarrow> pydict" where
  "failure_with_location_context row =
     (let context = dict_or_empty (dget row ''sanitized_context'');
          location = fold (set_unless_none row) location_fields (dict_or_empty (dget context ''location''));
          navigation = (if is_dict (dget row ''navigation'') then dget row ''navigation''
            else dget context ''navigation'');
          location' = (case as_dict (dget (dict_or_empty navigation) ''current_map'') of
              None \<Rightarrow> location
            | Some current_map \<Rightarrow>
                fill_location ''map_name'' (dget current_map ''map_name'')
                  (fill_location ''map_id'' (dget current_map ''id'') location));
          context' = (if location' = [] then context else dset context ''location'' (PDict location'))
      in dset row ''sanitized_context'' (PDict context'))"

definition or_field :: "pydict \<Rightarrow> string \<Rightarrow> string \<Rightarrow> pydict \<Rightarrow> pydict" where
  "or_field source key field values = dset values field (py_or (dget values field) (dget source key))"

definition failure_retrieval_values :: "pydict \<Rightarrow> pydict" where
  "failure_retrieval_values failure =
     (let base = map (\<lambda>f. (f, dget failure f)) [''sysid'', ''site_id'', ''site'', ''floor'', ''room_number'',
            ''map_id'', ''map_name'', ''flow_id'', ''flow_name'', ''activity_id'', ''area_name'', ''item_name''] @
          [(''failed_command'', py_or (dget failure ''failed_command'') (dget failure ''action_command''))];
          mapped = (case as_dict (dget (dict_or_empty (dget failure ''navigation'')) ''current_map'') of
              None \<Rightarrow> base
            | Some m \<Rightarrow> or_field m ''map_name'' ''map_name'' (or_field m ''id'' ''map_id'' base));
          context = dict_or_empty (dget failure ''sanitized_context'');
          located = (case as_dict (dget context ''location'') of
              None \<Rightarrow> mapped
            | Some l \<Rightarrow> fold (\<lambda>f. or_field l f f)
                [''site_id'', ''site'', ''floor'', ''room_number'', ''map_id'', ''map_name''] mapped);
          flowed = (case as_dict (dget context ''flow'') of
              None \<Rightarrow> located
            | Some f \<Rightarrow> or_field f ''room'' ''room_number'' (or_field f ''site'' ''site'' located))
      in (case as_dict (dget context ''action'') of
            None \<Rightarrow> flowed
          | Some a \<Rightarrow> or_field a ''item_name'' ''item_name'' (or_field a ''area_name'' ''area_name'' flowed)))"

definition is_missing_context_value :: "pyval \<Rightarrow> bool" where
  "is_missing_context_value value \<longleftrightarrow>
     (case value of PNone \<Rightarrow> True | PStr s \<Rightarrow> strip s = [] | _ \<Rightarrow> False)"

definition direct_fields :: "string list" where
  "direct_fields = [''sysid'', ''site_id'', ''site'', ''floor'', ''room_number'', ''map_id'', ''map_name'',
     ''map_observed_at'', ''flow_id'', ''flow_name'', ''activity_id'', ''area_name'', ''item_name'',
     ''robot_version'', ''robot_status'', ''navigation'', ''arm_state'', ''mapping_pose'',
     ''status_reported_at'', ''flow_snapshot'', ''run_code'']"

definition context_aliases :: "(string \<times> string list) list" where
  "context_aliases =
     [(''failure_status'', [''failure_status'', ''flow_status'', ''action_status'']),
      (''failure_reason'', [''failure_reason'', ''description'', ''reported_cause'', ''reported_error'']),
      (''failed_command'', [''failed_command'', ''action_command'']),
      (''failed_action'', [''failed_action'', ''failed_step'']),
      (''description'', [''description'', ''failure_reason'']),
      (''failed_step'', [''failed_step'']),
      (''robot_message'', [''robot_message'', ''reported_error'']),
      (''auto_failure_reason'', [''auto_failure_reason'', ''reported_cause''])]"

definition project_alias :: "pydict \<Rightarrow> string \<times> string list \<Rightarrow> pydict \<Rightarrow> pydict" where
  "project_alias failure = (\<lambda>(target, candidates) projected.
     (case filter (\<lambda>c. \<not> is_missing_context_value (dget failure c)) candidates of
        [] \<Rightarrow> projected | candidate # _ \<Rightarrow> dset projected target (dget failure candidate)))"

definition project_missing :: "pydict \<Rightarrow> string \<times> string \<Rightarrow> pydict \<Rightarrow> pydict" where
  "project_missing source = (\<lambda>(target, key) projected.
     (if has_key projected target \<or> is_missing_context_value (dget source key) then projected
      else dset projected target (dget source key)))"

definition project_failure_context :: "pydict \<Rightarrow> pydict" where
  "project_failure_context failure =
     (let direct = map (\<lambda>f. (f, dget failure f))
            (filter (\<lambda>f. \<not> is_missing_context_value (dget failure f)) direct_fields);
          aliased = fold (project_alias failure) context_aliases direct
      in (case as_dict (dget failure ''sanitized_context'') of
            None \<Rightarrow> aliased
          | Some context \<Rightarrow>
              (let located = fold (project_missing (dict_or_empty (dget context ''location'')))
                     (map (\<lambda>f. (f, f)) location_fields) aliased;
                   flowed = fold (project_missing (dict_or_empty (dget context ''flow'')))
                     [(''site'', ''site''), (''room_number'', ''room'')] located;
                   acted = fold (project_missing (dict_or_empty (dget context ''action'')))
                     [(''area_name'', ''area_name''), (''item_name'', ''item_name'')] flowed
               in if \<not> has_key acted ''navigation'' \<and> is_dict (dget context ''navigation'')
                  then dset acted ''navigation'' (dget context ''navigation'') else acted)))"

definition fill_context :: "string \<times> pyval \<Rightarrow> pydict \<Rightarrow> pydict" where
  "fill_context = (\<lambda>(field_name, value) prepared.
     (if is_missing_context_value (dget prepared field_name) then dset prepared field_name value else prepared))"

definition resolution_with_failure_context :: "pydict \<Rightarrow> pydict option \<Rightarrow> pydict result" where
  "resolution_with_failure_context resolution failure =
     (let prepared = (case failure of
          None \<Rightarrow> resolution
        | Some row \<Rightarrow> fold fill_context (project_failure_context row) resolution)
      in bindE (build_episode_evidence failure resolution) (\<lambda>evidence.
           Inr (dset prepared ''episode_evidence'' (PDict evidence))))"

section \<open>Acknowledgements of a memory\<close>

definition is_ingested_memory_ack :: "pydict option \<Rightarrow> string \<Rightarrow> bool" where
  "is_ingested_memory_ack failure resolution_id \<longleftrightarrow>
     (case failure of None \<Rightarrow> False
      | Some row \<Rightarrow> normalized_text (dget row ''memory_status'') = ''ingested'' \<and>
          safe_identifier (dget row ''memory_resolution_id'') = Some resolution_id)"

definition memory_ack_commit :: "pydict option \<Rightarrow> string option" where
  "memory_ack_commit failure =
     (case failure of None \<Rightarrow> None | Some row \<Rightarrow> safe_identifier (dget row ''memory_commit_sha''))"

definition memory_ack_needs_commit_refresh :: "pydict option \<Rightarrow> string \<Rightarrow> string \<Rightarrow> bool" where
  "memory_ack_needs_commit_refresh failure resolution_id commit_sha \<longleftrightarrow>
     is_ingested_memory_ack failure resolution_id \<and> memory_ack_commit failure \<noteq> Some commit_sha"

section \<open>Settings from the environment\<close>

type_synonym environment = "(string \<times> string) list"

definition env_text :: "environment \<Rightarrow> string \<Rightarrow> string \<Rightarrow> string" where
  "env_text environment name fallback =
     strip (case map_of environment name of None \<Rightarrow> fallback | Some value \<Rightarrow> value)"

definition env_value :: "environment \<Rightarrow> string \<Rightarrow> 'a \<Rightarrow> (string \<Rightarrow> 'a result) \<Rightarrow> 'a result" where
  "env_value environment name fallback parse =
     (case map_of environment name of None \<Rightarrow> Inr fallback | Some raw \<Rightarrow> parse raw)"

definition positive_float :: "environment \<Rightarrow> string \<Rightarrow> pyfloat \<Rightarrow> pyfloat result" where
  "positive_float environment name fallback = env_value environment name fallback (\<lambda>raw.
     (case parse_float raw of None \<Rightarrow> Inl ValueErr
      | Some value \<Rightarrow> guardE (\<not> fle value (FFin 0)) ValueErr (Inr value)))"

definition nonnegative_float :: "environment \<Rightarrow> string \<Rightarrow> pyfloat \<Rightarrow> pyfloat result" where
  "nonnegative_float environment name fallback = env_value environment name fallback (\<lambda>raw.
     (case parse_float raw of None \<Rightarrow> Inl ValueErr
      | Some value \<Rightarrow> guardE (\<not> flt value (FFin 0)) ValueErr (Inr value)))"

definition bounded_int :: "environment \<Rightarrow> string \<Rightarrow> int \<Rightarrow> int \<Rightarrow> int \<Rightarrow> int result" where
  "bounded_int environment name fallback minimum maximum = env_value environment name fallback (\<lambda>raw.
     (case parse_int raw of None \<Rightarrow> Inl ValueErr
      | Some value \<Rightarrow> guardE (\<not> (value < minimum \<or> maximum < value)) ValueErr (Inr value)))"

definition positive_int :: "environment \<Rightarrow> string \<Rightarrow> int \<Rightarrow> int result" where
  "positive_int environment name fallback = env_value environment name fallback (\<lambda>raw.
     (case parse_int raw of None \<Rightarrow> Inl ValueErr
      | Some value \<Rightarrow> guardE (\<not> (value \<le> 0 \<or> 10000 < value)) ValueErr (Inr value)))"

definition boolean_setting :: "environment \<Rightarrow> string \<Rightarrow> bool \<Rightarrow> bool result" where
  "boolean_setting environment name fallback = env_value environment name fallback (\<lambda>raw.
     (let normalized = casefold (strip raw) in
      if normalized \<in> set [''true'', ''1'', ''yes'', ''on''] then Inr True
      else if normalized \<in> set [''false'', ''0'', ''no'', ''off''] then Inr False
      else Inl ValueErr))"

definition valid_identifier :: "string \<Rightarrow> bool" where
  "valid_identifier s \<longleftrightarrow> (case s of [] \<Rightarrow> False
     | c # cs \<Rightarrow> (is_ascii_alnum c \<and> \<not> is_digit c \<or> c = CHR ''_'') \<and>
         list_all (\<lambda>c. is_ascii_alnum c \<or> c = CHR ''_'') cs)"

record resolver_settings =
  st_supabase_url :: string
  st_service_role_key :: string
  st_openai_api_key :: string
  st_openai_model :: string
  st_memory_repo_url :: string
  st_memory_repo_root :: string
  st_memory_repo_branch :: string
  st_memory_repo_dev_branch :: string
  st_failure_events_table :: string
  st_resolutions_table :: string
  st_schema :: string
  st_reconcile_limit :: int
  st_reconnect_initial :: pyfloat
  st_reconnect_max :: pyfloat
  st_subscription_timeout :: pyfloat
  st_connection_check :: pyfloat
  st_disconnect_grace :: pyfloat
  st_shutdown_timeout :: pyfloat
  st_auto_execute :: bool
  st_recovery_allowlist :: "string list"
  st_recovery_max_attempts :: int
  st_recovery_command_timeout :: pyfloat
  st_recovery_outcome_timeout :: pyfloat
  st_recovery_lease_seconds :: int
  st_recovery_reconcile_interval :: pyfloat
  st_recovery_start_grace :: pyfloat
  st_recovery_cf_id :: string
  st_recovery_cf_secret :: string

definition recovery_execution_settings :: "resolver_settings \<Rightarrow> recovery_settings result" where
  "recovery_execution_settings st = settings_post_init
     \<lparr>se_enabled = st_auto_execute st, se_robot_allowlist = st_recovery_allowlist st,
      se_max_attempts = st_recovery_max_attempts st, se_command_timeout = st_recovery_command_timeout st,
      se_outcome_timeout = st_recovery_outcome_timeout st, se_lease_seconds = st_recovery_lease_seconds st,
      se_cf_access_client_id = st_recovery_cf_id st, se_cf_access_client_secret = st_recovery_cf_secret st,
      se_reconcile_limit = st_reconcile_limit st, se_reconcile_interval = st_recovery_reconcile_interval st,
      se_start_grace = st_recovery_start_grace st\<rparr>"

definition resolver_post_init :: "resolver_settings \<Rightarrow> resolver_settings result" where
  "resolver_post_init st =
     bindE (recovery_execution_settings st) (\<lambda>recovery.
       Inr (st\<lparr>st_recovery_allowlist := se_robot_allowlist recovery\<rparr>))"

definition rstrip_slashes :: "string \<Rightarrow> string" where
  "rstrip_slashes s = rev (dropWhile (\<lambda>c. c = CHR ''/'') (rev s))"

text \<open>The tuning values of the environment, in the order the code reads them.\<close>

definition resolver_tuning :: "environment \<Rightarrow> resolver_settings \<Rightarrow> resolver_settings result" where
  "resolver_tuning env st =
     bindE (positive_int env ''RESOLVER_RECONCILE_LIMIT'' 500) (\<lambda>reconcile_limit.
     bindE (positive_float env ''OBSERVER_RECONNECT_INITIAL_SECONDS'' (FFin 1)) (\<lambda>reconnect_initial.
     bindE (positive_float env ''OBSERVER_RECONNECT_MAX_SECONDS'' (FFin 30)) (\<lambda>reconnect_max.
     bindE (positive_float env ''OBSERVER_SUBSCRIPTION_TIMEOUT_SECONDS'' (FFin 20)) (\<lambda>subscription_timeout.
     bindE (positive_float env ''OBSERVER_CONNECTION_CHECK_SECONDS'' (FFin 1)) (\<lambda>connection_check.
     bindE (positive_float env ''OBSERVER_DISCONNECT_GRACE_SECONDS'' (FFin 10)) (\<lambda>disconnect_grace.
     bindE (positive_float env ''OBSERVER_SHUTDOWN_TIMEOUT_SECONDS'' (FFin 15)) (\<lambda>shutdown_timeout.
     bindE (bounded_int env ''RECOVERY_MAX_ATTEMPTS'' 3 1 20) (\<lambda>max_attempts.
     bindE (positive_float env ''RECOVERY_COMMAND_TIMEOUT_SECONDS'' (FFin 15)) (\<lambda>command_timeout.
     bindE (positive_float env ''RECOVERY_OUTCOME_TIMEOUT_SECONDS'' (FFin 60)) (\<lambda>outcome_timeout.
     bindE (bounded_int env ''RECOVERY_LEASE_SECONDS'' 300 5 900) (\<lambda>lease_seconds.
     bindE (positive_float env ''RECOVERY_RECONCILE_INTERVAL_SECONDS'' (FFin 30)) (\<lambda>reconcile_interval.
     bindE (nonnegative_float env ''RECOVERY_START_GRACE_SECONDS'' (FFin 5)) (\<lambda>start_grace.
       Inr (st\<lparr>st_reconcile_limit := reconcile_limit, st_reconnect_initial := reconnect_initial,
         st_reconnect_max := reconnect_max, st_subscription_timeout := subscription_timeout,
         st_connection_check := connection_check, st_disconnect_grace := disconnect_grace,
         st_shutdown_timeout := shutdown_timeout, st_recovery_max_attempts := max_attempts,
         st_recovery_command_timeout := command_timeout, st_recovery_outcome_timeout := outcome_timeout,
         st_recovery_lease_seconds := lease_seconds, st_recovery_reconcile_interval := reconcile_interval,
         st_recovery_start_grace := start_grace\<rparr>))))))))))))))"

definition settings_texts :: "environment \<Rightarrow> bool \<Rightarrow> resolver_settings" where
  "settings_texts env auto_execute =
     \<lparr>st_supabase_url = rstrip_slashes (env_text env ''SUPABASE_URL'' []),
      st_service_role_key = env_text env ''SUPABASE_SERVICE_ROLE_KEY'' [],
      st_openai_api_key = env_text env ''OPENAI_API_KEY'' [],
      st_openai_model = env_text env ''OPENAI_MODEL'' ''gpt-5.6-luna'',
      st_memory_repo_url = env_text env ''MEMORY_REPO_URL'' [],
      st_memory_repo_root = env_text env ''MEMORY_REPO_ROOT'' ''/var/lib/failure-resolver/memory'',
      st_memory_repo_branch = env_text env ''MEMORY_REPO_BRANCH'' ''main'',
      st_memory_repo_dev_branch = env_text env ''MEMORY_REPO_DEV_BRANCH'' ''failure-resolver-dev'',
      st_failure_events_table = env_text env ''FAILURE_EVENTS_TABLE'' ''failure_events'',
      st_resolutions_table = env_text env ''FLOW_FAILURE_RESOLUTIONS_TABLE'' ''flow_failure_resolutions'',
      st_schema = env_text env ''SUPABASE_SCHEMA'' ''public'',
      st_reconcile_limit = 500, st_reconnect_initial = FFin 1, st_reconnect_max = FFin 30,
      st_subscription_timeout = FFin 20, st_connection_check = FFin 1, st_disconnect_grace = FFin 10,
      st_shutdown_timeout = FFin 15, st_auto_execute = auto_execute,
      st_recovery_allowlist = map (\<lambda>part. upper (strip part)) (filter (\<lambda>part. strip part \<noteq> [])
        (split_on (CHR '','') (case map_of env ''RECOVERY_ROBOT_ALLOWLIST'' of None \<Rightarrow> [] | Some v \<Rightarrow> v))),
      st_recovery_max_attempts = 3, st_recovery_command_timeout = FFin 15,
      st_recovery_outcome_timeout = FFin 60, st_recovery_lease_seconds = 300,
      st_recovery_reconcile_interval = FFin 30, st_recovery_start_grace = FFin 5,
      st_recovery_cf_id = env_text env ''RECOVERY_CF_ACCESS_CLIENT_ID'' [],
      st_recovery_cf_secret = env_text env ''RECOVERY_CF_ACCESS_CLIENT_SECRET'' []\<rparr>"

definition settings_from_env :: "environment \<Rightarrow> resolver_settings result" where
  "settings_from_env env =
     guardE (lower (env_text env ''RESOLVER_MODE'' ''agent'') = ''agent'') ValueErr
     (bindE (boolean_setting env ''RESOLVER_AUTO_EXECUTE'' False) (\<lambda>auto_execute.
      let st = settings_texts env auto_execute in
      guardE (prefix ''https://'' (st_supabase_url st) \<or> prefix ''http://'' (st_supabase_url st)) ValueErr
      (guardE (st_service_role_key st \<noteq> []) ValueErr
      (guardE (st_openai_api_key st \<noteq> []) ValueErr
      (guardE (st_openai_model st \<noteq> []) ValueErr
      (guardE (st_memory_repo_url st \<noteq> []) ValueErr
      (guardE (st_memory_repo_root st \<noteq> []) ValueErr
      (guardE (list_all valid_identifier
          [st_failure_events_table st, st_resolutions_table st, st_schema st]) ValueErr
      (bindE (resolver_tuning env st) resolver_post_init)))))))))"

end
