(* ===== verification/Agent.thy ===== *)
theory Agent
  imports Resolver_Rows
begin

text \<open>
  \<^verbatim>\<open>src/agent.py\<close>: the reasoning agent. The model service and pydantic's reading of an object as
  the declared fields are parameters; the constraints the declarations name, the validators, what
  is sent to the model and what is accepted of its answer are modelled.
\<close>

section \<open>Answers of the model\<close>

datatype decision = NoSolution | ApplyMemory

record memory_choice =
  mc_decision :: decision
  mc_memory_id :: "string option"
  mc_confidence :: pyfloat
  mc_reason :: string

datatype retrieval_step =
    SearchStep string
  | ReadStep "string list"
  | FinishStep memory_choice

record failure_signature =
  fs_task_family :: "string option"
  fs_failed_step :: "string option"
  fs_failure_mode :: "string option"
  fs_object_state :: "string option"
  fs_context :: "string list"

record generalization =
  gn_failure_pattern :: string
  gn_resolution_summary :: string
  gn_tags :: "string list"
  gn_signature :: failure_signature

definition max_memory_id_length :: int where "max_memory_id_length = 200"
definition max_memory_markdown_length :: int where "max_memory_markdown_length = 192000"
definition max_memory_candidates :: int where "max_memory_candidates = 50"
definition max_generalization_input_length :: int where "max_generalization_input_length = 256000"
definition max_memory_input_length :: int where "max_memory_input_length = 512000"
definition max_retrieval_input_length :: int where "max_retrieval_input_length = 512000"
definition max_retrieval_observations_length :: int where "max_retrieval_observations_length = 320000"
definition max_search_query_length :: int where "max_search_query_length = 500"
definition max_read_ids :: int where "max_read_ids = 4"
definition max_input_text_length :: nat where "max_input_text_length = 2000"
definition max_context_json_length :: nat where "max_context_json_length = 12000"

definition text_between :: "int \<Rightarrow> int \<Rightarrow> 'a list \<Rightarrow> bool" where
  "text_between low high s \<longleftrightarrow> low \<le> plen s \<and> plen s \<le> high"

fun unique_clean :: "string list \<Rightarrow> string list \<Rightarrow> string list" where
  "unique_clean seen [] = []"
| "unique_clean seen (value # values) =
     (let cleaned = strip value in
      if cleaned = [] \<or> casefold cleaned \<in> set seen then unique_clean seen values
      else cleaned # unique_clean (casefold cleaned # seen) values)"

definition unique_clean_strings :: "string list \<Rightarrow> string list" where
  "unique_clean_strings values = unique_clean [] values"

definition signature_text :: "string option \<Rightarrow> string option result" where
  "signature_text value =
     (case value of
        None \<Rightarrow> Inr None
      | Some s \<Rightarrow> guardE (text_between 1 160 s) ValueErr
          (Inr (if strip s = [] then None else Some (strip s))))"

definition validate_signature :: "failure_signature \<Rightarrow> failure_signature result" where
  "validate_signature raw =
     bindE (signature_text (fs_task_family raw)) (\<lambda>task_family.
     bindE (signature_text (fs_failed_step raw)) (\<lambda>failed_step.
     bindE (signature_text (fs_failure_mode raw)) (\<lambda>failure_mode.
     bindE (signature_text (fs_object_state raw)) (\<lambda>object_state.
     guardE (plen (fs_context raw) \<le> 8 \<and> list_all (text_between 1 64) (fs_context raw)) ValueErr
       (Inr \<lparr>fs_task_family = task_family, fs_failed_step = failed_step, fs_failure_mode = failure_mode,
         fs_object_state = object_state, fs_context = unique_clean_strings (fs_context raw)\<rparr>)))))"

definition required_summary :: "string \<Rightarrow> string result" where
  "required_summary value =
     guardE (text_between 1 500 value \<and> strip value \<noteq> []) ValueErr (Inr (strip value))"

definition validate_generalization :: "generalization \<Rightarrow> generalization result" where
  "validate_generalization raw =
     bindE (required_summary (gn_failure_pattern raw)) (\<lambda>failure_pattern.
     bindE (required_summary (gn_resolution_summary raw)) (\<lambda>resolution_summary.
     guardE (text_between 1 12 (gn_tags raw) \<and> list_all (text_between 1 64) (gn_tags raw)) ValueErr
     (let tags = unique_clean_strings (gn_tags raw) in
      guardE (tags \<noteq> []) ValueErr
      (bindE (validate_signature (gn_signature raw)) (\<lambda>signature.
        Inr \<lparr>gn_failure_pattern = failure_pattern, gn_resolution_summary = resolution_summary,
          gn_tags = tags, gn_signature = signature\<rparr>)))))"

definition validate_choice :: "memory_choice \<Rightarrow> memory_choice result" where
  "validate_choice raw =
     guardE (case mc_memory_id raw of None \<Rightarrow> True | Some k \<Rightarrow> plen k \<le> max_memory_id_length) ValueErr
     (guardE (fle (FFin 0) (mc_confidence raw) \<and> fle (mc_confidence raw) (FFin 1)) ValueErr
     (bindE (required_summary (mc_reason raw)) (\<lambda>reason.
      guardE (\<not> (mc_decision raw = NoSolution \<and> mc_memory_id raw \<noteq> None)) ValueErr
      (guardE (\<not> (mc_decision raw = ApplyMemory \<and> mc_memory_id raw = None)) ValueErr
        (Inr (raw\<lparr>mc_reason := reason\<rparr>))))))"

definition bounded_memory_id :: "string \<Rightarrow> bool" where
  "bounded_memory_id k \<longleftrightarrow>
     k \<noteq> [] \<and> k = strip k \<and> plen k \<le> max_memory_id_length \<and> list_all printable k"

fun read_ids :: "string list \<Rightarrow> string list \<Rightarrow> string list result" where
  "read_ids seen [] = Inr (rev seen)"
| "read_ids seen (k # ks) =
     guardE (bounded_memory_id k) ValueErr (guardE (k \<notin> set seen) ValueErr (read_ids (k # seen) ks))"

definition validate_step :: "retrieval_step \<Rightarrow> retrieval_step result" where
  "validate_step raw =
     (case raw of
        SearchStep query \<Rightarrow>
          guardE (text_between 1 max_search_query_length query \<and> strip query \<noteq> []) ValueErr
            (Inr (SearchStep (strip query)))
      | ReadStep ids \<Rightarrow>
          guardE (text_between 1 max_read_ids ids) ValueErr
            (bindE (read_ids [] ids) (\<lambda>ids. Inr (ReadStep ids)))
      | FinishStep choice \<Rightarrow> bindE (validate_choice choice) (\<lambda>choice. Inr (FinishStep choice)))"

section \<open>The model service\<close>

datatype answer_format = ChoiceFormat | TurnFormat | GeneralizationFormat

record model_request =
  mq_format :: answer_format
  mq_input :: string
  mq_max_output_tokens :: int

record model_response =
  mr_parsed :: "pyval option"
  mr_model :: string
  mr_id :: string
  mr_input_tokens :: "int option"
  mr_output_tokens :: "int option"

text \<open>
  \<open>ml_parse\<close> is \<^verbatim>\<open>responses.parse\<close>; the readers give the fields of a dumped object, None where
  pydantic refuses the types or a field that is not declared.
\<close>

record 'w model_client =
  ml_parse :: "model_request \<Rightarrow> ('w, model_response) prog"
  ml_choice :: "pyval \<Rightarrow> memory_choice option"
  ml_step :: "pyval \<Rightarrow> retrieval_step option"
  ml_generalization :: "pyval \<Rightarrow> generalization option"

definition accepted_answer ::
  "(pyval \<Rightarrow> 'a option) \<Rightarrow> ('a \<Rightarrow> 'a result) \<Rightarrow> pyval option \<Rightarrow> 'a result" where
  "accepted_answer reader validate parsed =
     (case parsed of
        None \<Rightarrow> Inl ReasoningErr
      | Some dumped \<Rightarrow>
          (case reader dumped of
             None \<Rightarrow> Inl ReasoningErr
           | Some raw \<Rightarrow> (case validate raw of Inl e \<Rightarrow> Inl ReasoningErr | Inr answer \<Rightarrow> Inr answer)))"

record choice_result =
  cr_choice :: memory_choice
  cr_model :: string
  cr_response_id :: string

record turn_result =
  tr_step :: retrieval_step
  tr_model :: string
  tr_response_id :: string

record generalization_result =
  gr_generalization :: generalization
  gr_actions :: "pyval list"
  gr_model :: string
  gr_response_id :: string

section \<open>What is sent\<close>

definition bounded_text :: "nat \<Rightarrow> pyval \<Rightarrow> pyval" where
  "bounded_text max_length value =
     (if value = PNone then PNone else PStr (take max_length (printable_text (py_str value))))"

definition bounded_json_data :: "nat \<Rightarrow> pyval \<Rightarrow> pyval" where
  "bounded_json_data max_length value =
     (if value = PNone then PNone
      else (let serialized = json_dumps value in
        if length serialized \<le> max_length
        then (case json_loads serialized of None \<Rightarrow> PStr serialized | Some v \<Rightarrow> v)
        else PDict [(''serialized_prefix'', PStr (take max_length serialized)), (''truncated'', PBool True)]))"

definition bounded_field :: "pyval \<Rightarrow> pyval" where
  "bounded_field value =
     (case value of
        PDict d \<Rightarrow> bounded_json_data max_context_json_length value
      | PList vs \<Rightarrow> bounded_json_data max_context_json_length value
      | PTuple vs \<Rightarrow> bounded_json_data max_context_json_length value
      | _ \<Rightarrow> bounded_text max_input_text_length value)"

definition bounded_fields :: "pydict \<Rightarrow> string list \<Rightarrow> pydict" where
  "bounded_fields source names = map (\<lambda>f. (f, bounded_field (dget source f))) names"

definition demonstrated_actions :: "pydict \<Rightarrow> pyval list result" where
  "demonstrated_actions resolution =
     guardE (dget resolution ''outcome'' = PStr ''resolved'') (OtherErr ''IneligibleResolutionError'')
     (guardE (is_true (dget resolution ''applied'')) (OtherErr ''IneligibleResolutionError'')
     (case dget resolution ''action_runs'' of
        PList runs \<Rightarrow>
          (let demonstrated = filter (\<lambda>action. case action of
                 PDict d \<Rightarrow> dget d ''status'' = PStr ''sent'' \<and>
                   (case dget d ''command'' of PStr c \<Rightarrow> strip c \<noteq> [] | _ \<Rightarrow> False)
               | _ \<Rightarrow> False) runs
           in guardE (demonstrated \<noteq> []) (OtherErr ''IneligibleResolutionError'') (Inr demonstrated))
      | _ \<Rightarrow> Inl (OtherErr ''IneligibleResolutionError'')))"

definition resolution_fields :: "string list" where
  "resolution_fields = [''flow_name'', ''area_name'', ''item_name'', ''failure_status'', ''failure_reason'',
     ''failed_command'', ''robot_message'', ''auto_failure_reason'', ''resolution'', ''outcome'',
     ''applied'', ''description'', ''failed_step'']"

definition action_metadata :: "pyval \<Rightarrow> pyval" where
  "action_metadata action =
     (let d = dict_or_empty action in
      PDict [(''command'', bounded_text 160 (dget d ''command'')), (''title'', bounded_text 160 (dget d ''title'')),
        (''retry_context'', bounded_json_data 2000 (dget d ''retry_context''))])"

definition resolution_model_context :: "pydict \<Rightarrow> pyval list \<Rightarrow> pydict result" where
  "resolution_model_context resolution demonstrated =
     (let described = dset (dset (dset (dset (bounded_fields resolution resolution_fields)
          ''failed_action'' (bounded_json_data max_context_json_length (dget resolution ''failed_action'')))
          ''outcome'' (dget resolution ''outcome'')) ''applied'' (dget resolution ''applied''))
          ''demonstrated_action_metadata'' (PList (map action_metadata demonstrated))
      in bindE (sanitize_episode_value (PList demonstrated)) (\<lambda>runs.
         bindE (if dget resolution ''episode_evidence'' = PNone then Inr PNone
                else bindE (validate_episode_evidence (dget resolution ''episode_evidence''))
                  (\<lambda>e. Inr (PDict e))) (\<lambda>evidence.
           Inr (dset (dset described ''successful_action_run_evidence'' runs) ''episode_evidence'' evidence))))"

definition failure_model_context :: "pydict \<Rightarrow> pydict result" where
  "failure_model_context failure = sanitize_episode_record (PDict failure)"

fun prepare_each :: "string list \<Rightarrow> (string \<times> string) list \<Rightarrow> pyval list result" where
  "prepare_each seen [] = Inr []"
| "prepare_each seen ((memory_id, markdown) # memories) =
     guardE (bounded_memory_id memory_id) ValueErr
     (guardE (memory_id \<notin> set seen) ValueErr
     (guardE (plen markdown \<le> max_memory_markdown_length) ValueErr
     (bindE (prepare_each (memory_id # seen) memories) (\<lambda>prepared.
       Inr (PDict [(''memory_id'', PStr memory_id), (''markdown'', PStr markdown)] # prepared)))))"

definition prepare_memories :: "(string \<times> string) list \<Rightarrow> pyval list result" where
  "prepare_memories memories =
     guardE (memories \<noteq> []) ValueErr
     (guardE (plen memories \<le> max_memory_candidates) ValueErr (prepare_each [] memories))"

definition prepare_retrieval_observations :: "pyval list \<Rightarrow> pyval list result" where
  "prepare_retrieval_observations observations =
     guardE (list_all is_dict observations) TypeErr
     (bindE (dumps_compact (PList observations)) (\<lambda>serialized.
      guardE (plen serialized \<le> max_retrieval_observations_length) ValueErr
      (case json_loads serialized of
         Some (PList parsed) \<Rightarrow> guardE (list_all is_dict parsed) ValueErr (Inr parsed)
       | _ \<Rightarrow> Inl ValueErr)))"

section \<open>The operations of the agent\<close>

definition generalization_payload :: "pydict \<Rightarrow> string" where
  "generalization_payload context = json_dumps (PDict [(''task'', PStr ''generalize_resolution''),
     (''untrusted_resolution_data'', PDict context)])"

definition choice_payload :: "pydict \<Rightarrow> pyval list \<Rightarrow> string" where
  "choice_payload context prepared = json_dumps (PDict [(''task'', PStr ''choose_memory''),
     (''untrusted_failure_data'', PDict context), (''untrusted_markdown_memories'', PList prepared)])"

definition turn_payload :: "pydict \<Rightarrow> pyval list \<Rightarrow> string result" where
  "turn_payload context prepared = dumps_compact (PDict [(''task'', PStr ''retrieve_memory''),
     (''untrusted_failure_data'', PDict context), (''untrusted_retrieval_observations'', PList prepared)])"

definition generalize_resolution ::
  "'w model_client \<Rightarrow> pydict \<Rightarrow> ('w, generalization_result) prog" where
  "generalize_resolution client resolution =
     bindP (liftP (demonstrated_actions resolution)) (\<lambda>demonstrated.
     bindP (liftP (resolution_model_context resolution demonstrated)) (\<lambda>context.
     let input_payload = generalization_payload context
     in bindP (liftP (guardE (plen input_payload \<le> max_generalization_input_length) ValueErr (Inr ()))) (\<lambda>_.
        bindP (ml_parse client \<lparr>mq_format = GeneralizationFormat, mq_input = input_payload,
            mq_max_output_tokens = 800\<rparr>) (\<lambda>response.
        bindP (liftP (accepted_answer (ml_generalization client) validate_generalization (mr_parsed response)))
          (\<lambda>answer. returnP \<lparr>gr_generalization = answer, gr_actions = demonstrated,
             gr_model = mr_model response, gr_response_id = mr_id response\<rparr>)))))"

definition accept_choice ::
  "'w model_client \<Rightarrow> (string \<times> string) list \<Rightarrow> model_response \<Rightarrow> choice_result result" where
  "accept_choice client memories response =
     bindE (accepted_answer (ml_choice client) validate_choice (mr_parsed response)) (\<lambda>choice.
     guardE (mc_decision choice = ApplyMemory \<longrightarrow> (\<exists>k \<in> set (map fst memories). mc_memory_id choice = Some k))
       ReasoningErr
       (Inr \<lparr>cr_choice = choice, cr_model = mr_model response, cr_response_id = mr_id response\<rparr>))"

definition choose_memory ::
  "'w model_client \<Rightarrow> pydict \<Rightarrow> (string \<times> string) list \<Rightarrow> ('w, choice_result) prog" where
  "choose_memory client failure memories =
     bindP (liftP (prepare_memories memories)) (\<lambda>prepared.
     bindP (liftP (failure_model_context failure)) (\<lambda>context.
     let input_payload = choice_payload context prepared
     in bindP (liftP (guardE (plen input_payload \<le> max_memory_input_length) ValueErr (Inr ()))) (\<lambda>_.
        bindP (ml_parse client \<lparr>mq_format = ChoiceFormat, mq_input = input_payload,
            mq_max_output_tokens = 500\<rparr>) (\<lambda>response.
          liftP (accept_choice client memories response)))))"

definition next_memory_retrieval_turn ::
  "'w model_client \<Rightarrow> pydict \<Rightarrow> pyval list \<Rightarrow> ('w, turn_result) prog" where
  "next_memory_retrieval_turn client failure observations =
     bindP (liftP (prepare_retrieval_observations observations)) (\<lambda>prepared.
     bindP (liftP (failure_model_context failure)) (\<lambda>context.
     bindP (liftP (turn_payload context prepared)) (\<lambda>input_payload.
     bindP (liftP (guardE (plen input_payload \<le> max_retrieval_input_length) ValueErr (Inr ()))) (\<lambda>_.
     bindP (ml_parse client \<lparr>mq_format = TurnFormat, mq_input = input_payload,
         mq_max_output_tokens = 600\<rparr>) (\<lambda>response.
     bindP (liftP (accepted_answer (ml_step client) validate_step (mr_parsed response))) (\<lambda>step.
       returnP \<lparr>tr_step = step, tr_model = mr_model response, tr_response_id = mr_id response\<rparr>))))))"

text \<open>The protocol the resolver programs against, and its implementation.\<close>

record 'w failure_agent =
  fa_choose :: "pydict \<Rightarrow> (string \<times> string) list \<Rightarrow> ('w, choice_result) prog"
  fa_next_turn :: "pydict \<Rightarrow> pyval list \<Rightarrow> ('w, turn_result) prog"
  fa_generalize :: "pydict \<Rightarrow> ('w, generalization_result) prog"

definition openai_agent :: "'w model_client \<Rightarrow> 'w failure_agent" where
  "openai_agent client = \<lparr>fa_choose = choose_memory client, fa_next_turn = next_memory_retrieval_turn client,
     fa_generalize = generalize_resolution client\<rparr>"

section \<open>What is accepted\<close>

lemma accepted_answer_Inr [result_simps]:
  "accepted_answer reader validate parsed = Inr answer \<longleftrightarrow>
     (\<exists>dumped raw. parsed = Some dumped \<and> reader dumped = Some raw \<and> validate raw = Inr answer)"
  by (auto simp: accepted_answer_def split: option.splits sum.splits)

definition wf_choice :: "memory_choice \<Rightarrow> bool" where
  "wf_choice choice \<longleftrightarrow> (mc_decision choice = ApplyMemory \<longleftrightarrow> mc_memory_id choice \<noteq> None) \<and>
     fle (FFin 0) (mc_confidence choice) \<and> fle (mc_confidence choice) (FFin 1) \<and>
     mc_reason choice \<noteq> [] \<and> strip (mc_reason choice) = mc_reason choice"

lemma validate_choice_wf: "validate_choice raw = Inr choice \<Longrightarrow> wf_choice choice"
  by (cases "mc_decision raw")
    (auto simp: validate_choice_def required_summary_def wf_choice_def result_simps)

definition wf_step :: "retrieval_step \<Rightarrow> bool" where
  "wf_step step \<longleftrightarrow> (case step of
       SearchStep query \<Rightarrow> query \<noteq> [] \<and> strip query = query
     | ReadStep ids \<Rightarrow> ids \<noteq> [] \<and> plen ids \<le> max_read_ids \<and> distinct ids \<and> list_all bounded_memory_id ids
     | FinishStep choice \<Rightarrow> wf_choice choice)"

lemma read_ids_props:
  "read_ids seen ks = Inr ids \<Longrightarrow> distinct seen \<Longrightarrow> list_all bounded_memory_id seen \<Longrightarrow>
     ids = rev seen @ ks \<and> distinct ids \<and> list_all bounded_memory_id ids"
  by (induction seen ks arbitrary: ids rule: read_ids.induct) (auto simp: result_simps list_all_iff)

lemma validate_step_wf: "validate_step raw = Inr step \<Longrightarrow> wf_step step"
proof (cases raw)
  case (ReadStep ks)
  assume "validate_step raw = Inr step"
  with ReadStep obtain ids where "read_ids [] ks = Inr ids" "step = ReadStep ids" "text_between 1 max_read_ids ks"
    by (auto simp: validate_step_def result_simps)
  with read_ids_props [of "[]" ks ids] show ?thesis by (auto simp: wf_step_def text_between_def plen_def)
qed (auto simp: validate_step_def wf_step_def result_simps intro: validate_choice_wf)

lemma choose_memory_returned:
  assumes "choose_memory client failure memories w = (Inr answer, w')"
  shows "wf_choice (cr_choice answer)"
    and "mc_decision (cr_choice answer) = ApplyMemory \<Longrightarrow>
      \<exists>k \<in> set (map fst memories). mc_memory_id (cr_choice answer) = Some k"
    and "\<exists>prepared. prepare_memories memories = Inr prepared"
proof -
  from assms obtain response where "accept_choice client memories response = Inr answer"
    by (auto simp: choose_memory_def Let_def returned)
  then obtain choice raw where c: "cr_choice answer = choice" "validate_choice raw = Inr choice"
    "mc_decision choice = ApplyMemory \<longrightarrow> (\<exists>k \<in> set (map fst memories). mc_memory_id choice = Some k)"
    by (auto simp: accept_choice_def bindE_eq_Inr guardE_eq_Inr accepted_answer_Inr simp del: set_map)
  then show "wf_choice (cr_choice answer)" using validate_choice_wf by simp
  show "\<exists>k \<in> set (map fst memories). mc_memory_id (cr_choice answer) = Some k"
    if "mc_decision (cr_choice answer) = ApplyMemory" using c that by simp
  show "\<exists>prepared. prepare_memories memories = Inr prepared"
    using assms by (auto simp: choose_memory_def returned)
qed

lemma next_turn_returned:
  "next_memory_retrieval_turn client failure observations w = (Inr turn, w') \<Longrightarrow> wf_step (tr_step turn)"
  by (auto simp: next_memory_retrieval_turn_def returned result_simps intro: validate_step_wf)

text \<open>What the resolver relies on: an agent applies only a memory it was offered.\<close>

locale memory_chooser =
  fixes pick :: "pydict \<Rightarrow> (string \<times> string) list \<Rightarrow> ('w, choice_result) prog"
  assumes chosen_offered: "pick failure memories w = (Inr answer, w') \<Longrightarrow>
    mc_decision (cr_choice answer) = ApplyMemory \<Longrightarrow>
    \<exists>k \<in> set (map fst memories). mc_memory_id (cr_choice answer) = Some k"
begin

lemma chosen_of:
  assumes "pick failure (map (\<lambda>r. (f r, g r)) rs) w = (Inr answer, w')"
    and "mc_decision (cr_choice answer) = ApplyMemory"
  shows "\<exists>k \<in> set (map f rs). mc_memory_id (cr_choice answer) = Some k"
  using chosen_offered [OF assms] by (simp add: comp_def)

end

interpretation openai: memory_chooser "choose_memory client" for client
  by unfold_locales (rule choose_memory_returned(2))

end
