(* ===== verification/Resolver.thy ===== *)
theory Resolver
  imports Agent Retrieval Memory_Store Recovery_Database
begin

text \<open>
  \<open>FailureResolverProcessor\<close> of \<^verbatim>\<open>src/resolver.py\<close>: the matching of one failure against the
  memories, the loop in which the agent browses them, and the ingestion of one resolution. The
  Supabase client, the two stores and the agent are parameters that run on a world; the processor
  keeps its counters and its known commits. The calls it makes are recorded in a log that the code
  does not have.
\<close>

section \<open>State\<close>

record resolver_state =
  rv_failures_claimed :: int
  rv_solutions_found :: int
  rv_no_solution :: int
  rv_failures_skipped :: int
  rv_match_errors :: int
  rv_resolutions_observed :: int
  rv_resolutions_skipped :: int
  rv_memories_written :: int
  rv_memory_errors :: int
  rv_memory_acks_ingested :: int
  rv_memory_acks_failed :: int
  rv_last_failure_id :: "string option"
  rv_last_resolution_id :: "string option"
  rv_last_memory_commit :: "string option"

definition new_resolver_state :: resolver_state where
  "new_resolver_state = \<lparr>rv_failures_claimed = 0, rv_solutions_found = 0, rv_no_solution = 0,
     rv_failures_skipped = 0, rv_match_errors = 0, rv_resolutions_observed = 0,
     rv_resolutions_skipped = 0, rv_memories_written = 0, rv_memory_errors = 0,
     rv_memory_acks_ingested = 0, rv_memory_acks_failed = 0, rv_last_failure_id = None,
     rv_last_resolution_id = None, rv_last_memory_commit = None\<rparr>"

definition opt_pstr :: "string option \<Rightarrow> pyval" where
  "opt_pstr t = (case t of None \<Rightarrow> PNone | Some s \<Rightarrow> PStr s)"

definition resolver_snapshot :: "resolver_state \<Rightarrow> pydict" where
  "resolver_snapshot rv =
     [(''failures_claimed'', PInt (rv_failures_claimed rv)), (''solutions_found'', PInt (rv_solutions_found rv)),
      (''no_solution'', PInt (rv_no_solution rv)), (''failures_skipped'', PInt (rv_failures_skipped rv)),
      (''match_errors'', PInt (rv_match_errors rv)),
      (''resolutions_observed'', PInt (rv_resolutions_observed rv)),
      (''resolutions_skipped'', PInt (rv_resolutions_skipped rv)),
      (''memories_written'', PInt (rv_memories_written rv)), (''memory_errors'', PInt (rv_memory_errors rv)),
      (''memory_acks_ingested'', PInt (rv_memory_acks_ingested rv)),
      (''memory_acks_failed'', PInt (rv_memory_acks_failed rv)),
      (''last_failure_id'', opt_pstr (rv_last_failure_id rv)),
      (''last_resolution_id'', opt_pstr (rv_last_resolution_id rv)),
      (''last_memory_commit'', opt_pstr (rv_last_memory_commit rv))]"

text \<open>The store protocol, and its implementation by the Git store.\<close>

record 'w markdown_store =
  mm_rebuild_index :: "bool \<Rightarrow> ('w, (string \<times> memory_document) list) prog"
  mm_has_source_hash :: "string \<Rightarrow> string \<Rightarrow> bool \<Rightarrow> ('w, bool) prog"
  mm_latest_commit :: "string \<Rightarrow> bool \<Rightarrow> ('w, string option) prog"
  mm_write :: "memory_draft \<Rightarrow> ('w, write_result) prog"

definition git_store :: "git_config \<Rightarrow> 'w git_env \<Rightarrow> 'w store_state markdown_store" where
  "git_store config env = \<lparr>mm_rebuild_index = rebuild_index config env,
     mm_has_source_hash = (\<lambda>rid hash refresh. has_source_hash config env (PStr rid) (PStr hash) refresh),
     mm_latest_commit = (\<lambda>rid refresh. latest_memory_commit config env (PStr rid) refresh),
     mm_write = write_memory config env\<rparr>"

text \<open>
  \<open>ve_connected\<close> is whether the runtime has set a client; \<open>ve_error_text\<close> is \<open>str\<close> of an exception.
  \<open>True\<close> stands for the development store.
\<close>

record 'w resolver_env =
  ve_client :: "'w supabase"
  ve_connected :: "'w \<Rightarrow> bool"
  ve_agent :: "'w failure_agent"
  ve_store :: "'w markdown_store"
  ve_dev_store :: "'w markdown_store option"
  ve_failure_events :: string
  ve_resolutions :: string
  ve_sha :: "string \<Rightarrow> string"
  ve_error_text :: "py_error \<Rightarrow> string"

definition the_store :: "'w resolver_env \<Rightarrow> bool \<Rightarrow> 'w markdown_store" where
  "the_store env dev = (if dev then (case ve_dev_store env of None \<Rightarrow> ve_store env | Some m \<Rightarrow> m) else ve_store env)"

datatype resolver_call =
    FetchCall string string
  | UpdateCall table_query pydict
  | RevokedCall "string list"
  | IndexCall bool
  | HashCall bool string
  | CommitCall bool string
  | WriteCall bool memory_draft
  | ChooseCall
  | TurnCall
  | GeneralizeCall

record 'w processor =
  vp_world :: 'w
  vp_state :: resolver_state
  vp_known :: "(string \<times> string) list"
  vp_log :: "resolver_call list"

definition run_call :: "resolver_call \<Rightarrow> ('w, 'a) prog \<Rightarrow> ('w processor, 'a) prog" where
  "run_call c m = (\<lambda>s. case m (vp_world s) of (r, w) \<Rightarrow> (r, s\<lparr>vp_world := w, vp_log := vp_log s @ [c]\<rparr>))"

definition count :: "(resolver_state \<Rightarrow> resolver_state) \<Rightarrow> ('w processor, unit) prog" where
  "count f = modifyP (\<lambda>s. s\<lparr>vp_state := f (vp_state s)\<rparr>)"

definition required_client :: "'w resolver_env \<Rightarrow> ('w processor, unit) prog" where
  "required_client env =
     bindP (getsP (\<lambda>s. ve_connected env (vp_world s))) (\<lambda>connected. guardP connected ConnectionErr)"

section \<open>Rows\<close>

definition fetch_row ::
  "'w resolver_env \<Rightarrow> string \<Rightarrow> string \<Rightarrow> string \<Rightarrow> ('w processor, pydict option) prog" where
  "fetch_row env table id_column record_id =
     seqP (required_client env)
     (bindP (run_call (FetchCall table record_id) (sb_select (ve_client env)
         \<lparr>tq_table = table, tq_columns = ''*'', tq_filters = [FilterEq id_column (PStr record_id)],
          tq_order = None, tq_limit = Some 1\<rparr>)) (\<lambda>data.
       returnP (case data of PList (PDict row # rows) \<Rightarrow> Some row | _ \<Rightarrow> None)))"

definition update_rows :: "'w resolver_env \<Rightarrow> row_filter list \<Rightarrow> pydict \<Rightarrow> ('w processor, pyval) prog" where
  "update_rows env filters values =
     (let query = \<lparr>tq_table = ve_failure_events env, tq_columns = [], tq_filters = filters,
            tq_order = None, tq_limit = None\<rparr>
      in seqP (required_client env)
           (run_call (UpdateCall query values) (sb_update (ve_client env) query values)))"

definition nonempty_list :: "pyval \<Rightarrow> bool" where
  "nonempty_list data = (case data of PList (v # vs) \<Rightarrow> True | _ \<Rightarrow> False)"

definition claim_values :: pydict where
  "claim_values = [(''matcher_status'', PStr ''matching''),
     (''matcher_message'', PStr ''Checking solution memory.''), (''resolver_suggestion'', PNone)]"

definition claim_failure :: "'w resolver_env \<Rightarrow> string \<Rightarrow> ('w processor, bool) prog" where
  "claim_failure env failure_id =
     bindP (update_rows env [FilterEq ''failure_id'' (PStr failure_id),
         FilterEq ''matcher_status'' (PStr ''pending''), FilterEq ''analysis_status'' (PStr ''completed'')]
       claim_values) (\<lambda>data. returnP (nonempty_list data))"

definition finish_values :: "string \<Rightarrow> string \<Rightarrow> pydict option \<Rightarrow> pydict" where
  "finish_values status message suggestion = [(''matcher_status'', PStr status),
     (''matcher_message'', PStr (bounded_matcher_message message)),
     (''resolver_suggestion'', opt_dict suggestion)]"

definition finish_failure ::
  "'w resolver_env \<Rightarrow> string \<Rightarrow> string \<Rightarrow> string \<Rightarrow> pydict option \<Rightarrow> ('w processor, unit) prog" where
  "finish_failure env failure_id status message suggestion =
     seqP (update_rows env [FilterEq ''failure_id'' (PStr failure_id),
         FilterEq ''matcher_status'' (PStr ''matching'')] (finish_values status message suggestion))
       (returnP ())"

definition store_for :: "'w resolver_env \<Rightarrow> pydict \<Rightarrow> ('w processor, bool) prog" where
  "store_for env row =
     (case ve_dev_store env of
        None \<Rightarrow> returnP False
      | Some dev_store \<Rightarrow>
          (let sysid = (if dget row ''sysid'' = PNone then [] else strip (py_str (dget row ''sysid''))) in
           if sysid = [] then returnP True
           else bindP (fetch_row env ''robots'' ''sysid'' sysid) (\<lambda>robot.
             returnP (case robot of None \<Rightarrow> True | Some r \<Rightarrow> \<not> is_true (dget r ''production'')))))"

definition revocation_query :: "'w resolver_env \<Rightarrow> memory_document list \<Rightarrow> table_query" where
  "revocation_query env documents = \<lparr>tq_table = ve_resolutions env, tq_columns = ''resolution_id'',
     tq_filters = [FilterIn ''resolution_id'' (map (\<lambda>d. PStr (doc_resolution_id d)) documents),
       FilterNotIs ''revoked_at'' PNone], tq_order = None, tq_limit = None\<rparr>"

definition revoked_id :: "pyval \<Rightarrow> pyval result" where
  "revoked_id row =
     (case as_dict row of
        None \<Rightarrow> Inl (OtherErr ''AttributeError'')
      | Some d \<Rightarrow> guardE (truthy (dget d ''resolution_id'') \<longrightarrow> hashable (dget d ''resolution_id'')) TypeErr
          (Inr (dget d ''resolution_id'')))"

definition revoked_ids :: "pyval \<Rightarrow> pyval list result" where
  "revoked_ids data =
     (if \<not> truthy data then Inr []
      else (case data of
          PList rows \<Rightarrow> bindE (mapE revoked_id rows) (\<lambda>ks. Inr (filter truthy ks))
        | PTuple rows \<Rightarrow> bindE (mapE revoked_id rows) (\<lambda>ks. Inr (filter truthy ks))
        | PDict d \<Rightarrow> Inl (OtherErr ''AttributeError'')
        | PStr s \<Rightarrow> Inl (OtherErr ''AttributeError'')
        | _ \<Rightarrow> Inl TypeErr))"

definition without_revoked ::
  "'w resolver_env \<Rightarrow> memory_document list \<Rightarrow> ('w processor, memory_document list) prog" where
  "without_revoked env documents =
     (if documents = [] then returnP []
      else seqP (required_client env)
        (bindP (run_call (RevokedCall (map doc_resolution_id documents))
            (sb_select (ve_client env) (revocation_query env documents))) (\<lambda>data.
         bindP (liftP (revoked_ids data)) (\<lambda>revoked.
            returnP (filter (\<lambda>document. PStr (doc_resolution_id document) \<notin> set revoked) documents)))))"

section \<open>Browsing the memories\<close>

definition max_retrieval_turns :: nat where "max_retrieval_turns = 10"

definition ellipsis :: char where "ellipsis = CHR 0x11"

definition field_label :: "field_name \<Rightarrow> string" where
  "field_label f = (case f of RetrievalSignature \<Rightarrow> ''retrieval_signature'' | Frontmatter \<Rightarrow> ''frontmatter''
     | GeneralizedProse \<Rightarrow> ''generalized_prose'' | EpisodeEvidence \<Rightarrow> ''episode_evidence'')"

definition snippet_text :: "snippet option \<Rightarrow> string" where
  "snippet_text sn =
     (case sn of None \<Rightarrow> []
      | Some n \<Rightarrow> field_label (sn_field n) @ '': '' @ (if sn_cut_left n then [ellipsis] else []) @
          sn_text n @ (if sn_cut_right n then [ellipsis] else []))"

type_synonym outcome = "memory_choice \<times> memory_document list"

definition by_resolution :: "memory_document list \<Rightarrow> (string \<times> memory_document) list" where
  "by_resolution documents = foldl (\<lambda>m d. AList.update (doc_resolution_id d) d m) [] documents"

record browse =
  br_observations :: "pyval list"
  br_discovered :: "string list"
  br_read :: "(string \<times> memory_document) list"
  br_searches :: int
  br_chars :: int

definition start_browse :: "memory_document list \<Rightarrow> browse" where
  "start_browse documents = \<lparr>br_observations = [PDict [(''kind'', PStr ''corpus''),
       (''eligible_memory_count'', PInt (plen documents)),
       (''searches_remaining'', PInt max_search_calls), (''reads_remaining'', PInt max_read_documents)]],
     br_discovered = [], br_read = [], br_searches = 0, br_chars = 0\<rparr>"

definition retrieval_no_solution :: "browse \<Rightarrow> string \<Rightarrow> outcome" where
  "retrieval_no_solution b reason =
     (\<lparr>mc_decision = NoSolution, mc_memory_id = None, mc_confidence = FFin 0, mc_reason = reason\<rparr>,
      map snd (br_read b))"

definition hit_observation :: "search_result \<Rightarrow> pyval" where
  "hit_observation hit = PDict [(''memory_id'', PStr (sr_id hit)), (''score'', PInt (sr_score hit)),
     (''matched_fields'', PList (map (\<lambda>f. PStr (field_label f)) (sr_fields hit))),
     (''metadata'', PDict (sr_metadata hit)), (''snippet'', PStr (snippet_text (sr_snippet hit)))]"

definition observe :: "pydict \<Rightarrow> browse \<Rightarrow> browse" where
  "observe observation b = b\<lparr>br_observations := br_observations b @ [PDict observation]\<rparr>"

text \<open>A turn either ends the browsing (\<open>Inl\<close>) or goes on (\<open>Inr\<close>).\<close>

definition search_turn ::
  "indexed_memory list \<Rightarrow> pydict \<Rightarrow> string \<Rightarrow> browse \<Rightarrow> (outcome + browse) result" where
  "search_turn corpus failure query b =
     (if max_search_calls \<le> br_searches b
      then Inr (Inl (retrieval_no_solution b ''The memory search budget was exhausted.''))
      else bindE (search corpus (PStr query) (PDict (failure_retrieval_values failure)) (PInt max_search_results))
        (\<lambda>hits. Inr (Inr (observe [(''kind'', PStr ''search_results''), (''query'', PStr query),
             (''searches_remaining'', PInt (max_search_calls - (br_searches b + 1))),
             (''hits'', PList (map hit_observation hits))]
           (b\<lparr>br_searches := br_searches b + 1,
              br_discovered := br_discovered b @ map sr_id hits\<rparr>)))))"

definition add_read ::
  "(string \<times> memory_document) list \<Rightarrow> read_result \<Rightarrow> (string \<times> memory_document) list \<Rightarrow> (string \<times> memory_document) list" where
  "add_read documents r found =
     (case map_of documents (rr_id r) of None \<Rightarrow> found | Some d \<Rightarrow> AList.update (rr_id r) d found)"

definition read_turn ::
  "indexed_memory list \<Rightarrow> (string \<times> memory_document) list \<Rightarrow> string list \<Rightarrow> browse \<Rightarrow> (outcome + browse) result" where
  "read_turn corpus documents wanted b =
     (let requested = filter (\<lambda>k. k \<notin> fst ` set (br_read b)) wanted;
          remaining_documents = max_read_documents - plen (br_read b);
          remaining_chars = max_total_read_chars - br_chars b;
          exhausted = Inr (Inl (retrieval_no_solution b ''The memory read budget was exhausted.''))
      in if requested = [] then Inr (Inr (observe [(''kind'', PStr ''read_results''), (''documents'', PList []),
              (''note'', PStr ''All requested memories were already read.'')] b))
         else if \<not> set requested \<subseteq> set (br_discovered b)
         then Inr (Inl (retrieval_no_solution b ''The retrieval agent requested an undiscovered memory.''))
         else if remaining_documents < plen requested \<or> remaining_chars \<le> 0 then exhausted
         else (case read corpus (PList (map PStr requested)) (PInt remaining_documents) (PInt remaining_chars) of
            Inl e \<Rightarrow> if is_value_error e then exhausted else Inl e
          | Inr got \<Rightarrow>
              (let found = fold (add_read documents) got (br_read b)
               in Inr (Inr (observe [(''kind'', PStr ''read_results''),
                      (''reads_remaining'', PInt (max_read_documents - plen found)),
                      (''documents'', PList (map (\<lambda>r. PDict [(''memory_id'', PStr (rr_id r)),
                         (''markdown'', PStr (rr_markdown r))]) got))]
                    (b\<lparr>br_chars := br_chars b + (\<Sum>r \<leftarrow> got. plen (rr_markdown r)), br_read := found\<rparr>))))))"

definition finish_turn :: "memory_choice \<Rightarrow> browse \<Rightarrow> (outcome + browse) result" where
  "finish_turn choice b =
     (if mc_decision choice = NoSolution \<and> (br_searches b = 0 \<or> br_read b = [])
      then Inr (Inr (observe [(''kind'', PStr ''retrieval_correction''),
          (''message'', PStr (''Search and read at least one returned memory '' @
             ''before concluding that no solution exists.''))] b))
      else if mc_decision choice = ApplyMemory \<and>
          (case mc_memory_id choice of None \<Rightarrow> True | Some k \<Rightarrow> k \<notin> fst ` set (br_read b))
      then Inr (Inl (retrieval_no_solution b ''The retrieval agent selected an unread memory.''))
      else Inr (Inl (choice, map snd (br_read b))))"

definition browse_turn ::
  "indexed_memory list \<Rightarrow> (string \<times> memory_document) list \<Rightarrow> pydict \<Rightarrow> retrieval_step \<Rightarrow> browse
     \<Rightarrow> (outcome + browse) result" where
  "browse_turn corpus documents failure step b =
     (case step of
        SearchStep query \<Rightarrow> search_turn corpus failure query b
      | ReadStep wanted \<Rightarrow> read_turn corpus documents wanted b
      | FinishStep choice \<Rightarrow> finish_turn choice b)"

fun browse_loop ::
  "'w resolver_env \<Rightarrow> indexed_memory list \<Rightarrow> (string \<times> memory_document) list \<Rightarrow> pydict \<Rightarrow> nat \<Rightarrow> browse
     \<Rightarrow> ('w processor, outcome) prog" where
  "browse_loop env corpus documents failure 0 b =
     returnP (retrieval_no_solution b ''The memory retrieval turn budget was exhausted.'')"
| "browse_loop env corpus documents failure (Suc turns) b =
     bindP (run_call TurnCall (fa_next_turn (ve_agent env) failure (br_observations b))) (\<lambda>turn.
     bindP (liftP (browse_turn corpus documents failure (tr_step turn) b)) (\<lambda>next_state.
       case next_state of
         Inl finished \<Rightarrow> returnP finished
       | Inr b' \<Rightarrow> browse_loop env corpus documents failure turns b'))"

definition retrieve_memory_choice ::
  "'w resolver_env \<Rightarrow> pydict \<Rightarrow> memory_document list \<Rightarrow> ('w processor, outcome) prog" where
  "retrieve_memory_choice env failure documents =
     bindP (liftP (build_index (by_resolution documents) (PInt max_index_documents) (PInt max_index_chars))) (\<lambda>corpus.
     bindP (liftP (auto_read_eligibility corpus (PInt max_read_documents) (PInt max_total_read_chars))) (\<lambda>auto.
       if ar_eligible auto \<and> ar_ids auto \<noteq> []
       then bindP (liftP (read corpus (PTuple (map PStr (ar_ids auto))) (PInt max_read_documents)
                (PInt max_total_read_chars))) (\<lambda>got.
            bindP (run_call ChooseCall (fa_choose (ve_agent env) failure
                (map (\<lambda>r. (rr_id r, rr_markdown r)) got))) (\<lambda>answer.
              returnP (cr_choice answer, map snd (fold (add_read (by_resolution documents)) got []))))
       else browse_loop env corpus (by_resolution documents) failure max_retrieval_turns (start_browse documents)))"

section \<open>Matching a failure\<close>

record failure_match =
  fm_failure_id :: string
  fm_memory_id :: string
  fm_suggested_fix :: string
  fm_confidence :: pyfloat
  fm_reason :: string
  fm_actions :: "pydict list"

definition no_solution :: "'w resolver_env \<Rightarrow> string \<Rightarrow> string \<Rightarrow> ('w processor, failure_match option) prog" where
  "no_solution env failure_id message =
     seqP (finish_failure env failure_id ''no_solution'' message None)
     (seqP (count (\<lambda>rv. rv\<lparr>rv_no_solution := rv_no_solution rv + 1\<rparr>)) (returnP None))"

definition suggestion_of :: "failure_match \<Rightarrow> pydict" where
  "suggestion_of m = [(''memory_id'', PStr (fm_memory_id m)), (''summary'', PStr (fm_suggested_fix m)),
     (''reason'', PStr (fm_reason m)), (''confidence'', PFloat (fm_confidence m)),
     (''actions'', PList (map PDict (fm_actions m)))]"

definition publish_match ::
  "'w resolver_env \<Rightarrow> string \<Rightarrow> pydict \<Rightarrow> memory_choice \<Rightarrow> memory_document \<Rightarrow> ('w processor, failure_match option) prog" where
  "publish_match env failure_id row choice selected =
     (case published_actions row selected of
        Inl e \<Rightarrow>
          if is_contract_error e
          then no_solution env failure_id (''No applicable solution: the remembered recovery cannot be safely '' @
            ''bound to this Flow run ('' @ ve_error_text env e @ '').'')
          else throwP e
      | Inr actions \<Rightarrow>
          (let m = \<lparr>fm_failure_id = failure_id, fm_memory_id = doc_resolution_id selected,
                 fm_suggested_fix = suggested_fix_text selected, fm_confidence = mc_confidence choice,
                 fm_reason = mc_reason choice, fm_actions = actions\<rparr>
           in seqP (finish_failure env failure_id ''solution_found'' (''Suggested fix: '' @ fm_suggested_fix m)
                (Some (suggestion_of m)))
              (seqP (count (\<lambda>rv. rv\<lparr>rv_solutions_found := rv_solutions_found rv + 1\<rparr>)) (returnP (Some m)))))"

definition selected_document :: "outcome \<Rightarrow> memory_document option" where
  "selected_document = (\<lambda>(choice, documents).
     map_of (by_resolution documents) (case mc_memory_id choice of None \<Rightarrow> [] | Some k \<Rightarrow> k))"

definition match_claimed ::
  "'w resolver_env \<Rightarrow> string \<Rightarrow> pydict \<Rightarrow> bool \<Rightarrow> ('w processor, failure_match option) prog" where
  "match_claimed env failure_id row dev =
     bindP (run_call (IndexCall dev) (mm_rebuild_index (the_store env dev) True)) (\<lambda>index.
     bindP (without_revoked env (filter is_safe_execution_candidate (map snd index))) (\<lambda>documents.
       if documents = [] then no_solution env failure_id ''No applicable recovery memory is available.''
       else bindP (retrieve_memory_choice env (failure_with_location_context row) documents) (\<lambda>retrieval.
         let choice = fst retrieval in
         if mc_decision choice = NoSolution
         then no_solution env failure_id (''No applicable solution: '' @ mc_reason choice)
         else (case selected_document retrieval of
             None \<Rightarrow> throwP ReasoningErr
           | Some selected \<Rightarrow>
               if \<not> is_safe_execution_candidate selected then throwP ReasoningErr
               else publish_match env failure_id row choice selected))))"

definition skip_failure :: "('w processor, failure_match option) prog" where
  "skip_failure =
     seqP (count (\<lambda>rv. rv\<lparr>rv_failures_skipped := rv_failures_skipped rv + 1\<rparr>)) (returnP None)"

definition process_failure_match :: "'w resolver_env \<Rightarrow> string \<Rightarrow> ('w processor, failure_match option) prog" where
  "process_failure_match env failure_id =
     bindP (fetch_row env (ve_failure_events env) ''failure_id'' failure_id) (\<lambda>fetched.
     case fetched of
       None \<Rightarrow> skip_failure
     | Some row \<Rightarrow>
         if normalized_text (dget row ''matcher_status'') \<noteq> ''pending'' then skip_failure
         else if normalized_text (dget row ''analysis_status'') \<noteq> ''completed'' then skip_failure
         else bindP (claim_failure env failure_id) (\<lambda>claimed.
           if \<not> claimed then skip_failure
           else seqP (count (\<lambda>rv. rv\<lparr>rv_failures_claimed := rv_failures_claimed rv + 1,
                  rv_last_failure_id := Some failure_id\<rparr>))
             (bindP (store_for env row) (\<lambda>dev.
              catchP (match_claimed env failure_id row dev) (\<lambda>e.
                if e = CancelledErr then throwP e
                else seqP (count (\<lambda>rv. rv\<lparr>rv_match_errors := rv_match_errors rv + 1\<rparr>))
                  (seqP (finish_failure env failure_id ''failed''
                     ''The solution matcher could not complete safely.'' None) (throwP e)))))))"

section \<open>Ingesting a resolution\<close>

datatype acknowledgement = Claimed | OwnedElsewhere | Untracked

definition memory_filters :: "string \<Rightarrow> string \<Rightarrow> string \<Rightarrow> row_filter list" where
  "memory_filters failure_id status resolution_id = [FilterEq ''failure_id'' (PStr failure_id),
     FilterEq ''memory_status'' (PStr status), FilterEq ''memory_resolution_id'' (PStr resolution_id)]"

definition memory_values :: "string \<Rightarrow> string \<Rightarrow> string option \<Rightarrow> string \<Rightarrow> pyval \<Rightarrow> pydict" where
  "memory_values status resolution_id commit_sha message ingested_at =
     [(''memory_status'', PStr status), (''memory_resolution_id'', PStr resolution_id),
      (''memory_commit_sha'', opt_pstr commit_sha), (''memory_message'', PStr message),
      (''memory_ingested_at'', ingested_at)]"

definition claim_memory_ingestion ::
  "'w resolver_env \<Rightarrow> string option \<Rightarrow> string \<Rightarrow> pydict option \<Rightarrow> ('w processor, acknowledgement) prog" where
  "claim_memory_ingestion env failure_id resolution_id current_failure =
     (case failure_id of
        None \<Rightarrow> returnP Untracked
      | Some fid \<Rightarrow>
          bindP (case current_failure of
              Some row \<Rightarrow> returnP (Some row)
            | None \<Rightarrow> fetch_row env (ve_failure_events env) ''failure_id'' fid) (\<lambda>current.
          case current of
            None \<Rightarrow> returnP Untracked
          | Some row \<Rightarrow>
              (let mine = (safe_identifier (dget row ''memory_resolution_id'') = Some resolution_id);
                   status = normalized_text (dget row ''memory_status'')
               in if \<not> mine \<or> status \<notin> {''pending'', ''failed''}
                  then returnP (if mine \<and> status = ''ingesting'' then OwnedElsewhere else Untracked)
                  else bindP (update_rows env (memory_filters fid status resolution_id)
                    (memory_values ''ingesting'' resolution_id None ''Ingesting recovery memory.'' PNone)) (\<lambda>data.
                      returnP (if nonempty_list data then Claimed else OwnedElsewhere)))))"

definition timestamp :: "'w resolver_env \<Rightarrow> ('w processor, pyval) prog" where
  "timestamp env = getsP (\<lambda>s. PStr (sb_now (ve_client env) (vp_world s)))"

definition ack_ingested :: "('w processor, unit) prog" where
  "ack_ingested = count (\<lambda>rv. rv\<lparr>rv_memory_acks_ingested := rv_memory_acks_ingested rv + 1\<rparr>)"

definition mark_memory_ingested ::
  "'w resolver_env \<Rightarrow> string option \<Rightarrow> string \<Rightarrow> string option \<Rightarrow> ('w processor, unit) prog" where
  "mark_memory_ingested env failure_id resolution_id commit_sha =
     (case failure_id of
        None \<Rightarrow> returnP ()
      | Some fid \<Rightarrow>
          bindP (timestamp env) (\<lambda>now.
           seqP (update_rows env (memory_filters fid ''ingesting'' resolution_id)
             (memory_values ''ingested'' resolution_id commit_sha ''Recovery memory ingested.'' now)) ack_ingested))"

definition mark_memory_failed :: "'w resolver_env \<Rightarrow> string option \<Rightarrow> string \<Rightarrow> ('w processor, unit) prog" where
  "mark_memory_failed env failure_id resolution_id =
     (case failure_id of
        None \<Rightarrow> returnP ()
      | Some fid \<Rightarrow>
          seqP (update_rows env (memory_filters fid ''ingesting'' resolution_id)
             (memory_values ''failed'' resolution_id None ''Recovery memory ingestion failed.'' PNone))
           (count (\<lambda>rv. rv\<lparr>rv_memory_acks_failed := rv_memory_acks_failed rv + 1\<rparr>)))"

definition refresh_memory_ingested ::
  "'w resolver_env \<Rightarrow> string option \<Rightarrow> string \<Rightarrow> string \<Rightarrow> string option \<Rightarrow> ('w processor, unit) prog" where
  "refresh_memory_ingested env failure_id resolution_id commit_sha expected_commit_sha =
     (case failure_id of
        None \<Rightarrow> returnP ()
      | Some fid \<Rightarrow>
          bindP (timestamp env) (\<lambda>now.
           bindP (update_rows env (memory_filters fid ''ingested'' resolution_id @
               [case expected_commit_sha of Some sha \<Rightarrow> FilterEq ''memory_commit_sha'' (PStr sha)
                | None \<Rightarrow> FilterIs ''memory_commit_sha'' PNone])
             (memory_values ''ingested'' resolution_id (Some commit_sha) ''Recovery memory ingested.'' now)) (\<lambda>data.
             if nonempty_list data then ack_ingested else returnP ())))"

definition signature_dict :: "failure_signature \<Rightarrow> pydict" where
  "signature_dict sig = [(''task_family'', opt_pstr (fs_task_family sig)),
     (''failed_step'', opt_pstr (fs_failed_step sig)), (''failure_mode'', opt_pstr (fs_failure_mode sig)),
     (''object_state'', opt_pstr (fs_object_state sig)), (''context'', PList (map PStr (fs_context sig)))]"

definition memory_draft_of :: "resolution_source \<Rightarrow> generalization_result \<Rightarrow> memory_draft result" where
  "memory_draft_of source r =
     (let g = gr_generalization r in
      memory_draft_post_init source (PStr ''positive'') (PBool True) (PStr (gn_failure_pattern g))
        (PStr (gn_resolution_summary g)) (map (\<lambda>tag. PStr (''Retrieval tag: '' @ tag)) (gn_tags g))
        (Some (signature_dict (gn_signature g))) (PStr (gr_model r)) (PStr (gr_response_id r)))"

definition skip_resolution :: "('w processor, unit) prog" where
  "skip_resolution = count (\<lambda>rv. rv\<lparr>rv_resolutions_skipped := rv_resolutions_skipped rv + 1\<rparr>)"

text \<open>A resolution whose source is already in the memory: only its acknowledgement may be missing.\<close>

definition acknowledge_existing ::
  "'w resolver_env \<Rightarrow> bool \<Rightarrow> acknowledgement \<Rightarrow> string option \<Rightarrow> pydict option \<Rightarrow> string
     \<Rightarrow> ('w processor, write_result option) prog" where
  "acknowledge_existing env dev acknowledgement failure_id linked rid =
     seqP skip_resolution
     (bindP (getsP (\<lambda>s. map_of (vp_known s) rid)) (\<lambda>known.
      bindP (case known of
          Some sha \<Rightarrow> if sha \<noteq> [] then returnP (Some sha)
            else run_call (CommitCall dev rid) (mm_latest_commit (the_store env dev) rid False)
        | None \<Rightarrow> run_call (CommitCall dev rid) (mm_latest_commit (the_store env dev) rid False)) (\<lambda>commit_sha.
      case commit_sha of
        None \<Rightarrow> throwP ReasoningErr
      | Some sha \<Rightarrow>
          seqP (if acknowledgement = Claimed then mark_memory_ingested env failure_id rid (Some sha)
                else if memory_ack_needs_commit_refresh linked rid sha
                then refresh_memory_ingested env failure_id rid sha (memory_ack_commit linked)
                else returnP ()) (returnP None))))"

definition record_write :: "string \<Rightarrow> write_result \<Rightarrow> ('w processor, unit) prog" where
  "record_write rid result =
     (if wr_changed result
      then seqP (count (\<lambda>rv. rv\<lparr>rv_memories_written := rv_memories_written rv + 1,
             rv_last_memory_commit := wr_commit_sha result\<rparr>))
        (case wr_commit_sha result of
           None \<Rightarrow> returnP ()
         | Some sha \<Rightarrow> if sha = [] then returnP ()
             else modifyP (\<lambda>s. s\<lparr>vp_known := AList.update rid sha (vp_known s)\<rparr>))
      else skip_resolution)"

definition write_generalization ::
  "'w resolver_env \<Rightarrow> bool \<Rightarrow> acknowledgement \<Rightarrow> string option \<Rightarrow> pydict option \<Rightarrow> pydict \<Rightarrow> resolution_source
     \<Rightarrow> ('w processor, write_result option) prog" where
  "write_generalization env dev acknowledgement failure_id linked memory_row source =
     (let rid = rs_resolution_id source in
      bindP (run_call GeneralizeCall (fa_generalize (ve_agent env) memory_row)) (\<lambda>generalized.
      bindP (liftP (dispatched_actions source)) (\<lambda>actions.
      seqP (guardP (list_all2 py_eq actions (gr_actions generalized)) ReasoningErr)
      (bindP (liftP (memory_draft_of source generalized)) (\<lambda>draft.
       bindP (run_call (WriteCall dev draft) (mm_write (the_store env dev) draft)) (\<lambda>result.
       seqP (record_write rid result)
       (seqP (if acknowledgement = Claimed then mark_memory_ingested env failure_id rid (wr_commit_sha result)
              else (case wr_commit_sha result of
                  Some sha \<Rightarrow> if wr_changed result \<and> is_ingested_memory_ack linked rid
                    then refresh_memory_ingested env failure_id rid sha (memory_ack_commit linked)
                    else returnP ()
                | None \<Rightarrow> returnP ()))
          (returnP (Some result)))))))))"

definition ingest_resolution ::
  "'w resolver_env \<Rightarrow> acknowledgement \<Rightarrow> string option \<Rightarrow> pydict option \<Rightarrow> pydict
     \<Rightarrow> ('w processor, write_result option) prog" where
  "ingest_resolution env acknowledgement failure_id linked row =
     bindP (liftP (resolution_with_failure_context row linked)) (\<lambda>episode_row.
     let memory_row = row_with_successful_actions episode_row in
     bindP (store_for env memory_row) (\<lambda>dev.
     bindP (liftP (resolution_source_from_row (ve_sha env) (PDict memory_row))) (\<lambda>source.
     bindP (run_call (HashCall dev (rs_resolution_id source))
         (mm_has_source_hash (the_store env dev) (rs_resolution_id source) (rs_source_hash source) True)) (\<lambda>known.
       if known then acknowledge_existing env dev acknowledgement failure_id linked (rs_resolution_id source)
       else write_generalization env dev acknowledgement failure_id linked memory_row source))))"

definition learn_resolution :: "'w resolver_env \<Rightarrow> string \<Rightarrow> ('w processor, write_result option) prog" where
  "learn_resolution env resolution_id =
     bindP (fetch_row env (ve_resolutions env) ''resolution_id'' resolution_id) (\<lambda>fetched.
     seqP (count (\<lambda>rv. rv\<lparr>rv_resolutions_observed := rv_resolutions_observed rv + 1,
         rv_last_resolution_id := Some resolution_id\<rparr>))
     (case fetched of
        None \<Rightarrow> seqP skip_resolution (returnP None)
      | Some row \<Rightarrow>
          if \<not> is_positive_demonstration row then seqP skip_resolution (returnP None)
          else
            (let failure_id = safe_identifier (dget row ''failure_id'') in
             bindP (case failure_id of None \<Rightarrow> returnP None
                 | Some fid \<Rightarrow> fetch_row env (ve_failure_events env) ''failure_id'' fid) (\<lambda>linked.
             bindP (claim_memory_ingestion env failure_id resolution_id linked) (\<lambda>acknowledgement.
             if acknowledgement = OwnedElsewhere then seqP skip_resolution (returnP None)
             else catchP (ingest_resolution env acknowledgement failure_id linked row) (\<lambda>e.
               if e = CancelledErr then throwP e
               else seqP (count (\<lambda>rv. rv\<lparr>rv_memory_errors := rv_memory_errors rv + 1\<rparr>))
                 (seqP (if acknowledgement = Claimed
                        then catchP (mark_memory_failed env failure_id resolution_id)
                          (\<lambda>inner. if inner = CancelledErr then throwP inner else returnP ())
                        else returnP ()) (throwP e))))))))"

definition pending_memory_resolution :: "'w resolver_env \<Rightarrow> string \<Rightarrow> ('w processor, string option) prog" where
  "pending_memory_resolution env failure_id =
     bindP (fetch_row env (ve_failure_events env) ''failure_id'' failure_id) (\<lambda>fetched.
       returnP (case fetched of
           None \<Rightarrow> None
         | Some row \<Rightarrow> if normalized_text (dget row ''memory_status'') \<noteq> ''pending'' then None
             else safe_identifier (dget row ''memory_resolution_id'')))"

end
