(* ===== verification/Resolver_Trace.thy ===== *)
theory Resolver_Trace
  imports Resolver
begin

text \<open>
  What the processor writes: the updates of a run among its calls, the operations that write
  nothing, and the rules by which a matched failure is match_settled.
\<close>

section \<open>Updates\<close>

definition updates :: "'w processor \<Rightarrow> (table_query \<times> pydict) list" where
  "updates s = List.map_filter (\<lambda>c. case c of UpdateCall q v \<Rightarrow> Some (q, v) | _ \<Rightarrow> None) (vp_log s)"

definition unchanged :: "'w processor \<Rightarrow> 'w processor \<Rightarrow> bool" where
  "unchanged s t \<longleftrightarrow> updates t = updates s \<and> vp_state t = vp_state s"

text \<open>A still program updates no row and counts nothing.\<close>

definition still :: "('w processor, 'a) prog \<Rightarrow> bool" where
  "still m \<longleftrightarrow> (\<forall>s. preserves (unchanged s) m)"

named_theorems still_rules \<open>programs that write nothing\<close>

lemma stillD: "still m \<Longrightarrow> m s = (r, t) \<Longrightarrow> unchanged s t"
  unfolding still_def by (erule allE [of _ s], erule preservesD) (simp_all add: unchanged_def)

lemma stillI: "(\<And>s r t. m s = (r, t) \<Longrightarrow> unchanged s t) \<Longrightarrow> still m"
  unfolding still_def preserves_def unchanged_def by (metis surj_pair snd_conv)

lemma still_bind [still_rules]: "still m \<Longrightarrow> (\<And>a. still (f a)) \<Longrightarrow> still (bindP m f)"
  unfolding still_def by (blast intro: preserves_intros)

lemma still_seq [still_rules]: "still m \<Longrightarrow> still k \<Longrightarrow> still (seqP m k)"
  unfolding still_def by (blast intro: preserves_intros)

lemma still_simple [still_rules]:
  "still (returnP a)" "still (throwP e)" "still (liftP r)" "still (getsP f)" "still (guardP b e)"
  unfolding still_def guardP_def by (auto intro: preserves_intros)

lemma still_if [still_rules]: "still m \<Longrightarrow> still k \<Longrightarrow> still (if b then m else k)"
  by simp

lemma still_case [still_rules]:
  "still m \<Longrightarrow> (\<And>x. still (f x)) \<Longrightarrow> still (case v of None \<Rightarrow> m | Some x \<Rightarrow> f x)"
  by (simp split: option.split)

lemma still_case_sum [still_rules]:
  "(\<And>x. still (f x)) \<Longrightarrow> (\<And>x. still (g x)) \<Longrightarrow> still (case v of Inl x \<Rightarrow> f x | Inr x \<Rightarrow> g x)"
  by (simp split: sum.split)

lemma updates_call:
  "updates (s\<lparr>vp_world := w, vp_log := vp_log s @ [c]\<rparr>) =
     updates s @ (case c of UpdateCall q v \<Rightarrow> [(q, v)] | _ \<Rightarrow> [])"
  by (simp add: updates_def map_filter_def split: resolver_call.split)

lemma still_call [still_rules]: "(\<And>q v. c \<noteq> UpdateCall q v) \<Longrightarrow> still (run_call c m)"
  by (rule stillI) (auto simp: run_call_def unchanged_def updates_call split: prod.splits resolver_call.splits)

lemma still_client [still_rules]: "still (required_client env)"
  unfolding required_client_def by (intro still_rules)

lemma still_fetch [still_rules]: "still (fetch_row env table id_column record_id)"
  unfolding fetch_row_def by (intro still_rules) simp

lemma still_store_for [still_rules]: "still (store_for env row)"
  unfolding store_for_def Let_def by (intro still_rules)

lemma still_without_revoked [still_rules]: "still (without_revoked env documents)"
  unfolding without_revoked_def Let_def by (intro still_rules) simp

lemma still_browse [still_rules]: "still (browse_loop env corpus documents failure turns b)"
proof (induction turns arbitrary: b)
  case (Suc turns)
  show ?case unfolding browse_loop.simps by (intro still_rules Suc) simp
qed (simp add: still_rules)

lemma still_retrieve [still_rules]: "still (retrieve_memory_choice env failure documents)"
  unfolding retrieve_memory_choice_def by (intro still_rules) simp

section \<open>Settling a failure\<close>

definition matcher_update :: "'w resolver_env \<Rightarrow> row_filter list \<Rightarrow> pydict \<Rightarrow> table_query \<times> pydict" where
  "matcher_update env filters values = (\<lparr>tq_table = ve_failure_events env, tq_columns = [], tq_filters = filters,
     tq_order = None, tq_limit = None\<rparr>, values)"

definition claim_update :: "'w resolver_env \<Rightarrow> string \<Rightarrow> table_query \<times> pydict" where
  "claim_update env failure_id = matcher_update env [FilterEq ''failure_id'' (PStr failure_id),
     FilterEq ''matcher_status'' (PStr ''pending''), FilterEq ''analysis_status'' (PStr ''completed'')] claim_values"

definition finish_update ::
  "'w resolver_env \<Rightarrow> string \<Rightarrow> string \<Rightarrow> string \<Rightarrow> pydict option \<Rightarrow> table_query \<times> pydict" where
  "finish_update env failure_id status message suggestion = matcher_update env
     [FilterEq ''failure_id'' (PStr failure_id), FilterEq ''matcher_status'' (PStr ''matching'')]
     (finish_values status message suggestion)"

text \<open>An update is either not sent (the client is gone), or sent and answered or refused.\<close>

lemma update_rows_run:
  "update_rows env filters values s = (r, t) \<Longrightarrow> vp_state t = vp_state s \<and>
     (updates t = updates s @ [matcher_update env filters values] \<or> (updates t = updates s \<and> r = Inl ConnectionErr))"
  by (auto simp: update_rows_def Let_def required_client_def guardP_def prog_defs run_call_def updates_call
      matcher_update_def split: prod.splits sum.splits if_splits)

definition match_settled ::
  "'w resolver_env \<Rightarrow> string \<Rightarrow> 'w processor \<Rightarrow> failure_match option \<Rightarrow> 'w processor \<Rightarrow> bool" where
  "match_settled env failure_id s m t \<longleftrightarrow> (\<exists>message.
     (case m of
        None \<Rightarrow> updates t = updates s @ [finish_update env failure_id ''no_solution'' message None] \<and>
          vp_state t = (vp_state s)\<lparr>rv_no_solution := rv_no_solution (vp_state s) + 1\<rparr>
      | Some found \<Rightarrow> updates t = updates s @
            [finish_update env failure_id ''solution_found'' message (Some (suggestion_of found))] \<and>
          vp_state t = (vp_state s)\<lparr>rv_solutions_found := rv_solutions_found (vp_state s) + 1\<rparr>))"

definition match_unsettled :: "'w resolver_env \<Rightarrow> string \<Rightarrow> 'w processor \<Rightarrow> 'w processor \<Rightarrow> bool" where
  "match_unsettled env failure_id s t \<longleftrightarrow> vp_state t = vp_state s \<and>
     (updates t = updates s \<or>
      (\<exists>status message suggestion. updates t = updates s @ [finish_update env failure_id status message suggestion]))"

text \<open>What holds of a run: it match_settled the failure, or it raised without counting anything.\<close>

definition settles :: "'w resolver_env \<Rightarrow> string \<Rightarrow> ('w processor, failure_match option) prog \<Rightarrow> bool" where
  "settles env failure_id m \<longleftrightarrow> (\<forall>s r t. m s = (r, t) \<longrightarrow>
     (case r of Inr found \<Rightarrow> match_settled env failure_id s found t | Inl e \<Rightarrow> match_unsettled env failure_id s t))"

lemma settlesD:
  "settles env failure_id m \<Longrightarrow> m s = (Inr found, t) \<Longrightarrow> match_settled env failure_id s found t"
  "settles env failure_id m \<Longrightarrow> m s = (Inl e, t) \<Longrightarrow> match_unsettled env failure_id s t"
  by (force simp: settles_def)+

lemma unchanged_same:
  assumes "unchanged s u"
  shows "match_settled env failure_id u = match_settled env failure_id s"
    and "match_unsettled env failure_id u = match_unsettled env failure_id s"
proof -
  from assms have u: "updates u = updates s" "vp_state u = vp_state s" by (simp_all add: unchanged_def)
  show "match_settled env failure_id u = match_settled env failure_id s"
    and "match_unsettled env failure_id u = match_unsettled env failure_id s"
    unfolding match_settled_def match_unsettled_def u by simp_all
qed

lemma settles_still:
  assumes "still m" "\<And>a. settles env failure_id (f a)" shows "settles env failure_id (bindP m f)"
  unfolding settles_def
proof (intro allI impI)
  fix s r t
  assume run: "bindP m f s = (r, t)"
  obtain q u where q: "m s = (q, u)" by (cases "m s")
  have u: "unchanged s u" by (rule stillD [OF assms(1) q])
  show "case r of Inr found \<Rightarrow> match_settled env failure_id s found t | Inl e \<Rightarrow> match_unsettled env failure_id s t"
  proof (cases q)
    case (Inl e)
    with q run u show ?thesis by (auto simp: bindP_def match_unsettled_def unchanged_def)
  next
    case (Inr a)
    with q run have "f a u = (r, t)" by (simp add: bindP_def)
    then show ?thesis
      using settlesD [OF assms(2), of a u] unchanged_same [OF u] by (cases r) simp_all
  qed
qed

lemma settles_throw: "settles env failure_id (throwP e)"
  by (auto simp: settles_def throwP_def match_unsettled_def)

lemma settles_if:
  "settles env failure_id m \<Longrightarrow> settles env failure_id k \<Longrightarrow> settles env failure_id (if b then m else k)"
  by simp

lemma finish_failure_run:
  "finish_failure env failure_id status message suggestion s = (r, t) \<Longrightarrow> vp_state t = vp_state s \<and>
     (updates t = updates s @ [finish_update env failure_id status message suggestion] \<or>
      (updates t = updates s \<and> r = Inl ConnectionErr))"
  unfolding finish_failure_def seqP_def bindP_def finish_update_def
  by (auto simp: returnP_def split: prod.splits sum.splits dest!: update_rows_run)

lemma finish_then_count:
  assumes "(seqP (finish_failure env failure_id status message suggestion) (seqP (count f) (returnP a))) s = (r, t)"
  shows "case r of
      Inr b \<Rightarrow> b = a \<and> updates t = updates s @ [finish_update env failure_id status message suggestion] \<and>
        vp_state t = f (vp_state s)
    | Inl e \<Rightarrow> match_unsettled env failure_id s t"
proof -
  obtain q u where q: "finish_failure env failure_id status message suggestion s = (q, u)"
    by (cases "finish_failure env failure_id status message suggestion s")
  note run = finish_failure_run [OF q]
  show ?thesis
  proof (cases q)
    case (Inl e)
    with assms q have "r = Inl e" "t = u" by (simp_all add: seqP_def bindP_def)
    with run show ?thesis by (auto simp: match_unsettled_def)
  next
    case (Inr x)
    with assms q have "r = Inr a" "t = u\<lparr>vp_state := f (vp_state u)\<rparr>"
      by (simp_all add: seqP_def bindP_def count_def modifyP_def returnP_def)
    with run Inr show ?thesis by (simp add: updates_def)
  qed
qed

lemma settles_no_solution: "settles env failure_id (no_solution env failure_id message)"
  unfolding settles_def no_solution_def match_settled_def
  by (auto dest!: finish_then_count split: sum.splits)

lemma settles_publish: "settles env failure_id (publish_match env failure_id row choice selected)"
proof (cases "published_actions row selected")
  case (Inl e)
  then show ?thesis by (simp add: publish_match_def settles_no_solution settles_throw)
next
  case (Inr actions)
  then show ?thesis
    unfolding settles_def publish_match_def match_settled_def Let_def
    by (auto dest!: finish_then_count split: sum.splits)
qed

lemma settles_match: "settles env failure_id (match_claimed env failure_id row dev)"
proof -
  have select: "settles env failure_id (case v of None \<Rightarrow> throwP ReasoningErr
      | Some selected \<Rightarrow> if \<not> is_safe_execution_candidate selected then throwP ReasoningErr
          else publish_match env failure_id row choice selected)" for v choice
    by (simp add: settles_throw settles_publish split: option.split)
  show ?thesis
    unfolding match_claimed_def Let_def
    by (intro settles_still settles_if settles_no_solution select still_rules) simp
qed

section \<open>A run of the matcher\<close>

definition matcher_failed :: string where
  "matcher_failed = ''The solution matcher could not complete safely.''"

text \<open>How the run ends that begins with a won claim, from the state after the claim was counted.\<close>

definition ends_claimed ::
  "'w resolver_env \<Rightarrow> string \<Rightarrow> 'w processor \<Rightarrow> failure_match option result \<Rightarrow> 'w processor \<Rightarrow> bool" where
  "ends_claimed env failure_id s r t \<longleftrightarrow>
     (case r of
        Inr found \<Rightarrow> match_settled env failure_id s found t
      | Inl e \<Rightarrow>
          (unchanged s t \<and> (\<exists>row u. store_for env row u = (Inl e, t))) \<or>
          (e = CancelledErr \<and> match_unsettled env failure_id s t) \<or>
          (vp_state t = (vp_state s)\<lparr>rv_match_errors := rv_match_errors (vp_state s) + 1\<rparr> \<and>
           (\<exists>rest. updates t = updates s @ rest \<and>
             (e = ConnectionErr \<or> rest \<noteq> [] \<and> last rest = finish_update env failure_id ''failed'' matcher_failed None))))"

lemma handler_run:
  assumes "(seqP (count (\<lambda>rv. rv\<lparr>rv_match_errors := rv_match_errors rv + 1\<rparr>))
      (seqP (finish_failure env failure_id ''failed'' matcher_failed None) (throwP e))) u = (r, t)"
    and "match_unsettled env failure_id s u"
  shows "\<exists>e'. r = Inl e' \<and> ends_claimed env failure_id s r t"
proof -
  let ?v = "u\<lparr>vp_state := (vp_state u)\<lparr>rv_match_errors := rv_match_errors (vp_state u) + 1\<rparr>\<rparr>"
  obtain q w where q: "finish_failure env failure_id ''failed'' matcher_failed None ?v = (q, w)"
    by (cases "finish_failure env failure_id ''failed'' matcher_failed None ?v")
  obtain rest where rest: "updates u = updates s @ rest" "vp_state u = vp_state s"
    using assms(2) by (auto simp: match_unsettled_def)
  have run: "(case q of Inl e' \<Rightarrow> r = Inl e' | Inr x \<Rightarrow> r = Inl e)" "t = w"
    using assms(1) q by (auto simp: seqP_def bindP_def count_def modifyP_def throwP_def split: sum.splits)
  from finish_failure_run [OF q] have fin: "vp_state w = vp_state ?v"
    "updates w = updates ?v @ [finish_update env failure_id ''failed'' matcher_failed None] \<or>
     (updates w = updates ?v \<and> q = Inl ConnectionErr)" by simp_all
  have "updates ?v = updates u" by (simp add: updates_def)
  with fin(2) rest(1) have
    "updates w = updates s @ (rest @ [finish_update env failure_id ''failed'' matcher_failed None]) \<or>
     (updates w = updates s @ rest \<and> q = Inl ConnectionErr)" by simp
  then obtain more where "updates w = updates s @ more"
    "q = Inl ConnectionErr \<or> more \<noteq> [] \<and> last more = finish_update env failure_id ''failed'' matcher_failed None"
    by (metis append_is_Nil_conv last_snoc list.distinct(1))
  then show ?thesis
    using run fin(1) rest(2) by (cases q) (auto simp: ends_claimed_def)
qed

lemma claimed_run:
  assumes "(bindP (store_for env row) (\<lambda>dev.
      catchP (match_claimed env failure_id row dev) (\<lambda>e.
        if e = CancelledErr then throwP e
        else seqP (count (\<lambda>rv. rv\<lparr>rv_match_errors := rv_match_errors rv + 1\<rparr>))
          (seqP (finish_failure env failure_id ''failed'' matcher_failed None) (throwP e))))) s = (r, t)"
  shows "ends_claimed env failure_id s r t"
proof -
  obtain q u where q: "store_for env row s = (q, u)" by (cases "store_for env row s")
  have u: "unchanged s u" by (rule stillD [OF still_store_for q])
  show ?thesis
  proof (cases q)
    case (Inl e)
    with assms q have "r = Inl e" "t = u" by (simp_all add: bindP_def)
    with u q Inl show ?thesis by (auto simp: ends_claimed_def)
  next
    case (Inr dev)
    obtain p v where p: "match_claimed env failure_id row dev u = (p, v)"
      by (cases "match_claimed env failure_id row dev u")
    note same = unchanged_same [OF u]
    note run = assms [unfolded bindP_def q Inr prod.case sum.case catchP_def p]
    show ?thesis
    proof (cases p)
      case (Inr found)
      with run have "r = Inr found" "t = v" by simp_all
      with settlesD(1) [OF settles_match p [unfolded Inr]] same show ?thesis by (simp add: ends_claimed_def)
    next
      case (Inl e)
      from settlesD(2) [OF settles_match p [unfolded Inl]] same have un: "match_unsettled env failure_id s v" by simp
      show ?thesis
      proof (cases "e = CancelledErr")
        case True
        with run Inl have "r = Inl CancelledErr" "t = v" by (simp_all add: throwP_def)
        with un show ?thesis by (simp add: ends_claimed_def)
      next
        case False
        with run Inl have "(seqP (count (\<lambda>rv. rv\<lparr>rv_match_errors := rv_match_errors rv + 1\<rparr>))
          (seqP (finish_failure env failure_id ''failed'' matcher_failed None) (throwP e))) v = (r, t)" by simp
        from handler_run [OF this un] show ?thesis by blast
      qed
    qed
  qed
qed

lemma count_then: "seqP (count f) k s = k (s\<lparr>vp_state := f (vp_state s)\<rparr>)"
  by (simp add: seqP_def bindP_def count_def modifyP_def)

lemma claim_failure_run:
  "claim_failure env failure_id s = (r, t) \<Longrightarrow> vp_state t = vp_state s \<and>
     (updates t = updates s @ [claim_update env failure_id] \<or> (updates t = updates s \<and> r = Inl ConnectionErr))"
  unfolding claim_failure_def bindP_def claim_update_def
  by (auto simp: returnP_def split: prod.splits sum.splits dest!: update_rows_run)

definition count_claim :: "string \<Rightarrow> resolver_state \<Rightarrow> resolver_state" where
  "count_claim failure_id rv = rv\<lparr>rv_failures_claimed := rv_failures_claimed rv + 1, rv_last_failure_id := Some failure_id\<rparr>"

text \<open>What a run does once it knows the row of a pending failure.\<close>

definition claim_and_match :: "'w resolver_env \<Rightarrow> string \<Rightarrow> pydict \<Rightarrow> ('w processor, failure_match option) prog" where
  "claim_and_match env failure_id row = bindP (claim_failure env failure_id) (\<lambda>claimed.
     if \<not> claimed then skip_failure
     else seqP (count (count_claim failure_id))
       (bindP (store_for env row) (\<lambda>dev.
        catchP (match_claimed env failure_id row dev) (\<lambda>e.
          if e = CancelledErr then throwP e
          else seqP (count (\<lambda>rv. rv\<lparr>rv_match_errors := rv_match_errors rv + 1\<rparr>))
            (seqP (finish_failure env failure_id ''failed'' matcher_failed None) (throwP e))))))"

lemma skip_failure_run: "skip_failure s = (r, t) \<Longrightarrow>
    rv_failures_claimed (vp_state t) = rv_failures_claimed (vp_state s) \<and> updates t = updates s \<and> r = Inr None"
  by (auto simp: skip_failure_def prog_defs count_def updates_def)

text \<open>
  A run either wins no claim, and then returns no match and counts no claim, or it wins the claim and
  ends as above.
\<close>

definition match_run :: "'w resolver_env \<Rightarrow> string \<Rightarrow> 'w processor \<Rightarrow> failure_match option result \<Rightarrow> 'w processor \<Rightarrow> bool" where
  "match_run env failure_id s r t \<longleftrightarrow>
     (rv_failures_claimed (vp_state t) = rv_failures_claimed (vp_state s) \<and> (\<forall>m. r \<noteq> Inr (Some m)) \<and>
       (updates t = updates s \<or> updates t = updates s @ [claim_update env failure_id])) \<or>
     (\<exists>u. updates u = updates s @ [claim_update env failure_id] \<and>
        vp_state u = count_claim failure_id (vp_state s) \<and> ends_claimed env failure_id u r t)"

lemma claim_and_match_run:
  assumes "claim_and_match env failure_id row s = (r, t)"
  shows "match_run env failure_id s r t"
proof -
  obtain p w where p: "claim_failure env failure_id s = (p, w)" by (cases "claim_failure env failure_id s")
  note claim = claim_failure_run [OF p]
  note tried = assms [unfolded claim_and_match_def]
  show ?thesis
  proof (cases p)
    case (Inl e)
    with tried p have "r = Inl e" "t = w" by (simp_all add: bindP_def)
    with claim show ?thesis by (auto simp: match_run_def)
  next
    case (Inr claimed)
    with claim have w: "updates w = updates s @ [claim_update env failure_id]" "vp_state w = vp_state s" by simp_all
    show ?thesis
    proof (cases claimed)
      case False
      with tried p Inr have "skip_failure w = (r, t)" by (simp add: bindP_def)
      from skip_failure_run [OF this] w show ?thesis by (simp add: match_run_def)
    next
      case True
      let ?u = "w\<lparr>vp_state := count_claim failure_id (vp_state w)\<rparr>"
      have "updates ?u = updates w" by (simp add: updates_def)
      moreover have "ends_claimed env failure_id ?u r t"
        by (rule claimed_run [of env row failure_id])
          (use tried p Inr True in \<open>simp add: bindP_def [of "claim_failure _ _"] count_then\<close>)
      ultimately show ?thesis using w unfolding match_run_def by (intro disjI2 exI [of _ ?u]) simp
    qed
  qed
qed

lemma process_match_run:
  assumes "process_failure_match env failure_id s = (r, t)"
  shows "match_run env failure_id s r t"
proof -
  obtain q v where q: "fetch_row env (ve_failure_events env) ''failure_id'' failure_id s = (q, v)"
    by (cases "fetch_row env (ve_failure_events env) ''failure_id'' failure_id s")
  have v: "updates v = updates s" "vp_state v = vp_state s"
    using stillD [OF still_fetch q] by (simp_all add: unchanged_def)
  have run: "(case q of Inl e \<Rightarrow> (Inl e, v) | Inr fetched \<Rightarrow> (case fetched of None \<Rightarrow> skip_failure
     | Some row \<Rightarrow>
         if normalized_text (dget row ''matcher_status'') \<noteq> ''pending'' then skip_failure
         else if normalized_text (dget row ''analysis_status'') \<noteq> ''completed'' then skip_failure
         else claim_and_match env failure_id row) v) = (r, t)"
    using assms q unfolding process_failure_match_def bindP_def [of "fetch_row _ _ _ _"] claim_and_match_def
      count_claim_def matcher_failed_def by simp
  consider (failed) e where "r = Inl e" "t = v" | (skipped) "skip_failure v = (r, t)"
    | (tried) row where "claim_and_match env failure_id row v = (r, t)"
    using run by (auto split: sum.splits option.splits if_splits)
  then have "match_run env failure_id v r t"
  proof cases
    case skipped
    from skip_failure_run [OF this] show ?thesis by (simp add: match_run_def)
  qed (simp_all add: match_run_def claim_and_match_run [unfolded match_run_def])
  with v show ?thesis by (simp add: match_run_def)
qed

end
