(* ===== verification/Resolver_Match.thy ===== *)
theory Resolver_Match
  imports Resolver_Trace
begin

text \<open>
  Where a published match comes from: the row, the store and its index, the revocations, the
  browsing of the agent, and the actions. The browsing is a step system whose invariant holds its
  budgets.
\<close>

section \<open>Documents by their resolution\<close>

lemma by_resolution_snoc:
  "by_resolution (documents @ [d]) = AList.update (doc_resolution_id d) d (by_resolution documents)"
  by (simp add: by_resolution_def)

lemma update_members: "set (AList.update k v al) \<subseteq> insert (k, v) (set al)"
  by (induction al) auto

lemma update_fsts: "fst ` set (AList.update k v al) = insert k (fst ` set al)"
  using dom_update [of k v al] by (simp add: dom_map_of_conv_image_fst)

lemma by_resolution_members:
  "(k, d) \<in> set (by_resolution documents) \<Longrightarrow> d \<in> set documents \<and> k = doc_resolution_id d"
proof (induction documents rule: rev_induct)
  case (snoc e documents)
  then have "(k, d) = (doc_resolution_id e, e) \<or> (k, d) \<in> set (by_resolution documents)"
    unfolding by_resolution_snoc using update_members by fast
  with snoc.IH show ?case by auto
qed (simp add: by_resolution_def)

lemma by_resolution_keys:
  "fst ` set (by_resolution documents) = doc_resolution_id ` set documents"
  "distinct (map fst (by_resolution documents))"
  by (induction documents rule: rev_induct)
    (simp_all add: by_resolution_snoc update_fsts distinct_update, simp_all add: by_resolution_def)

lemma by_resolution_lookup:
  "map_of (by_resolution documents) k = Some d \<Longrightarrow> d \<in> set documents \<and> k = doc_resolution_id d"
  by (auto dest!: map_of_SomeD by_resolution_members)

lemma selected_document_in: "selected_document (choice, documents) = Some d \<Longrightarrow> d \<in> set documents"
  by (simp add: selected_document_def by_resolution_lookup)

section \<open>Browsing\<close>

text \<open>
  The corpus is the index over the documents. Its identifiers need no stripping, as the canonical
  texts of UUIDs do not.
\<close>

definition browse_corpus :: "indexed_memory list \<Rightarrow> (string \<times> memory_document) list \<Rightarrow> bool" where
  "browse_corpus corpus documents \<longleftrightarrow> list_all (\<lambda>k. strip k = k) (memory_ids corpus) \<and>
     set (memory_ids corpus) \<subseteq> fst ` set documents"

definition markdown_chars :: "indexed_memory list \<Rightarrow> string \<Rightarrow> int" where
  "markdown_chars corpus k = rr_count (read_of corpus k)"

definition browse_inv :: "indexed_memory list \<Rightarrow> (string \<times> memory_document) list \<Rightarrow> browse \<Rightarrow> bool" where
  "browse_inv corpus documents b \<longleftrightarrow>
     distinct (map fst (br_read b)) \<and> plen (br_read b) \<le> max_read_documents \<and>
     0 \<le> br_searches b \<and> br_searches b \<le> max_search_calls \<and>
     set (map fst (br_read b)) \<subseteq> set (br_discovered b) \<and>
     set (br_discovered b) \<subseteq> set (memory_ids corpus) \<and>
     (\<forall>(k, d) \<in> set (br_read b). map_of documents k = Some d) \<and>
     br_chars b = (\<Sum>k \<leftarrow> map fst (br_read b). markdown_chars corpus k) \<and>
     br_chars b \<le> max_total_read_chars"

definition browse_step ::
  "indexed_memory list \<Rightarrow> (string \<times> memory_document) list \<Rightarrow> pydict \<Rightarrow> browse \<Rightarrow> browse \<Rightarrow> bool" where
  "browse_step corpus documents failure b b' \<longleftrightarrow>
     (\<exists>step. browse_turn corpus documents failure step b = Inr (Inr b'))"

lemma search_hits_known:
  assumes "search corpus query hints limit = Inr hits" shows "sr_id ` set hits \<subseteq> set (memory_ids corpus)"
proof -
  obtain nq qt hs n ranked where p: "validated_query query = Inr (nq, qt)" "validated_hints hints = Inr hs"
    "limit = PInt n" "1 \<le> n" "n \<le> max_search_results" "mapE (rank_entry nq qt hs) corpus = Inr ranked"
    "hits = map (search_result_of nq qt) (take (nat n) (sort_key rank_key ranked))"
    by (rule search_parts [OF assms])
  have corpus: "corpus = map rk_entry ranked" by (rule ranked_entries [OF p(6), symmetric])
  show ?thesis unfolding p(7) corpus memory_ids_def
    by (auto simp: search_result_of_def dest!: in_set_takeD)
qed

lemma update_absent: "k \<notin> fst ` set al \<Longrightarrow> AList.update k v al = al @ [(k, v)]"
  by (induction al) auto

lemma add_reads:
  assumes "distinct ks" "set ks \<inter> fst ` set found = {}" "set ks \<subseteq> fst ` set documents"
  shows "fold (add_read documents) (map (read_of corpus) ks) found =
    found @ map (\<lambda>k. (k, the (map_of documents k))) ks"
  using assms
proof (induction ks arbitrary: found)
  case (Cons k ks)
  from Cons.prems(3) obtain d where "map_of documents k = Some d"
    by (metis list.set_intros(1) map_of_eq_None_iff not_None_eq subsetD)
  moreover from this have "add_read documents (read_of corpus k) found = found @ [(k, d)]"
    using Cons.prems(2) by (simp add: add_read_def read_of_def Let_def update_absent)
  moreover have "fold (add_read documents) (map (read_of corpus) ks) (found @ [(k, d)]) =
      (found @ [(k, d)]) @ map (\<lambda>k. (k, the (map_of documents k))) ks"
    using Cons.prems by (intro Cons.IH) auto
  ultimately show ?case by simp
qed simp

lemma requested_ids:
  assumes "validated_memory_ids (PList (map PStr ks)) = Inr ids" "list_all (\<lambda>k. strip k = k) ks"
  shows "ids = ks \<and> distinct ks"
proof -
  from validated_ids_props [of "[]" "map PStr ks" ids] assms(1)
  have "distinct ids" "list_all2 (\<lambda>v k. \<exists>s. v = PStr s \<and> k = strip s \<and> k \<noteq> []) (map PStr ks) ids"
    by (auto simp: validated_memory_ids_def)
  then have "list_all2 (\<lambda>s k. k = strip s) ks ids" by (auto simp: list_all2_map1 elim: list_all2_mono)
  with assms(2) have "ids = ks" by (auto simp: list_all2_conv_all_nth list_all_length intro!: nth_equalityI)
  with \<open>distinct ids\<close> show ?thesis by simp
qed

lemma browse_inv_observe [simp]: "browse_inv corpus documents (observe x b) = browse_inv corpus documents b"
  by (simp add: browse_inv_def observe_def)

lemma read_turn_inv:
  assumes inv: "browse_inv corpus documents b" and corpus: "browse_corpus corpus documents"
    and turn: "read_turn corpus documents wanted b = Inr (Inr b')"
  shows "browse_inv corpus documents b'"
proof (cases "filter (\<lambda>k. k \<notin> fst ` set (br_read b)) wanted = []")
  case True
  with inv turn show ?thesis by (auto simp: read_turn_def)
next
  case False
  let ?ks = "filter (\<lambda>k. k \<notin> fst ` set (br_read b)) wanted"
  from turn False obtain got where disc: "set ?ks \<subseteq> set (br_discovered b)"
    and budget: "plen ?ks \<le> max_read_documents - plen (br_read b)"
    and got: "read corpus (PList (map PStr ?ks)) (PInt (max_read_documents - plen (br_read b)))
      (PInt (max_total_read_chars - br_chars b)) = Inr got"
    and b': "br_read b' = fold (add_read documents) got (br_read b)"
      "br_chars b' = br_chars b + (\<Sum>r \<leftarrow> got. plen (rr_markdown r))"
      "br_searches b' = br_searches b" "br_discovered b' = br_discovered b"
    by (auto simp: read_turn_def Let_def observe_def split: if_splits sum.splits)
  have ids: "set ?ks \<subseteq> set (memory_ids corpus)" using disc inv by (auto simp: browse_inv_def)
  then have canon: "list_all (\<lambda>k. strip k = k) ?ks" "set ?ks \<subseteq> fst ` set documents"
    using corpus by (auto simp: browse_corpus_def list_all_iff)
  from got [unfolded read_Inr_iff] obtain ids cb where
    v: "validated_memory_ids (PList (map PStr ?ks)) = Inr ids" and g: "got = map (read_of corpus) ids"
    and chars: "(\<Sum>k \<leftarrow> ids. rr_count (read_of corpus k)) \<le> max_total_read_chars - br_chars b" by auto
  from requested_ids [OF v canon(1)] have eq: "ids = ?ks" and dist: "distinct ?ks" by simp_all
  have reads: "br_read b' = br_read b @ map (\<lambda>k. (k, the (map_of documents k))) ?ks"
    unfolding b'(1) g eq by (rule add_reads [OF dist _ canon(2)]) auto
  have count: "plen (rr_markdown (read_of corpus k)) = markdown_chars corpus k" for k
    by (simp add: markdown_chars_def read_of_def Let_def)
  have found: "map_of documents k = Some (the (map_of documents k))" if "k \<in> set ?ks" for k
    using canon(2) that by (metis map_of_eq_None_iff option.collapse subsetD)
  have "br_chars b' = br_chars b + (\<Sum>k \<leftarrow> ?ks. markdown_chars corpus k)"
    unfolding b'(2) g eq by (simp add: comp_def count)
  then show ?thesis
    using inv disc budget dist chars [folded markdown_chars_def] found
    unfolding browse_inv_def reads b'(3,4) eq by (auto simp: comp_def plen_def)
qed

lemma browse_turn_inv:
  assumes "browse_inv corpus documents b" "browse_corpus corpus documents"
    and "browse_turn corpus documents failure step b = Inr (Inr b')"
  shows "browse_inv corpus documents b'"
proof (cases step)
  case (SearchStep query)
  with assms(3) obtain hits where hits: "search corpus (PStr query) (PDict (failure_retrieval_values failure))
      (PInt max_search_results) = Inr hits" "br_searches b < max_search_calls"
    and b': "br_discovered b' = br_discovered b @ map sr_id hits" "br_searches b' = br_searches b + 1"
    "br_read b' = br_read b" "br_chars b' = br_chars b"
    by (auto simp: browse_turn_def search_turn_def observe_def result_simps split: if_splits)
  from search_hits_known [OF hits(1)] assms(1) hits(2) show ?thesis
    unfolding browse_inv_def b' by auto
next
  case (ReadStep wanted)
  with assms read_turn_inv show ?thesis by (simp add: browse_turn_def)
next
  case (FinishStep choice)
  with assms(1,3) show ?thesis
    by (auto simp: browse_turn_def finish_turn_def split: if_splits)
qed

lemma start_browse_inv: "browse_inv corpus documents (start_browse found)"
  by (simp add: browse_inv_def start_browse_def plen_def max_read_documents_def max_search_calls_def
      max_total_read_chars_def)

interpretation browsing: step_system "\<lambda>b. \<exists>found. b = start_browse found \<and> browse_corpus corpus documents"
    "browse_step corpus documents failure" "\<lambda>b. browse_inv corpus documents b \<and> browse_corpus corpus documents"
  for corpus documents failure
  by unfold_locales (auto simp: browse_step_def intro: start_browse_inv browse_turn_inv)

text \<open>How browsing ends: after a number of turns, in a reachable state.\<close>

definition turn_calls :: "'w processor \<Rightarrow> nat" where
  "turn_calls s = length (filter (\<lambda>c. c = TurnCall) (vp_log s))"

lemma browse_loop_ends:
  assumes "browse_loop env corpus documents failure turns b s = (Inr (choice, got), t)"
  shows "\<exists>b'. (browse_step corpus documents failure)\<^sup>*\<^sup>* b b' \<and> got = map snd (br_read b') \<and>
    (mc_decision choice = ApplyMemory \<longrightarrow> (\<exists>k \<in> fst ` set (br_read b'). mc_memory_id choice = Some k)) \<and>
    turn_calls t \<le> turn_calls s + turns"
  using assms
proof (induction turns arbitrary: b s)
  case 0
  then show ?case by (auto simp: returned retrieval_no_solution_def intro!: exI [of _ b])
next
  case (Suc turns)
  from Suc.prems obtain turn u x where u: "run_call TurnCall (fa_next_turn (ve_agent env) failure (br_observations b)) s = (Inr turn, u)"
    and x: "browse_turn corpus documents failure (tr_step turn) b = Inr x"
    and rest: "(case x of Inl finished \<Rightarrow> returnP finished
        | Inr b' \<Rightarrow> browse_loop env corpus documents failure turns b') u = (Inr (choice, got), t)"
    by (auto simp: returned)
  have calls: "turn_calls u = turn_calls s + 1"
    using u by (auto simp: run_call_def turn_calls_def split: prod.splits)
  show ?case
  proof (cases x)
    case (Inl finished)
    with rest have t: "finished = (choice, got)" "t = u" by (auto simp: returned)
    from x [unfolded Inl t(1)] have "got = map snd (br_read b) \<and>
      (mc_decision choice = ApplyMemory \<longrightarrow> (\<exists>k \<in> fst ` set (br_read b). mc_memory_id choice = Some k))"
      by (auto simp: browse_turn_def search_turn_def read_turn_def finish_turn_def retrieval_no_solution_def
          Let_def result_simps split: retrieval_step.splits if_splits sum.splits option.splits)
    with calls t(2) show ?thesis by (intro exI [of _ b]) simp
  next
    case (Inr b1)
    with rest have "browse_loop env corpus documents failure turns b1 u = (Inr (choice, got), t)" by simp
    from Suc.IH [OF this] obtain b' where b': "(browse_step corpus documents failure)\<^sup>*\<^sup>* b1 b'"
      "got = map snd (br_read b')" "mc_decision choice = ApplyMemory \<longrightarrow> (\<exists>k \<in> fst ` set (br_read b'). mc_memory_id choice = Some k)"
      "turn_calls t \<le> turn_calls u + turns" by blast
    moreover have "browse_step corpus documents failure b b1" using x Inr by (auto simp: browse_step_def)
    ultimately show ?thesis using calls by (intro exI [of _ b']) (auto intro: converse_rtranclp_into_rtranclp)
  qed
qed

section \<open>The choice of a memory\<close>

text \<open>Every document that is handed back is one of those supplied.\<close>

definition reads_from :: "(string \<times> memory_document) list \<Rightarrow> (string \<times> memory_document) list \<Rightarrow> bool" where
  "reads_from documents found \<longleftrightarrow> (\<forall>(k, d) \<in> set found. map_of documents k = Some d)"

lemma reads_from_add: "reads_from documents found \<Longrightarrow> reads_from documents (add_read documents r found)"
  using update_members [of "rr_id r" _ found]
  by (fastforce simp: reads_from_def add_read_def split: option.split)

lemma reads_from_fold: "reads_from documents found \<Longrightarrow> reads_from documents (fold (add_read documents) got found)"
  by (induction got arbitrary: found) (auto intro: reads_from_add)

lemma browse_turn_reads:
  assumes "reads_from documents (br_read b)" "browse_turn corpus documents failure step b = Inr (Inr b')"
  shows "reads_from documents (br_read b')"
  using assms
  by (auto simp: browse_turn_def search_turn_def read_turn_def finish_turn_def observe_def Let_def result_simps
      intro: reads_from_fold split: retrieval_step.splits if_splits sum.splits)

lemma browse_steps_reads:
  "(browse_step corpus documents failure)\<^sup>*\<^sup>* b b' \<Longrightarrow> reads_from documents (br_read b) \<Longrightarrow> reads_from documents (br_read b')"
  by (induction rule: rtranclp_induct) (auto simp: browse_step_def intro: browse_turn_reads)

lemma reads_from_documents:
  "reads_from (by_resolution documents) found \<Longrightarrow> snd ` set found \<subseteq> set documents"
  by (fastforce simp: reads_from_def dest: by_resolution_lookup)

text \<open>The two ways a choice is made.\<close>

lemma retrieve_cases:
  assumes "retrieve_memory_choice env failure documents s = (Inr (choice, got), t)"
  obtains (browsed) corpus where
      "build_index (by_resolution documents) (PInt max_index_documents) (PInt max_index_chars) = Inr corpus"
      "browse_loop env corpus (by_resolution documents) failure max_retrieval_turns (start_browse documents) s = (Inr (choice, got), t)"
    | (read_all) corpus auto rs answer w where
      "build_index (by_resolution documents) (PInt max_index_documents) (PInt max_index_chars) = Inr corpus"
      "auto_read_eligibility corpus (PInt max_read_documents) (PInt max_total_read_chars) = Inr auto" "ar_eligible auto"
      "read corpus (PTuple (map PStr (ar_ids auto))) (PInt max_read_documents) (PInt max_total_read_chars) = Inr rs"
      "fa_choose (ve_agent env) failure (map (\<lambda>r. (rr_id r, rr_markdown r)) rs) (vp_world s) = (Inr answer, w)"
      "choice = cr_choice answer" "got = map snd (fold (add_read (by_resolution documents)) rs [])"
      "turn_calls t = turn_calls s"
proof -
  let ?docs = "by_resolution documents"
  from assms obtain corpus auto where c: "build_index ?docs (PInt max_index_documents) (PInt max_index_chars) = Inr corpus"
    and a: "auto_read_eligibility corpus (PInt max_read_documents) (PInt max_total_read_chars) = Inr auto"
    and rest: "(if ar_eligible auto \<and> ar_ids auto \<noteq> []
       then bindP (liftP (read corpus (PTuple (map PStr (ar_ids auto))) (PInt max_read_documents)
                (PInt max_total_read_chars))) (\<lambda>got.
            bindP (run_call ChooseCall (fa_choose (ve_agent env) failure
                (map (\<lambda>r. (rr_id r, rr_markdown r)) got))) (\<lambda>answer.
              returnP (cr_choice answer, map snd (fold (add_read ?docs) got []))))
       else browse_loop env corpus ?docs failure max_retrieval_turns (start_browse documents)) s = (Inr (choice, got), t)"
    unfolding retrieve_memory_choice_def returned by blast
  show ?thesis
  proof (cases "ar_eligible auto \<and> ar_ids auto \<noteq> []")
    case False
    with rest c browsed show ?thesis by simp
  next
    case True
    with rest obtain rs answer where "read corpus (PTuple (map PStr (ar_ids auto))) (PInt max_read_documents)
        (PInt max_total_read_chars) = Inr rs"
      "run_call ChooseCall (fa_choose (ve_agent env) failure (map (\<lambda>r. (rr_id r, rr_markdown r)) rs)) s = (Inr answer, t)"
      "choice = cr_choice answer" "got = map snd (fold (add_read ?docs) rs [])"
      by (auto simp: returned)
    moreover from this(2) obtain w where "fa_choose (ve_agent env) failure (map (\<lambda>r. (rr_id r, rr_markdown r)) rs) (vp_world s) = (Inr answer, w)"
      "turn_calls t = turn_calls s"
      by (auto simp: run_call_def turn_calls_def split: prod.splits)
    ultimately show ?thesis using read_all [OF c a] True by blast
  qed
qed

lemma retrieve_documents:
  assumes "retrieve_memory_choice env failure documents s = (Inr (choice, got), t)"
  shows "set got \<subseteq> set documents"
  using assms
proof (cases rule: retrieve_cases)
  case (browsed corpus)
  from browse_loop_ends [OF browsed(2)] obtain b' where
    "(browse_step corpus (by_resolution documents) failure)\<^sup>*\<^sup>* (start_browse documents) b'"
    "got = map snd (br_read b')" by blast
  with browse_steps_reads [OF this(1)] reads_from_documents [of documents "br_read b'"] show ?thesis
    by (simp add: start_browse_def reads_from_def)
next
  case (read_all corpus auto rs answer w)
  have "reads_from (by_resolution documents) (fold (add_read (by_resolution documents)) rs [])"
    by (rule reads_from_fold) (simp add: reads_from_def)
  with reads_from_documents read_all(7) show ?thesis by simp
qed

lemma corpus_of_documents:
  assumes "build_index (by_resolution documents) m c = Inr corpus"
    and "\<forall>d \<in> set documents. strip (doc_resolution_id d) = doc_resolution_id d"
  shows "browse_corpus corpus (by_resolution documents)" "distinct (memory_ids corpus)"
proof -
  have ids: "set (memory_ids corpus) \<subseteq> doc_resolution_id ` set documents"
    unfolding build_index_documents(3) [OF assms(1)] using by_resolution_members by fast
  then show "browse_corpus corpus (by_resolution documents)"
    using assms(2) by (auto simp: browse_corpus_def list_all_iff by_resolution_keys(1))
  show "distinct (memory_ids corpus)" by (rule build_index_entries(4) [OF assms(1)])
qed

text \<open>The bounds of what a choice rests on.\<close>

definition within_read_budget :: "indexed_memory list \<Rightarrow> memory_document list \<Rightarrow> memory_document list \<Rightarrow> bool" where
  "within_read_budget corpus documents got \<longleftrightarrow> set got \<subseteq> set documents \<and>
     distinct (map doc_resolution_id got) \<and> plen got \<le> max_read_documents \<and>
     (\<Sum>d \<leftarrow> got. markdown_chars corpus (doc_resolution_id d)) \<le> max_total_read_chars"

lemma reads_within_budget:
  assumes "reads_from (by_resolution documents) found" "distinct (map fst found)"
    "plen found \<le> max_read_documents" "(\<Sum>k \<leftarrow> map fst found. markdown_chars corpus k) \<le> max_total_read_chars"
  shows "within_read_budget corpus documents (map snd found)"
proof -
  have keys: "map doc_resolution_id (map snd found) = map fst found"
    using assms(1) by (auto simp: reads_from_def dest!: by_resolution_lookup)
  have "map (\<lambda>d. markdown_chars corpus (doc_resolution_id d)) (map snd found) =
      map (markdown_chars corpus) (map doc_resolution_id (map snd found))" by simp
  then have sums: "(\<Sum>d \<leftarrow> map snd found. markdown_chars corpus (doc_resolution_id d)) =
      (\<Sum>k \<leftarrow> map fst found. markdown_chars corpus k)" by (simp only: keys)
  have len: "plen (map snd found) = plen found" by (simp add: plen_def)
  have "distinct (map doc_resolution_id (map snd found))" unfolding keys by (rule assms(2))
  with sums len assms(3,4) reads_from_documents [OF assms(1)] show ?thesis
    unfolding within_read_budget_def by (simp del: map_map)
qed

lemma choice_within_budget:
  assumes "retrieve_memory_choice env failure documents s = (Inr (choice, got), t)"
    and "\<forall>d \<in> set documents. strip (doc_resolution_id d) = doc_resolution_id d"
  shows "\<exists>corpus. build_index (by_resolution documents) (PInt max_index_documents) (PInt max_index_chars) = Inr corpus \<and>
    within_read_budget corpus documents got \<and> turn_calls t \<le> turn_calls s + max_retrieval_turns"
  using assms(1)
proof (cases rule: retrieve_cases)
  case (browsed corpus)
  note corpus = corpus_of_documents [OF browsed(1) assms(2)]
  from browse_loop_ends [OF browsed(2)] obtain b' where
    steps: "(browse_step corpus (by_resolution documents) failure)\<^sup>*\<^sup>* (start_browse documents) b'"
    and got: "got = map snd (br_read b')" and calls: "turn_calls t \<le> turn_calls s + max_retrieval_turns" by blast
  have inv: "browse_inv corpus (by_resolution documents) b'"
    using browsing.inv_reachable [OF _ steps] corpus(1) by blast
  then have "within_read_budget corpus documents (map snd (br_read b'))"
    by (intro reads_within_budget) (auto simp: browse_inv_def reads_from_def)
  with browsed(1) got calls show ?thesis by blast
next
  case (read_all corpus auto rs answer w)
  note corpus = corpus_of_documents [OF read_all(1) assms(2)]
  from read_all(4) [unfolded read_Inr_iff] obtain ids cb where
    v: "validated_memory_ids (PTuple (map PStr (ar_ids auto))) = Inr ids" and ids: "plen ids \<le> max_read_documents"
    "set ids \<subseteq> set (memory_ids corpus)" "(\<Sum>k \<leftarrow> ids. rr_count (read_of corpus k)) \<le> max_total_read_chars"
    "rs = map (read_of corpus) ids" by auto
  have dist: "distinct ids"
    using v validated_ids_props [of "[]" "map PStr (ar_ids auto)" ids] by (simp add: validated_memory_ids_def)
  let ?found = "map (\<lambda>k. (k, the (map_of (by_resolution documents) k))) ids"
  have known: "set ids \<subseteq> fst ` set (by_resolution documents)" using ids(2) corpus(1) by (auto simp: browse_corpus_def)
  have found: "fold (add_read (by_resolution documents)) rs [] = ?found"
    unfolding ids(4) using add_reads [OF dist _ known, of "[]"] by simp
  have "reads_from (by_resolution documents) (fold (add_read (by_resolution documents)) rs [])"
    by (rule reads_from_fold) (simp add: reads_from_def)
  with dist ids(1,3) have "within_read_budget corpus documents (map snd ?found)"
    unfolding found by (intro reads_within_budget) (simp_all add: plen_def comp_def markdown_chars_def)
  with read_all(1,7,8) found show ?thesis by simp
qed

text \<open>With an agent that keeps to what it is offered, a memory that is to be applied was read.\<close>

lemma chosen_was_read:
  assumes "retrieve_memory_choice env failure documents s = (Inr (choice, got), t)"
    and "ve_agent env = openai_agent client" and "mc_decision choice = ApplyMemory"
    and "\<forall>d \<in> set documents. strip (doc_resolution_id d) = doc_resolution_id d"
  shows "\<exists>d \<in> set got. mc_memory_id choice = Some (doc_resolution_id d)"
  using assms(1)
proof (cases rule: retrieve_cases)
  case (browsed corpus)
  from browse_loop_ends [OF browsed(2)] assms(3) obtain b' k where
    steps: "(browse_step corpus (by_resolution documents) failure)\<^sup>*\<^sup>* (start_browse documents) b'"
    and got: "got = map snd (br_read b')" and k: "k \<in> fst ` set (br_read b')" "mc_memory_id choice = Some k" by blast
  then obtain d where d: "(k, d) \<in> set (br_read b')" by auto
  have "reads_from (by_resolution documents) (br_read b')"
    using browse_steps_reads [OF steps] by (simp add: start_browse_def reads_from_def)
  with d have "k = doc_resolution_id d" by (auto simp: reads_from_def dest: by_resolution_lookup)
  with d k(2) got show ?thesis by force
next
  case (read_all corpus auto rs answer w)
  note corpus = corpus_of_documents [OF read_all(1) assms(4)]
  have "choose_memory client failure (map (\<lambda>r. (rr_id r, rr_markdown r)) rs) (vp_world s) = (Inr answer, w)"
    using read_all(5) assms(2) by (simp add: openai_agent_def)
  from openai.chosen_of [OF this] read_all(6) assms(3) obtain k where
    k: "k \<in> set (map rr_id rs)" "mc_memory_id choice = Some k" by auto
  from read_all(4) [unfolded read_Inr_iff] obtain ids where
    v: "validated_memory_ids (PTuple (map PStr (ar_ids auto))) = Inr ids"
    and ids: "set ids \<subseteq> set (memory_ids corpus)" "rs = map (read_of corpus) ids" by auto
  have dist: "distinct ids"
    using v validated_ids_props [of "[]" "map PStr (ar_ids auto)" ids] by (simp add: validated_memory_ids_def)
  have known: "set ids \<subseteq> fst ` set (by_resolution documents)" using ids(1) corpus(1) by (auto simp: browse_corpus_def)
  have "k \<in> set ids" using k(1) ids(2) by (auto simp: read_of_def Let_def)
  with known obtain d where d: "map_of (by_resolution documents) k = Some d"
    by (metis map_of_eq_None_iff not_None_eq subsetD)
  have "got = map snd (map (\<lambda>k. (k, the (map_of (by_resolution documents) k))) ids)"
    unfolding read_all(7) ids(2) using add_reads [OF dist _ known, of "[]"] by simp
  with \<open>k \<in> set ids\<close> d have "d \<in> set got" by force
  with d k(2) show ?thesis by (auto dest: by_resolution_lookup)
qed

end
