(* ===== verification/Resolver_Properties.thy ===== *)
theory Resolver_Properties
  imports Resolver_Match Retrieval_Properties Recovery_Demo
begin

text \<open>What the matcher of \<^verbatim>\<open>src/resolver.py\<close> promises.\<close>

section \<open>A concrete resolver\<close>

text \<open>
  One failure, one memory, and an agent that chooses it. The routing of the robot answers from a
  given table: a production robot, or no client.
\<close>

definition demo_memory :: memory_document where
  "demo_memory = (demo_document ''m1'' ''lift'')\<lparr>doc_actions :=
     map (\<lambda>a. PDict (a @ [(''status'', PStr ''sent'')])) demo_actions\<rparr>"

definition demo_event :: pydict where
  "demo_event = [(''failure_id'', PStr ''e1''), (''matcher_status'', PStr ''pending''),
     (''analysis_status'', PStr ''completed''), (''sysid'', PStr ''R1''), (''flow_id'', PStr ''f1''),
     (''action_index'', PInt 1), (''action_command'', PStr ''grasp''),
     (''flow_snapshot'', PDict (demo_flow ''paused'' 1))]"

definition demo_tables :: "bool \<Rightarrow> 'w supabase" where
  "demo_tables routed = \<lparr>sb_rpc = (\<lambda>n a. throwP ConnectionErr),
     sb_select = (\<lambda>q. if tq_table q = ''events'' then returnP (PList [PDict demo_event])
        else if tq_table q = ''robots'' then
          (if routed then returnP (PList [PDict [(''production'', PBool True)]]) else throwP TimeoutErr)
        else returnP (PList [])),
     sb_update = (\<lambda>q v. returnP (PList [PDict v])), sb_now = (\<lambda>w. ''now'')\<rparr>"

definition demo_choice :: memory_choice where
  "demo_choice = \<lparr>mc_decision = ApplyMemory, mc_memory_id = Some ''m1'', mc_confidence = FFin 1, mc_reason = ''same step''\<rparr>"

definition demo_model :: "'w model_client" where
  "demo_model = \<lparr>ml_parse = (\<lambda>q. returnP \<lparr>mr_parsed = Some PNone, mr_model = ''m'', mr_id = ''r'',
        mr_input_tokens = None, mr_output_tokens = None\<rparr>),
     ml_choice = (\<lambda>v. Some demo_choice), ml_step = (\<lambda>v. Some (FinishStep demo_choice)),
     ml_generalization = (\<lambda>v. None)\<rparr>"

definition demo_store :: "(string \<times> memory_document) list \<Rightarrow> 'w markdown_store" where
  "demo_store index = \<lparr>mm_rebuild_index = (\<lambda>r. returnP index), mm_has_source_hash = (\<lambda>k h r. returnP False),
     mm_latest_commit = (\<lambda>k r. returnP None), mm_write = (\<lambda>d. throwP ConnectionErr)\<rparr>"

definition demo_resolver :: "bool \<Rightarrow> 'w resolver_env" where
  "demo_resolver routed = \<lparr>ve_client = demo_tables routed, ve_connected = (\<lambda>w. True),
     ve_agent = openai_agent demo_model, ve_store = demo_store [(''m1'', demo_memory)],
     ve_dev_store = Some (demo_store []), ve_failure_events = ''events'', ve_resolutions = ''resolutions'',
     ve_sha = (\<lambda>t. t), ve_error_text = (\<lambda>e. [])\<rparr>"

definition demo_processor :: "nat processor" where
  "demo_processor = \<lparr>vp_world = 0, vp_state = new_resolver_state, vp_known = [], vp_log = []\<rparr>"

section \<open>The parts of a run that publishes\<close>

lemma returned_call [simp]:
  "run_call c m s = (Inr a, t) \<longleftrightarrow>
     (\<exists>w. m (vp_world s) = (Inr a, w) \<and> t = s\<lparr>vp_world := w, vp_log := vp_log s @ [c]\<rparr>)"
  by (auto simp: run_call_def split: prod.splits)

lemma returned_client [simp]: "required_client env s = (Inr u, t) \<longleftrightarrow> ve_connected env (vp_world s) \<and> t = s"
  by (auto simp: required_client_def returned returned_guard)

lemma caught_never:
  assumes "catchP m h s = (Inr a, t)" "\<And>e u. h e u \<noteq> (Inr a, t)"
  shows "m s = (Inr a, t)"
  using assms by (auto simp: catchP_def split: prod.splits sum.splits)

lemma raises_again: "(seqP m (seqP k (throwP e))) u \<noteq> (Inr a, t)"
  by (simp add: returned)

text \<open>The store a row is routed to: the production store serves known production robots only.\<close>

lemma store_for_production:
  assumes "store_for env row s = (Inr False, t)" "ve_dev_store env \<noteq> None"
  shows "\<exists>sysid robot. sysid = strip (py_str (dget row ''sysid'')) \<and> sysid \<noteq> [] \<and>
    fetch_row env ''robots'' ''sysid'' sysid s = (Inr (Some robot), t) \<and> is_true (dget robot ''production'')"
  using assms by (auto simp: store_for_def Let_def returned split: option.splits if_splits)

definition not_revoked :: "pyval \<Rightarrow> string \<Rightarrow> bool" where
  "not_revoked data k \<longleftrightarrow> (\<forall>row \<in> set (response_rows data). k \<noteq> [] \<longrightarrow> dget row ''resolution_id'' \<noteq> PStr k)"

lemma response_rows_members: "row \<in> set (response_rows data) \<Longrightarrow> \<exists>rows. data = PList rows \<and> PDict row \<in> set rows"
  by (cases data) (auto simp: response_rows_def map_filter_def as_dict_def split: pyval.splits)

lemma revoked_ids_listed:
  assumes "revoked_ids data = Inr revoked" "row \<in> set (response_rows data)" "truthy (dget row ''resolution_id'')"
  shows "dget row ''resolution_id'' \<in> set revoked"
proof -
  from assms(2) obtain rows where rows: "data = PList rows" "PDict row \<in> set rows"
    using response_rows_members by blast
  then have "truthy data" by auto
  with assms(1) rows(1) obtain ks where ks: "mapE revoked_id rows = Inr ks" "revoked = filter truthy ks"
    by (auto simp: revoked_ids_def result_simps)
  then obtain k where "k \<in> set ks" "revoked_id (PDict row) = Inr k"
    using rows(2) by (force simp: mapE_eq_Inr list_all2_conv_all_nth in_set_conv_nth)
  then show ?thesis using ks(2) assms(3) by (auto simp: revoked_id_def as_dict_def result_simps)
qed

lemma without_revoked_returned:
  assumes "without_revoked env documents s = (Inr kept, t)" "selected \<in> set kept"
  shows "selected \<in> set documents \<and> (\<exists>data w. sb_select (ve_client env) (revocation_query env documents) (vp_world s) = (Inr data, w) \<and>
    not_revoked data (doc_resolution_id selected))"
proof -
  from assms obtain data w revoked where data: "sb_select (ve_client env) (revocation_query env documents) (vp_world s) = (Inr data, w)"
    and revoked: "revoked_ids data = Inr revoked"
    and kept: "kept = filter (\<lambda>document. PStr (doc_resolution_id document) \<notin> set revoked) documents"
    by (cases "documents = []") (auto simp add: without_revoked_def returned)
  have "not_revoked data (doc_resolution_id selected)"
    unfolding not_revoked_def
  proof (intro ballI impI notI)
    fix row
    assume "row \<in> set (response_rows data)" "doc_resolution_id selected \<noteq> []"
      and row: "dget row ''resolution_id'' = PStr (doc_resolution_id selected)"
    with revoked_ids_listed [OF revoked, of row] assms(2) show False unfolding kept by simp
  qed
  with data assms(2) kept show ?thesis by auto
qed

lemma publish_returned:
  assumes "publish_match env failure_id row choice selected s = (Inr (Some m), t)"
  shows "fm_failure_id m = failure_id \<and> fm_memory_id m = doc_resolution_id selected \<and>
    fm_suggested_fix m = suggested_fix_text selected \<and> published_actions row selected = Inr (fm_actions m)"
  using assms
  by (auto simp: publish_match_def no_solution_def Let_def returned split: sum.splits if_splits)

lemma match_claimed_returned:
  assumes "match_claimed env failure_id row dev s = (Inr (Some m), t)"
  shows "\<exists>index w data w'. mm_rebuild_index (the_store env dev) True (vp_world s) = (Inr index, w) \<and>
    sb_select (ve_client env) (revocation_query env (filter is_safe_execution_candidate (map snd index))) w = (Inr data, w') \<and>
    (\<exists>selected \<in> snd ` set index. is_safe_execution_candidate selected \<and>
       not_revoked data (doc_resolution_id selected) \<and> fm_failure_id m = failure_id \<and>
       fm_memory_id m = doc_resolution_id selected \<and> fm_suggested_fix m = suggested_fix_text selected \<and>
       published_actions row selected = Inr (fm_actions m))"
proof -
  from assms obtain index w kept s1 where index: "mm_rebuild_index (the_store env dev) True (vp_world s) = (Inr index, w)"
    and kept: "without_revoked env (filter is_safe_execution_candidate (map snd index))
      (s\<lparr>vp_world := w, vp_log := vp_log s @ [IndexCall dev]\<rparr>) = (Inr kept, s1)"
    and rest: "(if kept = [] then no_solution env failure_id ''No applicable recovery memory is available.''
       else bindP (retrieve_memory_choice env (failure_with_location_context row) kept) (\<lambda>retrieval.
         let choice = fst retrieval in
         if mc_decision choice = NoSolution
         then no_solution env failure_id (''No applicable solution: '' @ mc_reason choice)
         else (case selected_document retrieval of
             None \<Rightarrow> throwP ReasoningErr
           | Some selected \<Rightarrow>
               if \<not> is_safe_execution_candidate selected then throwP ReasoningErr
               else publish_match env failure_id row choice selected))) s1 = (Inr (Some m), t)"
    unfolding match_claimed_def by (auto simp only: returned returned_call)
  from rest obtain choice got s2 selected where
    r: "retrieve_memory_choice env (failure_with_location_context row) kept s1 = (Inr (choice, got), s2)"
    and sel: "selected_document (choice, got) = Some selected" "is_safe_execution_candidate selected"
    and p: "publish_match env failure_id row choice selected s2 = (Inr (Some m), t)"
    by (auto simp: returned no_solution_def Let_def split: if_splits option.splits)
  have "selected \<in> set kept" using selected_document_in [OF sel(1)] retrieve_documents [OF r] by blast
  from without_revoked_returned [OF kept this] publish_returned [OF p] sel(2) index show ?thesis by fastforce
qed

lemma process_match_returned:
  assumes "process_failure_match env failure_id s = (Inr (Some m), t)"
  shows "\<exists>row s1 s2 dev s3. fetch_row env (ve_failure_events env) ''failure_id'' failure_id s = (Inr (Some row), s1) \<and>
    normalized_text (dget row ''matcher_status'') = ''pending'' \<and>
    normalized_text (dget row ''analysis_status'') = ''completed'' \<and>
    claim_failure env failure_id s1 = (Inr True, s2) \<and>
    store_for env row (s2\<lparr>vp_state := count_claim failure_id (vp_state s2)\<rparr>) = (Inr dev, s3) \<and>
    match_claimed env failure_id row dev s3 = (Inr (Some m), t)"
proof -
  from assms obtain fetched s1 where f: "fetch_row env (ve_failure_events env) ''failure_id'' failure_id s = (Inr fetched, s1)"
    and run: "(case fetched of None \<Rightarrow> skip_failure
     | Some row \<Rightarrow>
         if normalized_text (dget row ''matcher_status'') \<noteq> ''pending'' then skip_failure
         else if normalized_text (dget row ''analysis_status'') \<noteq> ''completed'' then skip_failure
         else bindP (claim_failure env failure_id) (\<lambda>claimed.
           if \<not> claimed then skip_failure
           else seqP (count (count_claim failure_id))
             (bindP (store_for env row) (\<lambda>dev.
              catchP (match_claimed env failure_id row dev) (\<lambda>e.
                if e = CancelledErr then throwP e
                else seqP (count (\<lambda>rv. rv\<lparr>rv_match_errors := rv_match_errors rv + 1\<rparr>))
                  (seqP (finish_failure env failure_id ''failed'' matcher_failed None) (throwP e))))))) s1 = (Inr (Some m), t)"
    unfolding process_failure_match_def count_claim_def matcher_failed_def by (auto simp only: returned_bind)
  have skip: "skip_failure u \<noteq> (Inr (Some m), v)" for u v :: "'a processor"
    by (simp add: skip_failure_def returned)
  from run skip obtain row where row: "fetched = Some row"
    "normalized_text (dget row ''matcher_status'') = ''pending''" "normalized_text (dget row ''analysis_status'') = ''completed''"
    by (auto split: option.splits if_splits)
  from run row obtain claimed s2 where c: "claim_failure env failure_id s1 = (Inr claimed, s2)"
    and run2: "(if \<not> claimed then skip_failure
           else seqP (count (count_claim failure_id))
             (bindP (store_for env row) (\<lambda>dev.
              catchP (match_claimed env failure_id row dev) (\<lambda>e.
                if e = CancelledErr then throwP e
                else seqP (count (\<lambda>rv. rv\<lparr>rv_match_errors := rv_match_errors rv + 1\<rparr>))
                  (seqP (finish_failure env failure_id ''failed'' matcher_failed None) (throwP e)))))) s2 = (Inr (Some m), t)"
    by (auto simp: returned_bind)
  from run2 skip have claimed by (cases claimed) auto
  with c have won: "claim_failure env failure_id s1 = (Inr True, s2)" by simp
  from run2 \<open>claimed\<close> obtain dev s3 where "store_for env row (s2\<lparr>vp_state := count_claim failure_id (vp_state s2)\<rparr>) = (Inr dev, s3)"
    and body: "catchP (match_claimed env failure_id row dev) (\<lambda>e.
                if e = CancelledErr then throwP e
                else seqP (count (\<lambda>rv. rv\<lparr>rv_match_errors := rv_match_errors rv + 1\<rparr>))
                  (seqP (finish_failure env failure_id ''failed'' matcher_failed None) (throwP e))) s3 = (Inr (Some m), t)"
    by (auto simp: count_then returned_bind)
  moreover have "match_claimed env failure_id row dev s3 = (Inr (Some m), t)"
    by (rule caught_never [OF body]) (simp add: returned raises_again)
  ultimately show ?thesis using f [unfolded row(1)] won row(2,3) by blast
qed

section \<open>Provenance\<close>

text \<open>Published actions that resume the run are executable on the captured Flow.\<close>

lemma published_plan_is_executable:
  assumes "published_actions row selected = Inr actions"
    and "dget (last (map suggestion_action (document_actions selected))) ''command'' \<in> {PStr ''$rerun'', PStr ''$resume_flow''}"
  shows "\<exists>plan pointer index command args. parse_recovery_plan (PTuple (map PDict actions)) = Inr plan \<and>
    parse_flow_pointer (dget row ''flow_snapshot'') 0 0 = Some pointer \<and>
    dget row ''action_index'' = PInt index \<and> dget row ''action_command'' = PStr command \<and>
    expected_step plan = (Some index, Some command) \<and> resume_arguments_for_plan plan pointer = Inr args"
proof -
  from assms obtain captured flow_id index command where
    row: "dget row ''flow_snapshot'' = PDict captured" "required_recovery_index row ''action_index'' = Inr index"
    "required_recovery_text row ''action_command'' = Inr command"
    and rebound: "rebind_recovery_actions (map suggestion_action (document_actions selected)) captured flow_id index command = Inr actions"
    by (auto simp: published_actions_def Let_def result_simps split: pyval.splits)
  have "dget row ''action_index'' = PInt index" "dget row ''action_command'' = PStr command"
    using row(2,3) by (auto simp: required_recovery_index_def required_recovery_text_def result_simps split: pyval.splits)
  with rebind_recovery_actions_sound [OF rebound] row(1) show ?thesis by auto
qed

text \<open>
  C4. A match that is published answers a failure that was read as pending and analysed and whose
  claim was won. Its memory was found in the index of the store the row is routed to, is a safe
  execution candidate and was not among the resolutions answered as revoked; its actions are those
  remembered there, and when they resume the run they parse as a plan that names the failed step and
  can be resumed from the captured Flow. The only updates are the claim and the published suggestion.
\<close>

theorem published_match_is_traceable:
  assumes "process_failure_match env failure_id s = (Inr (Some m), t)"
  shows "\<exists>row s1 s2 dev s3 index w data w' selected message.
    fetch_row env (ve_failure_events env) ''failure_id'' failure_id s = (Inr (Some row), s1) \<and>
    normalized_text (dget row ''matcher_status'') = ''pending'' \<and>
    normalized_text (dget row ''analysis_status'') = ''completed'' \<and>
    claim_failure env failure_id s1 = (Inr True, s2) \<and>
    store_for env row (s2\<lparr>vp_state := count_claim failure_id (vp_state s2)\<rparr>) = (Inr dev, s3) \<and>
    mm_rebuild_index (the_store env dev) True (vp_world s3) = (Inr index, w) \<and>
    sb_select (ve_client env) (revocation_query env (filter is_safe_execution_candidate (map snd index))) w = (Inr data, w') \<and>
    selected \<in> snd ` set index \<and> is_safe_execution_candidate selected \<and>
    not_revoked data (doc_resolution_id selected) \<and>
    fm_memory_id m = doc_resolution_id selected \<and> published_actions row selected = Inr (fm_actions m) \<and>
    (dget (last (map suggestion_action (document_actions selected))) ''command'' \<in> {PStr ''$rerun'', PStr ''$resume_flow''} \<longrightarrow>
      (\<exists>plan pointer index command args. parse_recovery_plan (PTuple (map PDict (fm_actions m))) = Inr plan \<and>
         parse_flow_pointer (dget row ''flow_snapshot'') 0 0 = Some pointer \<and>
         dget row ''action_index'' = PInt index \<and> dget row ''action_command'' = PStr command \<and>
         expected_step plan = (Some index, Some command) \<and>
         resume_arguments_for_plan plan pointer = Inr args)) \<and>
    updates t = updates s @ [claim_update env failure_id,
      finish_update env failure_id ''solution_found'' message (Some (suggestion_of m))]"
proof -
  from process_match_returned [OF assms] obtain row s1 s2 dev s3 where
    a: "fetch_row env (ve_failure_events env) ''failure_id'' failure_id s = (Inr (Some row), s1)"
    "normalized_text (dget row ''matcher_status'') = ''pending''"
    "normalized_text (dget row ''analysis_status'') = ''completed''"
    "claim_failure env failure_id s1 = (Inr True, s2)"
    "store_for env row (s2\<lparr>vp_state := count_claim failure_id (vp_state s2)\<rparr>) = (Inr dev, s3)"
    and body: "match_claimed env failure_id row dev s3 = (Inr (Some m), t)" by blast
  from match_claimed_returned [OF body] obtain index w data w' selected where
    b: "mm_rebuild_index (the_store env dev) True (vp_world s3) = (Inr index, w)"
    "sb_select (ve_client env) (revocation_query env (filter is_safe_execution_candidate (map snd index))) w = (Inr data, w')"
    "selected \<in> snd ` set index" "is_safe_execution_candidate selected"
    "not_revoked data (doc_resolution_id selected)"
    "fm_memory_id m = doc_resolution_id selected" "published_actions row selected = Inr (fm_actions m)" by blast
  obtain message where c: "updates t = updates s @ [claim_update env failure_id,
      finish_update env failure_id ''solution_found'' message (Some (suggestion_of m))]"
    using process_match_run [OF assms, unfolded match_run_def] by (auto simp: ends_claimed_def match_settled_def)
  show ?thesis
    by (intro exI [of _ row] exI [of _ s1] exI [of _ s2] exI [of _ dev] exI [of _ s3] exI [of _ index]
        exI [of _ w] exI [of _ data] exI [of _ w'] exI [of _ selected] exI [of _ message] conjI impI
        a b c published_plan_is_executable [OF b(7)])
qed

lemma published_match_is_traceable_witness:
  "\<exists>m t. process_failure_match (demo_resolver True) ''e1'' demo_processor = (Inr (Some m), t) \<and>
     fm_memory_id m = ''m1'' \<and> length (updates t) = 2"
proof -
  have "case process_failure_match (demo_resolver True) ''e1'' demo_processor of
      (Inr (Some m), t) \<Rightarrow> fm_memory_id m = ''m1'' | _ \<Rightarrow> False"
    by code_simp
  then obtain m t where run: "process_failure_match (demo_resolver True) ''e1'' demo_processor = (Inr (Some m), t)"
    and m: "fm_memory_id m = ''m1''"
    by (auto split: prod.splits sum.splits option.splits)
  from published_match_is_traceable [OF run] have "length (updates t) = length (updates demo_processor) + 2" by auto
  with run m show ?thesis by (simp add: updates_def demo_processor_def)
qed

section \<open>Settlement\<close>

text \<open>The failures whose processing ended with one of the counted outcomes.\<close>

definition settled_count :: "resolver_state \<Rightarrow> int" where
  "settled_count rv = rv_solutions_found rv + rv_no_solution rv + rv_match_errors rv"

definition matcher_status_of :: "table_query \<times> pydict \<Rightarrow> pyval" where
  "matcher_status_of u = dget (snd u) ''matcher_status''"

lemma matcher_status_of_updates [simp]:
  "matcher_status_of (claim_update env failure_id) = PStr ''matching''"
  "matcher_status_of (finish_update env failure_id status message suggestion) = PStr status"
  by (simp_all add: matcher_status_of_def claim_update_def finish_update_def matcher_update_def claim_values_def
      finish_values_def dget_def)

text \<open>
  C11. A run of the matcher that wins a claim settles it: it returns after writing one final status
  beyond the claim, or raises after counting the error and writing the status \<open>failed\<close> last, or it
  was cancelled, or the client was gone, or the routing to a store raised. In all cases but
  cancellation and routing, the claimed failures that no counter accounts for stay as many.
\<close>

theorem claimed_failures_are_settled:
  assumes "process_failure_match env failure_id s = (r, t)"
    and "rv_failures_claimed (vp_state t) \<noteq> rv_failures_claimed (vp_state s)"
  shows "rv_failures_claimed (vp_state t) = rv_failures_claimed (vp_state s) + 1 \<and>
    (\<exists>rest. updates t = updates s @ claim_update env failure_id # rest \<and>
      ((case r of
          Inr found \<Rightarrow> map matcher_status_of rest =
            [PStr (if found = None then ''no_solution'' else ''solution_found'')]
        | Inl e \<Rightarrow> e = ConnectionErr \<or> rest \<noteq> [] \<and> matcher_status_of (last rest) = PStr ''failed'') \<and>
       rv_failures_claimed (vp_state t) - settled_count (vp_state t) =
         rv_failures_claimed (vp_state s) - settled_count (vp_state s) \<or>
       r = Inl CancelledErr \<or>
       rest = [] \<and> (\<exists>e row u. r = Inl e \<and> store_for env row u = (Inl e, t))))"
proof -
  from process_match_run [OF assms(1), unfolded match_run_def] assms(2) obtain u where
    u: "updates u = updates s @ [claim_update env failure_id]" "vp_state u = count_claim failure_id (vp_state s)"
    and ends: "ends_claimed env failure_id u r t" by blast
  show ?thesis
  proof (cases r)
    case (Inr found)
    with ends have "match_settled env failure_id u found t" by (simp add: ends_claimed_def)
    with Inr u show ?thesis
      by (cases found) (auto simp: match_settled_def count_claim_def settled_count_def)
  next
    case (Inl e)
    from ends [unfolded Inl ends_claimed_def, simplified] show ?thesis
    proof (elim disjE conjE)
      assume "unchanged u t" "\<exists>row v. store_for env row v = (Inl e, t)"
      with u Inl show ?thesis by (auto simp: unchanged_def count_claim_def)
    next
      assume "e = CancelledErr" "match_unsettled env failure_id u t"
      with u Inl show ?thesis by (auto simp: match_unsettled_def count_claim_def)
    next
      assume st: "vp_state t = (vp_state u)\<lparr>rv_match_errors := rv_match_errors (vp_state u) + 1\<rparr>"
        and "\<exists>rest. updates t = updates u @ rest \<and>
          (e = ConnectionErr \<or> rest \<noteq> [] \<and> last rest = finish_update env failure_id ''failed'' matcher_failed None)"
      then obtain rest where rest: "updates t = updates s @ claim_update env failure_id # rest"
        "e = ConnectionErr \<or> rest \<noteq> [] \<and> matcher_status_of (last rest) = PStr ''failed''"
        using u(1) by auto
      have counts: "rv_failures_claimed (vp_state t) = rv_failures_claimed (vp_state s) + 1"
        "rv_failures_claimed (vp_state t) - settled_count (vp_state t) =
         rv_failures_claimed (vp_state s) - settled_count (vp_state s)"
        by (simp_all add: st u(2) count_claim_def settled_count_def)
      show ?thesis
        by (intro conjI exI [of _ rest] disjI1) (use counts rest Inl in simp_all)
    qed
  qed
qed

lemma claimed_failures_are_settled_witness:
  "\<exists>r t. process_failure_match (demo_resolver True) ''e1'' demo_processor = (r, t) \<and>
     rv_failures_claimed (vp_state t) = 1 \<and> hd (updates t) = claim_update (demo_resolver True :: nat resolver_env) ''e1''"
proof -
  obtain r t where run: "process_failure_match (demo_resolver True) ''e1'' demo_processor = (r, t)"
    by (cases "process_failure_match (demo_resolver True) ''e1'' demo_processor")
  have "rv_failures_claimed (vp_state (snd (process_failure_match (demo_resolver True) ''e1'' demo_processor))) = 1"
    by code_simp
  with run have one: "rv_failures_claimed (vp_state t) = 1" by simp
  then have "rv_failures_claimed (vp_state t) \<noteq> rv_failures_claimed (vp_state demo_processor)"
    by (simp add: demo_processor_def new_resolver_state_def)
  from claimed_failures_are_settled [OF run this] run one show ?thesis
    by (auto simp: updates_def demo_processor_def)
qed

text \<open>
  C32. When the routing to a store raises after the claim was won, the error leaves the run with the
  row claimed and nothing else: no final status is written and no error is counted. A row that reads
  \<open>matching\<close> is skipped from then on, without an update.
\<close>

theorem routing_error_strands_the_claim:
  assumes "fetch_row env (ve_failure_events env) ''failure_id'' failure_id s = (Inr (Some row), s1)"
    and "normalized_text (dget row ''matcher_status'') = ''pending''"
    and "normalized_text (dget row ''analysis_status'') = ''completed''"
    and "claim_failure env failure_id s1 = (Inr True, s2)"
    and "store_for env row (s2\<lparr>vp_state := count_claim failure_id (vp_state s2)\<rparr>) = (Inl e, s3)"
  shows "process_failure_match env failure_id s = (Inl e, s3) \<and>
    updates s3 = updates s @ [claim_update env failure_id] \<and>
    vp_state s3 = count_claim failure_id (vp_state s) \<and>
    (\<forall>later again v. fetch_row env (ve_failure_events env) ''failure_id'' failure_id later = (Inr (Some again), v) \<and>
       normalized_text (dget again ''matcher_status'') = ''matching'' \<longrightarrow>
       (\<exists>w. process_failure_match env failure_id later = (Inr None, w) \<and> updates w = updates later))"
proof -
  let ?u = "s2\<lparr>vp_state := count_claim failure_id (vp_state s2)\<rparr>"
  have s1: "unchanged s s1" by (rule stillD [OF still_fetch assms(1)])
  have s2: "updates s2 = updates s1 @ [claim_update env failure_id]" "vp_state s2 = vp_state s1"
    using claim_failure_run [OF assms(4)] by simp_all
  have s3: "unchanged ?u s3" by (rule stillD [OF still_store_for assms(5)])
  have u: "updates ?u = updates s2" by (simp add: updates_def)
  have run: "process_failure_match env failure_id s = (Inl e, s3)"
    unfolding process_failure_match_def bindP_def [of "fetch_row _ _ _ _"] assms(1)
    using assms(2-5) by (simp add: bindP_def count_then count_claim_def)
  have later: "\<exists>w. process_failure_match env failure_id later = (Inr None, w) \<and> updates w = updates later"
    if "fetch_row env (ve_failure_events env) ''failure_id'' failure_id later = (Inr (Some again), v)"
      "normalized_text (dget again ''matcher_status'') = ''matching''" for later again v
  proof -
    have "updates v = updates later" using stillD [OF still_fetch that(1)] by (simp add: unchanged_def)
    then show ?thesis
      using that by (simp add: process_failure_match_def bindP_def skip_failure_def prog_defs count_def updates_def)
  qed
  show ?thesis
    using run s1 s2 s3 u later by (simp add: unchanged_def)
qed

lemma routing_error_strands_the_claim_witness:
  "\<exists>s3. process_failure_match (demo_resolver False) ''e1'' demo_processor = (Inl TimeoutErr, s3) \<and>
     updates s3 = [claim_update (demo_resolver False :: nat resolver_env) ''e1'']"
proof -
  have "case fetch_row (demo_resolver False) ''events'' ''failure_id'' ''e1'' demo_processor of
      (Inr (Some row), s1) \<Rightarrow> row = demo_event \<and>
        (case claim_failure (demo_resolver False) ''e1'' s1 of (Inr True, s2) \<Rightarrow>
           fst (store_for (demo_resolver False) demo_event
             (s2\<lparr>vp_state := count_claim ''e1'' (vp_state s2)\<rparr>)) = Inl TimeoutErr | _ \<Rightarrow> False)
      | _ \<Rightarrow> False"
    by code_simp
  then obtain s1 s2 where steps: "fetch_row (demo_resolver False) ''events'' ''failure_id'' ''e1'' demo_processor = (Inr (Some demo_event), s1)"
    "claim_failure (demo_resolver False) ''e1'' s1 = (Inr True, s2)"
    "fst (store_for (demo_resolver False) demo_event (s2\<lparr>vp_state := count_claim ''e1'' (vp_state s2)\<rparr>)) = Inl TimeoutErr"
    by (auto split: prod.splits sum.splits option.splits bool.splits)
  obtain s3 where s3: "store_for (demo_resolver False) demo_event (s2\<lparr>vp_state := count_claim ''e1'' (vp_state s2)\<rparr>) = (Inl TimeoutErr, s3)"
    using steps(3) by (metis prod.collapse)
  have row: "normalized_text (dget demo_event ''matcher_status'') = ''pending''"
    "normalized_text (dget demo_event ''analysis_status'') = ''completed''" by code_simp+
  have "ve_failure_events (demo_resolver False :: nat resolver_env) = ''events''" by (simp add: demo_resolver_def)
  with routing_error_strands_the_claim [of "demo_resolver False" "''e1''" demo_processor demo_event s1 s2 TimeoutErr s3] steps s3 row
  show ?thesis by (simp add: updates_def demo_processor_def)
qed

section \<open>What a choice rests on\<close>

text \<open>
  C12. The choice of a memory rests on at most four distinct memories of those supplied, of at most
  300000 characters together, and takes at most ten turns of the agent. With the agent of this
  program a memory that is to be applied is one of those that were read.
\<close>

theorem choice_rests_on_bounded_reads:
  assumes "retrieve_memory_choice env failure documents s = (Inr (choice, got), t)"
    and "ve_agent env = openai_agent client"
    and "\<forall>d \<in> set documents. strip (doc_resolution_id d) = doc_resolution_id d"
  shows "set got \<subseteq> set documents \<and> distinct (map doc_resolution_id got) \<and> plen got \<le> 4 \<and>
    (\<exists>corpus. build_index (by_resolution documents) (PInt max_index_documents) (PInt max_index_chars) = Inr corpus \<and>
       (\<Sum>d \<leftarrow> got. markdown_chars corpus (doc_resolution_id d)) \<le> 300000) \<and>
    turn_calls t \<le> turn_calls s + 10 \<and>
    (mc_decision choice = ApplyMemory \<longrightarrow> (\<exists>d \<in> set got. mc_memory_id choice = Some (doc_resolution_id d)))"
  using choice_within_budget [OF assms(1,3)] chosen_was_read [OF assms(1,2) _ assms(3)]
  by (auto simp: within_read_budget_def max_read_documents_def max_total_read_chars_def max_retrieval_turns_def)

lemma choice_rests_on_bounded_reads_witness:
  "\<exists>got t. retrieve_memory_choice (demo_resolver True) demo_event [demo_memory] demo_processor =
     (Inr (demo_choice, got), t) \<and> (\<exists>d \<in> set got. doc_resolution_id d = ''m1'')"
proof -
  have "case retrieve_memory_choice (demo_resolver True) demo_event [demo_memory] demo_processor of
      (Inr (choice, got), t) \<Rightarrow> choice = demo_choice | _ \<Rightarrow> False"
    by code_simp
  then obtain got t where run: "retrieve_memory_choice (demo_resolver True) demo_event [demo_memory] demo_processor =
      (Inr (demo_choice, got), t)"
    by (auto split: prod.splits sum.splits)
  have "\<forall>d \<in> set [demo_memory]. strip (doc_resolution_id d) = doc_resolution_id d" by code_simp
  from choice_rests_on_bounded_reads [OF run _ this, of demo_model] run show ?thesis
    by (auto simp: demo_resolver_def demo_choice_def)
qed

end
