(* ===== verification/Resolver_Learning.thy ===== *)
theory Resolver_Learning
  imports Resolver_Properties Memory_Demo
begin

text \<open>
  What the ingestion of a resolution promises: which memory it writes, and when it acknowledges the
  memory to the failure.
\<close>

section \<open>A concrete resolution\<close>

definition learn_row :: pydict where
  "learn_row = [(''resolution_id'', PStr memory_id), (''failure_id'', PStr memory_id), (''sysid'', PStr ''R1''), (''outcome'', PStr ''resolved''),
     (''applied'', PBool True), (''action_runs'', PList [PDict [(''command'', PStr ''open''), (''status'', PStr ''sent'')]])]"

definition learn_failure :: pydict where
  "learn_failure = [(''failure_id'', PStr memory_id), (''memory_status'', PStr ''pending''),
     (''memory_resolution_id'', PStr memory_id)]"

definition learn_actions :: "pyval list" where
  "learn_actions = [PDict [(''command'', PStr ''open''), (''status'', PStr ''sent'')]]"

definition learn_episode :: pydict where
  "learn_episode = (case resolution_with_failure_context learn_row (Some learn_failure) of Inr row \<Rightarrow> row | Inl _ \<Rightarrow> [])"

definition learn_payload :: pydict where
  "learn_payload =
     (case with_evidence (row_payload learn_episode memory_id (Some memory_id) ''resolved'' True) of
        Inr p \<Rightarrow> dict_of (canon (PDict (with_map learn_episode p))) | Inl _ \<Rightarrow> [])"

definition learn_source :: resolution_source where
  "learn_source = \<lparr>rs_resolution_id = memory_id, rs_failure_id = Some memory_id,
     rs_source_hash = memory_sha (json_dumps (PDict learn_payload)), rs_payload_json = json_dumps (PDict learn_payload)\<rparr>"

definition learn_result :: write_result where
  "learn_result = \<lparr>wr_resolution_id = memory_id, wr_relative_path = ''p'', wr_changed = True, wr_commit_sha = Some ''c''\<rparr>"

definition learn_answer :: generalization_result where
  "learn_answer = \<lparr>gr_generalization = \<lparr>gn_failure_pattern = ''stuck'', gn_resolution_summary = ''open'',
       gn_tags = [], gn_signature = \<lparr>fs_task_family = None, fs_failed_step = None, fs_failure_mode = None,
         fs_object_state = None, fs_context = []\<rparr>\<rparr>,
     gr_actions = learn_actions, gr_model = ''m'', gr_response_id = ''r''\<rparr>"

definition learn_env :: "nat resolver_env" where
  "learn_env = (demo_resolver True)\<lparr>
     ve_client := (demo_tables True)\<lparr>sb_select := (\<lambda>q. returnP (PList [PDict
         (if tq_table q = ''events'' then learn_failure else learn_row)]))\<rparr>,
     ve_agent := (ve_agent (demo_resolver True))\<lparr>fa_generalize := (\<lambda>row. returnP learn_answer)\<rparr>,
     ve_store := (demo_store [])\<lparr>mm_write := (\<lambda>d. returnP learn_result)\<rparr>,
     ve_dev_store := None, ve_sha := memory_sha\<rparr>"

lemma learn_row_facts:
  "is_positive_demonstration learn_row" "resolution_with_failure_context learn_row (Some learn_failure) = Inr learn_episode"
  "row_with_successful_actions learn_episode = learn_episode" "safe_identifier (dget learn_row ''failure_id'') = Some memory_id"
  "json_safe (PDict learn_episode)" "strip ''resolved'' = ''resolved''"
  "list_all2 py_eq learn_actions learn_actions"
  by code_simp+

lemma learn_payload_facts:
  "dget learn_payload ''action_runs'' = PList learn_actions" "dget learn_payload ''outcome'' = PStr ''resolved''"
  "dget learn_payload ''applied'' = PBool True"
proof -
  have "holds_of learn_payload (\<lambda>p. dget p ''action_runs'' = PList learn_actions \<and>
      dget p ''outcome'' = PStr ''resolved'' \<and> dget p ''applied'' = PBool True)"
    by code_simp
  then show "dget learn_payload ''action_runs'' = PList learn_actions" "dget learn_payload ''outcome'' = PStr ''resolved''"
    "dget learn_payload ''applied'' = PBool True"
    by (simp_all add: holds_of_def)
qed

lemma learn_source_built:
  "resolution_source_from_row memory_sha (PDict learn_episode) = Inr learn_source"
  "source_payload learn_source = Inr learn_payload"
  "dispatched_actions learn_source = Inr learn_actions"
proof -
  have "(case with_evidence (row_payload learn_episode memory_id (Some memory_id) ''resolved'' True) of Inr _ \<Rightarrow> True | Inl _ \<Rightarrow> False)"
    by code_simp
  then obtain p where p: "with_evidence (row_payload learn_episode memory_id (Some memory_id) ''resolved'' True) = Inr p"
    by (auto split: sum.splits)
  obtain c where c: "canon (PDict (with_map learn_episode p)) = PDict c" by simp
  then have pl: "learn_payload = c" using p by (simp add: learn_payload_def dict_of_def del: canon.simps)
  then have can: "canon (PDict learn_payload) = PDict learn_payload"
    using canon_canon [of "PDict (with_map learn_episode p)"] c by metis
  have checked: "checked_action_runs learn_payload = Inr learn_payload"
    using learn_payload_facts by (auto simp: checked_action_runs_def learn_actions_def is_dict_def)
  have row: "memory_uuid ResolutionRowErr (dget learn_episode ''resolution_id'') = Inr memory_id"
    "(if dget learn_episode ''failure_id'' = PNone then Inr None
      else bindE (memory_uuid ResolutionRowErr (dget learn_episode ''failure_id'')) (\<lambda>f. Inr (Some f))) = Inr (Some memory_id)"
    "dget learn_episode ''applied'' = PBool True"
    "dget learn_episode ''outcome'' = PStr ''resolved''"
    by code_simp+
  note acc = source_from_row_accepts [OF row, unfolded learn_row_facts(6), OF _ p learn_row_facts(5) c [folded pl] checked]
  show "resolution_source_from_row memory_sha (PDict learn_episode) = Inr learn_source"
    using acc(1) [of memory_sha] by (simp add: learn_source_def)
  show sp: "source_payload learn_source = Inr learn_payload"
    using acc(2) [OF _ can, of memory_sha] by (simp add: learn_source_def)
  have "has_key learn_payload ''action_runs''" using learn_payload_facts(1) not_has_key_dget by fastforce
  with sp learn_payload_facts(1) show "dispatched_actions learn_source = Inr learn_actions"
    by (simp add: dispatched_actions_def py_items_def)
qed

section \<open>Acknowledgements\<close>

definition memory_status_of :: "table_query \<times> pydict \<Rightarrow> pyval" where
  "memory_status_of u = dget (snd u) ''memory_status''"

definition acknowledges :: "(table_query \<times> pydict) list \<Rightarrow> bool" where
  "acknowledges us \<longleftrightarrow> PStr ''ingested'' \<in> memory_status_of ` set us"

text \<open>A program that appends its updates and acknowledges a memory only if \<open>Q\<close>.\<close>

definition acks_if :: "bool \<Rightarrow> ('w processor, 'a) prog \<Rightarrow> bool" where
  "acks_if Q m \<longleftrightarrow> (\<forall>s r t. m s = (r, t) \<longrightarrow> (\<exists>new. updates t = updates s @ new \<and> (acknowledges new \<longrightarrow> Q)))"

named_theorems acks_rules \<open>programs that acknowledge under a condition\<close>

lemma acks_ifD: "acks_if Q m \<Longrightarrow> m s = (r, t) \<Longrightarrow> \<exists>new. updates t = updates s @ new \<and> (acknowledges new \<longrightarrow> Q)"
  by (simp add: acks_if_def)

lemma acks_still: "still m \<Longrightarrow> acks_if Q m"
  unfolding acks_if_def by (auto dest!: stillD simp: unchanged_def acknowledges_def)

lemma acks_simple [acks_rules]:
  "acks_if Q (returnP a)" "acks_if Q (throwP e)" "acks_if Q (liftP r)" "acks_if Q (count f)"
  "acks_if Q (modifyP (\<lambda>s. s\<lparr>vp_known := known s\<rparr>))"
  unfolding acks_if_def count_def
  by (auto simp: prog_defs acknowledges_def updates_def)

lemma acks_if_if [acks_rules]: "acks_if Q m \<Longrightarrow> acks_if Q k \<Longrightarrow> acks_if Q (if b then m else k)"
  by simp

lemma acks_case [acks_rules]: "acks_if Q m \<Longrightarrow> (\<And>x. acks_if Q (f x)) \<Longrightarrow> acks_if Q (case v of None \<Rightarrow> m | Some x \<Rightarrow> f x)"
  by (simp split: option.split)

lemma acks_bind_known:
  assumes "acks_if Q m" "\<And>a s t. m s = (Inr a, t) \<Longrightarrow> acks_if Q (f a)"
  shows "acks_if Q (bindP m f)"
  unfolding acks_if_def
proof (intro allI impI)
  fix s r t
  assume run: "bindP m f s = (r, t)"
  obtain q u where q: "m s = (q, u)" by (cases "m s")
  from acks_ifD [OF assms(1) q] obtain first where first: "updates u = updates s @ first" "acknowledges first \<longrightarrow> Q" by blast
  show "\<exists>new. updates t = updates s @ new \<and> (acknowledges new \<longrightarrow> Q)"
  proof (cases q)
    case (Inl e)
    with run q first show ?thesis by (auto simp: bindP_def)
  next
    case (Inr a)
    with run q have "f a u = (r, t)" by (simp add: bindP_def)
    from acks_ifD [OF assms(2) [OF q [unfolded Inr]] this] first show ?thesis
      by (auto simp: acknowledges_def)
  qed
qed

lemma acks_bind [acks_rules]: "acks_if Q m \<Longrightarrow> (\<And>a. acks_if Q (f a)) \<Longrightarrow> acks_if Q (bindP m f)"
  by (rule acks_bind_known)

lemma acks_seq [acks_rules]: "acks_if Q m \<Longrightarrow> acks_if Q k \<Longrightarrow> acks_if Q (seqP m k)"
  unfolding seqP_def by (rule acks_bind)

lemma acks_catch [acks_rules]:
  assumes "acks_if Q m" "\<And>e. acks_if Q (h e)" shows "acks_if Q (catchP m h)"
  unfolding acks_if_def
proof (intro allI impI)
  fix s r t
  assume run: "catchP m h s = (r, t)"
  obtain q u where q: "m s = (q, u)" by (cases "m s")
  from acks_ifD [OF assms(1) q] obtain first where first: "updates u = updates s @ first" "acknowledges first \<longrightarrow> Q" by blast
  show "\<exists>new. updates t = updates s @ new \<and> (acknowledges new \<longrightarrow> Q)"
  proof (cases q)
    case (Inl e)
    with run q have "h e u = (r, t)" by (simp add: catchP_def)
    from acks_ifD [OF assms(2) this] first show ?thesis by (auto simp: acknowledges_def)
  next
    case (Inr a)
    with run q first show ?thesis by (auto simp: catchP_def)
  qed
qed

lemma acks_update [acks_rules]:
  assumes "dget values ''memory_status'' = PStr ''ingested'' \<Longrightarrow> Q" shows "acks_if Q (update_rows env filters values)"
  unfolding acks_if_def
proof (intro allI impI)
  fix s r t
  assume "update_rows env filters values s = (r, t)"
  from update_rows_run [OF this] consider "updates t = updates s @ [matcher_update env filters values]" | "updates t = updates s"
    by blast
  then show "\<exists>new. updates t = updates s @ new \<and> (acknowledges new \<longrightarrow> Q)"
    using assms by cases (auto simp: acknowledges_def memory_status_of_def matcher_update_def)
qed

lemma memory_values_status [simp]: "dget (memory_values status k sha message stamp) ''memory_status'' = PStr status"
  by (simp add: memory_values_def dget_def)

lemma acks_steps [acks_rules]:
  "acks_if Q (fetch_row env table column k)" "acks_if Q (store_for env row)" "acks_if Q (timestamp env)"
  "acks_if Q (getsP f)" "acks_if Q (run_call (HashCall dev k) m)" "acks_if Q (run_call (CommitCall dev k) m')"
  "acks_if Q (run_call GeneralizeCall g)" "acks_if Q (run_call (WriteCall dev draft) w)" "acks_if Q (guardP b e)"
  unfolding timestamp_def by (intro acks_still still_rules; simp)+

lemma acks_claim [acks_rules]: "acks_if Q (claim_memory_ingestion env failure_id k linked)"
  unfolding claim_memory_ingestion_def Let_def by (intro acks_rules) auto

lemma acks_failed [acks_rules]: "acks_if Q (mark_memory_failed env failure_id k)"
  unfolding mark_memory_failed_def by (intro acks_rules) simp

lemma acks_skip [acks_rules]: "acks_if Q skip_resolution"
  unfolding skip_resolution_def by (intro acks_rules)

lemma acks_marks:
  assumes Q
  shows "acks_if Q (mark_memory_ingested env failure_id k sha)"
    "acks_if Q (refresh_memory_ingested env failure_id k commit expected)"
    "acks_if Q (acknowledge_existing env dev acknowledgement failure_id linked k)"
  unfolding acknowledge_existing_def mark_memory_ingested_def refresh_memory_ingested_def ack_ingested_def
  by (intro acks_rules assms; simp)+

lemma acks_record [acks_rules]: "acks_if Q (record_write k result)"
  unfolding record_write_def by (intro acks_rules)

text \<open>
  What the store must have answered: that it holds the source under its hash, or that it wrote a draft
  of this source.
\<close>

definition store_confirmed :: "'w resolver_env \<Rightarrow> resolution_source \<Rightarrow> bool" where
  "store_confirmed env source \<longleftrightarrow>
     (\<exists>dev w w'. mm_has_source_hash (the_store env dev) (rs_resolution_id source) (rs_source_hash source) True w = (Inr True, w')) \<or>
     (\<exists>dev draft result w w'. md_source draft = source \<and> mm_write (the_store env dev) draft w = (Inr result, w'))"

text \<open>The store confirmed the source of a row, with the context of its failure.\<close>

definition source_confirmed :: "'w resolver_env \<Rightarrow> pydict \<Rightarrow> bool" where
  "source_confirmed env row \<longleftrightarrow>
     (\<exists>linked episode source. resolution_with_failure_context row linked = Inr episode \<and>
        resolution_source_from_row (ve_sha env) (PDict (row_with_successful_actions episode)) = Inr source \<and>
        store_confirmed env source)"

lemma draft_of_source: "memory_draft_of source generalized = Inr draft \<Longrightarrow> md_source draft = source"
  by (auto simp: memory_draft_of_def memory_draft_post_init_def Let_def result_simps)

lemma acks_weaken: "acks_if P m \<Longrightarrow> (P \<Longrightarrow> Q) \<Longrightarrow> acks_if Q m"
  unfolding acks_if_def by blast

lemma lifted: "liftP r s = (Inr a, t) \<Longrightarrow> r = Inr a"
  by (simp add: liftP_def)

lemma acks_write:
  "acks_if (store_confirmed env source) (write_generalization env dev acknowledgement failure_id linked row source)"
proof -
  have marks: "acks_if (store_confirmed env source) (seqP (record_write k result)
       (seqP (if acknowledgement = acknowledgement.Claimed then mark_memory_ingested env failure_id k (wr_commit_sha result)
              else (case wr_commit_sha result of
                  Some sha \<Rightarrow> if wr_changed result \<and> is_ingested_memory_ack linked k
                    then refresh_memory_ingested env failure_id k sha (memory_ack_commit linked)
                    else returnP ()
                | None \<Rightarrow> returnP ()))
          (returnP (Some result))))"
    if "liftP (memory_draft_of source generalized) s0 = (Inr draft, t0)"
      "run_call (WriteCall dev draft) (mm_write (the_store env dev) draft) s = (Inr result, t)"
    for k generalized draft result s t s0 t0
  proof -
    have "store_confirmed env source"
      using that(2) draft_of_source [OF lifted [OF that(1)]] unfolding store_confirmed_def returned_call by blast
    then show ?thesis by (intro acks_rules acks_marks; simp)
  qed
  show ?thesis
    unfolding write_generalization_def Let_def
    by (intro acks_bind_known [of _ "run_call (WriteCall _ _) _"] acks_bind_known [of _ "liftP (memory_draft_of _ _)"]
        acks_seq acks_bind marks acks_steps acks_simple) assumption+
qed

lemma acks_ingest: "acks_if (source_confirmed env row) (ingest_resolution env acknowledgement failure_id linked row)"
proof -
  have known: "acks_if (source_confirmed env row)
      (if known then acknowledge_existing env dev acknowledgement failure_id linked (rs_resolution_id source)
       else write_generalization env dev acknowledgement failure_id linked memory_row source)"
    if "liftP (resolution_with_failure_context row linked) s1 = (Inr episode, t1)"
      "liftP (resolution_source_from_row (ve_sha env) (PDict (row_with_successful_actions episode))) s2 = (Inr source, t2)"
      "run_call (HashCall dev (rs_resolution_id source)) (mm_has_source_hash (the_store env dev)
        (rs_resolution_id source) (rs_source_hash source) True) s = (Inr known, t)"
    for known dev episode and source :: resolution_source and memory_row s t s1 t1 s2 t2
  proof -
    have confirmed: "source_confirmed env row" if "store_confirmed env source"
      using that lifted [OF \<open>liftP (resolution_with_failure_context row linked) s1 = _\<close>]
        lifted [OF \<open>liftP (resolution_source_from_row _ _) s2 = _\<close>] unfolding source_confirmed_def by blast
    show ?thesis
    proof (cases known)
      case True
      with that(3) have "store_confirmed env source" unfolding store_confirmed_def returned_call by auto
      from acks_marks(3) [OF confirmed [OF this]] True show ?thesis by simp
    next
      case False
      then show ?thesis using acks_weaken [OF acks_write confirmed] by simp
    qed
  qed
  show ?thesis
    unfolding ingest_resolution_def Let_def
    by (intro acks_bind_known [of _ "run_call (HashCall _ _) _"] acks_bind_known [of _ "liftP _"]
        acks_bind known acks_steps acks_simple) assumption+
qed

lemma acks_fetched:
  assumes "fetch_row env table column k s = (q, u)" "\<And>a. q = Inr a \<Longrightarrow> acks_if Q (f a)"
    and "bindP (fetch_row env table column k) f s = (r, t)"
  shows "\<exists>new. updates t = updates s @ new \<and> (acknowledges new \<longrightarrow> Q)"
proof -
  have same: "updates u = updates s"
    using stillD [OF still_fetch assms(1)] by (simp add: unchanged_def)
  show ?thesis
  proof (cases q)
    case (Inl e)
    with assms same show ?thesis by (auto simp: bindP_def acknowledges_def)
  next
    case (Inr a)
    with assms have "f a u = (r, t)" by (simp add: bindP_def)
    from acks_ifD [OF assms(2) [OF Inr] this] same show ?thesis by simp
  qed
qed

section \<open>The memory that is written\<close>

lemma returned_if: "(if b then m else k) s = (Inr a, t) \<longleftrightarrow> (if b then m s = (Inr a, t) else k s = (Inr a, t))"
  by simp

lemma existing_writes_nothing:
  "acknowledge_existing env dev acknowledgement failure_id linked k s \<noteq> (Inr (Some result), t)"
  by (auto simp: acknowledge_existing_def returned split: option.splits)

lemma write_returned:
  assumes "write_generalization env dev acknowledgement failure_id linked row source s = (Inr (Some result), t)"
  shows "\<exists>generalized actions draft w w' w1 w2. fa_generalize (ve_agent env) row w1 = (Inr generalized, w2) \<and>
    dispatched_actions source = Inr actions \<and> list_all2 py_eq actions (gr_actions generalized) \<and>
    memory_draft_of source generalized = Inr draft \<and> mm_write (the_store env dev) draft w = (Inr result, w')"
proof -
  from assms obtain generalized s1 actions draft s2 got where
    "run_call GeneralizeCall (fa_generalize (ve_agent env) row) s = (Inr generalized, s1)"
    "dispatched_actions source = Inr actions" "list_all2 py_eq actions (gr_actions generalized)"
    "memory_draft_of source generalized = Inr draft"
    "run_call (WriteCall dev draft) (mm_write (the_store env dev) draft) s1 = (Inr got, s2)" "got = result"
    unfolding write_generalization_def Let_def by (auto simp only: returned returned_guard)
  then show ?thesis by auto
qed

definition ingestion_failed ::
  "'w resolver_env \<Rightarrow> acknowledgement \<Rightarrow> string option \<Rightarrow> string \<Rightarrow> py_error \<Rightarrow> ('w processor, write_result option) prog" where
  "ingestion_failed env acknowledgement failure_id k = (\<lambda>e.
     if e = CancelledErr then throwP e
     else seqP (count (\<lambda>rv. rv\<lparr>rv_memory_errors := rv_memory_errors rv + 1\<rparr>))
       (seqP (if acknowledgement = acknowledgement.Claimed
              then catchP (mark_memory_failed env failure_id k)
                (\<lambda>inner. if inner = CancelledErr then throwP inner else returnP ())
              else returnP ()) (throwP e)))"

lemma ingestion_failed_raises: "ingestion_failed env acknowledgement failure_id k e u \<noteq> (Inr a, t)"
  by (simp add: ingestion_failed_def returned)

lemma learn_returned:
  assumes "learn_resolution env k s = (Inr (Some result), t)"
  shows "\<exists>row s1 linked acknowledgement failure_id u. fetch_row env (ve_resolutions env) ''resolution_id'' k s = (Inr (Some row), s1) \<and>
    is_positive_demonstration row \<and> ingest_resolution env acknowledgement failure_id linked row u = (Inr (Some result), t)"
proof -
  have skip: "seqP skip_resolution (returnP None) u \<noteq> (Inr (Some result), t)" for u :: "'a processor"
    by (simp add: returned)
  from assms obtain fetched s1 where f: "fetch_row env (ve_resolutions env) ''resolution_id'' k s = (Inr fetched, s1)"
    unfolding learn_resolution_def returned by blast
  note run = assms [unfolded learn_resolution_def Let_def bindP_def [of "fetch_row _ (ve_resolutions _) _ _"] f prod.case sum.case,
      folded ingestion_failed_def, unfolded count_then]
  show ?thesis
  proof (cases fetched)
    case None
    with run skip show ?thesis by simp
  next
    case (Some row)
    with run skip have row: "is_positive_demonstration row" by (cases "is_positive_demonstration row") simp_all
    with run [unfolded Some option.case] obtain acknowledgement linked u where
      "(if acknowledgement = OwnedElsewhere then seqP skip_resolution (returnP None)
        else catchP (ingest_resolution env acknowledgement (safe_identifier (dget row ''failure_id'')) linked row)
          (ingestion_failed env acknowledgement (safe_identifier (dget row ''failure_id'')) k)) u = (Inr (Some result), t)"
      by (auto simp only: returned_bind if_True if_False simp_thms)
    with skip have "catchP (ingest_resolution env acknowledgement (safe_identifier (dget row ''failure_id'')) linked row)
          (ingestion_failed env acknowledgement (safe_identifier (dget row ''failure_id'')) k) u = (Inr (Some result), t)"
      by (cases "acknowledgement = OwnedElsewhere") auto
    from caught_never [OF this ingestion_failed_raises] f Some row show ?thesis by blast
  qed
qed


lemma learn_draft: "\<exists>draft. memory_draft_of learn_source learn_answer = Inr draft"
proof -
  have texts: "strip ''stuck'' = ''stuck''" "strip ''open'' = ''open''" "strip ''m'' = ''m''" "strip ''r'' = ''r''" by code_simp+
  have "check_actionable learn_source ''positive'' True = Inr ()"
    using learn_source_built learn_payload_facts by (simp add: check_actionable_def is_true_def learn_actions_def)
  moreover have "\<exists>sig. clean_signature (Some (signature_dict (gn_signature (gr_generalization learn_answer)))) = Inr sig"
  proof -
    have "(case clean_signature (Some (signature_dict (gn_signature (gr_generalization learn_answer)))) of Inr _ \<Rightarrow> True | Inl _ \<Rightarrow> False)"
      by code_simp
    then show ?thesis by (auto split: sum.splits)
  qed
  ultimately show ?thesis
    by (auto simp: memory_draft_of_def memory_draft_post_init_def required_draft_text_def draft_text_or_none_def texts
        learn_answer_def Let_def)
qed

lemma learn_env_parts:
  "ve_connected learn_env w" "fa_generalize (ve_agent learn_env) row = returnP learn_answer"
  "ve_dev_store learn_env = None" "the_store learn_env dev = (demo_store [])\<lparr>mm_write := (\<lambda>d. returnP learn_result)\<rparr>"
  "ve_sha learn_env = memory_sha" "sb_update (ve_client learn_env) q v = returnP (PList [PDict v])"
  "ve_resolutions learn_env = ''resolutions''" "ve_failure_events learn_env = ''events''"
  "sb_now (ve_client learn_env) w = ''now''"
  by (simp_all add: learn_env_def demo_resolver_def demo_tables_def the_store_def)

lemma learn_fetches:
  "fetch_row learn_env ''resolutions'' column k =
     seqP (run_call (FetchCall ''resolutions'' k) (returnP ())) (returnP (Some learn_row))"
  "fetch_row learn_env ''events'' column k =
     seqP (run_call (FetchCall ''events'' k) (returnP ())) (returnP (Some learn_failure))"
  by (simp_all add: fetch_row_def learn_env_def demo_resolver_def demo_tables_def required_client_def guardP_def
      fun_eq_iff seqP_def bindP_def getsP_def run_call_def returnP_def)

lemma learn_updates:
  "update_rows learn_env filters values =
     seqP (run_call (UpdateCall (fst (matcher_update learn_env filters values)) values) (returnP ()))
       (returnP (PList [PDict values]))"
  by (simp add: update_rows_def matcher_update_def learn_env_parts required_client_def guardP_def Let_def
      fun_eq_iff seqP_def bindP_def getsP_def run_call_def returnP_def)

lemma learn_claims:
  "claim_memory_ingestion learn_env (Some memory_id) memory_id (Some learn_failure) =
     seqP (update_rows learn_env (memory_filters memory_id ''pending'' memory_id)
       (memory_values ''ingesting'' memory_id None ''Ingesting recovery memory.'' PNone)) (returnP acknowledgement.Claimed)"
proof -
  have "safe_identifier (dget learn_failure ''memory_resolution_id'') = Some memory_id"
    "normalized_text (dget learn_failure ''memory_status'') = ''pending''" by code_simp+
  then show ?thesis
    by (simp add: claim_memory_ingestion_def learn_updates nonempty_list_def Let_def fun_eq_iff seqP_def bindP_def
        run_call_def returnP_def)
qed

lemma learn_parts:
  "rs_resolution_id learn_source = memory_id" "gr_actions learn_answer = learn_actions"
  "wr_commit_sha learn_result = Some ''c''" "wr_changed learn_result"
  by (simp_all add: learn_source_def learn_answer_def learn_result_def)

lemma learn_ingests:
  assumes "memory_draft_of learn_source learn_answer = Inr draft"
  shows "ingest_resolution learn_env acknowledgement.Claimed (Some memory_id) (Some learn_failure) learn_row =
      seqP (run_call (HashCall False memory_id) (returnP False))
        (seqP (run_call GeneralizeCall (returnP learn_answer)) (seqP (run_call (WriteCall False draft) (returnP learn_result))
          (seqP (record_write memory_id learn_result)
            (seqP (mark_memory_ingested learn_env (Some memory_id) memory_id (wr_commit_sha learn_result))
              (returnP (Some learn_result))))))"
  using assms
  by (simp add: ingest_resolution_def write_generalization_def learn_env_parts learn_source_built store_for_def demo_store_def
      fun_eq_iff seqP_def bindP_def run_call_def returnP_def liftP_def guardP_def learn_parts(1,2) learn_row_facts(2,3,7))

lemma learn_run: "\<exists>t. learn_resolution learn_env memory_id demo_processor = (Inr (Some learn_result), t) \<and> acknowledges (updates t)"
proof -
  obtain draft where draft: "memory_draft_of learn_source learn_answer = Inr draft" using learn_draft by blast
  then show ?thesis
    unfolding learn_resolution_def learn_env_parts learn_fetches
    by (simp add: learn_row_facts learn_fetches learn_claims learn_ingests [OF draft] learn_updates record_write_def
        mark_memory_ingested_def timestamp_def learn_parts ack_ingested_def count_def prog_defs run_call_def
        updates_def acknowledges_def memory_status_of_def demo_processor_def List.map_filter_simps)
qed




end
