(* ===== verification/Observer.thy ===== *)
theory Observer
  imports Resolver_Rows Recovery_Database Recovery_Executor
begin

text \<open>
  \<^verbatim>\<open>src/observer.py\<close>: the settings and counters of the observer, the callbacks of its subscription,
  the bounded queue of changes, the worker that reads rows, and the loop that connects, watches the
  connection and reconnects. The operations take the state of the observer or an extension of it,
  since the resolver's runtime is a subclass; the methods the subclass overrides are a parameter of
  the loop.

  What happens while a coroutine waits is a parameter: the callbacks that run and the iterations of
  the worker, as values of \<open>happening\<close>, delivered when the wait ends.
\<close>

section \<open>Settings\<close>

record observer_settings =
  bs_url :: string
  bs_key :: string
  bs_table :: string
  bs_schema :: string
  bs_reconnect_initial :: pyfloat
  bs_reconnect_max :: pyfloat
  bs_subscription_timeout :: pyfloat
  bs_connection_check :: pyfloat
  bs_disconnect_grace :: pyfloat
  bs_shutdown_timeout :: pyfloat

definition observer_tuning :: "environment \<Rightarrow> observer_settings \<Rightarrow> observer_settings result" where
  "observer_tuning env bs =
     bindE (positive_float env ''OBSERVER_RECONNECT_INITIAL_SECONDS'' (FFin 1)) (\<lambda>reconnect_initial.
     bindE (positive_float env ''OBSERVER_RECONNECT_MAX_SECONDS'' (FFin 30)) (\<lambda>reconnect_max.
     bindE (positive_float env ''OBSERVER_SUBSCRIPTION_TIMEOUT_SECONDS'' (FFin 20)) (\<lambda>subscription_timeout.
     bindE (positive_float env ''OBSERVER_CONNECTION_CHECK_SECONDS'' (FFin 1)) (\<lambda>connection_check.
     bindE (positive_float env ''OBSERVER_DISCONNECT_GRACE_SECONDS'' (FFin 10)) (\<lambda>disconnect_grace.
     bindE (positive_float env ''OBSERVER_SHUTDOWN_TIMEOUT_SECONDS'' (FFin 5)) (\<lambda>shutdown_timeout.
       Inr (bs\<lparr>bs_reconnect_initial := reconnect_initial, bs_reconnect_max := reconnect_max,
         bs_subscription_timeout := subscription_timeout, bs_connection_check := connection_check,
         bs_disconnect_grace := disconnect_grace, bs_shutdown_timeout := shutdown_timeout\<rparr>)))))))"

definition observer_settings_from_env :: "environment \<Rightarrow> observer_settings result" where
  "observer_settings_from_env env =
     guardE (lower (env_text env ''RESOLVER_MODE'' ''observe'') = ''observe'') ValueErr
     (let url = env_text env ''SUPABASE_URL'' []; key = env_text env ''SUPABASE_SERVICE_ROLE_KEY'' [];
          table = env_text env ''FAILURE_EVENTS_TABLE'' ''failure_events'';
          schema = env_text env ''SUPABASE_SCHEMA'' ''public''
      in guardE (prefix ''https://'' url \<or> prefix ''http://'' url) ValueErr
        (guardE (key \<noteq> []) ValueErr
        (guardE (list_all valid_identifier [table, schema]) ValueErr
        (observer_tuning env \<lparr>bs_url = rstrip_slashes url, bs_key = key, bs_table = table, bs_schema = schema,
          bs_reconnect_initial = FFin 1, bs_reconnect_max = FFin 30, bs_subscription_timeout = FFin 20,
          bs_connection_check = FFin 1, bs_disconnect_grace = FFin 10, bs_shutdown_timeout = FFin 5\<rparr>))))"

definition observer_settings_of :: "resolver_settings \<Rightarrow> observer_settings" where
  "observer_settings_of st = \<lparr>bs_url = st_supabase_url st, bs_key = st_service_role_key st,
     bs_table = st_failure_events_table st, bs_schema = st_schema st,
     bs_reconnect_initial = st_reconnect_initial st, bs_reconnect_max = st_reconnect_max st,
     bs_subscription_timeout = st_subscription_timeout st, bs_connection_check = st_connection_check st,
     bs_disconnect_grace = st_disconnect_grace st, bs_shutdown_timeout = st_shutdown_timeout st\<rparr>"

section \<open>Counters\<close>

record observer_state =
  os_running :: bool
  os_connected :: bool
  os_events_observed :: int
  os_rows_fetched :: int
  os_fetch_errors :: int
  os_events_dropped :: int
  os_reconnect_attempts :: int
  os_started_at :: "string option"
  os_last_connected_at :: "string option"
  os_last_event_at :: "string option"
  os_last_error_type :: "string option"

definition new_observer_state :: observer_state where
  "new_observer_state = \<lparr>os_running = False, os_connected = False, os_events_observed = 0,
     os_rows_fetched = 0, os_fetch_errors = 0, os_events_dropped = 0, os_reconnect_attempts = 0,
     os_started_at = None, os_last_connected_at = None, os_last_event_at = None, os_last_error_type = None\<rparr>"

definition observer_snapshot :: "observer_state \<Rightarrow> pydict" where
  "observer_snapshot os =
     (let status = (if os_connected os then ''connected'' else if os_running os then ''connecting'' else ''stopped'')
      in [(''mode'', PStr ''observe''), (''status'', PStr status), (''connected'', PBool (os_connected os)),
          (''events_observed'', PInt (os_events_observed os)), (''rows_fetched'', PInt (os_rows_fetched os)),
          (''fetch_errors'', PInt (os_fetch_errors os)), (''events_dropped'', PInt (os_events_dropped os)),
          (''reconnect_attempts'', PInt (os_reconnect_attempts os)), (''started_at'', opt_text (os_started_at os)),
          (''last_connected_at'', opt_text (os_last_connected_at os)),
          (''last_event_at'', opt_text (os_last_event_at os)),
          (''last_error_type'', opt_text (os_last_error_type os))])"

section \<open>Changes\<close>

definition safe_scalar :: "pyval \<Rightarrow> string option" where
  "safe_scalar value =
     (case value of
        PNone \<Rightarrow> None | PDict d \<Rightarrow> None | PList vs \<Rightarrow> None | PTuple vs \<Rightarrow> None
      | _ \<Rightarrow> Some (take 160 (printable_text (py_str value))))"

text \<open>The value of a status is its text, or that of its \<open>value\<close> attribute.\<close>

definition status_name :: "pyval \<Rightarrow> string" where
  "status_name value = upper (last (split_on (CHR ''.'') (py_str value)))"

record safe_event =
  ev_event :: "string option"
  ev_failure_id :: "string option"
  ev_commit_timestamp :: "string option"

definition dict_default :: "pydict \<Rightarrow> string \<Rightarrow> pyval \<Rightarrow> pyval" where
  "dict_default d key fallback = (if has_key d key then dget d key else fallback)"

definition safe_event_of :: "pyval \<Rightarrow> safe_event result" where
  "safe_event_of payload =
     (let data = (case payload of PDict p \<Rightarrow> dict_default p ''data'' (PDict []) | _ \<Rightarrow> PDict []);
          row = (case data of PDict d \<Rightarrow> dict_or_empty (dict_default d ''record'' (PDict [])) | _ \<Rightarrow> [])
      in (case data of
            PDict d \<Rightarrow> Inr \<lparr>ev_event = safe_scalar (dget d ''type''), ev_failure_id = safe_scalar (dget row ''failure_id''),
              ev_commit_timestamp = safe_scalar (dget d ''commit_timestamp'')\<rparr>
          | _ \<Rightarrow> Inl (OtherErr ''AttributeError'')))"

text \<open>The signals of both services: the runtime's queue holds those of resolutions too.\<close>

datatype change_signal =
    FailureChange "string option" string "string option"
  | ResolutionChange "string option" string "string option"

section \<open>The observer\<close>

text \<open>\<open>ob_delays\<close> records the delays before the reconnects, which the code only logs.\<close>

record 'w observer =
  ob_world :: 'w
  ob_state :: observer_state
  ob_client :: bool
  ob_channel :: bool
  ob_stop :: bool
  ob_subscription :: bool
  ob_reconnect :: bool
  ob_error :: "py_error option"
  ob_queue :: "change_signal list"
  ob_capacity :: nat
  ob_delays :: "pyfloat list"

datatype happening =
    StatusArrives pyval "py_error option"
  | ChangeArrives pyval
  | ResolutionStatusArrives pyval "py_error option"
  | ResolutionArrives pyval
  | WorkerTurn
  | StopCalled

record 'w observer_env =
  be_settings :: observer_settings
  be_now :: "'w \<Rightarrow> string"
  be_time :: "'w \<Rightarrow> pyfloat"
  be_happens :: "'w \<Rightarrow> happening list"
  be_create :: "string \<Rightarrow> string \<Rightarrow> ('w, unit) prog"
  be_subscribe :: "('w, unit) prog"
  be_wait :: "pyfloat \<Rightarrow> ('w, unit) prog"
  be_join :: "pyfloat \<Rightarrow> ('w, unit) prog"
  be_client :: "'w supabase"
  be_joined :: "'w \<Rightarrow> bool"
  be_socket :: "'w \<Rightarrow> bool option"
  be_remove_channel :: "('w, unit) prog"
  be_close :: "('w, unit) prog"

definition new_observer :: "'w \<Rightarrow> 'w observer" where
  "new_observer w = \<lparr>ob_world = w, ob_state = new_observer_state, ob_client = False, ob_channel = False,
     ob_stop = False, ob_subscription = False, ob_reconnect = False, ob_error = None, ob_queue = [],
     ob_capacity = 256, ob_delays = []\<rparr>"

definition on_os :: "(observer_state \<Rightarrow> observer_state) \<Rightarrow> ('w, 'z) observer_scheme \<Rightarrow> ('w, 'z) observer_scheme" where
  "on_os f ob = ob\<lparr>ob_state := f (ob_state ob)\<rparr>"

definition mark_disconnected :: "string \<Rightarrow> ('w, 'z) observer_scheme \<Rightarrow> ('w, 'z) observer_scheme" where
  "mark_disconnected error_type = on_os (\<lambda>os. os\<lparr>os_connected := False, os_last_error_type := Some error_type\<rparr>)"

definition error_or :: "py_error option \<Rightarrow> string \<Rightarrow> string" where
  "error_or error fallback = (case error of None \<Rightarrow> fallback | Some e \<Rightarrow> error_type_name e)"

definition on_subscription_status ::
  "string \<Rightarrow> pyval \<Rightarrow> py_error option \<Rightarrow> ('w, 'z) observer_scheme \<Rightarrow> ('w, 'z) observer_scheme" where
  "on_subscription_status now status error ob =
     (if status_name status = ''SUBSCRIBED''
      then on_os (\<lambda>os. os\<lparr>os_connected := True, os_last_connected_at := Some now, os_last_error_type := None\<rparr>)
        (ob\<lparr>ob_subscription := True\<rparr>)
      else (mark_disconnected (error_or error (status_name status))
        (ob\<lparr>ob_error := Some (case error of None \<Rightarrow> ConnectionErr | Some e \<Rightarrow> e)\<rparr>))
          \<lparr>ob_subscription := True, ob_reconnect := True\<rparr>)"

text \<open>\<open>put_nowait\<close>: whether there was room.\<close>

definition put_signal :: "change_signal \<Rightarrow> ('w, 'z) observer_scheme \<Rightarrow> ('w, 'z) observer_scheme option" where
  "put_signal signal ob =
     (if length (ob_queue ob) < ob_capacity ob then Some (ob\<lparr>ob_queue := ob_queue ob @ [signal]\<rparr>) else None)"

definition drop_event :: "('w, 'z) observer_scheme \<Rightarrow> ('w, 'z) observer_scheme" where
  "drop_event = on_os (\<lambda>os. os\<lparr>os_events_dropped := os_events_dropped os + 1\<rparr>)"

definition on_change :: "string \<Rightarrow> pyval \<Rightarrow> (('w, 'z) observer_scheme, unit) prog" where
  "on_change now payload =
     bindP (liftP (safe_event_of payload)) (\<lambda>event.
     seqP (modifyP (on_os (\<lambda>os. os\<lparr>os_events_observed := os_events_observed os + 1, os_last_event_at := Some now\<rparr>)))
       (case ev_failure_id event of
          None \<Rightarrow> modifyP drop_event
        | Some failure_id \<Rightarrow> modifyP (\<lambda>ob.
            case put_signal (FailureChange (ev_event event) failure_id (ev_commit_timestamp event)) ob of
              None \<Rightarrow> drop_event ob
            | Some ob' \<Rightarrow> ob')))"

definition observer_stop :: "('w, 'z) observer_scheme \<Rightarrow> ('w, 'z) observer_scheme" where
  "observer_stop ob = ob\<lparr>ob_stop := True, ob_reconnect := True\<rparr>"

text \<open>A callback that raises leaves its error with the library that called it.\<close>

definition observer_callback :: "'w observer_env \<Rightarrow> happening \<Rightarrow> ('w, 'z) observer_scheme \<Rightarrow> ('w, 'z) observer_scheme" where
  "observer_callback env h ob =
     (case h of
        StatusArrives status error \<Rightarrow> on_subscription_status (be_now env (ob_world ob)) status error ob
      | ChangeArrives payload \<Rightarrow> snd (on_change (be_now env (ob_world ob)) payload ob)
      | StopCalled \<Rightarrow> observer_stop ob
      | _ \<Rightarrow> ob)"

definition await_ob ::
  "'w observer_env \<Rightarrow> (happening \<Rightarrow> ('w, 'z) observer_scheme \<Rightarrow> ('w, 'z) observer_scheme)
     \<Rightarrow> ('w, 'a) prog \<Rightarrow> (('w, 'z) observer_scheme, 'a) prog" where
  "await_ob env happen m = (\<lambda>ob. case m (ob_world ob) of
     (r, w) \<Rightarrow> (r, fold happen (be_happens env w) (ob\<lparr>ob_world := w\<rparr>)))"

section \<open>Rows\<close>

definition safe_row_columns :: string where
  "safe_row_columns = ''failure_id,sysid,flow_id,matcher_status''"

definition fetch_and_log_safe_row :: "'w observer_env \<Rightarrow> change_signal \<Rightarrow> (('w, 'z) observer_scheme, unit) prog" where
  "fetch_and_log_safe_row env signal =
     (let failure_id = (case signal of FailureChange e k c \<Rightarrow> k | ResolutionChange e k c \<Rightarrow> k) in
      bindP (getsP ob_client) (\<lambda>client.
      seqP (if client then returnP () else throwP ConnectionErr)
      (bindP (await_ob env (observer_callback env) (sb_select (be_client env)
          \<lparr>tq_table = bs_table (be_settings env), tq_columns = safe_row_columns,
           tq_filters = [FilterEq ''failure_id'' (PStr failure_id)], tq_order = None, tq_limit = Some 1\<rparr>)) (\<lambda>data.
       case data of
         PList (row # rows) \<Rightarrow> modifyP (on_os (\<lambda>os. os\<lparr>os_rows_fetched := os_rows_fetched os + 1\<rparr>))
       | _ \<Rightarrow> returnP ()))))"

text \<open>One iteration of the worker, on the first signal of the queue.\<close>

definition fetch_worker_turn ::
  "(change_signal \<Rightarrow> (('w, 'z) observer_scheme, unit) prog) \<Rightarrow> (('w, 'z) observer_scheme, unit) prog" where
  "fetch_worker_turn handle = (\<lambda>ob.
     case ob_queue ob of
       [] \<Rightarrow> (Inr (), ob)
     | signal # rest \<Rightarrow>
         catchP (handle signal) (\<lambda>e.
           if e = CancelledErr then throwP e
           else modifyP (on_os (\<lambda>os. os\<lparr>os_fetch_errors := os_fetch_errors os + 1\<rparr>)))
         (ob\<lparr>ob_queue := rest\<rparr>))"

text \<open>What the run loop sees happen: callbacks, and turns of the worker.\<close>

definition observer_happening :: "'w observer_env \<Rightarrow> happening \<Rightarrow> ('w, 'z) observer_scheme \<Rightarrow> ('w, 'z) observer_scheme" where
  "observer_happening env h ob =
     (case h of WorkerTurn \<Rightarrow> snd (fetch_worker_turn (fetch_and_log_safe_row env) ob) | _ \<Rightarrow> observer_callback env h ob)"

section \<open>The connection\<close>

definition observer_connect ::
  "'w observer_env \<Rightarrow> (happening \<Rightarrow> ('w, 'z) observer_scheme \<Rightarrow> ('w, 'z) observer_scheme)
     \<Rightarrow> (('w, 'z) observer_scheme, unit) prog" where
  "observer_connect env happen =
     (let bs = be_settings env in
      seqP (modifyP (\<lambda>ob. on_os (\<lambda>os. os\<lparr>os_connected := False\<rparr>)
          (ob\<lparr>ob_subscription := False, ob_reconnect := False, ob_error := None\<rparr>)))
      (seqP (await_ob env happen (be_create env (bs_url bs) (bs_key bs)))
      (seqP (modifyP (\<lambda>ob. ob\<lparr>ob_client := True, ob_channel := True\<rparr>))
      (seqP (await_ob env happen (be_subscribe env))
      (seqP (await_ob env happen (be_wait env (bs_subscription_timeout bs)))
      (bindP (getsP ob_subscription) (\<lambda>set_event.
       if \<not> set_event then throwP TimeoutErr
       else bindP (getsP ob_error) (\<lambda>error.
         case error of
           Some e \<Rightarrow> throwP e
         | None \<Rightarrow> bindP (getsP (\<lambda>ob. os_connected (ob_state ob))) (\<lambda>connected.
             if connected then returnP () else throwP ConnectionErr)))))))))"

definition observer_healthy :: "'w observer_env \<Rightarrow> ('w, 'z) observer_scheme \<Rightarrow> bool" where
  "observer_healthy env ob \<longleftrightarrow> ob_client ob \<and> ob_channel ob \<and> be_joined env (ob_world ob) \<and>
     be_socket env (ob_world ob) \<noteq> Some False"

definition observer_disconnect ::
  "'w observer_env \<Rightarrow> (happening \<Rightarrow> ('w, 'z) observer_scheme \<Rightarrow> ('w, 'z) observer_scheme)
     \<Rightarrow> (('w, 'z) observer_scheme, unit) prog" where
  "observer_disconnect env happen =
     bindP (getsP (\<lambda>ob. (ob_client ob, ob_channel ob))) (\<lambda>(client, channel).
     seqP (modifyP (\<lambda>ob. on_os (\<lambda>os. os\<lparr>os_connected := False\<rparr>) (ob\<lparr>ob_client := False, ob_channel := False\<rparr>)))
       (if \<not> client then returnP ()
        else catchP
          (seqP (if channel then await_ob env happen (be_remove_channel env) else returnP ())
             (bindP (getsP (\<lambda>ob. be_socket env (ob_world ob))) (\<lambda>socket.
                if socket = Some True then await_ob env happen (be_close env) else returnP ())))
          (\<lambda>e. if e = CancelledErr then throwP e else returnP ())))"

section \<open>The loop\<close>

record 's observer_methods =
  om_happen :: "happening \<Rightarrow> 's \<Rightarrow> 's"
  om_connect :: "('s, unit) prog"
  om_healthy :: "'s \<Rightarrow> bool"
  om_disconnect :: "('s, unit) prog"

definition observer_methods_of :: "'w observer_env \<Rightarrow> ('w, 'z) observer_scheme observer_methods" where
  "observer_methods_of env = \<lparr>om_happen = observer_happening env,
     om_connect = observer_connect env (observer_happening env), om_healthy = observer_healthy env,
     om_disconnect = observer_disconnect env (observer_happening env)\<rparr>"

definition fneg :: "pyfloat \<Rightarrow> pyfloat" where
  "fneg x = (case x of FFin q \<Rightarrow> FFin (- q) | FInf \<Rightarrow> FNegInf | FNegInf \<Rightarrow> FInf | FNaN \<Rightarrow> FNaN)"

text \<open>\<open>unhealthy_since or loop.time()\<close>: a time of zero counts as none.\<close>

definition unhealthy_from :: "pyfloat option \<Rightarrow> pyfloat \<Rightarrow> pyfloat" where
  "unhealthy_from since now = (case since of None \<Rightarrow> now | Some t \<Rightarrow> if feq t (FFin 0) then now else t)"

fun watch_connection ::
  "'w observer_env \<Rightarrow> ('w, 'z) observer_scheme observer_methods \<Rightarrow> nat \<Rightarrow> pyfloat option
     \<Rightarrow> (('w, 'z) observer_scheme, loop_end) prog" where
  "watch_connection env me 0 since = returnP OutOfFuel"
| "watch_connection env me (Suc fuel) since =
     bindP (getsP ob_stop) (\<lambda>stopped.
     if stopped then returnP LoopReturned
     else bindP (getsP ob_reconnect) (\<lambda>reconnect.
     if reconnect then throwP ConnectionErr
     else bindP (getsP (om_healthy me)) (\<lambda>healthy.
       seqP (modifyP (on_os (\<lambda>os. os\<lparr>os_connected := healthy\<rparr>)))
       (bindP (getsP (\<lambda>ob. be_time env (ob_world ob))) (\<lambda>now.
         let since' = (if healthy then None else Some (unhealthy_from since now)) in
         if \<not> healthy \<and> fle (bs_disconnect_grace (be_settings env)) (fadd now (fneg (unhealthy_from since now)))
         then throwP ConnectionErr
         else seqP (await_ob env (om_happen me) (be_wait env (bs_connection_check (be_settings env))))
           (watch_connection env me fuel since'))))))"

definition stop_fetch_worker ::
  "'w observer_env \<Rightarrow> ('w, 'z) observer_scheme observer_methods \<Rightarrow> bool \<Rightarrow> (('w, 'z) observer_scheme, unit) prog" where
  "stop_fetch_worker env me created =
     (if \<not> created then returnP ()
      else catchP (await_ob env (om_happen me) (be_join env (bs_shutdown_timeout (be_settings env))))
        (\<lambda>e. if e = TimeoutErr then returnP () else throwP e))"

text \<open>The \<open>finally\<close> clause of a connection, after the outcome of its body.\<close>

definition closing ::
  "'w observer_env \<Rightarrow> ('w, 'z) observer_scheme observer_methods \<Rightarrow> bool \<Rightarrow> 'a result \<Rightarrow> (('w, 'z) observer_scheme, 'a) prog" where
  "closing env me created r =
     seqP (stop_fetch_worker env me created) (seqP (om_disconnect me) (liftP r))"

definition connection_error :: "py_error \<Rightarrow> 'a \<Rightarrow> ('w, 'z) observer_scheme \<Rightarrow> 'a result \<times> ('w, 'z) observer_scheme" where
  "connection_error e a ob = (if e = CancelledErr then (Inl e, ob) else (Inr a, mark_disconnected (error_type_name e) ob))"

text \<open>
  One connection, from the attempt to connect to its cleanup: None when it is still being watched,
  otherwise whether it had been established.
\<close>

definition one_connection ::
  "'w observer_env \<Rightarrow> ('w, 'z) observer_scheme observer_methods \<Rightarrow> nat \<Rightarrow> (('w, 'z) observer_scheme, bool option) prog" where
  "one_connection env me fuel ob =
     (case om_connect me ob of
        (Inl e, u) \<Rightarrow> (case connection_error e (Some False) u of (r, v) \<Rightarrow> closing env me False r v)
      | (Inr x, u) \<Rightarrow>
          (case watch_connection env me fuel None u of
             (Inr OutOfFuel, v) \<Rightarrow> (Inr None, v)
           | (Inr LoopReturned, v) \<Rightarrow> closing env me True (Inr (Some True)) v
           | (Inl e, v) \<Rightarrow> (case connection_error e (Some True) v of (r, v') \<Rightarrow> closing env me True r v')))"

definition next_delay :: "observer_settings \<Rightarrow> pyfloat \<Rightarrow> pyfloat" where
  "next_delay bs delay = fmin (fscale 2 delay) (bs_reconnect_max bs)"

fun observer_loop ::
  "'w observer_env \<Rightarrow> ('w, 'z) observer_scheme observer_methods \<Rightarrow> nat \<Rightarrow> pyfloat
     \<Rightarrow> (('w, 'z) observer_scheme, loop_end) prog" where
  "observer_loop env me 0 delay = returnP OutOfFuel"
| "observer_loop env me (Suc fuel) delay =
     bindP (getsP ob_stop) (\<lambda>stopped.
     if stopped then returnP LoopReturned
     else bindP (one_connection env me fuel) (\<lambda>ended.
       case ended of
         None \<Rightarrow> returnP OutOfFuel
       | Some established \<Rightarrow>
           (let delay' = (if established then bs_reconnect_initial (be_settings env) else delay) in
            bindP (getsP ob_stop) (\<lambda>stopped_now.
            if stopped_now then returnP LoopReturned
            else seqP (modifyP (\<lambda>ob. on_os (\<lambda>os. os\<lparr>os_reconnect_attempts := os_reconnect_attempts os + 1\<rparr>)
                   (ob\<lparr>ob_delays := ob_delays ob @ [delay']\<rparr>)))
              (seqP (await_ob env (om_happen me) (be_wait env delay'))
                (observer_loop env me fuel (next_delay (be_settings env) delay')))))))"

definition observer_run ::
  "'w observer_env \<Rightarrow> ('w, 'z) observer_scheme observer_methods \<Rightarrow> nat \<Rightarrow> (('w, 'z) observer_scheme, loop_end) prog" where
  "observer_run env me fuel ob =
     (case observer_loop env me fuel (bs_reconnect_initial (be_settings env))
         (on_os (\<lambda>os. os\<lparr>os_running := True, os_started_at := Some (be_now env (ob_world ob))\<rparr>) ob) of
        (Inr OutOfFuel, u) \<Rightarrow> (Inr OutOfFuel, u)
      | (r, u) \<Rightarrow> seqP (om_disconnect me) (liftP r)
          (on_os (\<lambda>os. os\<lparr>os_running := False, os_connected := False\<rparr>) u))"

end
