(* ===== verification/Resolver_Runtime.thy ===== *)
theory Resolver_Runtime
  imports Observer Resolver Recovery_Executor
begin

text \<open>
  \<open>SupabaseAgentRuntime\<close> of \<^verbatim>\<open>src/resolver.py\<close>: the observer whose worker learns resolutions and
  matches failures, with a second channel for resolutions, a reconciliation on every connection, and
  the recovery coordinator it starts, notifies and stops. The second half is the assembly of the
  service and its health endpoints.

  An operation of the processor or of the coordinator runs as one piece here; what happens during it
  is delivered when it ends.
\<close>

section \<open>State\<close>

record 'w runtime = "'w observer" +
  rt_resolution_channel :: bool
  rt_resolution_event :: bool
  rt_resolution_error :: "py_error option"
  rt_processor_client :: bool
  rt_resolver :: resolver_state
  rt_known :: "(string \<times> string) list"
  rt_log :: "resolver_call list"
  rt_coordinator :: "'w coordinator"
  rt_trace :: "event list"
  rt_dispatched :: bool

text \<open>The processor's world tells whether it has a client.\<close>

record 'w runtime_env =
  re_observer :: "'w observer_env"
  re_settings :: resolver_settings
  re_resolver :: "('w \<times> bool) resolver_env"
  re_recovery :: "'w env"
  re_database :: "'w database"
  re_subscribe_resolutions :: "('w, unit) prog"
  re_resolution_joined :: "'w \<Rightarrow> bool"
  re_remove_resolution_channel :: "('w, unit) prog"
  re_close_agent :: "('w, unit) prog"

definition new_runtime :: "resolver_settings \<Rightarrow> 'w \<Rightarrow> 'w runtime" where
  "new_runtime st w = \<lparr>ob_world = w, ob_state = new_observer_state, ob_client = False, ob_channel = False,
     ob_stop = False, ob_subscription = False, ob_reconnect = False, ob_error = None, ob_queue = [],
     ob_capacity = nat (max 256 (st_reconcile_limit st * 2 + 32)), ob_delays = [],
     rt_resolution_channel = False, rt_resolution_event = False, rt_resolution_error = None,
     rt_processor_client = False, rt_resolver = new_resolver_state, rt_known = [], rt_log = [],
     rt_coordinator = new_coordinator None, rt_trace = [], rt_dispatched = False\<rparr>"

section \<open>Callbacks\<close>

definition on_resolution_subscription_status :: "pyval \<Rightarrow> py_error option \<Rightarrow> 'w runtime \<Rightarrow> 'w runtime" where
  "on_resolution_subscription_status status error rt =
     (if status_name status = ''SUBSCRIBED'' then rt\<lparr>rt_resolution_event := True\<rparr>
      else (mark_disconnected (error_or error (status_name status))
        (rt\<lparr>rt_resolution_error := Some (case error of None \<Rightarrow> ConnectionErr | Some e \<Rightarrow> e)\<rparr>))
          \<lparr>rt_resolution_event := True, ob_reconnect := True\<rparr>)"

definition enqueue_signal :: "change_signal \<Rightarrow> 'w runtime \<Rightarrow> 'w runtime" where
  "enqueue_signal signal rt =
     (case put_signal signal rt of
        None \<Rightarrow> drop_event rt
      | Some rt' \<Rightarrow> on_os (\<lambda>os. os\<lparr>os_events_observed := os_events_observed os + 1\<rparr>) rt')"

definition on_resolution_change :: "pyval \<Rightarrow> 'w runtime \<Rightarrow> 'w runtime" where
  "on_resolution_change payload rt =
     (let data = (case payload of PDict p \<Rightarrow> dict_default p ''data'' (PDict []) | _ \<Rightarrow> PDict []);
          row = (case data of PDict d \<Rightarrow> dict_default d ''record'' (PDict []) | _ \<Rightarrow> PDict [])
      in (case (case row of PDict r \<Rightarrow> safe_identifier (dget r ''resolution_id'') | _ \<Rightarrow> None) of
            None \<Rightarrow> drop_event rt
          | Some resolution_id \<Rightarrow> enqueue_signal (ResolutionChange
              (safe_identifier (dget (dict_or_empty data) ''type'')) resolution_id
              (safe_identifier (dget (dict_or_empty data) ''commit_timestamp''))) rt))"

definition coordinator_stop :: "'w runtime \<Rightarrow> 'w runtime" where
  "coordinator_stop rt = (let co = rt_coordinator rt in
     rt\<lparr>rt_coordinator := (if co_started co then stop_end (stop_begin co) else co)\<rparr>)"

definition runtime_stop :: "'w runtime \<Rightarrow> 'w runtime" where
  "runtime_stop rt = observer_stop (coordinator_stop rt)"

definition runtime_callback :: "'w runtime_env \<Rightarrow> happening \<Rightarrow> 'w runtime \<Rightarrow> 'w runtime" where
  "runtime_callback env h rt =
     (case h of
        ResolutionStatusArrives status error \<Rightarrow> on_resolution_subscription_status status error rt
      | ResolutionArrives payload \<Rightarrow> on_resolution_change payload rt
      | StopCalled \<Rightarrow> runtime_stop rt
      | _ \<Rightarrow> observer_callback (re_observer env) h rt)"

section \<open>The worker\<close>

definition on_processor ::
  "'w runtime_env \<Rightarrow> (('w \<times> bool) processor, 'a) prog \<Rightarrow> ('w runtime, 'a) prog" where
  "on_processor env m = (\<lambda>rt.
     case m \<lparr>vp_world = (ob_world rt, rt_processor_client rt), vp_state = rt_resolver rt, vp_known = rt_known rt,
       vp_log = rt_log rt\<rparr> of
       (r, p) \<Rightarrow> (r, fold (runtime_callback env) (be_happens (re_observer env) (fst (vp_world p)))
          (rt\<lparr>ob_world := fst (vp_world p), rt_resolver := vp_state p, rt_known := vp_known p, rt_log := vp_log p\<rparr>)))"

definition on_coordinator ::
  "'w runtime_env \<Rightarrow> (happening \<Rightarrow> 'w runtime \<Rightarrow> 'w runtime) \<Rightarrow> ('w, 'a) co_prog \<Rightarrow> ('w runtime, 'a) prog" where
  "on_coordinator env happen m = (\<lambda>rt.
     case m \<lparr>sy_world = ob_world rt, sy_coordinator = rt_coordinator rt, sy_trace = rt_trace rt,
       sy_dispatched = rt_dispatched rt\<rparr> of
       (r, s) \<Rightarrow> (r, fold happen (be_happens (re_observer env) (sy_world s))
          (rt\<lparr>ob_world := sy_world s, rt_coordinator := sy_coordinator s, rt_trace := sy_trace s,
            rt_dispatched := sy_dispatched s\<rparr>)))"

definition notify_recovery :: "'w runtime_env \<Rightarrow> string \<Rightarrow> 'w runtime \<Rightarrow> 'w runtime" where
  "notify_recovery env failure_id rt =
     rt\<lparr>rt_coordinator := notify_failure (en_settings (re_recovery env)) (PStr failure_id) (rt_coordinator rt)\<rparr>"

definition row_fetched :: "('w, 'z) observer_scheme \<Rightarrow> ('w, 'z) observer_scheme" where
  "row_fetched = on_os (\<lambda>os. os\<lparr>os_rows_fetched := os_rows_fetched os + 1\<rparr>)"

definition process_signal :: "'w runtime_env \<Rightarrow> change_signal \<Rightarrow> ('w runtime, unit) prog" where
  "process_signal env signal =
     (case signal of
        ResolutionChange event resolution_id stamp \<Rightarrow>
          seqP (on_processor env (learn_resolution (re_resolver env) resolution_id)) (modifyP row_fetched)
      | FailureChange event failure_id stamp \<Rightarrow>
          seqP (modifyP (notify_recovery env failure_id))
          (bindP (on_processor env (pending_memory_resolution (re_resolver env) failure_id)) (\<lambda>pending.
           seqP (case pending of
               None \<Rightarrow> returnP None
             | Some resolution_id \<Rightarrow> on_processor env (learn_resolution (re_resolver env) resolution_id))
           (seqP (on_processor env (process_failure_match (re_resolver env) failure_id))
           (seqP (modifyP (notify_recovery env failure_id)) (modifyP row_fetched))))))"

definition runtime_happening :: "'w runtime_env \<Rightarrow> happening \<Rightarrow> 'w runtime \<Rightarrow> 'w runtime" where
  "runtime_happening env h rt =
     (case h of WorkerTurn \<Rightarrow> snd (fetch_worker_turn (process_signal env) rt) | _ \<Rightarrow> runtime_callback env h rt)"

section \<open>The connection\<close>

definition connect_resolution_channel :: "'w runtime_env \<Rightarrow> ('w runtime, unit) prog" where
  "connect_resolution_channel env =
     bindP (getsP ob_client) (\<lambda>client.
     seqP (if client then returnP () else throwP ConnectionErr)
     (seqP (modifyP (\<lambda>rt. rt\<lparr>rt_resolution_event := False, rt_resolution_error := None, rt_resolution_channel := True\<rparr>))
     (seqP (await_ob (re_observer env) (runtime_happening env) (re_subscribe_resolutions env))
     (seqP (await_ob (re_observer env) (runtime_happening env)
         (be_wait (re_observer env) (st_subscription_timeout (re_settings env))))
     (bindP (getsP rt_resolution_event) (\<lambda>set_event.
      if \<not> set_event then throwP TimeoutErr
      else bindP (getsP rt_resolution_error) (\<lambda>error.
        case error of None \<Rightarrow> returnP () | Some e \<Rightarrow> throwP e)))))))"

definition resolutions_query :: "resolver_settings \<Rightarrow> table_query" where
  "resolutions_query st = \<lparr>tq_table = st_resolutions_table st, tq_columns = ''resolution_id'',
     tq_filters = [FilterEq ''outcome'' (PStr ''resolved''), FilterEq ''applied'' (PBool True)],
     tq_order = Some ''created_at'', tq_limit = Some (st_reconcile_limit st)\<rparr>"

definition pending_query :: "resolver_settings \<Rightarrow> table_query" where
  "pending_query st = \<lparr>tq_table = st_failure_events_table st, tq_columns = ''failure_id'',
     tq_filters = [FilterEq ''matcher_status'' (PStr ''pending''), FilterEq ''analysis_status'' (PStr ''completed'')],
     tq_order = Some ''created_at'', tq_limit = Some (st_reconcile_limit st)\<rparr>"

definition reconcile_signals :: "(string option \<Rightarrow> string \<Rightarrow> string option \<Rightarrow> change_signal) \<Rightarrow> string \<Rightarrow> pyval \<Rightarrow> change_signal list" where
  "reconcile_signals signal_of column data =
     map (\<lambda>k. signal_of (Some ''RECONCILE'') k None)
       (List.map_filter (\<lambda>row. safe_identifier (dget row column)) (response_rows data))"

definition enqueue_reconciliation :: "'w runtime_env \<Rightarrow> ('w runtime, unit) prog" where
  "enqueue_reconciliation env =
     (let select_rows = (\<lambda>query. await_ob (re_observer env) (runtime_happening env)
            (sb_select (be_client (re_observer env)) query))
      in bindP (getsP ob_client) (\<lambda>client.
      seqP (if client then returnP () else throwP ConnectionErr)
      (bindP (select_rows (resolutions_query (re_settings env))) (\<lambda>resolutions.
       seqP (modifyP (fold enqueue_signal (reconcile_signals ResolutionChange ''resolution_id'' resolutions)))
       (bindP (select_rows (pending_query (re_settings env))) (\<lambda>pending.
        modifyP (fold enqueue_signal (reconcile_signals FailureChange ''failure_id'' pending))))))))"

definition runtime_connect :: "'w runtime_env \<Rightarrow> ('w runtime, unit) prog" where
  "runtime_connect env =
     seqP (observer_connect (re_observer env) (runtime_happening env))
     (seqP (modifyP (\<lambda>rt. rt\<lparr>rt_processor_client := ob_client rt\<rparr>))
     (bindP (getsP ob_client) (\<lambda>client.
      seqP (if client then returnP () else throwP ConnectionErr)
      (seqP (modifyP (\<lambda>rt. rt\<lparr>rt_coordinator := set_database (Some (re_database env)) (rt_coordinator rt)\<rparr>))
      (seqP (connect_resolution_channel env)
      (seqP (enqueue_reconciliation env)
        (on_coordinator env (runtime_happening env) (reconcile (re_recovery env)))))))))"

definition runtime_healthy :: "'w runtime_env \<Rightarrow> 'w runtime \<Rightarrow> bool" where
  "runtime_healthy env rt \<longleftrightarrow> observer_healthy (re_observer env) rt \<and> rt_resolution_channel rt \<and>
     re_resolution_joined env (ob_world rt)"

definition runtime_disconnect :: "'w runtime_env \<Rightarrow> ('w runtime, unit) prog" where
  "runtime_disconnect env =
     bindP (getsP (\<lambda>rt. ob_client rt \<and> rt_resolution_channel rt)) (\<lambda>open_channel.
     seqP (modifyP (\<lambda>rt. rt\<lparr>rt_resolution_channel := False, rt_processor_client := False,
         rt_coordinator := set_database None (rt_coordinator rt)\<rparr>))
     (seqP (if open_channel
            then catchP (await_ob (re_observer env) (runtime_happening env) (re_remove_resolution_channel env))
              (\<lambda>e. if e = CancelledErr then throwP e else returnP ())
            else returnP ())
       (observer_disconnect (re_observer env) (runtime_happening env))))"

definition runtime_methods :: "'w runtime_env \<Rightarrow> 'w runtime observer_methods" where
  "runtime_methods env = \<lparr>om_happen = runtime_happening env, om_connect = runtime_connect env,
     om_healthy = runtime_healthy env, om_disconnect = runtime_disconnect env\<rparr>"

text \<open>The service: the coordinator is started first, and stopped before the agent is closed.\<close>

definition runtime_run :: "'w runtime_env \<Rightarrow> nat \<Rightarrow> ('w runtime, loop_end) prog" where
  "runtime_run env fuel rt =
     (case observer_run (re_observer env) (runtime_methods env) fuel
         (rt\<lparr>rt_coordinator := start (en_settings (re_recovery env)) (map fst (en_sessions (re_recovery env))) (rt_coordinator rt)\<rparr>) of
        (Inr OutOfFuel, u) \<Rightarrow> (Inr OutOfFuel, u)
      | (r, u) \<Rightarrow> seqP (modifyP coordinator_stop)
          (seqP (await_ob (re_observer env) (runtime_callback env) (re_close_agent env)) (liftP r)) u)"

definition runtime_snapshot :: "'w runtime_env \<Rightarrow> 'w runtime \<Rightarrow> pydict" where
  "runtime_snapshot env rt =
     dict_update (dict_update (dset (observer_snapshot (ob_state rt)) ''mode'' (PStr ''agent''))
         (resolver_snapshot (rt_resolver rt)))
       (snapshot (re_recovery env) \<lparr>sy_world = ob_world rt, sy_coordinator = rt_coordinator rt,
          sy_trace = rt_trace rt, sy_dispatched = rt_dispatched rt\<rparr>)"

section \<open>Assembly\<close>

text \<open>The model and whether the agent owns its client; \<open>given\<close> says that a client was passed.\<close>

definition agent_init :: "string \<Rightarrow> string option \<Rightarrow> bool \<Rightarrow> (string \<times> bool) result" where
  "agent_init model api_key given =
     (let normalized_model = strip model in
      guardE (normalized_model \<noteq> []) ValueErr
      (guardE (\<not> (given \<and> api_key \<noteq> None)) ValueErr
      (if given then Inr (normalized_model, False)
       else (case api_key of
           None \<Rightarrow> Inl ValueErr
         | Some key \<Rightarrow> guardE (strip key \<noteq> []) ValueErr (Inr (normalized_model, True))))))"

definition agent_close :: "bool \<Rightarrow> ('w, unit) prog \<Rightarrow> ('w, unit) prog" where
  "agent_close owns_client close_client = (if owns_client then close_client else returnP ())"

definition default_agent :: "resolver_settings \<Rightarrow> (string \<times> bool) result" where
  "default_agent st = agent_init (st_openai_model st) (Some (st_openai_api_key st)) False"

definition store_config :: "resolver_settings \<Rightarrow> string \<Rightarrow> string \<Rightarrow> string \<Rightarrow> string \<Rightarrow> pyfloat \<Rightarrow> git_config" where
  "store_config st repo_root branch author_name author_email timeout =
     \<lparr>gc_repo_url = st_memory_repo_url st, gc_repo_root = repo_root, gc_branch = branch,
      gc_author_name = author_name, gc_author_email = author_email, gc_timeout = timeout\<rparr>"

text \<open>
  The two stores, from the texts of the paths; \<open>author\<close> holds the defaults of the configuration. A
  path is taken in the form \<open>Path\<close> gives it, without a slash at its end.
\<close>

definition default_memory_config :: "(git_config \<Rightarrow> git_config result) \<Rightarrow> resolver_settings \<Rightarrow> string \<Rightarrow> string \<Rightarrow> pyfloat \<Rightarrow> git_config result" where
  "default_memory_config check st author_name author_email timeout =
     check (store_config st (st_memory_repo_root st) (st_memory_repo_branch st) author_name author_email timeout)"

definition default_dev_memory_config ::
  "(git_config \<Rightarrow> git_config result) \<Rightarrow> resolver_settings \<Rightarrow> string \<Rightarrow> string \<Rightarrow> pyfloat \<Rightarrow> git_config option result" where
  "default_dev_memory_config check st author_name author_email timeout =
     (if st_memory_repo_dev_branch st = st_memory_repo_branch st then Inr None
      else if last (split_on (CHR ''/'') (st_memory_repo_root st)) = [] then Inl ValueErr
      else bindE (check (store_config st (st_memory_repo_root st @ ''-dev'') (st_memory_repo_dev_branch st)
        author_name author_email timeout)) (\<lambda>config. Inr (Some config)))"

text \<open>The endpoints: the answer and its status, before (None) and after the service is built.\<close>

definition health_response :: "string \<Rightarrow> (pydict \<times> bool \<times> bool) option \<Rightarrow> pydict \<times> int" where
  "health_response mode service =
     (case service of
        None \<Rightarrow> ([(''mode'', PStr mode), (''status'', PStr ''starting''), (''connected'', PBool False)], 503)
      | Some (answer, running, task_done) \<Rightarrow> (answer, if running \<and> \<not> task_done then 200 else 503))"

definition ready_response :: "string \<Rightarrow> pydict option \<Rightarrow> pydict \<times> int" where
  "ready_response mode service =
     (let answer = (case service of
          None \<Rightarrow> [(''mode'', PStr mode), (''status'', PStr ''starting''), (''connected'', PBool False)]
        | Some given \<Rightarrow> given)
      in (answer, if truthy (dget answer ''connected'') then 200 else 503))"

end
