(* ===== verification/Observer_Properties.thy ===== *)
theory Observer_Properties
  imports Observer
begin

text \<open>
  What the loop of the observer promises: how it ends, and how long it waits between connections.
  The loop is proved once for the methods a service supplies, in a locale that the observer's and the
  runtime's methods interpret.
\<close>

section \<open>What a service keeps\<close>

text \<open>What no operation of a service touches: whether it runs, the delays so far, and a stop once set.\<close>

definition run_kept :: "bool \<Rightarrow> pyfloat list \<Rightarrow> bool \<Rightarrow> ('w, 'z) observer_scheme \<Rightarrow> bool" where
  "run_kept running delays stopping ob \<longleftrightarrow> os_running (ob_state ob) = running \<and> ob_delays ob = delays \<and>
     (stopping \<longrightarrow> ob_stop ob)"

lemma run_kept_self: "run_kept (os_running (ob_state ob)) (ob_delays ob) (ob_stop ob) ob"
  by (simp add: run_kept_def)

definition kept_by :: "(('w, 'z) observer_scheme, 'a) prog \<Rightarrow> bool" where
  "kept_by m \<longleftrightarrow> (\<forall>b ds q. preserves (run_kept b ds q) m)"

named_theorems kept_rules \<open>programs that keep what the run rests on\<close>

lemma kept_byD: "kept_by m \<Longrightarrow> m ob = (r, ob') \<Longrightarrow> run_kept b ds q ob \<Longrightarrow> run_kept b ds q ob'"
  unfolding kept_by_def by (blast intro: preservesD)

lemma kept_simple [kept_rules]: "kept_by (returnP a)" "kept_by (throwP e)" "kept_by (liftP r)" "kept_by (getsP f)"
  by (simp_all add: kept_by_def preserves_intros)

lemma kept_bind [kept_rules]: "kept_by m \<Longrightarrow> (\<And>a. kept_by (f a)) \<Longrightarrow> kept_by (bindP m f)"
  unfolding kept_by_def by (blast intro: preserves_intros)

lemma kept_seq [kept_rules]: "kept_by m \<Longrightarrow> kept_by k \<Longrightarrow> kept_by (seqP m k)"
  unfolding kept_by_def by (blast intro: preserves_intros)

lemma kept_catch [kept_rules]: "kept_by m \<Longrightarrow> (\<And>e. kept_by (h e)) \<Longrightarrow> kept_by (catchP m h)"
  unfolding kept_by_def by (blast intro: preserves_intros)

lemma kept_if [kept_rules]: "kept_by m \<Longrightarrow> kept_by k \<Longrightarrow> kept_by (if b then m else k)"
  by simp

lemma kept_case [kept_rules]: "kept_by m \<Longrightarrow> (\<And>x. kept_by (f x)) \<Longrightarrow> kept_by (case v of None \<Rightarrow> m | Some x \<Rightarrow> f x)"
  by (simp split: option.split)

lemma kept_modify [kept_rules]: "(\<And>b ds q ob. run_kept b ds q ob \<Longrightarrow> run_kept b ds q (f ob)) \<Longrightarrow> kept_by (modifyP f)"
  by (simp add: kept_by_def preserves_modify)

lemma kept_os:
  "os_running (f (ob_state ob)) = os_running (ob_state ob) \<Longrightarrow> run_kept b ds q (on_os f ob) = run_kept b ds q ob"
  by (simp add: run_kept_def on_os_def)

text \<open>A happening keeps the run and the client.\<close>

definition harmless :: "(happening \<Rightarrow> ('w, 'z) observer_scheme \<Rightarrow> ('w, 'z) observer_scheme) \<Rightarrow> bool" where
  "harmless happen \<longleftrightarrow> (\<forall>h ob. ob_client (happen h ob) = ob_client ob \<and>
     ob_channel (happen h ob) = ob_channel ob \<and> (\<forall>b ds q. run_kept b ds q ob \<longrightarrow> run_kept b ds q (happen h ob)))"

lemma harmless_fold:
  assumes "harmless happen"
  shows "ob_client (fold happen hs ob) = ob_client ob" "ob_channel (fold happen hs ob) = ob_channel ob"
    "run_kept b ds q ob \<Longrightarrow> run_kept b ds q (fold happen hs ob)"
  using assms by (induction hs arbitrary: ob) (auto simp: harmless_def)

lemma kept_await [kept_rules]: "harmless happen \<Longrightarrow> kept_by (await_ob env happen m)"
  unfolding kept_by_def preserves_def await_ob_def
  by (auto simp: run_kept_def split: prod.splits intro!: harmless_fold(3) [unfolded run_kept_def])

lemma await_client: "harmless happen \<Longrightarrow> await_ob env happen m ob = (r, ob') \<Longrightarrow> ob_client ob' = ob_client ob"
  by (auto simp: await_ob_def harmless_fold(1) split: prod.splits)

lemma status_kept:
  "ob_client (on_subscription_status now status error ob) = ob_client ob"
  "ob_channel (on_subscription_status now status error ob) = ob_channel ob"
  "run_kept b ds q ob \<Longrightarrow> run_kept b ds q (on_subscription_status now status error ob)"
  by (auto simp: on_subscription_status_def mark_disconnected_def on_os_def run_kept_def)

lemma change_kept:
  "ob_client (snd (on_change now payload ob)) = ob_client ob"
  "ob_channel (snd (on_change now payload ob)) = ob_channel ob"
  "run_kept b ds q ob \<Longrightarrow> run_kept b ds q (snd (on_change now payload ob))"
  by (auto simp: on_change_def put_signal_def drop_event_def on_os_def run_kept_def prog_defs
      split: sum.splits option.splits)

lemma callback_harmless: "harmless (observer_callback env)"
  unfolding harmless_def
proof (intro allI)
  fix h and ob :: "('a, 'b) observer_scheme"
  show "ob_client (observer_callback env h ob) = ob_client ob \<and>
      ob_channel (observer_callback env h ob) = ob_channel ob \<and>
      (\<forall>b ds q. run_kept b ds q ob \<longrightarrow> run_kept b ds q (observer_callback env h ob))"
    by (cases h) (simp_all add: observer_callback_def status_kept change_kept, simp add: observer_stop_def run_kept_def)
qed

lemma kept_fetch [kept_rules]: "kept_by (fetch_and_log_safe_row env signal)"
proof -
  have row: "kept_by (case data of PList (row # rows) \<Rightarrow> modifyP (on_os (\<lambda>os. os\<lparr>os_rows_fetched := os_rows_fetched os + 1\<rparr>))
      | _ \<Rightarrow> returnP ())" for data
    by (cases data) (auto simp: kept_os split: list.split intro!: kept_rules)
  show ?thesis
    unfolding fetch_and_log_safe_row_def Let_def by (intro kept_rules callback_harmless row)
qed

lemma worker_kept:
  assumes "\<And>signal. kept_by (handle signal)" "run_kept b ds q ob"
  shows "run_kept b ds q (snd (fetch_worker_turn handle ob))"
proof (cases "ob_queue ob")
  case Nil
  with assms(2) show ?thesis by (simp add: fetch_worker_turn_def)
next
  case (Cons signal rest)
  have "kept_by (catchP (handle signal) (\<lambda>e. if e = CancelledErr then throwP e
      else modifyP (on_os (\<lambda>os. os\<lparr>os_fetch_errors := os_fetch_errors os + 1\<rparr>))))"
    by (intro kept_rules assms(1)) (simp add: kept_os)
  moreover have "run_kept b ds q (ob\<lparr>ob_queue := rest\<rparr>)" using assms(2) by (simp add: run_kept_def)
  ultimately show ?thesis
    using Cons unfolding fetch_worker_turn_def kept_by_def preserves_def by simp
qed

section \<open>The loop of a service\<close>

locale observer_service =
  fixes env :: "'w observer_env" and me :: "('w, 'z) observer_scheme observer_methods"
  assumes happens: "harmless (om_happen me)"
    and connects: "kept_by (om_connect me)"
    and disconnects: "kept_by (om_disconnect me)"
    and released: "om_disconnect me ob = (Inr u, ob') \<Longrightarrow> \<not> ob_client ob' \<and> \<not> ob_channel ob'"
    and idle: "\<not> ob_client ob \<Longrightarrow> \<exists>ob'. om_disconnect me ob = (Inr (), ob') \<and> \<not> os_connected (ob_state ob')"
begin

lemma watch_kept: "kept_by (watch_connection env me fuel since)"
proof (induction fuel arbitrary: since)
  case (Suc fuel)
  show ?case unfolding watch_connection.simps Let_def by (intro kept_rules Suc happens) (simp_all add: kept_os)
qed (simp add: kept_rules)

lemma closing_kept: "kept_by (closing env me created r)"
  unfolding closing_def stop_fetch_worker_def by (intro kept_rules happens disconnects)

lemma error_kept: "run_kept b ds q ob \<Longrightarrow> run_kept b ds q (snd (connection_error e a ob))"
  by (auto simp: connection_error_def mark_disconnected_def kept_os)

lemma one_connection_kept:
  assumes "one_connection env me fuel ob = (r, ob')" "run_kept b ds q ob" shows "run_kept b ds q ob'"
proof -
  obtain x u where c: "om_connect me ob = (x, u)" by (cases "om_connect me ob")
  note u = kept_byD [OF connects c assms(2)]
  have close: "run_kept b ds q ob'" if "(case connection_error e a v of (r, v') \<Rightarrow> closing env me created r v') = (r, ob')"
    "run_kept b ds q v" for e v created and a :: "bool option"
    using that kept_byD [OF closing_kept] error_kept [OF that(2), of e a] by (auto split: prod.splits)
  show ?thesis
  proof (cases x)
    case (Inl e)
    with assms(1) c u close [where e = e and a = "Some False" and v = u and created = False] show ?thesis by (simp add: one_connection_def)
  next
    case (Inr y)
    obtain z v where w: "watch_connection env me fuel None u = (z, v)" by (cases "watch_connection env me fuel None u")
    note v = kept_byD [OF watch_kept w u]
    show ?thesis
    proof (cases z)
      case z: (Inl e)
      with assms(1) c Inr w close [where e = e and a = "Some True" and v = v and created = True] v show ?thesis by (simp add: one_connection_def)
    next
      case z: (Inr end_of)
      with assms(1) c Inr w v kept_byD [OF closing_kept _ v] show ?thesis
        by (cases end_of) (auto simp: one_connection_def)
    qed
  qed
qed

lemma one_connection_released:
  assumes "one_connection env me fuel ob = (Inr (Some c), ob')" shows "\<not> ob_client ob'"
proof -
  have "\<not> ob_client ob'" if "closing env me created r v = (Inr (Some c), ob')" for created r v
    using that released by (auto simp: closing_def returned)
  then show ?thesis using assms
    by (auto simp: one_connection_def split: prod.splits sum.splits loop_end.splits)
qed

text \<open>A delay is the initial one, or not above the maximum.\<close>

definition delay_ok :: "pyfloat \<Rightarrow> bool" where
  "delay_ok d \<longleftrightarrow> d = bs_reconnect_initial (be_settings env) \<or> \<not> flt (bs_reconnect_max (be_settings env)) d"

lemma flt_irrefl: "\<not> flt x x"
  by (simp add: flt_def)

lemma delay_ok_next: "delay_ok (next_delay (be_settings env) d)"
  by (auto simp: delay_ok_def next_delay_def fmin_def flt_irrefl)

lemma loop_kept:
  assumes "observer_loop env me fuel delay ob = (r, ob')" "delay_ok delay" "list_all delay_ok (ob_delays ob)"
  shows "os_running (ob_state ob') = os_running (ob_state ob) \<and> list_all delay_ok (ob_delays ob') \<and>
    (r = Inr LoopReturned \<and> \<not> ob_client ob \<longrightarrow> ob_stop ob' \<and> \<not> ob_client ob')"
  using assms
proof (induction fuel arbitrary: delay ob)
  case (Suc fuel)
  show ?case
  proof (cases "ob_stop ob")
    case True
    with Suc.prems show ?thesis by (auto simp: prog_defs)
  next
    case False
    obtain x u where x: "one_connection env me fuel ob = (x, u)" by (cases "one_connection env me fuel ob")
    from one_connection_kept [OF x run_kept_self] have u: "os_running (ob_state u) = os_running (ob_state ob)"
      "ob_delays u = ob_delays ob" by (simp_all add: run_kept_def)
    show ?thesis
    proof (cases "\<exists>c. x = Inr (Some c)")
      case False
      with Suc.prems x u \<open>\<not> ob_stop ob\<close> show ?thesis
        by (cases x) (auto simp: prog_defs split: option.splits)
    next
      case True
      then obtain c where c: "x = Inr (Some c)" by blast
      let ?delay = "if c then bs_reconnect_initial (be_settings env) else delay"
      note gone = one_connection_released [OF x [unfolded c]]
      have ok: "delay_ok ?delay" using Suc.prems(2) by (simp add: delay_ok_def)
      show ?thesis
      proof (cases "ob_stop u")
        case True
        have "r = Inr LoopReturned" "ob' = u"
          using Suc.prems(1) x c True \<open>\<not> ob_stop ob\<close> by (simp_all add: bindP_def getsP_def returnP_def Let_def)
        with u gone True Suc.prems(3) show ?thesis by simp
      next
        case False
        let ?v = "on_os (\<lambda>os. os\<lparr>os_reconnect_attempts := os_reconnect_attempts os + 1\<rparr>) (u\<lparr>ob_delays := ob_delays u @ [?delay]\<rparr>)"
        have v: "os_running (ob_state ?v) = os_running (ob_state ob)" "list_all delay_ok (ob_delays ?v)" "\<not> ob_client ?v"
          using u gone ok Suc.prems(3) by (simp_all add: on_os_def)
        obtain y w where y: "await_ob env (om_happen me) (be_wait env ?delay) ?v = (y, w)"
          by (cases "await_ob env (om_happen me) (be_wait env ?delay) ?v")
        from kept_byD [OF kept_await [OF happens] y run_kept_self] await_client [OF happens y] v
        have w: "os_running (ob_state w) = os_running (ob_state ob)" "list_all delay_ok (ob_delays w)" "\<not> ob_client w"
          by (simp_all add: run_kept_def)
        have run: "(case y of Inl e \<Rightarrow> (Inl e, w) | Inr z \<Rightarrow> observer_loop env me fuel (next_delay (be_settings env) ?delay) w) = (r, ob')"
          using Suc.prems(1) x c y False \<open>\<not> ob_stop ob\<close>
          by (simp add: bindP_def seqP_def getsP_def modifyP_def Let_def)
        show ?thesis
        proof (cases y)
          case (Inl e)
          with run w show ?thesis by auto
        next
          case (Inr z)
          with run have "observer_loop env me fuel (next_delay (be_settings env) ?delay) w = (r, ob')" by simp
          from Suc.IH [OF this delay_ok_next w(2)] w show ?thesis by simp
        qed
      qed
    qed
  qed
qed (auto simp: prog_defs)

lemma run_ends:
  assumes "observer_run env me fuel ob = (r, ob')" "r \<noteq> Inr OutOfFuel" "\<not> ob_client ob" "ob_delays ob = []"
  shows "\<not> os_running (ob_state ob') \<and> list_all delay_ok (ob_delays ob') \<and>
    (r = Inr LoopReturned \<longrightarrow> \<not> ob_client ob' \<and> \<not> ob_channel ob' \<and> \<not> os_connected (ob_state ob') \<and> ob_stop ob')"
proof -
  let ?start = "on_os (\<lambda>os. os\<lparr>os_running := True, os_started_at := Some (be_now env (ob_world ob))\<rparr>) ob"
  obtain x u where x: "observer_loop env me fuel (bs_reconnect_initial (be_settings env)) ?start = (x, u)"
    by (cases "observer_loop env me fuel (bs_reconnect_initial (be_settings env)) ?start")
  have "x \<noteq> Inr OutOfFuel" using assms(1,2) x by (auto simp: observer_run_def)
  then have run: "seqP (om_disconnect me) (liftP x) (on_os (\<lambda>os. os\<lparr>os_running := False, os_connected := False\<rparr>) u) = (r, ob')"
    using assms(1) x by (auto simp: observer_run_def split: sum.splits loop_end.splits)
  have u: "list_all delay_ok (ob_delays u)" "x = Inr LoopReturned \<longrightarrow> ob_stop u \<and> \<not> ob_client u"
    using loop_kept [OF x] assms(3,4) by (simp_all add: delay_ok_def on_os_def)
  let ?v = "on_os (\<lambda>os. os\<lparr>os_running := False, os_connected := False\<rparr>) u"
  obtain y w where y: "om_disconnect me ?v = (y, w)" by (cases "om_disconnect me ?v")
  from kept_byD [OF disconnects y run_kept_self] have w: "\<not> os_running (ob_state w)" "ob_delays w = ob_delays u"
    "ob_stop u \<longrightarrow> ob_stop w" by (simp_all add: run_kept_def on_os_def)
  have w': "ob' = w" using run y by (auto simp: seqP_def bindP_def liftP_def split: sum.splits)
  have "\<not> ob_client ob' \<and> \<not> ob_channel ob' \<and> \<not> os_connected (ob_state ob') \<and> ob_stop ob'" if r: "r = Inr LoopReturned"
  proof -
    have ended: "x = Inr LoopReturned" "\<exists>a. y = Inr a" using run y r
      by (auto simp: seqP_def bindP_def liftP_def split: sum.splits)
    then have "\<not> ob_client ?v" using u(2) by (simp add: on_os_def)
    from idle [OF this] y have "\<not> os_connected (ob_state w)" by auto
    with ended y w u(2) released w' show ?thesis by auto
  qed
  with w w' u show ?thesis by simp
qed

end

section \<open>The observer\<close>

lemma kept_connect: "harmless happen \<Longrightarrow> kept_by (observer_connect env happen)"
  unfolding observer_connect_def Let_def
  by (intro kept_rules) (simp_all add: kept_os, simp_all add: run_kept_def)

lemma kept_disconnect: "harmless happen \<Longrightarrow> kept_by (observer_disconnect env happen)"
  unfolding observer_disconnect_def
  by (intro kept_rules) (auto simp: on_os_def run_kept_def split: prod.splits intro!: kept_rules)

lemma disconnect_releases:
  assumes "harmless happen" "observer_disconnect env happen ob = (r, ob')"
  shows "\<not> ob_client ob' \<and> \<not> ob_channel ob'"
proof -
  let ?P = "\<lambda>ob. \<not> ob_client ob \<and> \<not> ob_channel ob"
  let ?u = "on_os (\<lambda>os. os\<lparr>os_connected := False\<rparr>) (ob\<lparr>ob_client := False, ob_channel := False\<rparr>)"
  have part: "preserves ?P (await_ob env happen m)" for m :: "('a, unit) prog"
    unfolding preserves_def await_ob_def
    by (auto simp: harmless_fold(1,2) [OF assms(1)] split: prod.splits)
  have "preserves ?P (if \<not> client then returnP ()
        else catchP
          (seqP (if channel then await_ob env happen (be_remove_channel env) else returnP ())
             (bindP (getsP (\<lambda>ob. be_socket env (ob_world ob))) (\<lambda>socket.
                if socket = Some True then await_ob env happen (be_close env) else returnP ())))
          (\<lambda>e. if e = CancelledErr then throwP e else returnP ()))" for client channel
    by (intro preserves_intros part)
  from preservesD [OF this, of ?u] assms(2) show ?thesis
    by (auto simp: observer_disconnect_def bindP_def getsP_def seqP_def modifyP_def on_os_def)
qed

lemma disconnect_idle:
  "\<not> ob_client ob \<Longrightarrow> \<exists>ob'. observer_disconnect env happen ob = (Inr (), ob') \<and> \<not> os_connected (ob_state ob')"
  by (auto simp: observer_disconnect_def bindP_def getsP_def seqP_def modifyP_def returnP_def on_os_def)

lemma fetch_client: "ob_client (snd (fetch_and_log_safe_row env signal ob)) = ob_client ob"
  "ob_channel (snd (fetch_and_log_safe_row env signal ob)) = ob_channel ob"
proof -
  have "preserves (\<lambda>o'. ob_client o' = ob_client ob \<and> ob_channel o' = ob_channel ob) (fetch_and_log_safe_row env signal)"
  proof -
    have part: "preserves (\<lambda>o'. ob_client o' = ob_client ob \<and> ob_channel o' = ob_channel ob) (await_ob env (observer_callback env) m)"
      for m :: "('a, pyval) prog"
      unfolding preserves_def await_ob_def
      by (auto simp: harmless_fold(1,2) [OF callback_harmless] split: prod.splits)
    have "preserves (\<lambda>o'. ob_client o' = ob_client ob \<and> ob_channel o' = ob_channel ob)
      (case data of PList (row # rows) \<Rightarrow> modifyP (on_os (\<lambda>os. os\<lparr>os_rows_fetched := os_rows_fetched os + 1\<rparr>))
       | _ \<Rightarrow> returnP ())" for data
      by (cases data) (auto simp: on_os_def split: list.split intro!: preserves_intros)
    then show ?thesis
      unfolding fetch_and_log_safe_row_def Let_def by (intro preserves_intros part)
  qed
  then show "ob_client (snd (fetch_and_log_safe_row env signal ob)) = ob_client ob"
    "ob_channel (snd (fetch_and_log_safe_row env signal ob)) = ob_channel ob"
    unfolding preserves_def by blast+
qed

lemma worker_client:
  assumes "\<And>signal ob. ob_client (snd (handle signal ob)) = ob_client ob \<and> ob_channel (snd (handle signal ob)) = ob_channel ob"
  shows "ob_client (snd (fetch_worker_turn handle ob)) = ob_client ob" "ob_channel (snd (fetch_worker_turn handle ob)) = ob_channel ob"
proof -
  have "ob_client (snd (fetch_worker_turn handle ob)) = ob_client ob \<and> ob_channel (snd (fetch_worker_turn handle ob)) = ob_channel ob"
  proof (cases "ob_queue ob")
    case (Cons signal rest)
    obtain r u where u: "handle signal (ob\<lparr>ob_queue := rest\<rparr>) = (r, u)" by (cases "handle signal (ob\<lparr>ob_queue := rest\<rparr>)")
    with assms [of signal "ob\<lparr>ob_queue := rest\<rparr>"] have "ob_client u = ob_client ob" "ob_channel u = ob_channel ob" by simp_all
    with u Cons show ?thesis
      by (auto simp: fetch_worker_turn_def catchP_def throwP_def modifyP_def on_os_def split: sum.splits)
  qed (simp add: fetch_worker_turn_def)
  then show "ob_client (snd (fetch_worker_turn handle ob)) = ob_client ob"
    "ob_channel (snd (fetch_worker_turn handle ob)) = ob_channel ob" by simp_all
qed

lemma happening_harmless: "harmless (observer_happening env)"
  unfolding harmless_def
proof (intro allI)
  fix h and ob :: "('a, 'b) observer_scheme"
  show "ob_client (observer_happening env h ob) = ob_client ob \<and>
      ob_channel (observer_happening env h ob) = ob_channel ob \<and>
      (\<forall>b ds q. run_kept b ds q ob \<longrightarrow> run_kept b ds q (observer_happening env h ob))"
  proof (cases "h = WorkerTurn")
    case True
    then show ?thesis
      by (simp add: observer_happening_def worker_client fetch_client worker_kept kept_fetch)
  next
    case False
    then have "observer_happening env h ob = observer_callback env h ob"
      by (cases h) (simp_all add: observer_happening_def)
    then show ?thesis using callback_harmless unfolding harmless_def by metis
  qed
qed

interpretation watching: observer_service env "observer_methods_of env" for env
  by unfold_locales
    (auto simp: observer_methods_of_def happening_harmless kept_connect kept_disconnect
      dest: disconnect_releases [OF happening_harmless] intro: disconnect_idle)

text \<open>
  A demonstration: the subscription is answered, then the stop arrives while the connection is watched.
  The world counts the calls.
\<close>

definition demo_observer :: "nat observer_env" where
  "demo_observer = \<lparr>be_settings = observer_settings_of (settings_texts [] False),
     be_now = (\<lambda>w. ''now''), be_time = (\<lambda>w. FFin (of_nat w)),
     be_happens = (\<lambda>w. if w = 2 then [StatusArrives (PStr ''SUBSCRIBED'') None, ChangeArrives (PDict [])]
        else if w = 4 then [ResolutionStatusArrives (PStr ''SUBSCRIBED'') None]
        else if w = 6 then [WorkerTurn, StopCalled] else []),
     be_create = (\<lambda>url key. modifyP Suc), be_subscribe = modifyP Suc, be_wait = (\<lambda>t. modifyP Suc),
     be_join = (\<lambda>t. modifyP Suc),
     be_client = \<lparr>sb_rpc = (\<lambda>n a. throwP ConnectionErr),
       sb_select = (\<lambda>q. returnP (PList [PDict [(''resolution_id'', PStr ''r1''), (''failure_id'', PStr ''e1'')]])),
       sb_update = (\<lambda>q v. returnP (PList [])), sb_now = (\<lambda>w. ''now'')\<rparr>,
     be_joined = (\<lambda>w. True), be_socket = (\<lambda>w. Some True), be_remove_channel = modifyP Suc,
     be_close = modifyP Suc\<rparr>"

text \<open>
  However the observer ends, it is marked as stopped; when its loop returned it holds no client
  and no channel and shows no connection, and it was asked to stop. Every delay before a reconnect
  was the initial one or not above the configured maximum.
\<close>

theorem observer_run_ends_disconnected:
  assumes "observer_run env (observer_methods_of env) fuel (new_observer w) = (r, ob')" "r \<noteq> Inr OutOfFuel"
  shows "\<not> os_running (ob_state ob') \<and>
    list_all (\<lambda>d. d = bs_reconnect_initial (be_settings env) \<or> \<not> flt (bs_reconnect_max (be_settings env)) d) (ob_delays ob') \<and>
    (r = Inr LoopReturned \<longrightarrow> \<not> ob_client ob' \<and> \<not> ob_channel ob' \<and> \<not> os_connected (ob_state ob') \<and> ob_stop ob')"
proof -
  have "\<not> ob_client (new_observer w)" "ob_delays (new_observer w) = []" by (simp_all add: new_observer_def)
  from watching.run_ends [OF assms this] show ?thesis by (simp add: watching.delay_ok_def [abs_def])
qed

lemma observer_run_ends_disconnected_witness:
  "\<exists>ob'. observer_run demo_observer (observer_methods_of demo_observer) 9 (new_observer 0) = (Inr LoopReturned, ob') \<and>
     ob_world ob' = 9 \<and> \<not> ob_client ob' \<and> ob_stop ob'"
proof -
  have "case observer_run demo_observer (observer_methods_of demo_observer) 9 (new_observer 0) of
      (r, ob') \<Rightarrow> r = Inr LoopReturned \<and> ob_world ob' = 9" by code_simp
  then obtain ob' where run: "observer_run demo_observer (observer_methods_of demo_observer) 9 (new_observer 0) = (Inr LoopReturned, ob')"
    "ob_world ob' = 9" by (auto split: prod.splits)
  from observer_run_ends_disconnected [OF run(1)] run show ?thesis by simp
qed


end
