(* ===== verification/Resolver_Runtime_Properties.thy ===== *)
theory Resolver_Runtime_Properties
  imports Resolver_Runtime Observer_Properties Recovery_Demo Resolver_Properties
begin

text \<open>
  The runtime's queue is large enough for the reconciliation of a fresh connection, no identifier the
  database returns is lost uncounted, and the runtime's run ends with nothing left running.
\<close>

section \<open>A bounded queue\<close>

locale bounded_queue =
  fixes put :: "'e \<Rightarrow> 's \<Rightarrow> 's" and items :: "'s \<Rightarrow> 'e list" and capacity :: "'s \<Rightarrow> nat" and dropped :: "'s \<Rightarrow> int"
  assumes put_room: "length (items s) < capacity s \<Longrightarrow> items (put e s) = items s @ [e] \<and> dropped (put e s) = dropped s"
    and put_full: "capacity s \<le> length (items s) \<Longrightarrow> items (put e s) = items s \<and> dropped (put e s) = dropped s + 1"
    and put_capacity: "capacity (put e s) = capacity s"
begin

lemma puts_capacity: "capacity (fold put es s) = capacity s"
  by (induction es arbitrary: s) (simp_all add: put_capacity)

lemma puts_fit:
  "length (items s) + length es \<le> capacity s
    \<Longrightarrow> items (fold put es s) = items s @ es \<and> dropped (fold put es s) = dropped s"
proof (induction es arbitrary: s)
  case (Cons e es)
  have room: "length (items s) < capacity s" using Cons.prems by simp
  from Cons.IH [of "put e s"] Cons.prems show ?case
    by (simp add: put_room [OF room] put_capacity)
qed simp

text \<open>Nothing is lost uncounted: the queue takes the signals up to its capacity and counts the rest.\<close>

lemma puts_counted:
  "length (items s) \<le> capacity s
    \<Longrightarrow> items (fold put es s) = items s @ take (capacity s - length (items s)) es \<and>
      dropped (fold put es s) = dropped s + int (length es - (capacity s - length (items s)))"
proof (induction es arbitrary: s)
  case (Cons e es)
  show ?case
  proof (cases "length (items s) < capacity s")
    case True
    then obtain k where "capacity s - length (items s) = Suc k" "capacity s - Suc (length (items s)) = k"
      by (metis Suc_diff_Suc)
    with Cons.IH [of "put e s"] True show ?thesis by (simp add: put_room [OF True] put_capacity)
  next
    case False
    then have full: "capacity s \<le> length (items s)" by simp
    with Cons.IH [of "put e s"] Cons.prems show ?thesis by (simp add: put_full [OF full] put_capacity)
  qed
qed simp

end

interpretation signals: bounded_queue enqueue_signal ob_queue ob_capacity "\<lambda>rt. os_events_dropped (ob_state rt)"
  by unfold_locales
    (auto simp: enqueue_signal_def put_signal_def drop_event_def on_os_def)

section \<open>A demonstration\<close>

definition demo_resolver_settings :: resolver_settings where
  "demo_resolver_settings = settings_texts [] False"

definition demo_runtime :: "nat runtime_env" where
  "demo_runtime = \<lparr>re_observer = demo_observer\<lparr>be_happens := (\<lambda>w. if w = 3 then [StopCalled] else [])\<rparr>,
     re_settings = demo_resolver_settings,
     re_resolver = demo_resolver True, re_recovery = demo_env, re_database = demo_database,
     re_subscribe_resolutions = modifyP Suc, re_resolution_joined = (\<lambda>w. True),
     re_remove_resolution_channel = modifyP Suc, re_close_agent = modifyP Suc\<rparr>"

section \<open>Reconciliation\<close>

text \<open>A callback puts at most one signal into the queue, and moves neither the world nor the client.\<close>

definition callback_adds :: "'w runtime \<Rightarrow> 'w runtime \<Rightarrow> bool" where
  "callback_adds rt rt' \<longleftrightarrow> ob_world rt' = ob_world rt \<and> ob_client rt' = ob_client rt \<and>
     ob_capacity rt' = ob_capacity rt \<and> (\<exists>xs. ob_queue rt' = ob_queue rt @ xs \<and> length xs \<le> 1)"

lemma callback_adds_same:
  "ob_world rt' = ob_world rt \<Longrightarrow> ob_client rt' = ob_client rt \<Longrightarrow> ob_capacity rt' = ob_capacity rt
    \<Longrightarrow> ob_queue rt' = ob_queue rt \<Longrightarrow> callback_adds rt rt'"
  by (simp add: callback_adds_def)

lemma put_adds: "put_signal signal rt = Some rt' \<Longrightarrow> callback_adds rt (on_os f rt')"
  by (auto simp: callback_adds_def put_signal_def on_os_def split: if_splits)

lemma drop_adds: "callback_adds rt (drop_event (on_os f rt))" "callback_adds rt (drop_event rt)"
  by (simp_all add: callback_adds_def drop_event_def on_os_def)

lemma on_change_adds: "callback_adds rt (snd (on_change now payload rt))"
  by (auto simp: on_change_def bindP_def seqP_def liftP_def modifyP_def on_os_def put_signal_def drop_event_def
      callback_adds_def split: sum.splits option.splits)

lemma enqueue_adds: "callback_adds rt (enqueue_signal signal rt)"
  by (simp add: enqueue_signal_def drop_adds put_adds split: option.split)

lemma resolution_change_adds: "callback_adds rt (on_resolution_change payload rt)"
  by (simp add: on_resolution_change_def Let_def drop_adds enqueue_adds split: option.split)

lemma status_adds:
  "callback_adds rt (on_subscription_status now status error rt)"
  "callback_adds rt (on_resolution_subscription_status status error rt)"
  by (simp_all add: callback_adds_def on_subscription_status_def on_resolution_subscription_status_def
      mark_disconnected_def on_os_def)

lemma stop_adds: "callback_adds rt (runtime_stop rt)"
  by (simp add: callback_adds_def runtime_stop_def coordinator_stop_def observer_stop_def Let_def)

lemma happening_adds: "h \<noteq> WorkerTurn \<Longrightarrow> callback_adds rt (runtime_happening env h rt)"
  by (cases h) (simp_all add: runtime_happening_def runtime_callback_def observer_callback_def
      on_change_adds resolution_change_adds status_adds stop_adds)

lemma happenings_add:
  assumes "WorkerTurn \<notin> set hs"
  shows "ob_world (fold (runtime_happening env) hs rt) = ob_world rt \<and>
    ob_client (fold (runtime_happening env) hs rt) = ob_client rt \<and>
    ob_capacity (fold (runtime_happening env) hs rt) = ob_capacity rt \<and>
    (\<exists>xs. ob_queue (fold (runtime_happening env) hs rt) = ob_queue rt @ xs \<and> length xs \<le> length hs)"
  using assms
proof (induction hs arbitrary: rt)
  case (Cons h hs)
  let ?u = "runtime_happening env h rt"
  have u: "callback_adds rt ?u" using Cons.prems by (intro happening_adds) auto
  then obtain xs where xs: "ob_queue ?u = ob_queue rt @ xs" "length xs \<le> 1" by (auto simp: callback_adds_def)
  from Cons.IH [of ?u] Cons.prems obtain ys where
    ys: "ob_queue (fold (runtime_happening env) hs ?u) = ob_queue ?u @ ys" "length ys \<le> length hs" by auto
  have "\<exists>zs. ob_queue (fold (runtime_happening env) hs ?u) = ob_queue rt @ zs \<and> length zs \<le> length (h # hs)"
    using xs ys by (intro exI [of _ "xs @ ys"]) simp
  with Cons.IH [of ?u] Cons.prems u show ?case by (simp add: callback_adds_def)
qed simp

lemma signals_short: "length (reconcile_signals signal_of column data) \<le> length (response_rows data)"
  by (simp add: reconcile_signals_def map_filter_def)

lemma enqueue_kept:
  "ob_world (fold enqueue_signal es rt) = ob_world rt" "ob_client (fold enqueue_signal es rt) = ob_client rt"
  "ob_capacity (fold enqueue_signal es rt) = ob_capacity rt"
  by (induction es arbitrary: rt)
    (simp_all add: enqueue_adds [unfolded callback_adds_def])

text \<open>One half of the reconciliation: a read, the callbacks during it, and the signals of its rows.\<close>

lemma reconcile_half:
  assumes "sb_select (be_client (re_observer env)) query (ob_world rt) = (Inr data, w)"
    and "WorkerTurn \<notin> set (be_happens (re_observer env) w)"
    and "length (ob_queue rt) + length (be_happens (re_observer env) w) +
        length (reconcile_signals signal_of column data) \<le> ob_capacity rt"
  shows "\<exists>xs u. await_ob (re_observer env) (runtime_happening env) (sb_select (be_client (re_observer env)) query) rt = (Inr data, u) \<and>
    length xs \<le> length (be_happens (re_observer env) w) \<and>
    ob_queue (fold enqueue_signal (reconcile_signals signal_of column data) u) =
      ob_queue rt @ xs @ reconcile_signals signal_of column data \<and>
    ob_world u = w \<and> ob_client u = ob_client rt \<and> ob_capacity u = ob_capacity rt"
proof -
  let ?u = "fold (runtime_happening env) (be_happens (re_observer env) w) (rt\<lparr>ob_world := w\<rparr>)"
  from happenings_add [OF assms(2), of env "rt\<lparr>ob_world := w\<rparr>"] obtain xs where
    xs: "ob_queue ?u = ob_queue rt @ xs" "length xs \<le> length (be_happens (re_observer env) w)"
    and u: "ob_world ?u = w" "ob_client ?u = ob_client rt" "ob_capacity ?u = ob_capacity rt" by auto
  have "length (ob_queue ?u) + length (reconcile_signals signal_of column data) \<le> ob_capacity ?u"
    using xs u(3) assms(3) by simp
  from signals.puts_fit [OF this] xs u assms(1) show ?thesis
    by (intro exI [of _ xs] exI [of _ ?u]) (simp add: await_ob_def)
qed

lemma enqueue_reconciliation_run:
  assumes "ob_client rt"
    and "await_ob (re_observer env) (runtime_happening env)
        (sb_select (be_client (re_observer env)) (resolutions_query (re_settings env))) rt = (Inr resolutions, u)"
    and "await_ob (re_observer env) (runtime_happening env)
        (sb_select (be_client (re_observer env)) (pending_query (re_settings env)))
        (fold enqueue_signal (reconcile_signals ResolutionChange ''resolution_id'' resolutions) u) = (Inr pending, v)"
  shows "enqueue_reconciliation env rt =
    (Inr (), fold enqueue_signal (reconcile_signals FailureChange ''failure_id'' pending) v)"
  using assms
  by (simp add: enqueue_reconciliation_def bindP_def seqP_def getsP_def modifyP_def returnP_def Let_def)

text \<open>
  C29. The queue holds a whole reconciliation: with at most 32 signals queued before it or arriving
  during it, and answers within the configured limit, no signal of it is dropped: every resolution the
  database returned is queued in its order, before every failure, each with its identifier.
\<close>

theorem reconciliation_fits_the_queue:
  assumes "ob_client rt" "ob_capacity rt = ob_capacity (new_runtime (re_settings env) (ob_world rt))"
    and "sb_select (be_client (re_observer env)) (resolutions_query (re_settings env)) (ob_world rt) = (Inr resolutions, w)"
    and "sb_select (be_client (re_observer env)) (pending_query (re_settings env)) w = (Inr pending, w')"
    and "WorkerTurn \<notin> set (be_happens (re_observer env) w @ be_happens (re_observer env) w')"
    and "length (ob_queue rt) + length (be_happens (re_observer env) w) + length (be_happens (re_observer env) w') \<le> 32"
    and "int (length (response_rows resolutions)) \<le> st_reconcile_limit (re_settings env)"
    and "int (length (response_rows pending)) \<le> st_reconcile_limit (re_settings env)"
  shows "\<exists>rt' xs ys. enqueue_reconciliation env rt = (Inr (), rt') \<and>
    ob_queue rt' = ob_queue rt @ xs @ reconcile_signals ResolutionChange ''resolution_id'' resolutions @
      ys @ reconcile_signals FailureChange ''failure_id'' pending \<and>
    length xs \<le> length (be_happens (re_observer env) w) \<and> length ys \<le> length (be_happens (re_observer env) w')"
proof -
  let ?rs = "reconcile_signals ResolutionChange ''resolution_id'' resolutions"
  let ?fs = "reconcile_signals FailureChange ''failure_id'' pending"
  have rs: "int (length ?rs) \<le> st_reconcile_limit (re_settings env)"
    using signals_short [of ResolutionChange "''resolution_id''" resolutions] assms(7) by linarith
  have fs: "int (length ?fs) \<le> st_reconcile_limit (re_settings env)"
    using signals_short [of FailureChange "''failure_id''" pending] assms(8) by linarith
  have room: "length (ob_queue rt) + length (be_happens (re_observer env) w) + length ?rs +
      length (be_happens (re_observer env) w') + length ?fs \<le> ob_capacity rt"
    using assms(2,6) rs fs by (simp add: new_runtime_def)
  obtain xs u where xs: "length xs \<le> length (be_happens (re_observer env) w)"
    and a: "await_ob (re_observer env) (runtime_happening env)
        (sb_select (be_client (re_observer env)) (resolutions_query (re_settings env))) rt = (Inr resolutions, u)"
    and q: "ob_queue (fold enqueue_signal ?rs u) = ob_queue rt @ xs @ ?rs"
    and u: "ob_world u = w" "ob_client u = ob_client rt" "ob_capacity u = ob_capacity rt"
    using reconcile_half [OF assms(3), of ResolutionChange "''resolution_id''"] assms(5) room by auto
  let ?u = "fold enqueue_signal ?rs u"
  have "sb_select (be_client (re_observer env)) (pending_query (re_settings env)) (ob_world ?u) = (Inr pending, w')"
    using assms(4) u by (simp add: enqueue_kept)
  moreover have "length (ob_queue ?u) + length (be_happens (re_observer env) w') + length ?fs \<le> ob_capacity ?u"
    using q xs room u by (simp add: enqueue_kept)
  ultimately obtain ys v where ys: "length ys \<le> length (be_happens (re_observer env) w')"
    and b: "await_ob (re_observer env) (runtime_happening env)
        (sb_select (be_client (re_observer env)) (pending_query (re_settings env))) ?u = (Inr pending, v)"
    and "ob_queue (fold enqueue_signal ?fs v) = ob_queue ?u @ ys @ ?fs"
    using reconcile_half [of env "pending_query (re_settings env)" ?u pending w' FailureChange "''failure_id''"] assms(5) by auto
  with enqueue_reconciliation_run [OF assms(1) a b] q xs show ?thesis by auto
qed

lemma reconciliation_fits_the_queue_witness:
  "\<exists>rt'. enqueue_reconciliation demo_runtime ((new_runtime demo_resolver_settings 0)\<lparr>ob_client := True\<rparr>) = (Inr (), rt') \<and>
     ob_queue rt' = [ResolutionChange (Some ''RECONCILE'') ''r1'' None, FailureChange (Some ''RECONCILE'') ''e1'' None]"
proof -
  let ?rows = "PList [PDict [(''resolution_id'', PStr ''r1''), (''failure_id'', PStr ''e1'')]]"
  let ?rt = "(new_runtime demo_resolver_settings 0)\<lparr>ob_client := True\<rparr>"
  have signals: "reconcile_signals ResolutionChange ''resolution_id'' ?rows = [ResolutionChange (Some ''RECONCILE'') ''r1'' None]"
    "reconcile_signals FailureChange ''failure_id'' ?rows = [FailureChange (Some ''RECONCILE'') ''e1'' None]"
    "int (length (response_rows ?rows)) \<le> st_reconcile_limit demo_resolver_settings" by code_simp+
  have env: "re_settings demo_runtime = demo_resolver_settings" "be_happens (re_observer demo_runtime) 0 = []"
    "sb_select (be_client (re_observer demo_runtime)) q 0 = (Inr ?rows, 0)" for q
    by (simp_all add: demo_runtime_def demo_observer_def returnP_def)
  show ?thesis
    using reconciliation_fits_the_queue [of ?rt demo_runtime ?rows 0 ?rows 0] signals
    by (simp add: env new_runtime_def)
qed

section \<open>The runtime's run\<close>

text \<open>What the callbacks and the processor leave alone, and what a stop leaves behind.\<close>

definition coordinator_kept :: "'w runtime \<Rightarrow> 'w runtime \<Rightarrow> bool" where
  "coordinator_kept rt rt' \<longleftrightarrow> co_database (rt_coordinator rt') = co_database (rt_coordinator rt) \<and>
     (\<not> co_started (rt_coordinator rt) \<longrightarrow> \<not> co_started (rt_coordinator rt'))"

lemma coordinator_kept_trans: "coordinator_kept a b \<Longrightarrow> coordinator_kept b c \<Longrightarrow> coordinator_kept a c"
  by (simp add: coordinator_kept_def)

lemma resolution_status_kept:
  "ob_client (on_resolution_subscription_status status error rt) = ob_client rt"
  "ob_channel (on_resolution_subscription_status status error rt) = ob_channel rt"
  "run_kept b ds q rt \<Longrightarrow> run_kept b ds q (on_resolution_subscription_status status error rt)"
  "rt_coordinator (on_resolution_subscription_status status error rt) = rt_coordinator rt"
  by (auto simp: on_resolution_subscription_status_def mark_disconnected_def on_os_def run_kept_def)

lemma enqueue_signal_kept:
  "ob_client (enqueue_signal signal rt) = ob_client rt" "ob_channel (enqueue_signal signal rt) = ob_channel rt"
  "run_kept b ds q rt \<Longrightarrow> run_kept b ds q (enqueue_signal signal rt)"
  "rt_coordinator (enqueue_signal signal rt) = rt_coordinator rt"
  by (auto simp: enqueue_signal_def put_signal_def drop_event_def on_os_def run_kept_def)

lemma resolution_change_cases:
  "on_resolution_change payload rt = drop_event rt \<or> (\<exists>signal. on_resolution_change payload rt = enqueue_signal signal rt)"
  unfolding on_resolution_change_def Let_def by (auto split: option.split)

lemma resolution_change_kept:
  "ob_client (on_resolution_change payload rt) = ob_client rt"
  "ob_channel (on_resolution_change payload rt) = ob_channel rt"
  "run_kept b ds q rt \<Longrightarrow> run_kept b ds q (on_resolution_change payload rt)"
  "rt_coordinator (on_resolution_change payload rt) = rt_coordinator rt"
  using resolution_change_cases [of payload rt] enqueue_signal_kept
  by (auto simp: enqueue_signal_kept) (auto simp: drop_event_def on_os_def run_kept_def)

lemma runtime_stop_kept:
  "ob_client (runtime_stop rt) = ob_client rt" "ob_channel (runtime_stop rt) = ob_channel rt"
  "run_kept b ds q rt \<Longrightarrow> run_kept b ds q (runtime_stop rt)" "coordinator_kept rt (runtime_stop rt)"
  by (auto simp: runtime_stop_def coordinator_stop_def observer_stop_def Let_def run_kept_def coordinator_kept_def
      stop_begin_def stop_end_def)

lemma observer_callback_coordinator: "rt_coordinator (observer_callback env h rt) = rt_coordinator rt"
  by (cases h) (auto simp: observer_callback_def on_subscription_status_def mark_disconnected_def on_os_def observer_stop_def
      on_change_def put_signal_def drop_event_def bindP_def seqP_def liftP_def modifyP_def split: sum.splits option.splits)

lemma runtime_callback_harmless: "harmless (runtime_callback (env :: 'w runtime_env))"
  unfolding harmless_def
proof (intro allI)
  fix h and rt :: "'w runtime"
  show "ob_client (runtime_callback env h rt) = ob_client rt \<and> ob_channel (runtime_callback env h rt) = ob_channel rt \<and>
      (\<forall>b ds q. run_kept b ds q rt \<longrightarrow> run_kept b ds q (runtime_callback env h rt))"
  proof -
    have base: "ob_client (observer_callback (re_observer env) h rt) = ob_client rt \<and>
        ob_channel (observer_callback (re_observer env) h rt) = ob_channel rt \<and>
        (\<forall>b ds q. run_kept b ds q rt \<longrightarrow> run_kept b ds q (observer_callback (re_observer env) h rt))"
      using callback_harmless unfolding harmless_def by blast
    then show ?thesis
      by (cases h) (simp_all add: runtime_callback_def resolution_status_kept resolution_change_kept runtime_stop_kept)
  qed
qed

lemma runtime_callback_coordinator: "coordinator_kept rt (runtime_callback env h rt)"
  by (cases h) (simp_all add: runtime_callback_def observer_callback_coordinator resolution_status_kept
      resolution_change_kept runtime_stop_kept, simp_all add: coordinator_kept_def resolution_status_kept resolution_change_kept observer_callback_coordinator)

lemma callbacks_coordinator: "coordinator_kept rt (fold (runtime_callback env) hs rt)"
proof (induction hs arbitrary: rt)
  case (Cons h hs)
  from coordinator_kept_trans [OF runtime_callback_coordinator Cons.IH] show ?case by simp
qed (simp add: coordinator_kept_def)

lemma notify_coordinator:
  "co_database (notify_failure se v co) = co_database co" "co_started (notify_failure se v co) = co_started co"
  by (simp_all add: notify_failure_def bump_enqueued_def bump_skipped_def Let_def split: option.splits)

text \<open>Programs of the runtime that leave the client, the channel and the coordinator's handles alone.\<close>

definition settled_part :: "'w runtime \<Rightarrow> 'w runtime \<Rightarrow> bool" where
  "settled_part rt rt' \<longleftrightarrow> ob_client rt' = ob_client rt \<and> ob_channel rt' = ob_channel rt \<and> coordinator_kept rt rt' \<and>
     (\<forall>b ds q. run_kept b ds q rt \<longrightarrow> run_kept b ds q rt')"

definition steady :: "('w runtime, 'a) prog \<Rightarrow> bool" where
  "steady m \<longleftrightarrow> (\<forall>rt. settled_part rt (snd (m rt)))"

named_theorems steady_rules \<open>programs that leave the handles alone\<close>

lemma settled_part_refl: "settled_part rt rt"
  by (simp add: settled_part_def coordinator_kept_def)

lemma settled_part_trans: "settled_part a b \<Longrightarrow> settled_part b c \<Longrightarrow> settled_part a c"
  unfolding settled_part_def using coordinator_kept_trans by fastforce

lemma steady_simple [steady_rules]: "steady (returnP a)" "steady (throwP e)"
  by (simp_all add: steady_def returnP_def throwP_def settled_part_refl)

lemma steady_bind [steady_rules]:
  assumes "steady m" "\<And>a. steady (f a)" shows "steady (bindP m f)"
  unfolding steady_def
proof
  fix rt
  obtain r u where "m rt = (r, u)" by (cases "m rt")
  moreover have "settled_part rt (snd (m rt))" using assms(1) by (simp add: steady_def)
  moreover have "settled_part u (snd (f a u))" for a using assms(2) by (simp add: steady_def)
  ultimately show "settled_part rt (snd (bindP m f rt))"
    by (auto simp: bindP_def intro: settled_part_trans split: sum.split)
qed

lemma steady_seq [steady_rules]: "steady m \<Longrightarrow> steady k \<Longrightarrow> steady (seqP m k)"
  unfolding seqP_def by (rule steady_bind)

lemma steady_catch [steady_rules]:
  assumes "steady m" "\<And>e. steady (h e)" shows "steady (catchP m h)"
  unfolding steady_def
proof
  fix rt
  obtain r u where "m rt = (r, u)" by (cases "m rt")
  moreover have "settled_part rt (snd (m rt))" using assms(1) by (simp add: steady_def)
  moreover have "settled_part u (snd (h e u))" for e using assms(2) by (simp add: steady_def)
  ultimately show "settled_part rt (snd (catchP m h rt))"
    by (auto simp: catchP_def intro: settled_part_trans split: sum.split)
qed

lemma steady_if [steady_rules]: "steady m \<Longrightarrow> steady k \<Longrightarrow> steady (if b then m else k)"
  by simp

lemma steady_modify [steady_rules]: "(\<And>rt. settled_part rt (f rt)) \<Longrightarrow> steady (modifyP f)"
  by (simp add: steady_def modifyP_def)

lemma callbacks_settled: "settled_part rt (fold (runtime_callback env) hs rt)"
  by (simp add: settled_part_def harmless_fold [OF runtime_callback_harmless] callbacks_coordinator)

lemma steady_processor [steady_rules]: "steady (on_processor (env :: 'w runtime_env) m)"
  unfolding steady_def
proof
  fix rt :: "'w runtime"
  obtain r p where m: "m \<lparr>vp_world = (ob_world rt, rt_processor_client rt), vp_state = rt_resolver rt, vp_known = rt_known rt,
       vp_log = rt_log rt\<rparr> = (r, p)"
    by (cases "m \<lparr>vp_world = (ob_world rt, rt_processor_client rt), vp_state = rt_resolver rt, vp_known = rt_known rt,
       vp_log = rt_log rt\<rparr>")
  let ?u = "rt\<lparr>ob_world := fst (vp_world p), rt_resolver := vp_state p, rt_known := vp_known p, rt_log := vp_log p\<rparr>"
  have "settled_part rt ?u" by (simp add: settled_part_def coordinator_kept_def run_kept_def)
  from settled_part_trans [OF this callbacks_settled] m
  show "settled_part rt (snd (on_processor env m rt))" by (simp add: on_processor_def)
qed

lemma notify_settled: "settled_part rt (notify_recovery env k rt)"
  by (simp add: settled_part_def coordinator_kept_def run_kept_def notify_recovery_def notify_coordinator)

lemma os_settled: "(\<And>os. os_running (f os) = os_running os) \<Longrightarrow> settled_part rt (on_os f rt)"
  by (simp add: settled_part_def coordinator_kept_def run_kept_def on_os_def)

lemma steady_signal: "steady (process_signal env signal)"
proof -
  have learn: "steady (case pending of None \<Rightarrow> returnP None
      | Some k \<Rightarrow> on_processor env (learn_resolution (re_resolver env) k))" for pending
    by (simp add: steady_rules split: option.split)
  show ?thesis
    unfolding process_signal_def row_fetched_def
    by (cases signal) (simp_all add: steady_rules learn notify_settled os_settled)
qed

lemma worker_settled: "settled_part rt (snd (fetch_worker_turn (process_signal env) rt))"
proof (cases "ob_queue rt")
  case (Cons signal rest)
  have "steady (catchP (process_signal env signal) (\<lambda>e. if e = CancelledErr then throwP e
      else modifyP (on_os (\<lambda>os. os\<lparr>os_fetch_errors := os_fetch_errors os + 1\<rparr>))))"
    by (intro steady_rules steady_signal os_settled) simp
  moreover have "settled_part rt (rt\<lparr>ob_queue := rest\<rparr>)"
    by (simp add: settled_part_def coordinator_kept_def run_kept_def)
  ultimately show ?thesis
    using Cons settled_part_trans unfolding fetch_worker_turn_def steady_def by fastforce
qed (simp add: fetch_worker_turn_def settled_part_refl)

lemma happening_settled: "settled_part rt (runtime_happening env h rt)"
  using callbacks_settled [of rt env "[h]"] worker_settled
  by (cases h) (simp_all add: runtime_happening_def)

lemma happenings_settled: "settled_part rt (fold (runtime_happening env) hs rt)"
proof (induction hs arbitrary: rt)
  case (Cons h hs)
  from settled_part_trans [OF happening_settled Cons.IH] show ?case by simp
qed (simp add: settled_part_refl)

lemma runtime_happening_harmless: "harmless (runtime_happening env)"
  using happening_settled unfolding harmless_def settled_part_def by blast

lemma coordinator_steps_kept:
  "run_kept b ds q rt \<Longrightarrow> run_kept b ds q (rt\<lparr>rt_coordinator := co\<rparr>)"
  "run_kept b ds q rt \<Longrightarrow> run_kept b ds q (rt\<lparr>rt_processor_client := c\<rparr>)"
  "run_kept b ds q rt \<Longrightarrow> run_kept b ds q (rt\<lparr>rt_resolution_event := ev, rt_resolution_error := e, rt_resolution_channel := ch\<rparr>)"
  "run_kept b ds q rt \<Longrightarrow> run_kept b ds q (rt\<lparr>rt_resolution_channel := ch, rt_processor_client := c, rt_coordinator := co\<rparr>)"
  by (simp_all add: run_kept_def)

lemma enqueues_kept: "run_kept b ds q rt \<Longrightarrow> run_kept b ds q (fold enqueue_signal es rt)"
  by (induction es arbitrary: rt) (simp_all add: enqueue_signal_kept)

lemma kept_coordinator [kept_rules]: "kept_by (on_coordinator env (runtime_happening env) m)"
  unfolding kept_by_def
proof (intro allI)
  fix b ds q
  have "run_kept b ds q (snd (on_coordinator env (runtime_happening env) m rt))" if "run_kept b ds q rt" for rt
  proof -
    obtain r s where m: "m \<lparr>sy_world = ob_world rt, sy_coordinator = rt_coordinator rt, sy_trace = rt_trace rt,
        sy_dispatched = rt_dispatched rt\<rparr> = (r, s)"
      by (cases "m \<lparr>sy_world = ob_world rt, sy_coordinator = rt_coordinator rt, sy_trace = rt_trace rt,
        sy_dispatched = rt_dispatched rt\<rparr>")
    have "run_kept b ds q (rt\<lparr>ob_world := sy_world s, rt_coordinator := sy_coordinator s, rt_trace := sy_trace s,
        rt_dispatched := sy_dispatched s\<rparr>)" using that by (simp add: run_kept_def)
    from harmless_fold(3) [OF runtime_happening_harmless this] m show ?thesis by (simp add: on_coordinator_def)
  qed
  then show "preserves (run_kept b ds q) (on_coordinator env (runtime_happening env) m)"
    by (simp add: preserves_def)
qed

lemma kept_runtime_connect: "kept_by (runtime_connect env)"
  unfolding runtime_connect_def connect_resolution_channel_def enqueue_reconciliation_def Let_def
  by (intro kept_rules kept_connect runtime_happening_harmless coordinator_steps_kept enqueues_kept)

lemma kept_runtime_disconnect: "kept_by (runtime_disconnect env)"
  unfolding runtime_disconnect_def
  by (intro kept_rules kept_disconnect runtime_happening_harmless coordinator_steps_kept)

text \<open>The subclass's methods satisfy the contract the loop rests on.\<close>

lemma runtime_disconnect_Inr:
  assumes "runtime_disconnect env rt = (Inr u, rt')"
  shows "\<exists>v. observer_disconnect (re_observer env) (runtime_happening env) v = (Inr u, rt')"
  using assms by (auto simp: runtime_disconnect_def bindP_def seqP_def getsP_def modifyP_def split: prod.splits sum.splits)

lemma runtime_disconnect_idle:
  "\<not> ob_client rt \<Longrightarrow> \<exists>rt'. runtime_disconnect env rt = (Inr (), rt') \<and> \<not> os_connected (ob_state rt')"
  using disconnect_idle [of "rt\<lparr>rt_resolution_channel := False, rt_processor_client := False,
      rt_coordinator := set_database None (rt_coordinator rt)\<rparr>" "re_observer env" "runtime_happening env"]
  by (auto simp: runtime_disconnect_def bindP_def seqP_def getsP_def modifyP_def returnP_def)

interpretation serving: observer_service "re_observer env" "runtime_methods env" for env
proof unfold_locales
  show "\<not> ob_client ob' \<and> \<not> ob_channel ob'" if "om_disconnect (runtime_methods env) ob = (Inr u, ob')" for ob u ob'
  proof -
    from that obtain v where "observer_disconnect (re_observer env) (runtime_happening env) v = (Inr u, ob')"
      using runtime_disconnect_Inr by (fastforce simp: runtime_methods_def)
    then show ?thesis by (rule disconnect_releases [OF runtime_happening_harmless])
  qed
qed (simp_all add: runtime_methods_def runtime_happening_harmless kept_runtime_connect kept_runtime_disconnect
      runtime_disconnect_idle)

text \<open>After a disconnection the coordinator has no database.\<close>

lemma await_settled:
  assumes "await_ob (re_observer env) (runtime_happening env) m rt = (r, rt')" shows "coordinator_kept rt rt'"
proof -
  obtain x w where "m (ob_world rt) = (x, w)" by (cases "m (ob_world rt)")
  with assms have "rt' = fold (runtime_happening env) (be_happens (re_observer env) w) (rt\<lparr>ob_world := w\<rparr>)"
    by (simp add: await_ob_def)
  with happenings_settled [of "rt\<lparr>ob_world := w\<rparr>" env "be_happens (re_observer env) w"]
  show ?thesis by (simp add: settled_part_def coordinator_kept_def)
qed

lemma disconnect_coordinator:
  fixes env :: "'w runtime_env"
  assumes "observer_disconnect (re_observer env) (runtime_happening env) rt = (r, rt')"
  shows "co_database (rt_coordinator rt') = co_database (rt_coordinator rt)"
proof -
  let ?P = "\<lambda>s :: 'w runtime. co_database (rt_coordinator s) = co_database (rt_coordinator rt)"
  have part: "preserves ?P (await_ob (re_observer env) (runtime_happening env) m)" for m :: "('w, unit) prog"
    unfolding preserves_def
  proof (intro allI impI)
    fix s :: "'w runtime" assume "?P s"
    then show "?P (snd (await_ob (re_observer env) (runtime_happening env) m s))"
      using await_settled [of env m s] by (cases "await_ob (re_observer env) (runtime_happening env) m s") (simp add: coordinator_kept_def)
  qed
  have "preserves ?P (if \<not> client then returnP ()
        else catchP
          (seqP (if channel then await_ob (re_observer env) (runtime_happening env) (be_remove_channel (re_observer env)) else returnP ())
             (bindP (getsP (\<lambda>ob. be_socket (re_observer env) (ob_world ob))) (\<lambda>socket.
                if socket = Some True then await_ob (re_observer env) (runtime_happening env) (be_close (re_observer env)) else returnP ())))
          (\<lambda>e. if e = CancelledErr then throwP e else returnP ()))" for client channel
    by (intro preserves_intros part)
  from preservesD [OF this, of "on_os (\<lambda>os. os\<lparr>os_connected := False\<rparr>) (rt\<lparr>ob_client := False, ob_channel := False\<rparr>)"] assms
  show ?thesis
    by (auto simp: observer_disconnect_def bindP_def getsP_def seqP_def modifyP_def on_os_def)
qed

lemma runtime_disconnect_database:
  assumes "runtime_disconnect env rt = (Inr u, rt')" shows "co_database (rt_coordinator rt') = None"
proof -
  let ?u = "rt\<lparr>rt_resolution_channel := False, rt_processor_client := False,
      rt_coordinator := set_database None (rt_coordinator rt)\<rparr>"
  have none: "co_database (rt_coordinator ?u) = None" by (simp add: set_database_def)
  let ?first = "if ob_client rt \<and> rt_resolution_channel rt
            then catchP (await_ob (re_observer env) (runtime_happening env) (re_remove_resolution_channel env))
              (\<lambda>e. if e = CancelledErr then throwP e else returnP ())
            else returnP ()"
  obtain x v where x: "?first ?u = (x, v)" by (cases "?first ?u")
  obtain y z where y: "await_ob (re_observer env) (runtime_happening env) (re_remove_resolution_channel env) ?u = (y, z)"
    by (cases "await_ob (re_observer env) (runtime_happening env) (re_remove_resolution_channel env) ?u")
  from await_settled [OF y] none have "co_database (rt_coordinator z) = None" by (simp add: coordinator_kept_def)
  with x y none have "co_database (rt_coordinator v) = None"
    by (auto simp: catchP_def throwP_def returnP_def split: if_splits sum.splits)
  moreover have "observer_disconnect (re_observer env) (runtime_happening env) v = (Inr u, rt')"
    using assms x by (auto simp: runtime_disconnect_def bindP_def seqP_def getsP_def modifyP_def split: sum.splits)
  ultimately show ?thesis using disconnect_coordinator by metis
qed

lemma observer_run_final:
  assumes "observer_run env me fuel ob = (Inr LoopReturned, ob')" shows "\<exists>v. om_disconnect me v = (Inr (), ob')"
  using assms by (auto simp: observer_run_def seqP_def bindP_def liftP_def split: prod.splits sum.splits loop_end.splits)

text \<open>
  C30. However the agent service ends, it is marked as stopped, its recovery coordinator is stopped, and
  every delay before a reconnect was the initial one or not above the maximum; when its loop returned,
  it was asked to stop, and neither a client, a channel nor the coordinator's database is left.
\<close>

theorem runtime_run_ends_stopped:
  assumes "runtime_run env fuel (new_runtime st w) = (r, rt')" "r \<noteq> Inr OutOfFuel"
  shows "\<not> os_running (ob_state rt') \<and> \<not> co_started (rt_coordinator rt') \<and>
    list_all (\<lambda>d. d = bs_reconnect_initial (be_settings (re_observer env)) \<or>
      \<not> flt (bs_reconnect_max (be_settings (re_observer env))) d) (ob_delays rt') \<and>
    (r = Inr LoopReturned \<longrightarrow> \<not> ob_client rt' \<and> \<not> ob_channel rt' \<and> ob_stop rt' \<and>
      co_database (rt_coordinator rt') = None)"
proof -
  let ?rt = "new_runtime st w"
  let ?s = "?rt\<lparr>rt_coordinator := start (en_settings (re_recovery env)) (map fst (en_sessions (re_recovery env))) (rt_coordinator ?rt)\<rparr>"
  obtain x u where x: "observer_run (re_observer env) (runtime_methods env) fuel ?s = (x, u)"
    by (cases "observer_run (re_observer env) (runtime_methods env) fuel ?s")
  have live: "x \<noteq> Inr OutOfFuel" using assms x by (auto simp: runtime_run_def)
  let ?u = "coordinator_stop u"
  have run: "seqP (await_ob (re_observer env) (runtime_callback env) (re_close_agent env)) (liftP x) ?u = (r, rt')"
    using assms(1) x live
    by (auto simp: runtime_run_def seqP_def bindP_def modifyP_def split: sum.splits loop_end.splits)
  obtain y v where y: "re_close_agent env (ob_world ?u) = (y, v)" by (cases "re_close_agent env (ob_world ?u)")
  have rt': "rt' = fold (runtime_callback env) (be_happens (re_observer env) v) (?u\<lparr>ob_world := v\<rparr>)"
    using run y by (auto simp: seqP_def bindP_def liftP_def await_ob_def split: sum.splits)
  have returned: "r = Inr LoopReturned \<longrightarrow> x = Inr LoopReturned"
    using run by (auto simp: seqP_def bindP_def liftP_def split: prod.splits sum.splits)
  have "\<not> ob_client ?s" "ob_delays ?s = []" by (simp_all add: new_runtime_def)
  note ends = serving.run_ends [OF x live this, unfolded serving.delay_ok_def [abs_def]]
  from callbacks_settled [of "?u\<lparr>ob_world := v\<rparr>" env "be_happens (re_observer env) v"]
  have settled: "settled_part (?u\<lparr>ob_world := v\<rparr>) rt'" by (simp add: rt')
  have stop: "ob_client ?u = ob_client u" "ob_channel ?u = ob_channel u" "ob_state ?u = ob_state u"
    "ob_delays ?u = ob_delays u" "ob_stop ?u = ob_stop u" "\<not> co_started (rt_coordinator ?u)"
    "co_database (rt_coordinator ?u) = co_database (rt_coordinator u)"
    by (simp_all add: coordinator_stop_def Let_def stop_begin_def stop_end_def)
  have "run_kept (os_running (ob_state u)) (ob_delays u) (ob_stop u) (?u\<lparr>ob_world := v\<rparr>)"
    by (simp add: run_kept_def stop)
  with settled have kept: "run_kept (os_running (ob_state u)) (ob_delays u) (ob_stop u) rt'"
    by (simp add: settled_part_def)
  have "co_database (rt_coordinator u) = None" if "x = Inr LoopReturned"
    using observer_run_final [of "re_observer env" "runtime_methods env" fuel ?s u] x that runtime_disconnect_database
    by (auto simp: runtime_methods_def)
  with ends kept settled stop returned show ?thesis
    by (auto simp: run_kept_def settled_part_def coordinator_kept_def)
qed

lemma applied:
  "bindP m f s = (case m s of (Inl e, t) \<Rightarrow> (Inl e, t) | (Inr a, t) \<Rightarrow> f a t)"
  "seqP m k s = (case m s of (Inl e, t) \<Rightarrow> (Inl e, t) | (Inr a, t) \<Rightarrow> k t)"
  "catchP m h s = (case m s of (Inl e, t) \<Rightarrow> h e t | (Inr a, t) \<Rightarrow> (Inr a, t))"
  "getsP g s = (Inr (g s), s)" "modifyP u s = (Inr (), u s)" "returnP a s = (Inr a, s)" "throwP e s = (Inl e, s)"
  "liftP r s = (r, s)"
  by (simp_all add: prog_defs)

lemma runtime_run_ends_stopped_witness:
  "\<exists>rt'. runtime_run demo_runtime 2 (new_runtime demo_resolver_settings 0) = (Inr LoopReturned, rt') \<and>
     ob_world rt' = 6 \<and> \<not> co_started (rt_coordinator rt') \<and> co_database (rt_coordinator rt') = None"
proof -
  have fields: "be_create (re_observer demo_runtime) u k = modifyP Suc" "be_subscribe (re_observer demo_runtime) = modifyP Suc"
    "be_wait (re_observer demo_runtime) d = modifyP Suc" "be_remove_channel (re_observer demo_runtime) = modifyP Suc"
    "be_close (re_observer demo_runtime) = modifyP Suc" "re_close_agent demo_runtime = modifyP Suc"
    "be_socket (re_observer demo_runtime) w = Some True"
    "be_happens (re_observer demo_runtime) w = (if w = 3 then [StopCalled] else [])" for u k d w
    by (simp_all add: demo_runtime_def demo_observer_def)
  have await: "await_ob (re_observer demo_runtime) h (modifyP Suc) rt =
      (Inr (), fold h (if ob_world rt = 2 then [StopCalled] else []) (rt\<lparr>ob_world := Suc (ob_world rt)\<rparr>))" for h rt
    by (simp add: await_ob_def modifyP_def fields)
  have methods: "om_happen (runtime_methods env) = runtime_happening env" "om_connect (runtime_methods env) = runtime_connect env"
    "om_disconnect (runtime_methods env) = runtime_disconnect env" for env :: "'a runtime_env"
    by (simp_all add: runtime_methods_def)
  have "case runtime_run demo_runtime 2 (new_runtime demo_resolver_settings 0) of
      (r, rt') \<Rightarrow> r = Inr LoopReturned \<and> ob_world rt' = 6"
    by (simp add: runtime_run_def observer_run_def numeral_2_eq_2 one_connection_def closing_def stop_fetch_worker_def
        connection_error_def mark_disconnected_def on_os_def methods runtime_connect_def runtime_disconnect_def
        observer_connect_def observer_disconnect_def runtime_happening_def runtime_callback_def runtime_stop_def
        observer_stop_def coordinator_stop_def new_runtime_def new_observer_state_def Let_def await fields applied)
  then obtain rt' where run: "runtime_run demo_runtime 2 (new_runtime demo_resolver_settings 0) = (Inr LoopReturned, rt')"
    "ob_world rt' = 6" by (auto split: prod.splits)
  from runtime_run_ends_stopped [OF run(1)] run show ?thesis by simp
qed

end
