(* ===== verification/Session_Loop.thy ===== *)
theory Session_Loop
  imports Robot_Session Recovery_Executor
begin

text \<open>
  \<open>RobotSession.run\<close> of \<^verbatim>\<open>src/robot_session.py\<close>: connecting, receiving until the connection or the
  service ends, and reconnecting with a growing delay. The WebSocket library is a parameter. At every
  await the tasks that use the session may go on (\<open>wv_others\<close>). The loop is shown to make steps of the
  session only, and to leave nothing connected and no request without an outcome.
\<close>

section \<open>The loop\<close>

record 'w session_loop =
  sl_world :: 'w
  sl_session :: robot_session
  sl_delays :: "pyfloat list"

record 'w wire_env =
  wv_stopped :: "'w \<Rightarrow> bool"
  wv_connect :: "('w, nat) prog"
  wv_receive :: "('w, ws_message option) prog"
  wv_leave :: "('w, unit) prog"
  wv_wait_or_stop :: "pyfloat \<Rightarrow> ('w, bool) prog"
  wv_others :: "'w \<Rightarrow> robot_session \<Rightarrow> robot_session"
  wv_initial :: pyfloat
  wv_maximum :: pyfloat

text \<open>The robot id, its URL's host, and the check of the credentials.\<close>

definition session_init :: "string \<Rightarrow> string \<Rightarrow> string \<Rightarrow> (string \<times> string) result" where
  "session_init sysid client_id client_secret =
     (let robot = upper (strip sysid) in
      bindE (robot_websocket_host robot) (\<lambda>host.
        guardE (strip client_id \<noteq> [] \<and> strip client_secret \<noteq> []) ValueErr (Inr (robot, host))))"

definition await_wire :: "'w wire_env \<Rightarrow> ('w, 'a) prog \<Rightarrow> ('w session_loop, 'a) prog" where
  "await_wire env m = (\<lambda>s. case m (sl_world s) of
     (r, w) \<Rightarrow> (r, s\<lparr>sl_world := w, sl_session := wv_others env w (sl_session s)\<rparr>))"

definition on_session :: "(robot_session \<Rightarrow> robot_session) \<Rightarrow> ('w session_loop, unit) prog" where
  "on_session f = modifyP (\<lambda>s. s\<lparr>sl_session := f (sl_session s)\<rparr>)"

datatype inner_end = InnerStopped | InnerReturned | InnerOutOfFuel

text \<open>Receiving: None when the stop was there first.\<close>

fun receive_messages :: "'w wire_env \<Rightarrow> nat \<Rightarrow> ('w session_loop, inner_end) prog" where
  "receive_messages env 0 = returnP InnerOutOfFuel"
| "receive_messages env (Suc fuel) =
     bindP (getsP (\<lambda>s. wv_stopped env (sl_world s))) (\<lambda>stopped.
     if stopped then returnP InnerStopped
     else bindP (await_wire env (wv_receive env)) (\<lambda>got.
       case got of
         None \<Rightarrow> returnP InnerReturned
       | Some message \<Rightarrow> seqP (on_session (handle_message message)) (receive_messages env fuel)))"

text \<open>The body of \<open>async with\<close>, and leaving it.\<close>

definition connected_part :: "'w wire_env \<Rightarrow> nat \<Rightarrow> nat \<Rightarrow> ('w session_loop, inner_end) prog" where
  "connected_part env fuel websocket s =
     (case seqP (on_session (activate_connection websocket)) (receive_messages env fuel) s of
        (Inr InnerOutOfFuel, t) \<Rightarrow> (Inr InnerOutOfFuel, t)
      | (r, t) \<Rightarrow> seqP (await_wire env (wv_leave env)) (liftP r) t)"

datatype socket_end = SocketReturned | SocketClosed bool | SocketOutOfFuel

definition close_socket :: "nat option \<Rightarrow> 'w session_loop \<Rightarrow> 'w session_loop" where
  "close_socket websocket s = s\<lparr>sl_session := connection_closed websocket (sl_session s)\<rparr>"

definition socket_failed ::
  "'w wire_env \<Rightarrow> py_error \<Rightarrow> nat option \<Rightarrow> 'w session_loop \<Rightarrow> socket_end result \<times> 'w session_loop" where
  "socket_failed env e websocket s =
     (if e = CancelledErr then Inl e
      else if wv_stopped env (sl_world s) then Inr SocketReturned
      else Inr (SocketClosed (websocket \<noteq> None)), close_socket websocket s)"

text \<open>One connection; the flag of \<open>SocketClosed\<close> says whether it had been established.\<close>

definition one_socket :: "'w wire_env \<Rightarrow> nat \<Rightarrow> ('w session_loop, socket_end) prog" where
  "one_socket env fuel s =
     (case await_wire env (wv_connect env) s of
        (Inl e, u) \<Rightarrow> socket_failed env e None u
      | (Inr websocket, u) \<Rightarrow>
          (case connected_part env fuel websocket u of
             (Inl e, v) \<Rightarrow> socket_failed env e (Some websocket) v
           | (Inr InnerOutOfFuel, v) \<Rightarrow> (Inr SocketOutOfFuel, v)
           | (Inr InnerReturned, v) \<Rightarrow> (Inr SocketReturned, close_socket (Some websocket) v)
           | (Inr InnerStopped, v) \<Rightarrow> (Inr (SocketClosed True), close_socket (Some websocket) v)))"

fun session_run :: "'w wire_env \<Rightarrow> nat \<Rightarrow> pyfloat \<Rightarrow> ('w session_loop, loop_end) prog" where
  "session_run env 0 delay = returnP OutOfFuel"
| "session_run env (Suc fuel) delay =
     bindP (getsP (\<lambda>s. wv_stopped env (sl_world s))) (\<lambda>stopped.
     if stopped then returnP LoopReturned
     else bindP (one_socket env fuel) (\<lambda>ended.
       case ended of
         SocketOutOfFuel \<Rightarrow> returnP OutOfFuel
       | SocketReturned \<Rightarrow> returnP LoopReturned
       | SocketClosed established \<Rightarrow>
           (let delay' = (if established then wv_initial env else delay) in
            seqP (modifyP (\<lambda>s. s\<lparr>sl_delays := sl_delays s @ [delay']\<rparr>))
            (bindP (await_wire env (wv_wait_or_stop env (fmax (fround (1 / 1000)) delay'))) (\<lambda>stop_seen.
              if stop_seen then returnP LoopReturned
              else session_run env fuel (fmin (fscale 2 delay') (wv_maximum env)))))))"

section \<open>The tasks that use the session\<close>

inductive request_step :: "robot_session \<Rightarrow> robot_session \<Rightarrow> bool" where
  "request_step s (snd (start_request sysid request_id command arguments s))"
| "request_step s (snd (dispatch_request ticket outcome s))"
| "request_step s (snd (await_response ticket wake s))"

inductive_cases request_stepE: "request_step s t"

definition live_socket :: "nat \<Rightarrow> robot_session \<Rightarrow> bool" where
  "live_socket websocket s \<longleftrightarrow> rs_websocket s = Some websocket \<and> rs_connected s"

definition idle_session :: "robot_session \<Rightarrow> bool" where
  "idle_session s \<longleftrightarrow> rs_websocket s = None \<and> \<not> rs_connected s \<and> (\<forall>k. rs_pending s k \<noteq> Some FuturePending)"

lemma request_step_session: "request_step s t \<Longrightarrow> session_step s t"
  by (erule request_stepE) (auto intro: session_step.intros)

lemma request_step_live: "request_step s t \<Longrightarrow> live_socket websocket s \<Longrightarrow> live_socket websocket t"
  by (erule request_stepE) (auto simp: live_socket_def start_request_def dispatch_request_def await_response_def
      settle_def pop_pending_def split: option.splits send_outcome.splits)

lemma request_step_idle: "request_step s t \<Longrightarrow> idle_session s \<Longrightarrow> idle_session t"
  by (erule request_stepE) (auto simp: idle_session_def start_request_def dispatch_request_def await_response_def
      pop_pending_def split: option.splits send_outcome.splits)

lemma request_steps:
  assumes "request_step\<^sup>*\<^sup>* s t"
  shows "session_step\<^sup>*\<^sup>* s t" "live_socket websocket s \<Longrightarrow> live_socket websocket t" "idle_session s \<Longrightarrow> idle_session t"
  using assms
  by (induction rule: rtranclp_induct)
    (auto dest: request_step_session request_step_live request_step_idle intro: rtranclp.rtrancl_into_rtrancl)

lemma activated: "idle_session s \<Longrightarrow> session_step\<^sup>*\<^sup>* s (activate_connection ws s) \<and> live_socket ws (activate_connection ws s)"
  by (auto simp: idle_session_def live_socket_def activate_connection_def [of ws s]
      intro!: r_into_rtranclp session_step.connect [of s ws, unfolded activate_connection_def])

lemma closed_idle:
  assumes "websocket = rs_websocket s" "websocket = None \<longrightarrow> \<not> rs_connected s"
  shows "idle_session (connection_closed websocket s)"
  using assms by (auto simp: idle_session_def connection_closed_def reject_pending_unknown_def invalidate_connection_def
      split: option.splits future.splits)

lemma settle_kept:
  "rs_websocket (settle_response d s) = rs_websocket s" "rs_connected (settle_response d s) = rs_connected s"
  by (auto simp: settle_response_def settle_def split: option.split pyval.split)

lemma payload_kept:
  "rs_websocket (handle_payload d s) = rs_websocket s" "rs_connected (handle_payload d s) = rs_connected s"
  by (simp_all add: handle_payload_def receive_commands_def receive_flow_def Let_def settle_kept split: pyval.split)

lemma received:
  assumes "live_socket ws s"
  shows "session_step\<^sup>*\<^sup>* s (handle_message m s)" "live_socket ws (handle_message m s)"
proof -
  from assms show "session_step\<^sup>*\<^sup>* s (handle_message m s)"
    by (auto simp: live_socket_def intro: session_step.receive)
  show "live_socket ws (handle_message m s)"
    using assms handle_message_cases [of m s] by (auto simp: live_socket_def payload_kept)
qed

section \<open>What the loop does to the session\<close>

text \<open>The other tasks only make requests; the loop alone connects, receives and closes.\<close>

definition only_requests :: "'w wire_env \<Rightarrow> bool" where
  "only_requests env \<longleftrightarrow> (\<forall>w s. request_step\<^sup>*\<^sup>* s (wv_others env w s))"

definition moves :: "(robot_session \<Rightarrow> bool) \<Rightarrow> ('w session_loop, 'a) prog \<Rightarrow> ('a result \<Rightarrow> robot_session \<Rightarrow> bool) \<Rightarrow> bool" where
  "moves P m Q \<longleftrightarrow> (\<forall>s r t. P (sl_session s) \<longrightarrow> m s = (r, t) \<longrightarrow>
     session_step\<^sup>*\<^sup>* (sl_session s) (sl_session t) \<and> Q r (sl_session t))"

lemma movesD: "moves P m Q \<Longrightarrow> P (sl_session s) \<Longrightarrow> m s = (r, t) \<Longrightarrow>
    session_step\<^sup>*\<^sup>* (sl_session s) (sl_session t) \<and> Q r (sl_session t)"
  unfolding moves_def by blast

lemma moves_weaken: "moves P m Q \<Longrightarrow> (\<And>s. P' s \<Longrightarrow> P s) \<Longrightarrow> (\<And>r s. Q r s \<Longrightarrow> Q' r s) \<Longrightarrow> moves P' m Q'"
  unfolding moves_def by blast

lemma moves_bind:
  assumes "moves P m (\<lambda>r s. case r of Inl e \<Rightarrow> Q (Inl e) s | Inr a \<Rightarrow> R a s)" "\<And>a. moves (R a) (f a) Q"
  shows "moves P (bindP m f) Q"
  unfolding moves_def
proof (intro allI impI)
  fix s r t
  assume P: "P (sl_session s)" and run: "bindP m f s = (r, t)"
  obtain x u where x: "m s = (x, u)" by (cases "m s")
  note first = movesD [OF assms(1) P x]
  show "session_step\<^sup>*\<^sup>* (sl_session s) (sl_session t) \<and> Q r (sl_session t)"
  proof (cases x)
    case (Inl e)
    with run x first show ?thesis by (simp add: bindP_def)
  next
    case (Inr a)
    with run x have "f a u = (r, t)" by (simp add: bindP_def)
    from movesD [OF assms(2) _ this] first Inr show ?thesis by (auto intro: rtranclp_trans)
  qed
qed

lemma moves_seq: "moves P m (\<lambda>r s. case r of Inl e \<Rightarrow> Q (Inl e) s | Inr a \<Rightarrow> R s) \<Longrightarrow> moves R k Q \<Longrightarrow> moves P (seqP m k) Q"
  unfolding seqP_def by (rule moves_bind) simp_all

lemma moves_if: "(b \<Longrightarrow> moves P m Q) \<Longrightarrow> (\<not> b \<Longrightarrow> moves P k Q) \<Longrightarrow> moves P (if b then m else k) Q"
  by simp

lemma moves_still:
  "(\<And>s. P s \<Longrightarrow> Q (Inr a) s) \<Longrightarrow> moves P (returnP a) Q"
  "(\<And>s a. P s \<Longrightarrow> Q (Inr a) s) \<Longrightarrow> moves P (getsP f) Q"
  "(\<And>s. P s \<Longrightarrow> Q r s) \<Longrightarrow> moves P (liftP r) Q"
  by (simp_all add: moves_def returnP_def getsP_def liftP_def)

lemma moves_session: "(\<And>s. P s \<Longrightarrow> session_step\<^sup>*\<^sup>* s (f s) \<and> Q (Inr ()) (f s)) \<Longrightarrow> moves P (on_session f) Q"
  by (simp add: moves_def on_session_def modifyP_def)

lemma moves_await:
  assumes "only_requests env" "P = live_socket ws \<or> P = idle_session"
  shows "moves P (await_wire env m) (\<lambda>r s. P s)"
  unfolding moves_def
proof (intro allI impI)
  fix s r t
  assume P: "P (sl_session s)" and run: "await_wire env m s = (r, t)"
  obtain x w where "m (sl_world s) = (x, w)" by (cases "m (sl_world s)")
  with run have t: "sl_session t = wv_others env w (sl_session s)" by (auto simp: await_wire_def)
  have steps: "request_step\<^sup>*\<^sup>* (sl_session s) (wv_others env w (sl_session s))"
    using assms(1) by (simp add: only_requests_def)
  show "session_step\<^sup>*\<^sup>* (sl_session s) (sl_session t) \<and> P (sl_session t)"
    unfolding t using assms(2) request_steps [OF steps] P by auto
qed

lemmas moves_await_live = moves_await [OF _ disjI1 [OF refl]] and moves_await_idle = moves_await [OF _ disjI2 [OF refl]]

lemma moves_receive:
  assumes "only_requests env"
  shows "moves (live_socket ws) (receive_messages env fuel) (\<lambda>r. live_socket ws)"
proof (induction fuel)
  case 0
  show ?case by (simp add: moves_still)
next
  case (Suc fuel)
  have message: "moves (live_socket ws) (case got of None \<Rightarrow> returnP InnerReturned
      | Some message \<Rightarrow> seqP (on_session (handle_message message)) (receive_messages env fuel)) (\<lambda>r. live_socket ws)" for got
    by (auto simp: moves_still received split: option.split intro!: moves_seq [OF moves_session Suc])
  show ?case
    unfolding receive_messages.simps
    by (intro moves_bind [OF moves_still(2)] moves_if moves_still(1) moves_bind [OF _ message])
      (simp_all, rule moves_await_live [OF assms])
qed

lemma moves_connected:
  assumes "only_requests env"
  shows "moves idle_session (connected_part env fuel ws) (\<lambda>r. live_socket ws)"
  unfolding moves_def
proof (intro allI impI)
  fix s r t
  assume idle: "idle_session (sl_session s)" and run: "connected_part env fuel ws s = (r, t)"
  let ?body = "seqP (on_session (activate_connection ws)) (receive_messages env fuel)"
  have body: "moves idle_session ?body (\<lambda>r. live_socket ws)"
    by (rule moves_seq [OF _ moves_receive [OF assms]]) (simp add: moves_session activated)
  obtain x u where x: "?body s = (x, u)" by (cases "?body s")
  note first = movesD [OF body idle x]
  show "session_step\<^sup>*\<^sup>* (sl_session s) (sl_session t) \<and> live_socket ws (sl_session t)"
  proof (cases "x = Inr InnerOutOfFuel")
    case True
    with run x first show ?thesis by (simp add: connected_part_def)
  next
    case False
    with run x have "seqP (await_wire env (wv_leave env)) (liftP x) u = (r, t)"
      by (auto simp: connected_part_def split: sum.splits inner_end.splits)
    moreover have "moves (live_socket ws) (seqP (await_wire env (wv_leave env)) (liftP x)) (\<lambda>r. live_socket ws)"
      by (rule moves_seq [of _ _ _ "live_socket ws"]) (simp_all add: moves_await_live [OF assms] moves_still)
    ultimately show ?thesis using first by (auto dest: movesD intro: rtranclp_trans)
  qed
qed

definition socket_left :: "socket_end result \<Rightarrow> robot_session \<Rightarrow> bool" where
  "socket_left r s \<longleftrightarrow> r = Inr SocketOutOfFuel \<or> idle_session s"

lemma closed_step: "session_step\<^sup>*\<^sup>* s (connection_closed websocket s)"
  by (blast intro: session_step.close)

lemma live_closed: "live_socket ws s \<Longrightarrow> idle_session (connection_closed (Some ws) s)"
  by (intro closed_idle) (simp_all add: live_socket_def)

lemma idle_closed: "idle_session s \<Longrightarrow> idle_session (connection_closed None s)"
  by (intro closed_idle) (simp_all add: idle_session_def)

lemma moves_socket:
  assumes "only_requests env" shows "moves idle_session (one_socket env fuel) socket_left"
  unfolding moves_def
proof (intro allI impI)
  fix s r t
  assume idle: "idle_session (sl_session s)" and run: "one_socket env fuel s = (r, t)"
  obtain x u where x: "await_wire env (wv_connect env) s = (x, u)" by (cases "await_wire env (wv_connect env) s")
  note u = movesD [OF moves_await_idle [OF assms] idle x]
  show "session_step\<^sup>*\<^sup>* (sl_session s) (sl_session t) \<and> socket_left r (sl_session t)"
  proof (cases x)
    case (Inl e)
    with run x have "sl_session t = connection_closed None (sl_session u)"
      by (auto simp: one_socket_def socket_failed_def close_socket_def)
    with u idle_closed closed_step show ?thesis by (metis rtranclp_trans socket_left_def)
  next
    case (Inr ws)
    obtain y v where y: "connected_part env fuel ws u = (y, v)" by (cases "connected_part env fuel ws u")
    have v: "session_step\<^sup>*\<^sup>* (sl_session s) (sl_session v)" "live_socket ws (sl_session v)"
      using movesD [OF moves_connected [OF assms] _ y] u by (auto intro: rtranclp_trans)
    have "t = v \<and> r = Inr SocketOutOfFuel \<or> sl_session t = connection_closed (Some ws) (sl_session v)"
      using run x y Inr
      by (auto simp: one_socket_def socket_failed_def close_socket_def split: sum.splits inner_end.splits)
    with v live_closed closed_step show ?thesis by (metis rtranclp_trans socket_left_def)
  qed
qed

lemma session_run_moves:
  assumes "only_requests env"
  shows "moves idle_session (session_run env fuel delay) (\<lambda>r s. r = Inr OutOfFuel \<or> idle_session s)"
proof (induction fuel arbitrary: delay)
  case (Suc fuel)
  let ?Q = "\<lambda>r s. r = Inr OutOfFuel \<or> idle_session s"
  have wait: "moves idle_session (seqP (modifyP (\<lambda>s. s\<lparr>sl_delays := sl_delays s @ [d]\<rparr>))
      (bindP (await_wire env (wv_wait_or_stop env (fmax (fround (1 / 1000)) d))) (\<lambda>stop_seen.
        if stop_seen then returnP LoopReturned else session_run env fuel (fmin (fscale 2 d) (wv_maximum env))))) ?Q" for d
  proof (rule moves_seq)
    show "moves idle_session (modifyP (\<lambda>s. s\<lparr>sl_delays := sl_delays s @ [d]\<rparr>))
        (\<lambda>r s. case r of Inl e \<Rightarrow> (Inl e :: loop_end result) = Inr OutOfFuel \<or> idle_session s | Inr a \<Rightarrow> idle_session s)"
      by (simp add: moves_def modifyP_def)
    show "moves idle_session (bindP (await_wire env (wv_wait_or_stop env (fmax (fround (1 / 1000)) d))) (\<lambda>stop_seen.
        if stop_seen then returnP LoopReturned else session_run env fuel (fmin (fscale 2 d) (wv_maximum env)))) ?Q"
      by (rule moves_bind [of _ _ _ "\<lambda>a. idle_session"])
        (auto intro: moves_weaken [OF moves_await_idle [OF assms]] moves_still(1) Suc split: sum.split)
  qed
  have ended: "moves (socket_left (Inr x)) (case x of
       SocketOutOfFuel \<Rightarrow> returnP OutOfFuel
     | SocketReturned \<Rightarrow> returnP LoopReturned
     | SocketClosed established \<Rightarrow>
         (let delay' = (if established then wv_initial env else delay) in
          seqP (modifyP (\<lambda>s. s\<lparr>sl_delays := sl_delays s @ [delay']\<rparr>))
          (bindP (await_wire env (wv_wait_or_stop env (fmax (fround (1 / 1000)) delay'))) (\<lambda>stop_seen.
            if stop_seen then returnP LoopReturned
            else session_run env fuel (fmin (fscale 2 delay') (wv_maximum env)))))) ?Q" for x
  proof (cases x)
    case (SocketClosed established)
    then show ?thesis
      using moves_weaken [OF wait [of "if established then wv_initial env else delay"], of "socket_left (Inr x)" ?Q]
      by (simp add: socket_left_def Let_def)
  qed (auto intro!: moves_still(1) simp: socket_left_def)
  have socket: "moves idle_session (one_socket env fuel) (\<lambda>r s. case r of Inl e \<Rightarrow> ?Q (Inl e) s | Inr a \<Rightarrow> socket_left (Inr a) s)"
    by (rule moves_weaken [OF moves_socket [OF assms]]) (auto simp: socket_left_def split: sum.split)
  show ?case
    unfolding session_run.simps
    by (rule moves_bind [of _ _ _ "\<lambda>a. idle_session"])
      (auto intro: moves_still moves_bind [OF socket ended])
qed (simp add: moves_still)

text \<open>
  C21. The connection loop refines the session's step relation: from a new session, whatever the robot
  and the network do and however the requests of other tasks interleave, it makes steps of the session
  only; and when it ends, by returning or raising, no connection is left and no request is without an
  outcome.
\<close>

theorem session_run_makes_session_steps:
  assumes "only_requests env"
    and "session_run env fuel delay \<lparr>sl_world = w, sl_session = new_session, sl_delays = []\<rparr> = (r, t)"
    and "r \<noteq> Inr OutOfFuel"
  shows "session_step\<^sup>*\<^sup>* new_session (sl_session t) \<and> session_inv (sl_session t) \<and>
    rs_websocket (sl_session t) = None \<and> \<not> rs_connected (sl_session t) \<and>
    (\<forall>k. rs_pending (sl_session t) k \<noteq> Some FuturePending)"
proof -
  have "idle_session new_session" by (simp add: idle_session_def new_session_def)
  then have "session_step\<^sup>*\<^sup>* new_session (sl_session t)" "idle_session (sl_session t)"
    using movesD [OF session_run_moves [OF assms(1)] _ assms(2)] assms(3) by simp_all
  then show ?thesis using session.inv_reachable by (simp add: idle_session_def)
qed

text \<open>A demonstration: a connection on which a request is started, one frame, then the stop.\<close>

definition demo_wire :: "nat wire_env" where
  "demo_wire = \<lparr>wv_stopped = (\<lambda>w. 3 \<le> w), wv_connect = seqP (modifyP Suc) (returnP 7),
     wv_receive = bindP (getsP (\<lambda>w. w)) (\<lambda>w. seqP (modifyP Suc)
       (returnP (if w = 1 then Some (TextMessage (''{'' @ [CHR 0x22] @ ''flow'' @ [CHR 0x22] @ '':{}}'')) else None))),
     wv_leave = modifyP Suc, wv_wait_or_stop = (\<lambda>d. returnP True),
     wv_others = (\<lambda>w s. if w = 2 then snd (start_request ''R1'' ''q'' ''open'' [] s) else s),
     wv_initial = FFin 1, wv_maximum = FFin 30\<rparr>"

lemma session_run_makes_session_steps_witness:
  "\<exists>t. session_run demo_wire 5 (FFin 1) \<lparr>sl_world = 0, sl_session = new_session, sl_delays = []\<rparr> = (Inr LoopReturned, t) \<and>
     rs_flow_revision (sl_session t) = 1 \<and> rs_pending (sl_session t) ''q'' = Some (FutureError OutcomeUnknownError) \<and>
     session_step\<^sup>*\<^sup>* new_session (sl_session t) \<and> \<not> rs_connected (sl_session t)"
proof -
  let ?s = "\<lparr>sl_world = 0, sl_session = new_session, sl_delays = []\<rparr>"
  have others: "only_requests demo_wire"
    by (auto simp: only_requests_def demo_wire_def intro: request_step.intros)
  have "case session_run demo_wire 5 (FFin 1) ?s of (r, t) \<Rightarrow> r = Inr LoopReturned \<and>
      rs_flow_revision (sl_session t) = 1 \<and> rs_pending (sl_session t) ''q'' = Some (FutureError OutcomeUnknownError)"
    by code_simp
  then obtain t where run: "session_run demo_wire 5 (FFin 1) ?s = (Inr LoopReturned, t)"
    "rs_flow_revision (sl_session t) = 1" "rs_pending (sl_session t) ''q'' = Some (FutureError OutcomeUnknownError)"
    by (auto split: prod.splits)
  from session_run_makes_session_steps [OF others run(1)] run show ?thesis by simp
qed

end
