(* ===== verification/Prototype_Executor.thy ===== *)
theory Prototype_Executor
  imports Py_Text Resolver_Rows
begin

text \<open>
  The executor of the older prototype: \<^verbatim>\<open>src/solution_executor.py\<close> parses, validates and runs the
  commands of a solution, \<^verbatim>\<open>src/robot_interface.py\<close> turns them into calls of the robot's HTTP API.
  The HTTP client and the sleep are parameters; a failing request is the error \<open>RequestError\<close>.
\<close>

section \<open>Commands\<close>

datatype command_status = StatusPending | StatusValidated | StatusExecuting | StatusSuccess | StatusFailed

fun status_value :: "command_status \<Rightarrow> string" where
  "status_value StatusPending = ''pending''"
| "status_value StatusValidated = ''validated''"
| "status_value StatusExecuting = ''executing''"
| "status_value StatusSuccess = ''success''"
| "status_value StatusFailed = ''failed''"

record solution_command =
  sc_name :: string
  sc_args :: pydict
  sc_metadata :: pydict
  sc_status :: command_status
  sc_result :: pyval
  sc_error :: "string option"

definition new_command :: "string \<Rightarrow> pydict \<Rightarrow> solution_command" where
  "new_command name args = \<lparr>sc_name = name, sc_args = args, sc_metadata = [], sc_status = StatusPending,
     sc_result = PNone, sc_error = None\<rparr>"

definition command_text :: "solution_command \<Rightarrow> string" where
  "command_text c = sc_name c @ ''('' @ py_repr (PDict (sc_args c)) @ '')''"

definition available_commands :: "string list" where
  "available_commands = [''slide'', ''slide_forward'', ''slide_backward'', ''twist'', ''twist_left'',
     ''twist_right'', ''abort'', ''dock'', ''wait'', ''verify_stability'']"

definition validate_command :: "string list \<Rightarrow> solution_command \<Rightarrow> bool \<times> solution_command" where
  "validate_command available c =
     (if sc_name c \<notin> set available
      then (False, c\<lparr>sc_error := Some (''Command '' @ [CHR 39] @ sc_name c @ [CHR 39] @ '' not found'')\<rparr>)
      else (True, c\<lparr>sc_status := StatusValidated\<rparr>))"

text \<open>\<open>s.rstrip(chars)\<close>.\<close>

definition rstrip_chars :: "string \<Rightarrow> string \<Rightarrow> string" where
  "rstrip_chars chars s = rev (dropWhile (\<lambda>c. c \<in> set chars) (rev s))"

definition parse_command :: "string \<Rightarrow> solution_command" where
  "parse_command text_given =
     (let cmd = strip text_given in
      if CHR ''('' \<notin> set cmd then new_command cmd []
      else let name = strip (takeWhile (\<lambda>c. c \<noteq> CHR ''('') cmd);
               args_str = rstrip_chars '')'' (tl (dropWhile (\<lambda>c. c \<noteq> CHR ''('') cmd))
        in new_command name (if args_str = [] then []
             else [(''value'', case parse_float args_str of Some f \<Rightarrow> PFloat f
                 | None \<Rightarrow> PStr (strip_chars [CHR 39, CHR 34] args_str))]))"

definition parse_solution :: "string list \<Rightarrow> solution_command list" where
  "parse_solution commands = map parse_command commands"

definition validate_solution :: "solution_command list \<Rightarrow> bool \<times> solution_command list" where
  "validate_solution commands =
     (let checked = map (validate_command available_commands) commands
      in (list_all fst checked, map snd checked))"

section \<open>Running a solution\<close>

text \<open>What is reported of a command: its text, status, and result or error.\<close>

datatype command_report =
    Succeeded string pyval
  | Refused string "string option" command_status
  | Errored string string
  | Checked string

datatype solution_report =
    NoCommands
  | ValidationFailed "command_report list"
  | DryRunOk "command_report list"
  | Completed "command_report list" int

definition succeeded :: "command_report \<Rightarrow> bool" where
  "succeeded r = (case r of Succeeded c v \<Rightarrow> True | _ \<Rightarrow> False)"

text \<open>\<open>interface\<close> is the robot's \<open>execute_solution_command\<close>, or None for the mock; \<open>error_text\<close> is \<open>str(e)\<close>.\<close>

definition mock_result :: "solution_command \<Rightarrow> pyval" where
  "mock_result c = PDict [(''mock'', PBool True), (''command'', PStr (sc_name c)),
     (''message'', PStr (''Mock: '' @ command_text c))]"

definition run_solution_command ::
  "(string \<Rightarrow> pydict \<Rightarrow> ('w, pyval) prog) option \<Rightarrow> (py_error \<Rightarrow> string) \<Rightarrow> solution_command
     \<Rightarrow> ('w, command_report) prog" where
  "run_solution_command interface error_text c =
     catchP (bindP (case interface of None \<Rightarrow> returnP (mock_result c) | Some execute \<Rightarrow> execute (sc_name c) (sc_args c))
         (\<lambda>v. returnP (Succeeded (command_text c) v)))
       (\<lambda>e. if e = CancelledErr then throwP e else returnP (Errored (command_text c) (error_text e)))"

fun run_commands ::
  "(solution_command \<Rightarrow> ('w, command_report) prog) \<Rightarrow> solution_command list \<Rightarrow> ('w, command_report list) prog" where
  "run_commands run [] = returnP []"
| "run_commands run (c # cs) = bindP (run c) (\<lambda>r. bindP (run_commands run cs) (\<lambda>rs. returnP (r # rs)))"

definition execute_solution ::
  "(string \<Rightarrow> pydict \<Rightarrow> ('w, pyval) prog) option \<Rightarrow> (py_error \<Rightarrow> string) \<Rightarrow> string list \<Rightarrow> bool
     \<Rightarrow> ('w, solution_report) prog" where
  "execute_solution interface error_text commands dry_run =
     (let parsed = parse_solution commands in
      if parsed = [] then returnP NoCommands
      else let (valid, checked) = validate_solution parsed in
        if \<not> valid then returnP (ValidationFailed (map (\<lambda>c. Refused (command_text c) (sc_error c) (sc_status c)) checked))
        else if dry_run then returnP (DryRunOk (map (\<lambda>c. Checked (command_text c)) checked))
        else bindP (run_commands (run_solution_command interface error_text) checked) (\<lambda>results.
          returnP (Completed results (plen (filter succeeded results)))))"

definition command_help :: "string list" where
  "command_help = [''navigate'', ''move_arm'', ''move_joint'', ''gripper_open'', ''gripper_close'',
     ''reduce_damping'', ''increase_damping'', ''reset_joint'', ''verify_stability'', ''recalibrate'',
     ''check_sensor'', ''wait'', ''retry'']"

section \<open>The robot's HTTP API\<close>

record http_response =
  hr_status :: int
  hr_json :: "pyval result"

record 'w robot_http =
  rh_post :: "string \<Rightarrow> pyval \<Rightarrow> ('w, http_response) prog"
  rh_sleep :: "pyfloat \<Rightarrow> ('w, unit) prog"
  rh_sysid :: string
  rh_api_key :: string

text \<open>The robot id and the key; an absent or empty argument is read from the environment.\<close>

definition or_environment :: "string option \<Rightarrow> environment \<Rightarrow> string \<Rightarrow> string" where
  "or_environment given env name =
     (case given of
        Some (c # cs) \<Rightarrow> c # cs
      | _ \<Rightarrow> (case map_of env name of None \<Rightarrow> [] | Some v \<Rightarrow> v))"

definition robot_interface_init :: "environment \<Rightarrow> string option \<Rightarrow> string option \<Rightarrow> (string \<times> string) result" where
  "robot_interface_init env sysid api_key =
     (let robot = upper (or_environment sysid env ''ROBOT_SYSID'');
          key = or_environment api_key env ''BELLBOY_API_KEY''
      in guardE (robot \<noteq> []) ValueErr (guardE (key \<noteq> []) ValueErr (Inr (robot, key))))"

definition interface_connect :: "'w robot_http \<Rightarrow> bool" where
  "interface_connect rh \<longleftrightarrow> \<not> (rh_api_key rh = [] \<or> plen (rh_api_key rh) < 10)"

definition request_error :: py_error where
  "request_error = OtherErr ''RequestError''"

definition runtime_error :: py_error where
  "runtime_error = OtherErr ''RuntimeError''"

definition commands_url :: "'w robot_http \<Rightarrow> string" where
  "commands_url rh = ''https://api.bellboy.co/robots/'' @ rh_sysid rh @ ''/commands''"

definition send_robot_command :: "'w robot_http \<Rightarrow> string \<Rightarrow> pydict \<Rightarrow> ('w, pyval) prog" where
  "send_robot_command rh command arguments =
     catchP (bindP (rh_post rh (commands_url rh)
         (PDict [(''command'', PStr command), (''arguments'', PDict arguments)])) (\<lambda>response.
       if hr_status response = 200
       then bindP (liftP (hr_json response)) (\<lambda>answer.
         case answer of
           PDict d \<Rightarrow> if truthy (dget d ''pending'')
             then returnP (PDict [(''status'', PStr ''pending''), (''command'', PStr command)])
             else returnP answer
         | _ \<Rightarrow> throwP (OtherErr ''AttributeError''))
       else throwP runtime_error))
     (\<lambda>e. throwP (if e = request_error then runtime_error else e))"

definition slide :: "'w robot_http \<Rightarrow> pyval \<Rightarrow> pyfloat \<Rightarrow> ('w, pyval) prog" where
  "slide rh direction meters = send_robot_command rh ''slide'' [(''direction'', direction), (''meters'', PFloat meters)]"

definition twist :: "'w robot_http \<Rightarrow> pyval \<Rightarrow> int \<Rightarrow> ('w, pyval) prog" where
  "twist rh direction steps = send_robot_command rh ''twist'' [(''direction'', direction), (''steps'', PInt steps)]"

definition abort_command :: "'w robot_http \<Rightarrow> ('w, pyval) prog" where
  "abort_command rh = send_robot_command rh ''abort'' []"

definition dock_command :: "'w robot_http \<Rightarrow> ('w, pyval) prog" where
  "dock_command rh = send_robot_command rh ''dock'' []"

text \<open>\<open>float(v)\<close> and \<open>int(v)\<close>.\<close>

definition to_float :: "pyval \<Rightarrow> pyfloat result" where
  "to_float v =
     (case v of
        PFloat f \<Rightarrow> Inr f
      | PInt i \<Rightarrow> float_of_int i
      | PBool b \<Rightarrow> Inr (FFin (if b then 1 else 0))
      | PStr s \<Rightarrow> (case parse_float s of None \<Rightarrow> Inl ValueErr | Some f \<Rightarrow> Inr f)
      | _ \<Rightarrow> Inl TypeErr)"

definition to_int :: "pyval \<Rightarrow> int result" where
  "to_int v =
     (case v of
        PFloat f \<Rightarrow> (case f of
            FFin q \<Rightarrow> Inr (if q < 0 then - floor (- q) else floor q)
          | FNaN \<Rightarrow> Inl ValueErr
          | _ \<Rightarrow> Inl OverflowErr)
      | PInt i \<Rightarrow> Inr i
      | PBool b \<Rightarrow> Inr (if b then 1 else 0)
      | PStr s \<Rightarrow> (case parse_int s of None \<Rightarrow> Inl ValueErr | Some i \<Rightarrow> Inr i)
      | _ \<Rightarrow> Inl TypeErr)"

definition kwarg :: "pydict \<Rightarrow> string \<Rightarrow> pyval \<Rightarrow> pyval" where
  "kwarg kwargs name fallback = (if has_key kwargs name then dget kwargs name else fallback)"

definition execute_solution_command :: "'w robot_http \<Rightarrow> string \<Rightarrow> pydict \<Rightarrow> ('w, pyval) prog" where
  "execute_solution_command rh name kwargs =
     (let tenth = PFloat (fround (1 / 10)); given = kwarg kwargs ''value'' in
      if name = ''slide'' then
        bindP (liftP (to_float (kwarg kwargs ''meters'' (given tenth))))
          (slide rh (kwarg kwargs ''direction'' (PStr ''forward'')))
      else if name = ''slide_forward'' then bindP (liftP (to_float (given tenth))) (slide rh (PStr ''forward''))
      else if name = ''slide_backward'' then bindP (liftP (to_float (given tenth))) (slide rh (PStr ''backward''))
      else if name = ''twist'' then
        bindP (liftP (to_int (kwarg kwargs ''steps'' (given (PInt 1)))))
          (twist rh (kwarg kwargs ''direction'' (PStr ''right'')))
      else if name = ''twist_left'' then bindP (liftP (to_int (given (PInt 1)))) (twist rh (PStr ''left''))
      else if name = ''twist_right'' then bindP (liftP (to_int (given (PInt 1)))) (twist rh (PStr ''right''))
      else if name = ''abort'' then abort_command rh
      else if name = ''dock'' then dock_command rh
      else if name = ''wait'' then
        bindP (liftP (to_float (given (PFloat (FFin 1))))) (\<lambda>seconds.
        seqP (rh_sleep rh seconds)
          (returnP (PDict [(''message'', PStr (''Waited '' @ py_str (PFloat seconds) @ ''s'')), (''status'', PStr ''success'')])))
      else if name = ''verify_stability'' then
        returnP (PDict [(''message'', PStr ''Stability verified''), (''status'', PStr ''success'')])
      else throwP ValueErr)"

end
