(* ===== verification/Prototype_Memory.thy ===== *)
theory Prototype_Memory
  imports Prototype_Executor "HOL-Library.List_Lexorder"
begin

text \<open>
  The service of the older prototype, \<^verbatim>\<open>src/main.py\<close>: it searches a vector store for similar failures,
  asks a model about them, proposes the newest stored solution, and stores solutions as Markdown files
  with an index. The embedding, the vector store, the model, the clock, \<open>hash\<close> and the files are a
  record of calls; the error a caller sees as an HTTP 500 is \<open>HTTPException\<close>.
\<close>

section \<open>Texts\<close>

definition solution_content :: "string \<Rightarrow> string list \<Rightarrow> string \<Rightarrow> string \<Rightarrow> string \<Rightarrow> string" where
  "solution_content failure_id commands notes success indexed_at =
     join [lf] ([''# Solution: '' @ failure_id, [], ''## Commands'', join [lf] (map (\<lambda>c. ''- '' @ c) commands), [],
       ''## Operator Notes'', notes, [], ''## Success'', success, [], ''## Indexed At'', indexed_at, []])"

fun scan_commands :: "bool \<Rightarrow> string list \<Rightarrow> string list" where
  "scan_commands in_commands [] = []"
| "scan_commands in_commands (line # rest) =
     (if strip line = ''## Commands'' then scan_commands True rest
      else if in_commands \<and> prefix ''- '' line then strip (drop 2 line) # scan_commands in_commands rest
      else if in_commands \<and> prefix ''##'' line then []
      else scan_commands in_commands rest)"

text \<open>The commands in the text of a file, which is read with universal newlines.\<close>

definition read_commands :: "string \<Rightarrow> string list" where
  "read_commands file_text = scan_commands False (split_on lf (universal_newlines file_text))"

text \<open>\<open>json.dumps(v, indent=2)\<close>, at a nesting depth.\<close>

definition ascii_char :: "char \<Rightarrow> string" where
  "ascii_char c = (let n = cpt c in
     if n < 127 then escape_char c else [CHR 0x5C, CHR ''u'', CHR ''0'', CHR ''0'', hex_digit (n div 16), hex_digit (n mod 16)])"

definition ascii_string :: "string \<Rightarrow> string" where
  "ascii_string s = [CHR 0x22] @ concat (map ascii_char s) @ [CHR 0x22]"

fun json_indented :: "nat \<Rightarrow> pyval \<Rightarrow> string" where
  "json_indented n (PList vs) =
     (if vs = [] then ''[]''
      else ''['' @ new_line (Suc n) @ join ('','' @ new_line (Suc n)) (map (json_indented (Suc n)) vs) @ new_line n @ '']'')"
| "json_indented n (PTuple vs) =
     (if vs = [] then ''[]''
      else ''['' @ new_line (Suc n) @ join ('','' @ new_line (Suc n)) (map (json_indented (Suc n)) vs) @ new_line n @ '']'')"
| "json_indented n (PDict d) =
     (if d = [] then ''{}''
      else ''{'' @ new_line (Suc n) @ join ('','' @ new_line (Suc n))
        (map (\<lambda>(k, v). ascii_string k @ '': '' @ json_indented (Suc n) v) d) @ new_line n @ ''}'')"
| "json_indented n (PStr s) = ascii_string s"
| "json_indented n v = json_dumps v"

section \<open>Parameters\<close>

text \<open>
  A solution file is a name and the text read from it, or the error of reading it; a directory that
  does not exist is None. The path of a solution is the text of its path.
\<close>

record 'w prototype =
  pt_embed :: "pyval \<Rightarrow> ('w, pyval) prog"
  pt_search :: "pyval \<Rightarrow> int \<Rightarrow> ('w, (pydict \<times> pyfloat) list) prog"
  pt_reason :: "string \<Rightarrow> ('w, string) prog"
  pt_upsert :: "pydict \<Rightarrow> ('w, unit) prog"
  pt_robot_state :: "pydict \<Rightarrow> pydict result"
  pt_solutions :: "'w \<Rightarrow> string \<Rightarrow> (string \<times> string result) list option"
  pt_mkdir :: "string \<Rightarrow> ('w, unit) prog"
  pt_write :: "string \<Rightarrow> string \<Rightarrow> string \<Rightarrow> ('w, unit) prog"
  pt_path :: "string \<Rightarrow> string \<Rightarrow> string"
  pt_read_index :: "('w, string option) prog"
  pt_write_index :: "string \<Rightarrow> ('w, unit) prog"
  pt_stamp :: "'w \<Rightarrow> string"
  pt_isoformat :: "'w \<Rightarrow> string"
  pt_hash :: "string \<Rightarrow> int"

definition http_exception :: py_error where
  "http_exception = OtherErr ''HTTPException''"

section \<open>Analysis\<close>

record failure_match_row =
  fr_failure_id :: pyval
  fr_similarity :: pyfloat
  fr_description :: pyval

definition match_of :: "pydict \<times> pyfloat \<Rightarrow> failure_match_row" where
  "match_of = (\<lambda>(payload, score). \<lparr>fr_failure_id = dget payload ''failure_id'', fr_similarity = score,
     fr_description = dget payload ''description''\<rparr>)"

definition search_similar_failures :: "'w prototype \<Rightarrow> pyval \<Rightarrow> int \<Rightarrow> ('w, failure_match_row list) prog" where
  "search_similar_failures pt embedding limit =
     catchP (bindP (pt_search pt embedding limit) (\<lambda>results. returnP (map match_of results)))
       (\<lambda>e. if e = CancelledErr then throwP e else returnP [])"

definition reasoning_prompt :: "pyval \<Rightarrow> pydict option \<Rightarrow> failure_match_row list \<Rightarrow> string" where
  "reasoning_prompt failure_story robot_state similar =
     join [lf] [''You are an expert robot diagnostician. Analyze this failure:'', [],
       ''Failure Story: '' @ py_str failure_story, [],
       ''Robot State: '' @ (case robot_state of None \<Rightarrow> ''Unknown'' | Some d \<Rightarrow> py_str (PDict d)), [],
       ''Similar Past Failures:'',
       (if similar = [] then ''None found''
        else join [lf] (map (\<lambda>m. ''- '' @ py_str (fr_description m)) (take 3 similar))), [],
       ''Provide a concise analysis:'', ''1. Root cause hypothesis'', ''2. Confidence level'',
       ''3. Recommended next step'', []]"

record solution_response =
  sp_id :: string
  sp_commands :: "string list"
  sp_confidence :: pyfloat
  sp_notes :: string

text \<open>
  \<open>FAILURES_DIR / failure_id\<close> raises TypeError for what is no text. The newest solution is the last
  by name; one that cannot be read is passed over for the default answer.
\<close>

definition extract_solution :: "'w prototype \<Rightarrow> 'w \<Rightarrow> failure_match_row \<Rightarrow> solution_response result" where
  "extract_solution pt w m =
     (case fr_failure_id m of
        PStr failure_id \<Rightarrow>
          (let missing = \<lparr>sp_id = failure_id @ ''_solution'', sp_commands = [''No solution found yet''],
                 sp_confidence = fr_similarity m,
                 sp_notes = ''Similar to failure '' @ failure_id @ '' (waiting for operator solution)''\<rparr>
           in case pt_solutions pt w failure_id of
                Some (f # fs) \<Rightarrow>
                  (case last (sort_key fst (f # fs)) of
                     (stem, Inr content) \<Rightarrow>
                       (let commands = read_commands content
                        in Inr \<lparr>sp_id = stem, sp_commands = (if commands = [] then [''No commands recorded''] else commands),
                          sp_confidence = fr_similarity m, sp_notes = ''Solution from failure '' @ failure_id\<rparr>)
                   | (stem, Inl e) \<Rightarrow> Inr missing)
              | _ \<Rightarrow> Inr missing)
      | _ \<Rightarrow> Inl TypeErr)"

record analysis =
  an_matches :: "failure_match_row list"
  an_solution :: "solution_response option"
  an_escalate :: bool
  an_reasoning :: string

text \<open>The steps the endpoint and the queue share; \<open>0.7\<close> is the nearest binary64 number.\<close>

definition close_enough :: "failure_match_row list \<Rightarrow> bool" where
  "close_enough matches \<longleftrightarrow> (case matches of [] \<Rightarrow> False | m # ms \<Rightarrow> flt (fround (7 / 10)) (fr_similarity m))"

definition analyze :: "'w prototype \<Rightarrow> pyval \<Rightarrow> pydict option \<Rightarrow> ('w, analysis) prog" where
  "analyze pt failure_story robot_state =
     bindP (pt_embed pt failure_story) (\<lambda>embedding.
     bindP (search_similar_failures pt embedding 5) (\<lambda>matches.
     bindP (pt_reason pt (reasoning_prompt failure_story robot_state matches)) (\<lambda>reasoning.
     if close_enough matches
     then bindP (getsP (\<lambda>w. extract_solution pt w (hd matches))) (\<lambda>found.
       bindP (liftP found) (\<lambda>solution.
         returnP \<lparr>an_matches = take 3 matches, an_solution = Some solution, an_escalate = False, an_reasoning = reasoning\<rparr>))
     else returnP \<lparr>an_matches = take 3 matches, an_solution = None, an_escalate = True, an_reasoning = reasoning\<rparr>)))"

definition analyze_failure :: "'w prototype \<Rightarrow> string \<Rightarrow> pydict option \<Rightarrow> ('w, analysis) prog" where
  "analyze_failure pt failure_story robot_state =
     catchP (analyze pt (PStr failure_story) robot_state)
       (\<lambda>e. if e = CancelledErr then throwP e else throwP http_exception)"

text \<open>The queue's failures: \<open>RobotState(**d)\<close> is a parameter, and an unpacked value must be an object.\<close>

definition robot_state_of :: "'w prototype \<Rightarrow> pyval \<Rightarrow> pydict option result" where
  "robot_state_of pt v =
     (if \<not> truthy v then Inr None
      else case v of PDict d \<Rightarrow> bindE (pt_robot_state pt d) (\<lambda>st. Inr (Some st)) | _ \<Rightarrow> Inl TypeErr)"

definition process_sqs_failure :: "'w prototype \<Rightarrow> pydict \<Rightarrow> ('w, bool) prog" where
  "process_sqs_failure pt message =
     catchP (bindP (liftP (robot_state_of pt (dget message ''robot_state''))) (\<lambda>robot_state.
       seqP (analyze pt (dget message ''failure_story'') robot_state) (returnP True)))
     (\<lambda>e. if e = CancelledErr then throwP e else returnP False)"

section \<open>Solutions\<close>

text \<open>Iterating over a value, and joining texts.\<close>

definition iterated :: "pyval \<Rightarrow> pyval list result" where
  "iterated v =
     (case v of
        PList vs \<Rightarrow> Inr vs | PTuple vs \<Rightarrow> Inr vs
      | PStr s \<Rightarrow> Inr (map (\<lambda>c. PStr [c]) s)
      | PDict d \<Rightarrow> Inr (map PStr (dkeys d))
      | _ \<Rightarrow> Inl TypeErr)"

definition joined_texts :: "pyval list \<Rightarrow> string result" where
  "joined_texts vs = bindE (mapE (\<lambda>v. case v of PStr s \<Rightarrow> Inr s | _ \<Rightarrow> Inl TypeErr) vs) (\<lambda>ss. Inr (join [lf] ss))"

definition text_value :: "pyval \<Rightarrow> string result" where
  "text_value v = (case v of PStr s \<Rightarrow> Inr s | _ \<Rightarrow> Inl TypeErr)"

definition solution_point :: "'w prototype \<Rightarrow> string \<Rightarrow> pyval \<Rightarrow> pyval \<Rightarrow> pyval \<Rightarrow> pyval \<Rightarrow> pyval \<Rightarrow> pydict" where
  "solution_point pt solution_id vector failure_id notes success commands =
     [(''id'', PInt (pt_hash pt solution_id mod 10 ^ 9)), (''vector'', vector),
      (''payload'', PDict [(''failure_id'', failure_id), (''solution_id'', PStr solution_id),
        (''description'', notes), (''success'', success), (''commands'', commands), (''type'', PStr ''solution'')])]"

definition save_entry :: "'w prototype \<Rightarrow> string \<Rightarrow> pydict \<Rightarrow> ('w, unit) prog" where
  "save_entry pt solution_id entry =
     bindP (pt_read_index pt) (\<lambda>stored.
     bindP (case stored of
         None \<Rightarrow> returnP (PDict [])
       | Some t \<Rightarrow> (case json_loads t of None \<Rightarrow> throwP (OtherErr ''JSONDecodeError'') | Some v \<Rightarrow> returnP v)) (\<lambda>index.
       case index of
         PDict d \<Rightarrow> pt_write_index pt (json_indented 0 (PDict (dset d solution_id (PDict entry))))
       | _ \<Rightarrow> throwP TypeErr))"

text \<open>
  Storing a solution: the directory, the file, the embedding, the vector store, whose errors are
  only logged, and the index. \<open>source\<close> holds the fields a queue message adds to the entry.
\<close>

definition store_solution ::
  "'w prototype \<Rightarrow> pydict \<Rightarrow> pyval \<Rightarrow> pyval \<Rightarrow> pyval \<Rightarrow> pyval \<Rightarrow> ('w, string) prog" where
  "store_solution pt source failure_id commands notes success =
     bindP (liftP (text_value failure_id)) (\<lambda>fid.
     seqP (pt_mkdir pt fid)
     (bindP (getsP (\<lambda>w. ''solution_'' @ pt_stamp pt w)) (\<lambda>solution_id.
      bindP (liftP (iterated commands)) (\<lambda>given.
      bindP (getsP (\<lambda>w. solution_content fid (map py_str given) (py_str notes) (py_str success) (pt_isoformat pt w))) (\<lambda>content.
      seqP (pt_write pt fid solution_id content)
      (bindP (liftP (joined_texts given)) (\<lambda>lines.
       bindP (pt_embed pt (PStr (join [lf] [fid, py_str notes, lines]))) (\<lambda>vector.
       seqP (catchP (pt_upsert pt (solution_point pt solution_id vector failure_id notes success commands))
           (\<lambda>e. if e = CancelledErr then throwP e else returnP ()))
       (bindP (getsP (pt_isoformat pt)) (\<lambda>now.
        seqP (save_entry pt solution_id (source @ [(''failure_id'', failure_id), (''solution_id'', PStr solution_id),
            (''commands'', commands), (''operator_notes'', notes), (''success'', success),
            (''indexed_at'', PStr now), (''file'', PStr (pt_path pt fid solution_id))]))
          (returnP solution_id)))))))))))"

definition index_solution :: "'w prototype \<Rightarrow> string \<Rightarrow> string list \<Rightarrow> string \<Rightarrow> bool \<Rightarrow> ('w, pydict) prog" where
  "index_solution pt failure_id commands notes success =
     catchP (bindP (store_solution pt [] (PStr failure_id) (PList (map PStr commands)) (PStr notes) (PBool success)) (\<lambda>solution_id.
       returnP [(''indexed'', PBool True), (''solution_id'', PStr solution_id), (''failure_id'', PStr failure_id),
         (''stored_in'', PStr (pt_path pt failure_id solution_id)), (''success'', PBool success)]))
     (\<lambda>e. if e = CancelledErr then throwP e else throwP http_exception)"

definition process_sqs_solution :: "'w prototype \<Rightarrow> pydict \<Rightarrow> ('w, bool) prog" where
  "process_sqs_solution pt message =
     catchP (seqP (store_solution pt [(''robot_id'', dget message ''robot_id''), (''table_entry_id'', dget message ''table_entry_id'')]
         (dget message ''failure_id'') (dget message ''solution_commands'') (dget message ''operator_notes'')
         (if has_key message ''success'' then dget message ''success'' else PBool True)) (returnP True))
     (\<lambda>e. if e = CancelledErr then throwP e else returnP False)"

end
