(* ===== verification/Prototype_Queue.thy ===== *)
theory Prototype_Queue
  imports Prototype_Memory Recovery_Executor
begin

text \<open>
  \<^verbatim>\<open>src/sqs_handler.py\<close>: polling the two queues of the older prototype, and when a message is deleted.
  The SQS client and the sleep are parameters; the receipts a delete was asked for are recorded.
\<close>

record 'w polling =
  pl_world :: 'w
  pl_deleted :: "pyval list"

record 'w sqs_client =
  sq_receive :: "string \<Rightarrow> ('w, pydict) prog"
  sq_delete :: "string \<Rightarrow> pyval \<Rightarrow> ('w, unit) prog"
  sq_send :: "string \<Rightarrow> string \<Rightarrow> ('w, unit) prog"
  sq_sleep :: "int \<Rightarrow> ('w, unit) prog"
  sq_poll_interval :: int
  sq_failures_url :: "string option"
  sq_solutions_url :: "string option"

definition on_queue :: "('w, 'a) prog \<Rightarrow> ('w polling, 'a) prog" where
  "on_queue m = (\<lambda>s. case m (pl_world s) of (r, w) \<Rightarrow> (r, s\<lparr>pl_world := w\<rparr>))"

definition json_decode_error :: py_error where
  "json_decode_error = OtherErr ''JSONDecodeError''"

text \<open>\<open>message[key]\<close>, and \<open>json.loads\<close> of a value.\<close>

definition item :: "pydict \<Rightarrow> string \<Rightarrow> pyval result" where
  "item d key = (if has_key d key then Inr (dget d key) else Inl (OtherErr ''KeyError''))"

definition loaded :: "pyval \<Rightarrow> pyval result" where
  "loaded v = (case v of
     PStr s \<Rightarrow> (case json_loads s of None \<Rightarrow> Inl json_decode_error | Some u \<Rightarrow> Inr u)
   | _ \<Rightarrow> Inl TypeErr)"

definition delete_receipt :: "'w sqs_client \<Rightarrow> string \<Rightarrow> pyval \<Rightarrow> ('w polling, unit) prog" where
  "delete_receipt client url receipt =
     seqP (modifyP (\<lambda>s. s\<lparr>pl_deleted := pl_deleted s @ [receipt]\<rparr>)) (on_queue (sq_delete client url receipt))"

definition delete_message :: "'w sqs_client \<Rightarrow> pydict \<Rightarrow> string \<Rightarrow> ('w polling, unit) prog" where
  "delete_message client message url =
     catchP (bindP (liftP (item message ''ReceiptHandle'')) (delete_receipt client url))
       (\<lambda>e. if e = CancelledErr then throwP e else returnP ())"

text \<open>
  One message, for either queue. The log lines read a field of the body, so a body that is no object
  raises; the second one, after the delete, cannot raise any more.
\<close>

definition process_message ::
  "'w sqs_client \<Rightarrow> string \<Rightarrow> (pydict \<Rightarrow> ('w, pyval) prog) \<Rightarrow> pydict \<Rightarrow> ('w polling, unit) prog" where
  "process_message client url callback message =
     catchP
       (bindP (liftP (bindE (item message ''Body'') loaded)) (\<lambda>body.
        bindP (liftP (item message ''ReceiptHandle'')) (\<lambda>receipt.
        bindP (case body of PDict d \<Rightarrow> returnP d | _ \<Rightarrow> throwP (OtherErr ''AttributeError'')) (\<lambda>fields.
        bindP (on_queue (callback fields)) (\<lambda>accepted.
          if truthy accepted then delete_receipt client url receipt else returnP ())))))
       (\<lambda>e. if e = CancelledErr then throwP e
         else if e = json_decode_error then delete_message client message url
         else returnP ())"

text \<open>A message that is no object fails on its first key, inside the handler.\<close>

fun each_message :: "(pydict \<Rightarrow> ('s, unit) prog) \<Rightarrow> pyval list \<Rightarrow> ('s, unit) prog" where
  "each_message process [] = returnP ()"
| "each_message process (m # ms) =
     seqP (case m of PDict d \<Rightarrow> process d | _ \<Rightarrow> returnP ()) (each_message process ms)"

text \<open>One turn of the polling loop; a missing URL ends the polling before the first.\<close>

definition poll_turn :: "'w sqs_client \<Rightarrow> string \<Rightarrow> (pydict \<Rightarrow> ('w, pyval) prog) \<Rightarrow> ('w polling, unit) prog" where
  "poll_turn client url callback =
     catchP (bindP (on_queue (sq_receive client url)) (\<lambda>response.
         if has_key response ''Messages''
         then bindP (liftP (iterated (dget response ''Messages''))) (each_message (process_message client url callback))
         else on_queue (sq_sleep client (sq_poll_interval client))))
       (\<lambda>e. if e = CancelledErr then throwP e else on_queue (sq_sleep client (sq_poll_interval client)))"

fun poll_queue ::
  "nat \<Rightarrow> 'w sqs_client \<Rightarrow> string option \<Rightarrow> (pydict \<Rightarrow> ('w, pyval) prog) \<Rightarrow> ('w polling, loop_end) prog" where
  "poll_queue fuel client None callback = returnP LoopReturned"
| "poll_queue fuel client (Some []) callback = returnP LoopReturned"
| "poll_queue 0 client (Some (c # cs)) callback = returnP OutOfFuel"
| "poll_queue (Suc fuel) client (Some (c # cs)) callback =
     seqP (poll_turn client (c # cs) callback) (poll_queue fuel client (Some (c # cs)) callback)"

definition poll_failures :: "nat \<Rightarrow> 'w sqs_client \<Rightarrow> (pydict \<Rightarrow> ('w, pyval) prog) \<Rightarrow> ('w polling, loop_end) prog" where
  "poll_failures fuel client callback = poll_queue fuel client (sq_failures_url client) callback"

definition poll_solutions :: "nat \<Rightarrow> 'w sqs_client \<Rightarrow> (pydict \<Rightarrow> ('w, pyval) prog) \<Rightarrow> ('w polling, loop_end) prog" where
  "poll_solutions fuel client callback = poll_queue fuel client (sq_solutions_url client) callback"

text \<open>\<open>json.dumps(v)\<close>.\<close>

fun json_line :: "pyval \<Rightarrow> string" where
  "json_line (PList vs) = ''['' @ join '', '' (map json_line vs) @ '']''"
| "json_line (PTuple vs) = ''['' @ join '', '' (map json_line vs) @ '']''"
| "json_line (PDict d) = ''{'' @ join '', '' (map (\<lambda>(k, v). ascii_string k @ '': '' @ json_line v) d) @ ''}''"
| "json_line (PStr s) = ascii_string s"
| "json_line v = json_dumps v"

definition send_result :: "'w sqs_client \<Rightarrow> string \<Rightarrow> pyval \<Rightarrow> ('w, unit) prog" where
  "send_result client url result =
     catchP (sq_send client url (json_line result)) (\<lambda>e. if e = CancelledErr then throwP e else returnP ())"

end
