(* ===== verification/Prototype_Properties.thy ===== *)
theory Prototype_Properties
  imports Prototype_Queue Memory_Fidelity
begin

text \<open>
  What the older prototype promises: the commands of a stored solution are read back as they were
  given, nothing runs on the robot unless every command of a solution is known, and a queue message is
  deleted only when it was handled or cannot be read.
\<close>

section \<open>Stored solutions\<close>

lemma strip_prefix:
  assumes "p \<noteq> []" "\<not> is_space (hd p)" "\<not> is_space (last p)" shows "\<exists>t. strip (p @ s) = p @ t"
proof -
  have front: "lstrip (p @ s) = p @ s" using assms(1,2) by (cases p) (simp_all add: lstrip_def)
  have kept: "dropWhile is_space (rev p) = rev p"
    using assms(1,3) by (cases "rev p") (simp_all add: hd_rev [symmetric] del: hd_rev)
  show ?thesis
  proof (cases "\<exists>c \<in> set s. \<not> is_space c")
    case True
    then obtain c where "c \<in> set (rev s)" "\<not> is_space c" by auto
    then have "dropWhile is_space (rev s @ rev p) = dropWhile is_space (rev s) @ rev p"
      by (rule dropWhile_append1)
    with front show ?thesis by (simp add: strip_def lstrip_def)
  next
    case False
    then have "dropWhile is_space (rev s @ rev p) = rev p"
      using dropWhile_append2 [of "rev s" is_space "rev p"] kept by auto
    with front show ?thesis by (simp add: strip_def lstrip_def)
  qed
qed

lemma scan_listed:
  assumes "list_all (\<lambda>c. strip c = c) commands" "\<not> (strip l = ''## Commands'' \<or> prefix ''- '' l)" "prefix ''##'' l'"
    and "strip l' \<noteq> ''## Commands''"
  shows "scan_commands True (map (\<lambda>c. ''- '' @ c) commands @ l # l' # rest) = commands"
  using assms(1)
proof (induction commands)
  case Nil
  from assms(3) have "\<not> prefix ''- '' l'" by (cases l') auto
  with assms show ?case by simp
next
  case (Cons c cs)
  have "strip (''- '' @ c) \<noteq> ''## Commands''"
    using strip_prefix [of "''-''" "CHR '' '' # c"] by (auto simp: is_space_def cpt_def)
  with Cons show ?case by simp
qed

lemma unbroken_split: "lf \<notin> set s \<Longrightarrow> split_on lf (s @ lf # rest) = s # split_on lf rest"
  by (induction s) auto

lemma split_listed:
  assumes "list_all (\<lambda>s. lf \<notin> set s) ls" "ls \<noteq> []"
  shows "split_on lf (join [lf] ls @ lf # rest) = ls @ split_on lf rest"
  using assms
proof (induction ls)
  case (Cons l ls)
  show ?case
  proof (cases ls)
    case Nil
    with Cons show ?thesis by (simp add: join_def unbroken_split)
  next
    case (Cons m ms)
    then have "join [lf] (l # ls) @ lf # rest = l @ lf # (join [lf] ls @ lf # rest)" by (simp add: join_def)
    with Cons.IH Cons.prems Cons show ?thesis by (simp add: unbroken_split)
  qed
qed simp

lemma join_append: "as \<noteq> [] \<Longrightarrow> bs \<noteq> [] \<Longrightarrow> join sep (as @ bs) = join sep as @ sep @ join sep bs"
  by (cases as; cases bs) (simp_all add: join_def)

lemma newlines_after: "CHR 13 \<notin> set s \<Longrightarrow> universal_newlines (s @ lf # rest) = s @ lf # universal_newlines rest"
  by (induction s) auto

text \<open>
  C40. The commands of a stored solution are read back from its file as they were given, in their
  order, whatever the notes and the other fields hold, when no command and no id has a line break and
  the commands carry no outer blanks.
\<close>

theorem indexed_commands_read_back:
  assumes "list_all (\<lambda>c. strip c = c \<and> lf \<notin> set c \<and> CHR 13 \<notin> set c) commands"
    and "lf \<notin> set failure_id" "CHR 13 \<notin> set failure_id"
  shows "read_commands (solution_content failure_id commands notes success indexed_at) = commands"
proof -
  let ?listed = "if commands = [] then [[]] else map (\<lambda>c. ''- '' @ c) commands"
  let ?head = "[''# Solution: '' @ failure_id, [], ''## Commands'']"
  let ?lines = "?head @ ?listed @ [[], ''## Operator Notes'']"
  let ?rest = "join [lf] [notes, [], ''## Success'', success, [], ''## Indexed At'', indexed_at, []]"
  have "join [lf] (map (\<lambda>c. ''- '' @ c) commands) = join [lf] ?listed"
  proof (cases "commands = []")
    case False
    then show ?thesis by (simp only: if_False)
  qed (simp add: join_def)
  moreover have "join [lf] ?lines = join [lf] ?head @ lf # join [lf] ?listed @ lf # join [lf] [[], ''## Operator Notes'']"
    using join_append [of ?head "?listed @ [[], ''## Operator Notes'']" "[lf]"]
      join_append [of ?listed "[[], ''## Operator Notes'']" "[lf]"] by simp
  ultimately have content: "solution_content failure_id commands notes success indexed_at = join [lf] ?lines @ lf # ?rest"
    by (simp add: solution_content_def join_def)
  have "CHR 13 \<notin> set (join [lf] ?lines)"
    using assms(1,3) by (intro join_absent) (auto simp: list_all_iff split: if_splits)
  moreover have "list_all (\<lambda>l. lf \<notin> set l) ?lines" using assms(1,2) by (auto simp: list_all_iff)
  ultimately have split: "split_on lf (universal_newlines (solution_content failure_id commands notes success indexed_at)) =
      ?lines @ split_on lf (universal_newlines ?rest)"
    unfolding content by (subst newlines_after) (simp_all add: split_listed del: append_Cons)
  obtain t where "strip (''# Solution: '' @ failure_id) = ''# S'' @ t"
    using strip_prefix [of "''# S''" "''olution: '' @ failure_id"] by (auto simp: is_space_def cpt_def)
  then have start: "strip (''# Solution: '' @ failure_id) \<noteq> ''## Commands''" by simp
  have blank: "\<not> (strip [] = ''## Commands'' \<or> prefix ''- '' [])" by (simp add: strip_def lstrip_def)
  have marks: "prefix ''##'' ''## Operator Notes''" "strip ''## Operator Notes'' \<noteq> ''## Commands''"
    "strip ''## Commands'' = ''## Commands''" by code_simp+
  have "list_all (\<lambda>c. strip c = c) commands" using assms(1) by (simp add: list_all_iff)
  note listed = scan_listed [OF this blank marks(1,2)]
  have "read_commands (solution_content failure_id commands notes success indexed_at) =
      scan_commands True (?listed @ [[], ''## Operator Notes''] @ split_on lf (universal_newlines ?rest))"
    unfolding read_commands_def split using start marks(3) blank by simp
  also have "\<dots> = commands"
  proof (cases "commands = []")
    case True
    with blank listed [of "split_on lf (universal_newlines ?rest)"] show ?thesis by simp
  next
    case False
    then show ?thesis using listed [of "split_on lf (universal_newlines ?rest)"] by (simp only: if_False append_Cons append_Nil)
  qed
  finally show ?thesis .
qed

lemma indexed_commands_read_back_witness:
  "read_commands (solution_content ''f1'' [''slide(0.5)'', ''dock''] [CHR ''a'', lf, CHR ''-'', CHR '' '', CHR ''b''] ''True'' ''now'') =
     [''slide(0.5)'', ''dock'']"
  by (rule indexed_commands_read_back) code_simp+

section \<open>Running a solution\<close>

definition report_text :: "command_report \<Rightarrow> string" where
  "report_text r = (case r of Succeeded c v \<Rightarrow> c | Refused c e st \<Rightarrow> c | Errored c e \<Rightarrow> c | Checked c \<Rightarrow> c)"

lemma run_command_text:
  "run_solution_command interface error_text c s = (Inr r, t) \<Longrightarrow> report_text r = command_text c"
  by (auto simp: run_solution_command_def catchP_def bindP_def returnP_def throwP_def report_text_def
      split: prod.splits sum.splits if_splits)

lemma run_commands_reports:
  "run_commands (run_solution_command interface error_text) cs s = (Inr rs, t)
    \<Longrightarrow> list_all2 (\<lambda>r c. report_text r = command_text c) rs cs"
  by (induction cs arbitrary: s rs) (auto simp: returned dest: run_command_text)

lemma validated_text: "command_text (snd (validate_command available c)) = command_text c"
  "fst (validate_command available c) = (sc_name c \<in> set available)"
  by (simp_all add: validate_command_def command_text_def)

text \<open>
  Nothing is asked of the robot unless every command of the solution has a known name and it is no dry
  run; and a completed run reports on each command once, in their order.
\<close>

theorem only_known_commands_run:
  assumes "execute_solution interface error_text commands dry_run s = (r, t)"
  shows "(t = s \<or> \<not> dry_run \<and> list_all (\<lambda>c. sc_name (parse_command c) \<in> set available_commands) commands) \<and>
    (\<forall>rs n. r = Inr (Completed rs n) \<longrightarrow> n = plen (filter succeeded rs) \<and>
      list_all2 (\<lambda>r c. report_text r = command_text (parse_command c)) rs commands)"
proof -
  let ?checked = "map (\<lambda>c. snd (validate_command available_commands (parse_command c))) commands"
  let ?valid = "list_all (\<lambda>c. sc_name (parse_command c) \<in> set available_commands) commands"
  have checked: "validate_solution (parse_solution commands) = (?valid, ?checked)"
    by (simp add: validate_solution_def parse_solution_def validated_text list_all_iff comp_def)
  show ?thesis
  proof (cases "commands \<noteq> [] \<and> ?valid \<and> \<not> dry_run")
    case True
    with assms checked have run: "bindP (run_commands (run_solution_command interface error_text) ?checked) (\<lambda>results.
        returnP (Completed results (plen (filter succeeded results)))) s = (r, t)"
      by (simp add: execute_solution_def parse_solution_def [of commands] Let_def)
    have "n = plen (filter succeeded rs) \<and> list_all2 (\<lambda>r c. report_text r = command_text (parse_command c)) rs commands"
      if "r = Inr (Completed rs n)" for rs n
      using run that run_commands_reports [of interface error_text ?checked s rs t]
      by (auto simp: returned list_all2_map2 validated_text)
    with True show ?thesis by blast
  next
    case False
    with assms checked show ?thesis
      by (auto simp: execute_solution_def parse_solution_def [of commands] Let_def returnP_def split: if_splits)
  qed
qed

text \<open>The help of the executor: every command it lists, but two, fails the executor's own validation.\<close>

theorem help_lists_unknown_commands:
  "filter (\<lambda>c. c \<in> set available_commands) command_help = [''verify_stability'', ''wait'']"
  by code_simp

section \<open>Queue messages\<close>

text \<open>Programs that delete nothing.\<close>

lemma on_queue_deletes_nothing: "on_queue m s = (r, t) \<Longrightarrow> pl_deleted t = pl_deleted s"
  by (auto simp: on_queue_def split: prod.splits)

lemma delete_receipt_once: "delete_receipt client url receipt s = (r, t) \<Longrightarrow> pl_deleted t = pl_deleted s @ [receipt]"
  by (auto simp: delete_receipt_def seqP_def bindP_def modifyP_def dest: on_queue_deletes_nothing)

lemma delete_message_once:
  assumes "delete_message client message url s = (r, t)"
  shows "pl_deleted t = pl_deleted s \<or>
    (\<exists>receipt. item message ''ReceiptHandle'' = Inr receipt \<and> pl_deleted t = pl_deleted s @ [receipt])"
proof (cases "item message ''ReceiptHandle''")
  case (Inl e)
  with assms show ?thesis
    by (auto simp: delete_message_def catchP_def bindP_def liftP_def throwP_def returnP_def split: if_splits)
next
  case (Inr receipt)
  obtain x u where u: "delete_receipt client url receipt s = (x, u)" by (cases "delete_receipt client url receipt s")
  with assms Inr have "t = u"
    by (auto simp: delete_message_def catchP_def bindP_def liftP_def throwP_def returnP_def split: if_splits sum.splits)
  with delete_receipt_once [OF u] Inr show ?thesis by simp
qed

text \<open>When the handler of a message may delete it: its text is no JSON, or its callback accepted it.\<close>

definition may_delete :: "(pydict \<Rightarrow> ('w, pyval) prog) \<Rightarrow> pydict \<Rightarrow> 'w \<Rightarrow> bool" where
  "may_delete callback message w \<longleftrightarrow>
     (case bindE (item message ''Body'') loaded of
        Inl e \<Rightarrow> e = json_decode_error
      | Inr (PDict d) \<Rightarrow> (case fst (callback d w) of Inl e \<Rightarrow> e = json_decode_error | Inr a \<Rightarrow> truthy a)
      | Inr v \<Rightarrow> False)"

text \<open>The part of the handler that runs before its exceptions are caught.\<close>

lemma tried_deletes:
  assumes "bindP (liftP (bindE (item message ''Body'') loaded)) (\<lambda>body.
        bindP (liftP (item message ''ReceiptHandle'')) (\<lambda>receipt.
        bindP (case body of PDict d \<Rightarrow> returnP d | _ \<Rightarrow> throwP (OtherErr ''AttributeError'')) (\<lambda>fields.
        bindP (on_queue (callback fields)) (\<lambda>accepted.
          if truthy accepted then delete_receipt client url receipt else returnP ())))) s = (x, u)"
  shows "pl_deleted u = pl_deleted s \<and>
      (\<forall>receipt. x = Inl json_decode_error \<longrightarrow> item message ''ReceiptHandle'' = Inr receipt \<longrightarrow> may_delete callback message (pl_world s)) \<or>
    may_delete callback message (pl_world s) \<and>
      (\<exists>receipt. item message ''ReceiptHandle'' = Inr receipt \<and> pl_deleted u = pl_deleted s @ [receipt])"
proof -
  note parts = bindP_def liftP_def returnP_def throwP_def may_delete_def
  consider (unread) e where "bindE (item message ''Body'') loaded = Inl e"
    | (nameless) v e where "bindE (item message ''Body'') loaded = Inr v" "item message ''ReceiptHandle'' = Inl e"
    | (read) v receipt where "bindE (item message ''Body'') loaded = Inr v" "item message ''ReceiptHandle'' = Inr receipt"
    by (meson sumE)
  then show ?thesis
  proof cases
    case unread
    with assms show ?thesis by (auto simp: parts)
  next
    case nameless
    with assms show ?thesis by (simp add: parts)
  next
    case read
    show ?thesis
    proof (cases "is_dict v")
      case False
      with assms read show ?thesis by (cases v) (auto simp: parts is_dict_def json_decode_error_def)
    next
      case True
      then obtain d where d: "v = PDict d" by (cases v) (auto simp: is_dict_def)
      obtain y w where w: "on_queue (callback d) s = (y, w)" by (cases "on_queue (callback d) s")
      have y: "fst (callback d (pl_world s)) = y" using w by (auto simp: on_queue_def split: prod.splits)
      note same = on_queue_deletes_nothing [OF w]
      have run: "(case y of Inl e \<Rightarrow> (Inl e, w) | Inr a \<Rightarrow>
          if truthy a then delete_receipt client url receipt w else (Inr (), w)) = (x, u)"
        using assms read d w by (simp add: parts split: sum.splits if_splits)
      show ?thesis
        using run read d y same delete_receipt_once [of client url receipt w x u]
        by (cases y) (auto simp: may_delete_def split: if_splits)
    qed
  qed
qed


definition demo_queue :: "nat sqs_client" where
  "demo_queue = \<lparr>sq_receive = (\<lambda>url. returnP []), sq_delete = (\<lambda>url receipt. modifyP Suc),
     sq_send = (\<lambda>url body. returnP ()), sq_sleep = (\<lambda>n. returnP ()), sq_poll_interval = 5,
     sq_failures_url = Some ''f'', sq_solutions_url = Some ''q''\<rparr>"


end
