(* ===== verification/Spec2Isabelle.thy ===== *)
theory Spec2Isabelle
  imports Recovery_Demo Memory_Properties Retrieval_Properties Resolver_Learning Resolver_Runtime_Properties Session_Loop Prototype_Properties
begin

text \<open>
  A verification development of \<^verbatim>\<open>failure-resolver\<close>: a robot pauses on a failed step of its Flow,
  an agent finds a remembered recovery for it, and the service replays the corrections and resumes
  the Flow, at most a bounded number of times and never without evidence of what the robot is doing.
  Recoveries an operator demonstrated become memories in a Git repository.

  The parts of the program and the theories that model them.

  Foundations.
  \<^item> \<open>Prelude\<close>: Python exceptions as the datatype \<open>py_error\<close>, results as sums, loops over results,
    and coroutines as functions of the state that return a result and a state, with the calculus of
    \<open>triple\<close> and \<open>preserves\<close>; the locale \<open>step_system\<close> of state machines.
  \<^item> \<open>Py_Float\<close>, \<open>Py_Value\<close>, \<open>Json_Text\<close>, \<open>Py_Text\<close>, \<open>Json_Roundtrip\<close>: the Python values the code
    handles. Floats are binary64 with rounding to even, infinities and NaN; dictionaries are
    association lists in insertion order; \<open>==\<close> is \<open>py_eq\<close>; characters are code points below 256;
    JSON texts are read and written as \<^verbatim>\<open>json\<close> does. The code's characters beyond Latin-1 (the
    replacement character, the ellipsis, the arrow) are stood for by the control characters 0x1A,
    0x10 and 0x11.

  Execution, \<^verbatim>\<open>src/recovery_executor.py\<close> and \<^verbatim>\<open>src/robot_session.py\<close>.
  \<^item> \<open>Contract_Fields\<close>, \<open>Recovery_Plan\<close>, \<open>Recovery_Flow\<close>, \<open>Recovery_Rows\<close>, \<open>Command_Spec\<close>,
    \<open>Recovery_Settings\<close>: the contract parsers. Untrusted rows, plans, Flows and command
    specifications become records, or one of the errors the code raises.
  \<^item> \<open>Robot_Session\<close>: one robot connection with its generation, Flow and command frames, history,
    pending requests and waiters, as operations on a record and as the step relation \<open>session_step\<close>
    of everything the event loop can do to it. \<open>Session_Loop\<close>: its connection loop, which makes only
    those steps.
  \<^item> \<open>Recovery_Database\<close>: \<open>SupabaseRecoveryDatabase\<close> over a record of client calls, which are
    parameters of the model.
  \<^item> \<open>Recovery_Coordinator\<close>, \<open>Recovery_Attempt\<close>, \<open>Recovery_Executor\<close>: \<open>RecoveryCoordinator\<close>. A
    coroutine runs on the state \<open>sys\<close>: the world (robot, control plane, clock), the coordinator, a
    trace of the calls it makes and the flag \<open>command_dispatched\<close>. At every await the other tasks
    may change the coordinator in any way (\<open>en_others\<close>).
  \<^item> \<open>Outcome_Watch\<close>: the outcome predicate run by the Flow waiter. \<open>Attempt_Trace\<close>,
    \<open>Executor_Trace\<close>, \<open>Recovery_Queue\<close>, \<open>Retry_Bound\<close>: what the coroutines do, as properties of
    their traces and of the reachable states of the queue. \<open>Recovery_Demo\<close>: a concrete robot, Flow
    and control plane, behind the witnesses.

  Memories, \<^verbatim>\<open>src/episode_evidence.py\<close>, \<^verbatim>\<open>src/memory_store.py\<close> and \<^verbatim>\<open>src/retrieval.py\<close>.
  \<^item> \<open>Episode_Evidence\<close>, \<open>Memory_Document\<close>: the sanitized evidence, the source, the draft, and the
    rendering and parsing of the Markdown document. \<open>Memory_Roundtrip\<close> and \<open>Memory_Fidelity\<close> prove
    that the one reads what the other writes, or refuses it.
  \<^item> \<open>Memory_Store\<close>: \<open>GitMemoryStore\<close> over a record of the calls to Git, the file system and the
    locks; what it does is a log of steps, and a write is one of the words of \<open>write_words\<close>.
  \<^item> \<open>Retrieval\<close>: \<open>MemoryRetrievalIndex\<close>: build, search, rank, read. \<open>Memory_Demo\<close>,
    \<open>Memory_Properties\<close>, \<open>Retrieval_Properties\<close> hold the properties of the two modules.

  Matching and learning, \<^verbatim>\<open>src/agent.py\<close>, \<^verbatim>\<open>src/resolver.py\<close> and \<^verbatim>\<open>src/observer.py\<close>.
  \<^item> \<open>Agent\<close>: what \<open>OpenAIFailureAgent\<close> sends to the model and which answers it accepts.
  \<^item> \<open>Resolver_Rows\<close>, \<open>Resolver\<close>: the rows, contexts and settings, and \<open>FailureResolverProcessor\<close> on
    the state \<open>processor\<close> (world, counters, known commits and a log of its calls).
    \<open>Resolver_Trace\<close>, \<open>Resolver_Match\<close>, \<open>Resolver_Learning\<close>, \<open>Resolver_Properties\<close>: which updates
    its runs make, what a published match rests on, and when an ingestion is acknowledged.
  \<^item> \<open>Observer\<close>, \<open>Observer_Properties\<close>: \<open>SupabaseFailureObserver\<close>, its callbacks, bounded queue and
    reconnecting loop. \<open>Resolver_Runtime\<close>, \<open>Resolver_Runtime_Properties\<close>: its subclass
    \<open>SupabaseAgentRuntime\<close>, which joins the processor and the recovery coordinator.

  The older prototype, \<^verbatim>\<open>src/solution_executor.py\<close>, \<^verbatim>\<open>src/robot_interface.py\<close>, \<^verbatim>\<open>src/main.py\<close> and
  \<^verbatim>\<open>src/sqs_handler.py\<close>, which the default container does not import.
  \<^item> \<open>Prototype_Executor\<close>, \<open>Prototype_Memory\<close>, \<open>Prototype_Queue\<close>, \<open>Prototype_Properties\<close>: the
    commands of a solution and the HTTP calls they become, the stored solutions and the analysis of
    failures, and the handling of queue messages.

  Interfaces are locales, each interpreted on the model: \<open>step_system\<close> by the robot session, by the
  coordinator's queue and by the browsing of memories, \<open>flow_source\<close> by the robot session, \<open>flow_step\<close>
  by failure rows and by session rows, \<open>candidate_source\<close> by the database adapter, \<open>memory_chooser\<close> by
  the agent, \<open>observer_service\<close> by the observer's and by the runtime's methods, \<open>bounded_queue\<close> by the
  runtime's queue.

  Bounds and fuel. The retry loop runs on fuel, and \<open>retry_loop_terminates\<close> shows that fuel beyond the
  attempts left is never used up when the control plane accounts for retries. The browsing of memories
  ends by its own bound of turns. The observer's loop and the watching of a connection have no bound
  and run on fuel; what is said of them is said of every run that ends. The reader of JSON texts runs
  on fuel equal to the length of its text, which is enough since every step consumes a character.

  Not modelled. The text of exceptions and log messages; the scheduling of asyncio beyond the
  interleaving at awaits (the waiting for cancelled tasks in \<open>stop\<close>, the bound on a shielded finish,
  which is the result its call returns; a call of the processor or the coordinator from the runtime's
  worker is one piece); the WebSocket library, the Supabase and OpenAI clients, Git, the file system,
  UUIDs, hashes, clocks and the environment, which are parameters; the instruction texts of the agent;
  FastAPI, uvicorn and the logging configuration; characters beyond Latin-1 in the Unicode tables of
  \<open>strip\<close>, \<open>upper\<close> and \<open>casefold\<close>.
\<close>

section \<open>An attempt\<close>

text \<open>
  C1. The commands an attempt sends are a prefix of its plan, in the plan's order and with
  the plan's arguments: the corrections, then the continuation. Each one is sent in a state
  in which the live guard holds: the robot is connected in the same generation, the Flow
  still pauses at the same revision and step, and the plan and its corrections are valid
  against the live Flow and the live command specification. Only an attempt that sent the
  whole plan is reported as awaiting its outcome.
\<close>

theorem attempt_sends_guarded_plan_prefix:
  assumes "sr_recovery_run_token claimed = Some tok"
    and "execute_attempt env db robot claimed f plan pointer s = (r, t)"
  shows "\<exists>reqs fins. sy_trace t = sy_trace s @ map request_event reqs @ finish_events claimed f fins \<and>
    prefix (map fst reqs) (planned_commands plan pointer) \<and>
    (\<forall>(cmd, view) \<in> set reqs. \<exists>frame. require_live_execution_state view pointer plan = Inr frame) \<and>
    (''awaiting_outcome'' \<in> set fins \<longrightarrow> map fst reqs = planned_commands plan pointer)"
proof -
  from execute_attempt_trace [OF assms] obtain evs where
    evs: "sy_trace t = sy_trace s @ evs" "attempt_trace claimed f plan pointer r evs" by blast
  from evs(2) obtain reqs fins where
    t: "evs = map request_event reqs @ finish_events claimed f fins"
      "list_all (guarded_request pointer plan) reqs"
      "prefix (map fst reqs) (planned_commands plan pointer)"
      "''awaiting_outcome'' \<in> set fins \<longrightarrow> map fst reqs = planned_commands plan pointer"
    unfolding attempt_trace_def by blast
  from t(2) have "\<forall>(cmd, view) \<in> set reqs. \<exists>frame. require_live_execution_state view pointer plan = Inr frame"
    by (auto simp: guarded_request_def list_all_iff)
  with evs(1) t show ?thesis by blast
qed

lemma attempt_sends_guarded_plan_prefix_witness:
  "\<exists>r t reqs fins. execute_attempt demo_env demo_database demo_robot demo_claimed demo_uuid demo_plan
       demo_pointer demo_start = (r, t) \<and>
     sy_trace t = sy_trace demo_start @ map request_event reqs @
       finish_events demo_claimed demo_uuid fins \<and> length (sy_trace t) = 4 \<and>
     prefix (map fst reqs) (planned_commands demo_plan demo_pointer)"
proof -
  from demo_attempt [of demo_start] obtain rec t where
    run: "execute_attempt demo_env demo_database demo_robot demo_claimed demo_uuid demo_plan
      demo_pointer demo_start = (Inr (''recovered'', RecordPayload rec), t)" and
    tr: "sy_trace t = sy_trace demo_start @ demo_sent" by blast
  from tr have "length (sy_trace t) = 4" by (simp add: demo_start_def demo_sent_def)
  with attempt_sends_guarded_plan_prefix [OF demo_claimed_fields(1) run] run show ?thesis by blast
qed



text \<open>
  C3. In every run of \<open>process_failure\<close>, whatever the robot, the control plane and the other
  tasks do, a command is sent only inside an open attempt: the last claim or finish before it
  is a claim.
\<close>

theorem commands_only_inside_a_claim:
  assumes "process_failure fuel env f s = (r, t)"
    and "sy_trace t = sy_trace s @ before @ EvRequest c a view # after"
  shows "\<exists>pre g sid. filter is_claim_or_finish before = pre @ [EvClaim g sid]"
proof -
  obtain evs where evs: "sy_trace t = sy_trace s @ evs" "orderly evs"
    using assms(1) by (rule process_failure_orderly)
  with assms(2) have "orderly (before @ EvRequest c a view # after)" by simp
  then show ?thesis by (rule orderly_request_claimed)
qed

lemma commands_only_inside_a_claim_witness:
  "\<exists>t before after view. process_failure 2 demo_env demo_uuid demo_start = (Inr LoopReturned, t) \<and>
     sy_trace t = before @ EvRequest ''open'' [] view # after \<and>
     (\<exists>pre g sid. filter is_claim_or_finish before = pre @ [EvClaim g sid])"
proof -
  let ?before = "[EvFetch demo_uuid, EvFetch demo_uuid, EvPrepare demo_uuid demo_uuid 3 0, EvClaim demo_uuid demo_uuid]"
  from demo_process_failure [of 1] obtain t where
    run: "process_failure 2 demo_env demo_uuid demo_start = (Inr LoopReturned, t)" and
    tr: "sy_trace t = ?before @ demo_sent" by (auto simp: numeral_2_eq_2)
  have "sy_trace t = sy_trace demo_start @ ?before @ EvRequest ''open'' [] demo_session # tl demo_sent"
    using tr by (simp add: demo_start_def demo_sent_def)
  from commands_only_inside_a_claim [OF run this] run tr show ?thesis
    by (intro exI [of _ t] exI [of _ ?before] exI [of _ "tl demo_sent"] exI [of _ demo_session])
      (simp add: demo_sent_def)
qed

text \<open>
  C7. The retry loop ends. When the control plane accounts for retries (a claim that yields an
  active session uses up one of the attempts left, nothing gives one back), a loop with more
  fuel than attempts left never runs out of it.
\<close>

theorem retry_loop_terminates:
  assumes "databases_account budget env db robot"
    and "co_database (sy_coordinator s) = Some db" and "budget (sy_world s) < fuel"
  shows "fst (retry_loop fuel env db robot obj sid plan pointer s) \<noteq> Inr OutOfFuel"
  using retry_loop_ends [OF assms(1) _ assms(3), of s] assms(2) by (simp add: in_budget_def)

lemma demo_accounts: "databases_account (\<lambda>left. left) demo_env demo_database demo_robot"
  by (auto simp: databases_account_def accounts_retries_def keeps_def demo_env_def demo_database_def
      demo_robot_def returnP_def split: if_splits)

lemma retry_loop_terminates_witness:
  "fst (retry_loop 3 demo_env demo_database demo_robot 0 demo_uuid demo_plan demo_pointer demo_start)
     \<noteq> Inr OutOfFuel"
  by (rule retry_loop_terminates [OF demo_accounts])
    (simp_all add: demo_start_def new_coordinator_def)

text \<open>
  C8. An attempt is classified as failed, the only verdict that is retried, only after the
  robot was seen executing: between the acknowledgement of the continuation and the pause on
  the same step, the session received a frame of the same generation with the Flow in
  progress. Here \<open>ss\<close> are the states in which the waiter is notified.
\<close>

theorem failed_only_after_execution:
  assumes "list_all session_inv ss"
    and "wait_for_flow (execution_outcome_predicate r generation) generation
      (new_waiter False after_revision) ss = Inr p"
    and "classify_flow_outcome p r = ''failed''"
  shows "\<exists>q. p = Some q \<and> pointer_matches_session q r \<and>
    (\<exists>s \<in> set ss. \<exists>frame \<in> set (rs_flow_history s). ff_generation frame = generation \<and>
       after_revision < ff_revision frame \<and> ff_revision frame < fp_revision q \<and>
       executing r (ff_pointer frame))"
  using session_source.failed_after_execution [of ss r generation after_revision p] assms
  by (fastforce simp: session_wait_def started_between_def session_frames_def)

lemma failed_only_after_execution_witness:
  "\<exists>s \<in> {demo_session, demo_executing, demo_paused_again}. \<exists>frame \<in> set (rs_flow_history s).
     executing demo_claimed (ff_pointer frame)"
proof -
  let ?ss = "[demo_session, demo_executing, demo_paused_again]"
  obtain p where wait: "wait_for_flow (execution_outcome_predicate demo_claimed 1) 1 (new_waiter False 1) ?ss = Inr p"
    using demo_waits(1) by auto
  with demo_verdicts(1) have "classify_flow_outcome p demo_claimed = ''failed''" by simp
  from failed_only_after_execution [OF _ wait this] demo_sessions_inv show ?thesis by auto
qed

text \<open>
  C9. A recovery is concluded only from a pointer of the robot's current connection that is
  later than the acknowledgement of the continuation, of the Flow of the session, and that is
  completed, or past the failed step, or successful at or beyond it.
\<close>

theorem recovered_only_from_fresh_frame:
  assumes "list_all session_inv ss"
    and "wait_for_flow (execution_outcome_predicate r generation) generation
      (new_waiter False after_revision) ss = Inr p"
    and "classify_flow_outcome p r = ''recovered''"
  shows "\<exists>q. p = Some q \<and> fp_generation q = generation \<and> after_revision < fp_revision q \<and>
    fp_flow_id q = sr_flow_id r \<and>
    (advanced_past q (sr_action_index r) \<or>
     flow_status q \<in> set success_flow_statuses \<and> (fp_completed q \<or> reached q (sr_action_index r)))"
  using session_source.recovered_is_fresh [of ss r generation after_revision p] assms
  by (fastforce simp: session_wait_def classify_recovered_iff same_flow_def)

lemma recovered_only_from_fresh_frame_witness:
  "\<exists>q. wait_for_flow (execution_outcome_predicate demo_claimed 1) 1 (new_waiter False 1)
      [demo_session, demo_executing, demo_passed] = Inr (Some q) \<and> fp_generation q = 1 \<and> 1 < fp_revision q"
proof -
  let ?ss = "[demo_session, demo_executing, demo_passed]"
  obtain p where wait: "wait_for_flow (execution_outcome_predicate demo_claimed 1) 1 (new_waiter False 1) ?ss = Inr p"
    using demo_waits(2) by auto
  with demo_verdicts(2) have "classify_flow_outcome p demo_claimed = ''recovered''" by simp
  from recovered_only_from_fresh_frame [OF _ wait this] demo_sessions_inv wait show ?thesis by auto
qed

section \<open>The plan and the place\<close>

text \<open>
  C17. A plan that parses is well formed: at most nine corrections, each a trimmed command that is
  no meta command, with finite JSON arguments of bounded size; then one continuation, whose
  mode, rewind and captured step agree with its arguments.
\<close>

theorem parsed_plan_is_well_formed:
  assumes "parse_recovery_plan v = Inr plan"
  shows "wf_plan plan"
  using assms by (rule parse_recovery_plan_wf)

lemma parsed_plan_is_well_formed_witness: "wf_plan demo_plan \<and> rp_corrections demo_plan \<noteq> []"
  using parsed_plan_is_well_formed [OF demo_plan_parsed] by (simp add: demo_plan_fields)

text \<open>
  C15. A plan that parses and that is valid for the live Flow, while the live pointer pauses on
  the step of the session, is a plan for exactly that step: validation against the session's
  row cannot fail, and the plan names the failed action by index and command.
\<close>

theorem executed_plan_names_failed_step:
  assumes "parse_recovery_plan v = Inr plan" and "pointer_matches_session p r"
    and "validate_plan_for_flow plan p = Inr ()"
  shows "validate_plan_for_session plan r = Inr () \<and>
    expected_step plan = (Some (sr_action_index r), Some (sr_action_command r))"
  using session_place.live_plan_is_valid [OF parse_recovery_plan_wf [OF assms(1)] assms(2,3)]
  by (simp add: session_place.validate_plan_iff)

lemma executed_plan_names_failed_step_witness:
  "validate_plan_for_session demo_plan demo_claimed = Inr () \<and>
   expected_step demo_plan = (Some (sr_action_index demo_claimed), Some (sr_action_command demo_claimed))"
proof -
  have "pointer_matches_session demo_pointer demo_claimed" by code_simp
  with executed_plan_names_failed_step [OF demo_plan_parsed _ demo_place(7)] show ?thesis by blast
qed

text \<open>
  C16. Rebinding a remembered plan to a captured failure keeps its corrections and its length, and
  yields a plan that parses, names the failed step, is valid for the captured Flow and can be
  resumed from it.
\<close>

theorem rebound_actions_are_executable:
  assumes "rebind_recovery_actions actions captured flow_id index command = Inr out"
  shows "butlast out = butlast actions \<and> length out = length actions \<and>
    (\<exists>pointer plan plan'. parse_flow_pointer (PDict captured) 0 0 = Some pointer \<and>
       parse_recovery_plan (PTuple (map PDict actions)) = Inr plan \<and>
       parse_recovery_plan (PTuple (map PDict out)) = Inr plan' \<and>
       rp_corrections plan' = rp_corrections plan \<and>
       expected_step plan' = (Some index, Some command) \<and>
       validate_plan_for_flow plan' pointer = Inr () \<and>
       (\<exists>args. resume_arguments_for_plan plan' pointer = Inr args))"
  using assms by (rule rebind_recovery_actions_sound)

lemma rebound_actions_are_executable_witness:
  "\<exists>out plan'. rebind_recovery_actions demo_actions (demo_flow ''paused'' 1) ''f1'' 1 ''grasp'' = Inr out \<and>
     length out = 2 \<and> parse_recovery_plan (PTuple (map PDict out)) = Inr plan'"
proof -
  have "returns (rebind_recovery_actions demo_actions (demo_flow ''paused'' 1) ''f1'' 1 ''grasp'')"
    by code_simp
  then obtain out where out: "rebind_recovery_actions demo_actions (demo_flow ''paused'' 1) ''f1'' 1 ''grasp'' = Inr out"
    by auto
  from rebound_actions_are_executable [OF this] out show ?thesis by (auto simp: demo_actions_def)
qed

text \<open>
  C18. A correction is accepted only when the live command specification declares it, does not
  ask for confirmation, declares every argument that carries a value with a schema the value
  satisfies, and finds every required input given and not empty.
\<close>

theorem accepted_corrections_satisfy_the_spec:
  assumes "validate_corrections_against_commands corrections frame generation = Inr ()"
    and "a \<in> set corrections"
  shows "\<exists>schema inputs by_path. dget (cf_commands frame) (ra_command a) = PDict schema \<and>
    \<not> command_requires_confirmation (ra_command a) (ra_arguments a) schema \<and>
    dget schema ''inputs'' = PList inputs \<and> foldE add_input inputs [] = Inr by_path \<and>
    (\<forall>path v. argument_path by_path (ra_arguments a) [] path v \<longrightarrow>
       (\<exists>input. map_of by_path path = Some input \<and> validate_input_value v input = Inr ())) \<and>
    (\<forall>(path, input) \<in> set by_path. is_true (dget input ''required'') \<longrightarrow>
       (\<exists>v. path_value (ra_arguments a) path = Some v \<and> v \<noteq> PNone \<and> v \<noteq> PStr []))"
proof -
  from assms obtain schema where schema: "dget (cf_commands frame) (ra_command a) = PDict schema"
    "\<not> command_requires_confirmation (ra_command a) (ra_arguments a) schema"
    "validate_action_arguments (ra_command a) (ra_arguments a) schema = Inr ()"
    by (auto simp: validate_corrections_eq validate_correction_eq)
  from schema(3) obtain inputs by_path where by_path: "dget schema ''inputs'' = PList inputs"
    "foldE add_input inputs [] = Inr by_path" "validate_object by_path (ra_arguments a) [] = Inr ()"
    "check_required_inputs by_path (ra_arguments a) = Inr ()"
    by (auto simp: validate_action_arguments_def Let_def bindE_eq_Inr guardE_eq_Inr with_list_eq_Inr)
  from validate_object_accepts [OF _ by_path(3)] by_path(4)
  have "\<forall>path v. argument_path by_path (ra_arguments a) [] path v \<longrightarrow>
       (\<exists>input. map_of by_path path = Some input \<and> validate_input_value v input = Inr ())"
    and "\<forall>(path, input) \<in> set by_path. is_true (dget input ''required'') \<longrightarrow>
       (\<exists>v. path_value (ra_arguments a) path = Some v \<and> v \<noteq> PNone \<and> v \<noteq> PStr [])"
    by (blast, simp add: check_required_inputs_eq)
  with schema(1,2) by_path(1,2) show ?thesis by blast
qed

definition demo_input :: pyval where
  "demo_input = PDict [(''name'', PStr ''label''), (''type'', PStr ''string''), (''required'', PBool True),
     (''placeholder'', PStr ''bin''), (''schema'', PDict [(''type'', PStr ''string''),
       (''minLength'', PInt 1), (''maxLength'', PInt 10)])]"

definition demo_spec :: pydict where
  "demo_spec = [(''name'', PStr ''push''), (''inputs'', PList [demo_input])]"

definition demo_correction :: recovery_action where
  "demo_correction = \<lparr> ra_command = ''push'', ra_arguments = [(''label'', PStr ''tray'')],
     ra_arguments_effective = Some [(''label'', PStr ''tray'')], ra_explicit_arguments = Some [''label''] \<rparr>"

definition demo_frame :: commands_frame where
  "demo_frame = \<lparr> cf_revision = 1, cf_generation = 1, cf_commands = [(''push'', PDict demo_spec)] \<rparr>"

lemma demo_frame_accepts:
  "validate_corrections_against_commands [demo_correction] demo_frame 1 = Inr ()"
  "validate_action_provenance demo_correction demo_spec = Inr ()"
  by code_simp+

lemma accepted_corrections_satisfy_the_spec_witness:
  "\<exists>schema. dget (cf_commands demo_frame) ''push'' = PDict schema \<and>
     \<not> command_requires_confirmation ''push'' [(''label'', PStr ''tray'')] schema"
  using accepted_corrections_satisfy_the_spec [OF demo_frame_accepts(1), of demo_correction]
  by (auto simp: demo_correction_def)

text \<open>
  C19. The recorded effective arguments of an accepted correction are its own arguments plus the
  current defaults of the inputs it leaves out, so a default that changed since the memory was
  recorded stops the recovery.
\<close>

theorem provenance_matches_live_defaults:
  assumes "validate_action_provenance a schema = Inr ()" and "ra_arguments_effective a = Some eff"
    and "distinct (dkeys (ra_arguments a))"
  shows "\<exists>inputs defaults. dget schema ''inputs'' = PList inputs \<and>
    foldE add_default inputs [] = Inr defaults \<and>
    set (dkeys eff) = set (dkeys (ra_arguments a)) \<union> set (dkeys defaults) \<and>
    (\<forall>(k, v) \<in> set eff. json_values_equal v
       (if has_key (ra_arguments a) k then dget (ra_arguments a) k else dget defaults k) = Inr True)"
  using assms by (rule provenance_effective)

lemma provenance_matches_live_defaults_witness:
  "\<exists>inputs defaults. dget demo_spec ''inputs'' = PList inputs \<and>
     foldE add_default inputs [] = Inr defaults \<and>
     json_values_equal (PStr ''tray'') (PStr ''tray'') = Inr True"
  using provenance_matches_live_defaults [OF demo_frame_accepts(2), of "[(''label'', PStr ''tray'')]"]
  by (auto simp: demo_correction_def dkeys_def has_key_def dget_def)

section \<open>Robot sessions\<close>

text \<open>
  C20. In every reachable state of a robot session, the latest Flow and command frame exist only
  while it is connected and carry its generation and revision, the retained history is bounded
  and strictly ordered by revision, and no receipt is from the future.
\<close>

theorem reachable_session_invariant:
  assumes "session_step\<^sup>*\<^sup>* new_session s"
  shows "session_inv s"
  by (rule session.inv_reachable [OF refl assms])

lemma reachable_session_invariant_witness:
  "session_inv (handle_message (TextMessage ''{}'') (activate_connection 1 new_session))"
proof (rule reachable_session_invariant)
  have "session_step new_session (activate_connection 1 new_session)"
    by (rule session_step.connect) (simp add: new_session_def)
  moreover have "session_step (activate_connection 1 new_session)
      (handle_message (TextMessage ''{}'') (activate_connection 1 new_session))"
    by (rule session_step.receive) (simp add: activate_connection_def)
  ultimately show "session_step\<^sup>*\<^sup>* new_session
      (handle_message (TextMessage ''{}'') (activate_connection 1 new_session))"
    by (meson converse_rtranclp_into_rtranclp r_into_rtranclp)
qed

text \<open>
  C22. A receipt returned for a request carries the generation of the connection the request was
  started on, whatever happened in between, and its acknowledged Flow revision is not ahead of
  the session.
\<close>

theorem receipt_belongs_to_request:
  assumes "session_inv s0" and "start_request sysid k c a s0 = (Inr t, s1)"
    and "session_step\<^sup>*\<^sup>* s1 s2" and "fst (await_response t w s2) = Inr r"
  shows "cr_generation r = rt_generation t \<and> cr_flow_revision r \<le> rs_flow_revision s2"
  using receipt_of_request [OF assms] by blast

definition demo_reply :: ws_message where
  "demo_reply = TextMessage (''{'' @ [CHR 0x22] @ ''response'' @ [CHR 0x22] @ '':{'' @ [CHR 0x22] @ ''request_id'' @
     [CHR 0x22] @ '':'' @ [CHR 0x22] @ ''q'' @ [CHR 0x22] @ '','' @ [CHR 0x22] @ ''error'' @ [CHR 0x22] @ '':null}}'')"

lemma receipt_belongs_to_request_witness:
  "\<exists>t s1 r. start_request ''R1'' ''q'' ''open'' [] demo_session = (Inr t, s1) \<and>
     fst (await_response t FutureDone (handle_message demo_reply s1)) = Inr r \<and> cr_generation r = rt_generation t"
proof -
  let ?go = "start_request ''R1'' ''q'' ''open'' [] demo_session"
  have "case ?go of (Inr t, s1) \<Rightarrow> returns (fst (await_response t FutureDone (handle_message demo_reply s1)))
      \<and> rs_connected s1 | _ \<Rightarrow> False"
    by code_simp
  then obtain t s1 r where run: "?go = (Inr t, s1)" "rs_connected s1"
    "fst (await_response t FutureDone (handle_message demo_reply s1)) = Inr r"
    by (auto split: prod.splits sum.splits)
  have "session_step\<^sup>*\<^sup>* s1 (handle_message demo_reply s1)"
    by (intro r_into_rtranclp session_step.receive run(2))
  with receipt_belongs_to_request [OF _ run(1) _ run(3)] demo_sessions_inv run show ?thesis by auto
qed



section \<open>Rows, settings and the queue\<close>

text \<open>
  A claimed session row that parses is active with a run token and at least one attempt used
  out of at most twenty, its actions are those of the row, and its status, attempts and token
  form a state of the recovery lifecycle.
\<close>

theorem claimed_row_is_active:
  assumes "parse_recovery_session row True = Inr r"
  shows "(sr_recovery_status r = ''running'' \<or> sr_recovery_status r = ''awaiting_outcome'') \<and>
    sr_recovery_run_token r \<noteq> None \<and> 1 \<le> sr_recovery_attempts r \<and>
    sr_recovery_attempts r \<le> sr_recovery_max_attempts r \<and> sr_recovery_max_attempts r \<le> 20 \<and>
    dget row ''pinned_actions'' = PList (map PDict (sr_pinned_actions r)) \<and> wf_session r"
  using claimed_session [OF assms] parse_recovery_session_wf [OF assms] by (auto simp: wf_session_def)

lemma claimed_row_is_active_witness:
  "sr_recovery_attempts demo_claimed \<le> 20 \<and> wf_session demo_claimed"
  using claimed_row_is_active [OF demo_claimed_parsed] by auto

text \<open>
  C33. Accepted settings of an enabled service give every attempt of a plan of up to nine
  corrections and its continuation a lease that outlasts its worst case, so the lease check
  before a claim never stops a plan that parses.
\<close>

theorem accepted_lease_covers_every_plan:
  assumes "settings_post_init se0 = Inr se" and "se_enabled se" and "parse_recovery_plan v = Inr plan"
  shows "lease_covers se (Suc (length (rp_corrections plan))) = Inr ()"
  using accepted_settings_lease [OF assms(1,2)] parse_recovery_plan_wf [OF assms(3)]
  by (simp add: wf_plan_def)

lemma demo_settings_accepted: "settings_post_init demo_settings = Inr demo_settings"
proof -
  have "fround 150 = FFin 150" "fround 210 = FFin 210" "fround 215 = FFin 215"
    using fround_small_int [of 150] fround_small_int [of 210] fround_small_int [of 215] by simp_all
  then have "required_lease_seconds demo_settings 10 = FFin 215"
    by (simp add: required_lease_seconds_def demo_settings_def default_settings_def)
  moreover have "foldE normalize_sysid [''R1''] [] = Inr [''R1'']" by code_simp
  ultimately show ?thesis
    by (simp add: settings_post_init_eq)
      (simp add: demo_settings_def default_settings_def flt_def feq_def strip_def lstrip_def is_space_def cpt_def)
qed

lemma accepted_lease_covers_every_plan_witness: "lease_covers demo_settings 2 = Inr ()"
  using accepted_lease_covers_every_plan [OF demo_settings_accepted _ demo_plan_parsed]
  by (simp add: demo_plan_fields demo_settings_def numeral_2_eq_2)

text \<open>
  The allowlist of accepted settings holds each robot once, trimmed and in upper case, and
  every name is safe as a host name.
\<close>

theorem accepted_allowlist_is_canonical:
  assumes "settings_post_init se0 = Inr se"
  shows "distinct (se_robot_allowlist se) \<and> list_all sysid_pattern (se_robot_allowlist se) \<and>
    set (se_robot_allowlist se) = (\<lambda>x. upper (strip x)) ` set (se_robot_allowlist se0)"
proof -
  from assms obtain xs where "foldE normalize_sysid (se_robot_allowlist se0) [] = Inr xs"
    "se = se0\<lparr> se_robot_allowlist := xs \<rparr>" by (auto simp: settings_post_init_eq)
  with foldE_normalize [of "se_robot_allowlist se0" xs] foldE_normalize_set [of "se_robot_allowlist se0" "[]" xs]
  show ?thesis by (simp add: allowlist_inv_def)
qed

lemma accepted_allowlist_is_canonical_witness:
  "distinct (se_robot_allowlist demo_settings) \<and> list_all sysid_pattern (se_robot_allowlist demo_settings)"
  using accepted_allowlist_is_canonical [OF demo_settings_accepted] by blast

text \<open>
  C34. In every reachable state of the coordinator's queue, at most 512 failures are pending, each
  under a canonical id with a task of its own while the service runs, and only pending failures
  are marked for a replay.
\<close>

theorem reachable_queue_invariant:
  assumes "(queue_step se)\<^sup>*\<^sup>* (new_coordinator db) co"
  shows "queue_inv co"
  by (rule queue.inv_reachable [OF _ assms]) blast

lemma reachable_queue_invariant_witness:
  "queue_inv (notify_failure demo_settings (PStr demo_uuid) (new_coordinator (Some demo_database))) \<and>
   co_pending (notify_failure demo_settings (PStr demo_uuid) (new_coordinator (Some demo_database))) \<noteq> {}"
proof
  show "queue_inv (notify_failure demo_settings (PStr demo_uuid) (new_coordinator (Some demo_database)))"
    by (rule reachable_queue_invariant [of demo_settings "Some demo_database"])
      (intro r_into_rtranclp queue_step.notify)
  have "canonical_uuid demo_uuid" by code_simp
  then show "co_pending (notify_failure demo_settings (PStr demo_uuid) (new_coordinator (Some demo_database))) \<noteq> {}"
    by (simp add: notify_failure_def canonical_uuid_def new_coordinator_def demo_settings_def max_pending_failures_def)
qed


definition demo_busy :: "nat coordinator" where
  "demo_busy = (new_coordinator (Some demo_database))\<lparr> co_pending := {demo_uuid},
     co_work_tasks := [demo_uuid] \<rparr>"


section \<open>Processing and reconciliation\<close>

text \<open>
  C36. A failure whose robot, Flow and step are already being recovered is never executed: its
  processing reads the row and at most attaches it to the running session; it prepares, claims
  and sends nothing.
\<close>

theorem active_step_is_only_attached:
  assumes "se_enabled (en_settings env)" and "co_database (sy_coordinator s) = Some db"
    and "db_fetch_failure db f (sy_world s) = (Inr (Some row), w)"
    and "parse_failure_pointer_target row = Inr target"
    and "co_active (en_others env w (sy_coordinator s)) (target_pointer_key target) = Some obj"
    and "process_failure fuel env f s = (r, t)"
  shows "\<exists>attached. sy_trace t = sy_trace s @ EvFetch f # attached \<and>
    (attached = [] \<or> (\<exists>sid. attached = [EvAttach (ft_failure_id target) sid]))"
  using assms by (rule process_failure_active)

definition demo_recovering :: "nat sys" where
  "demo_recovering = demo_start\<lparr> sy_coordinator :=
     activate_recovery (target_pointer_key demo_pointer_target) demo_uuid demo_uuid (sy_coordinator demo_start) \<rparr>"

lemma active_step_is_only_attached_witness:
  "\<exists>attached. sy_trace (snd (process_failure 1 demo_env demo_uuid demo_recovering)) =
     sy_trace demo_recovering @ EvFetch demo_uuid # attached \<and>
     (attached = [] \<or> (\<exists>sid. attached = [EvAttach (ft_failure_id demo_pointer_target) sid]))"
proof (rule active_step_is_only_attached [OF _ _ _ demo_rows(2) _ surjective_pairing])
  show "se_enabled (en_settings demo_env)" by (simp add: demo_env_def demo_settings_def)
  show "co_database (sy_coordinator demo_recovering) = Some demo_database"
    by (simp add: demo_recovering_def activate_recovery_def demo_start_def new_coordinator_def)
  show "db_fetch_failure demo_database demo_uuid (sy_world demo_recovering) =
      (Inr (Some demo_failure), sy_world demo_recovering)"
    by (simp add: demo_database_def returnP_def)
  show "co_active (en_others demo_env (sy_world demo_recovering) (sy_coordinator demo_recovering))
      (target_pointer_key demo_pointer_target) = Some 0"
    by (simp add: demo_env_def demo_recovering_def activate_recovery_def demo_start_def new_coordinator_def)
qed



text \<open>
  The reconciliation delay never falls below the configured interval, and under accepted
  settings it stays below the lease, so a stale lease is always seen in time.
\<close>

theorem reconciliation_delay_bounded:
  assumes "settings_post_init se0 = Inr se" and "se_reconcile_interval se \<noteq> FNaN"
  shows "fle (se_reconcile_interval se) (next_backoff se b) \<and>
    flt (next_backoff se b) (FFin (of_int (se_lease_seconds se)))"
  using next_backoff_bounds(1) [OF assms(2)] backoff_below_lease [OF assms] by blast

lemma reconciliation_delay_bounded_witness:
  "flt (next_backoff demo_settings (FFin 90)) (FFin (of_int (se_lease_seconds demo_settings)))"
proof -
  have "se_reconcile_interval demo_settings \<noteq> FNaN" by (simp add: demo_settings_def default_settings_def)
  from reconciliation_delay_bounded [OF demo_settings_accepted this] show ?thesis by blast
qed

section \<open>Values, pointers and candidates\<close>

text \<open>
  C38. The JSON validator accepts exactly the finite JSON values that are at most twelve levels
  deep and have at most two thousand nodes: its running count is the size of the value.
\<close>

theorem validate_json_accepts_exactly:
  "validate_json v = Inr () \<longleftrightarrow>
     json_value v \<and> depth_within max_json_depth v \<and> node_count v \<le> max_json_nodes"
  by (rule validate_json_iff)

text \<open>
  The action contexts of a live Flow have distinct indices in range and non-empty names, so
  an index names at most one action of the Flow.
\<close>

theorem flow_contexts_are_unambiguous:
  assumes "flow_action_contexts flow = Inr contexts"
  shows "distinct (map fc_action_index contexts) \<and> list_all wf_context contexts \<and>
    (\<forall>c \<in> set contexts. context_at contexts (fc_action_index c) = Some c)"
  using flow_action_contexts_inv [OF assms] context_at_unique by (auto simp: contexts_inv_def)

lemma flow_contexts_are_unambiguous_witness:
  "\<exists>contexts. flow_action_contexts (demo_flow ''paused'' 1) = Inr contexts \<and> distinct (map fc_action_index contexts)"
proof -
  have "returns (flow_action_contexts (demo_flow ''paused'' 1))" by code_simp
  then obtain contexts where "flow_action_contexts (demo_flow ''paused'' 1) = Inr contexts" by auto
  with flow_contexts_are_unambiguous [OF this] show ?thesis by blast
qed

text \<open>
  The pointer an execution starts from pauses on the exact robot Flow step of the failure,
  in the generation the robot has once it is connected.
\<close>

theorem execution_starts_paused_on_the_step:
  assumes "fresh_paused_pointer env robot target s = (Inr p, t)"
  shows "is_paused p \<and> fp_flow_id p = ft_flow_id target \<and>
    fp_action_index p = Some (ft_action_index target) \<and>
    fp_action_command p = Some (ft_action_command target) \<and>
    (\<exists>s1. awaitP env (rb_wait_connected robot (se_command_timeout (en_settings env))) s = (Inr (), s1) \<and>
       fp_generation p = rs_generation (view_of robot s1))"
  using fresh_paused_pointer_matches [OF assms] by (auto simp: target_place.matches_iff)

lemma execution_starts_paused_on_the_step_witness:
  "\<exists>t. fresh_paused_pointer demo_env demo_robot demo_target demo_start = (Inr demo_pointer, t) \<and>
     is_paused demo_pointer \<and> fp_flow_id demo_pointer = ft_flow_id demo_target"
proof -
  have v: "view_of demo_robot s' = demo_session" for s' by (simp add: view_of_def demo_robot_def)
  have "\<exists>t. fresh_paused_pointer demo_env demo_robot demo_target demo_start = (Inr demo_pointer, t)"
    by (simp add: fresh_paused_pointer_def prog_defs awaitP_def v demo_session_fields demo_pointer_fields
      demo_row_fields) (simp add: demo_robot_def demo_env_def prog_defs)
  then obtain t where "fresh_paused_pointer demo_env demo_robot demo_target demo_start = (Inr demo_pointer, t)" ..
  with execution_starts_paused_on_the_step [OF this] show ?thesis by blast
qed

text \<open>
  Reconciliation takes up only failures of the answer that were never started or whose last
  attempt is known to have failed, under canonical ids; running, awaiting and terminal ones are
  never taken up again.
\<close>

theorem cold_candidates_are_resumable:
  assumes "cold_candidates client sysids limit w = (Inr candidates, w')" and "c \<in> set candidates"
  shows "canonical_uuid c \<and> (\<exists>rows row. row \<in> set rows \<and> candidates = candidate_ids rows \<and>
      uuid_text (dget row ''failure_id'') = Some c \<and> resumable_status (dget row ''recovery_status''))"
proof
  show "canonical_uuid c" by (rule cold.candidates_canonical [OF assms])
  from assms(1) obtain rows where "candidates = candidate_ids rows"
    by (auto simp: cold_candidates_def prog_defs split: prod.splits sum.splits)
  with assms(2) show "\<exists>rows row. row \<in> set rows \<and> candidates = candidate_ids rows \<and>
      uuid_text (dget row ''failure_id'') = Some c \<and> resumable_status (dget row ''recovery_status'')"
    by (auto simp: candidate_ids_iff)
qed

definition demo_client :: "nat supabase" where
  "demo_client = \<lparr> sb_rpc = (\<lambda>f p. returnP PNone),
     sb_select = (\<lambda>q. returnP (PList [PDict [(''failure_id'', PStr demo_uuid), (''recovery_status'', PNone)]])),
     sb_update = (\<lambda>q d. returnP PNone), sb_now = (\<lambda>w. []) \<rparr>"

lemma cold_candidates_are_resumable_witness:
  "\<exists>candidates w. cold_candidates demo_client [''R1''] 5 0 = (Inr candidates, w) \<and> demo_uuid \<in> set candidates \<and>
     canonical_uuid demo_uuid"
proof -
  have "map_prod (map_sum id (\<lambda>cs. demo_uuid \<in> set cs)) id (cold_candidates demo_client [''R1''] 5 0) = (Inr True, 0)"
    by code_simp
  then obtain candidates w where run: "cold_candidates demo_client [''R1''] 5 0 = (Inr candidates, w)"
    "demo_uuid \<in> set candidates"
    by (cases "cold_candidates demo_client [''R1''] 5 0"; cases "fst (cold_candidates demo_client [''R1''] 5 0)") auto
  with cold_candidates_are_resumable [OF run] show ?thesis by blast
qed

text \<open>
  A pointer parsed from a Flow either says that the Flow is over, with a successful status
  and no action, or it points at an action of the Flow with a non-negative index, whose command
  it carries.
\<close>

theorem parsed_pointer_points_at_an_action:
  assumes "parse_flow_pointer v revision generation = Some p"
  shows "v = PDict (fp_raw p) \<and>
    (if fp_completed p then fp_action_index p = None \<and> fp_action_command p = None \<and>
       casefold (fp_status p) \<in> set success_flow_statuses
     else \<exists>a \<in> set (flow_actions (fp_raw p)). \<exists>i c.
       fp_action_index p = Some i \<and> fp_action_command p = Some c \<and> 0 \<le> i \<and>
       dget a ''action_index'' = PInt i \<and> text_of (dget a ''command'') = Some c)"
  using parse_flow_pointer_sound [OF assms] by auto

lemma parsed_pointer_points_at_an_action_witness:
  "\<exists>a \<in> set (flow_actions (fp_raw demo_pointer)). dget a ''action_index'' = PInt 1"
  using parsed_pointer_points_at_an_action [OF demo_pointer_parsed] by (auto simp: demo_pointer_fields)

end
